(* ===== verification/Py_Prelude.thy ===== *)
theory Py_Prelude
  imports Main "HOL-Library.Code_Target_Numeral"
begin

text \<open>
  The Python values and string operations the components share, and the development's
  lemma collections.

  A payload that reaches the backend from QML is a dictionary of plain values: \<open>None\<close>,
  booleans, unbounded integers and text (\<open>pyval\<close>); its \<open>get\<close> returns \<open>None\<close> for a missing
  key. Text is a list of characters; the classification of characters (white space, digits,
  letters, case) is the ASCII part of Python's. Numbers written in text have at most 4300
  digits, the limit above which \<open>int\<close> refuses them.
\<close>

named_theorems dict_simps \<open>lookups in a payload dictionary\<close>
named_theorems text_simps \<open>string primitives\<close>
named_theorems row_simps \<open>selection, update and deletion of table rows\<close>

section \<open>Results and errors\<close>

text \<open>A computation that may raise is a value of the sum type, with the exception on the left.\<close>

definition sbind :: "'e + 'a \<Rightarrow> ('a \<Rightarrow> 'e + 'b) \<Rightarrow> 'e + 'b" where
  "sbind m f = (case m of Inl e \<Rightarrow> Inl e | Inr a \<Rightarrow> f a)"

definition require :: "bool \<Rightarrow> 'e \<Rightarrow> 'e + unit" where
  "require c e = (if c then Inr () else Inl e)"

lemma sbind_simps [simp]:
  "sbind (Inl e) f = Inl e"
  "sbind (Inr a) f = f a"
  by (simp_all add: sbind_def)

lemma sbind_eq_Inr_conv: "sbind m f = Inr b \<longleftrightarrow> (\<exists>a. m = Inr a \<and> f a = Inr b)"
  by (cases m) auto

lemma require_eq_Inr [simp]: "require c e = Inr u \<longleftrightarrow> c"
  by (simp add: require_def)

lemma require_simps [simp]:
  "require True e = Inr ()"
  "require False e = Inl e"
  by (simp_all add: require_def)

section \<open>Text\<close>

definition code :: "char \<Rightarrow> nat" where
  "code c = of_char c"

definition is_space :: "char \<Rightarrow> bool" where
  "is_space c = (let n = code c in (9 \<le> n \<and> n \<le> 13) \<or> (28 \<le> n \<and> n \<le> 32))"

definition is_digit :: "char \<Rightarrow> bool" where
  "is_digit c = (let n = code c in 48 \<le> n \<and> n \<le> 57)"

definition is_alpha :: "char \<Rightarrow> bool" where
  "is_alpha c = (let n = code c in (65 \<le> n \<and> n \<le> 90) \<or> (97 \<le> n \<and> n \<le> 122))"

definition lower_char :: "char \<Rightarrow> char" where
  "lower_char c = (let n = code c in if 65 \<le> n \<and> n \<le> 90 then char_of (n + 32) else c)"

definition lower :: "string \<Rightarrow> string" where
  "lower s = map lower_char s"

definition upper :: "string \<Rightarrow> string" where
  "upper s = map (\<lambda>c. let n = code c in if 97 \<le> n \<and> n \<le> 122 then char_of (n - 32) else c) s"

definition lstrip :: "string \<Rightarrow> string" where
  "lstrip s = dropWhile is_space s"

definition strip :: "string \<Rightarrow> string" where
  "strip s = rev (lstrip (rev (lstrip s)))"

fun starts_with :: "string \<Rightarrow> string \<Rightarrow> bool" where
  "starts_with s [] = True"
| "starts_with [] (p # ps) = False"
| "starts_with (c # cs) (p # ps) = (c = p \<and> starts_with cs ps)"

text \<open>\<open>contains s p\<close> is Python's \<open>p in s\<close>.\<close>

fun contains :: "string \<Rightarrow> string \<Rightarrow> bool" where
  "contains [] p = (p = [])"
| "contains (c # cs) p = (starts_with (c # cs) p \<or> contains cs p)"

text \<open>\<open>split_on c s\<close> is \<open>s.split(c)\<close> for a one-character separator.\<close>

fun split_on :: "char \<Rightarrow> string \<Rightarrow> string list" where
  "split_on c [] = [[]]"
| "split_on c (x # xs) =
     (if x = c then [] # split_on c xs
      else case split_on c xs of [] \<Rightarrow> [[x]] | y # ys \<Rightarrow> (x # y) # ys)"

fun join :: "string \<Rightarrow> string list \<Rightarrow> string" where
  "join sep [] = []"
| "join sep [x] = x"
| "join sep (x # y # ys) = x @ sep @ join sep (y # ys)"

lemma lower_char_idem: "lower_char (lower_char c) = lower_char c"
proof -
  have "code (char_of (n + 32)) = n + 32" if "n \<le> 90" for n :: nat
    using that by (simp add: code_def)
  then show ?thesis by (auto simp: lower_char_def Let_def)
qed

lemma lower_idem [simp]: "lower (lower s) = lower s"
  by (simp add: lower_def lower_char_idem)

lemma starts_with_append [simp]: "starts_with (p @ s) p"
  by (induction p) (auto split: list.splits)

lemma starts_with_iff: "starts_with s p \<longleftrightarrow> (\<exists>t. s = p @ t)"
  by (induction s p rule: starts_with.induct) auto

lemma contains_iff: "contains s p \<longleftrightarrow> (\<exists>a b. s = a @ p @ b)"
proof (induction s)
  case Nil
  then show ?case by simp
next
  case (Cons c cs)
  have "(\<exists>a b. c # cs = a @ p @ b) \<longleftrightarrow> (\<exists>t. c # cs = p @ t) \<or> (\<exists>a b. cs = a @ p @ b)"
    by (auto simp: Cons_eq_append_conv)
  then show ?case using Cons.IH by (simp add: starts_with_iff)
qed

lemma split_on_nonempty [simp]: "split_on c s \<noteq> []"
  by (induction s) (auto split: list.splits)

lemma split_on_no_sep: "c \<notin> set s \<Longrightarrow> split_on c s = [s]"
  by (induction s) auto

lemma split_on_append: "c \<notin> set a \<Longrightarrow> split_on c (a @ c # b) = a # split_on c b"
  by (induction a) auto

lemma split_on_append_last:
  "split_on c a = ls @ [r] \<Longrightarrow> split_on c (a @ b) = ls @ split_on c (r @ b)"
proof (induction a arbitrary: ls r)
  case Nil
  then show ?case by (cases ls) auto
next
  case (Cons x a)
  obtain y ys where y: "split_on c a = y # ys" using split_on_nonempty[of c a] by (cases "split_on c a") auto
  show ?case
  proof (cases "x = c")
    case True
    then obtain ls' where "ls = [] # ls'" "split_on c a = ls' @ [r]" using Cons.prems y by (cases ls) auto
    then show ?thesis using Cons.IH True by simp
  next
    case False
    then have e: "(x # y) # ys = ls @ [r]" using Cons.prems y by simp
    show ?thesis
    proof (cases ls)
      case Nil
      then have "split_on c a = [] @ [y]" "r = x # y" using e y by auto
      then show ?thesis using Cons.IH[of "[]" y] Nil False by (cases "split_on c (y @ b)") (auto simp: y)
    next
      case (Cons l ls')
      then have "split_on c a = (y # ls') @ [r]" "l = x # y" using e y by auto
      then show ?thesis using Cons.IH[of "y # ls'" r] Cons False by simp
    qed
  qed
qed

lemma split_on_parts: "p \<in> set (split_on c s) \<Longrightarrow> c \<notin> set p"
  by (induction s arbitrary: p) (auto split: if_splits list.splits)

subsection \<open>Stripping\<close>

lemma lstrip_idem [simp]: "lstrip (lstrip s) = lstrip s"
  by (simp add: lstrip_def dropWhile_idem)

lemma lstrip_Nil [simp]: "lstrip [] = []"
  by (simp add: lstrip_def)

lemma strip_Nil [simp]: "strip [] = []"
  by (simp add: strip_def)

lemma lstrip_id: "s = [] \<or> \<not> is_space (hd s) \<Longrightarrow> lstrip s = s"
  by (cases s) (auto simp: lstrip_def)

lemma lstrip_hd: "lstrip s \<noteq> [] \<Longrightarrow> \<not> is_space (hd (lstrip s))"
  by (simp add: lstrip_def hd_dropWhile)

lemma lstrip_suffix: "\<exists>p. s = p @ lstrip s"
  unfolding lstrip_def by (metis takeWhile_dropWhile_id)

lemma strip_id:
  "s = [] \<or> (\<not> is_space (hd s) \<and> \<not> is_space (last s)) \<Longrightarrow> strip s = s"
  by (auto simp: strip_def lstrip_id hd_rev)

lemma strip_ends:
  assumes "strip s \<noteq> []"
  shows "\<not> is_space (hd (strip s))" "\<not> is_space (last (strip s))"
proof -
  let ?l = "lstrip s"
  have ne: "lstrip (rev ?l) \<noteq> []" using assms by (simp add: strip_def)
  then show "\<not> is_space (last (strip s))"
    using lstrip_hd[OF ne] by (simp add: strip_def last_rev)
  obtain p where p: "rev ?l = p @ lstrip (rev ?l)" using lstrip_suffix by blast
  then have "?l = rev (lstrip (rev ?l)) @ rev p" by (metis rev_append rev_rev_ident)
  then have eq: "?l = strip s @ rev p" by (simp add: strip_def)
  then have "?l \<noteq> []" and "hd ?l = hd (strip s)" using assms by (auto simp: hd_append)
  then show "\<not> is_space (hd (strip s))" using lstrip_hd by metis
qed

lemma strip_idem [simp]: "strip (strip s) = strip s"
  using strip_ends[of s] strip_id by blast

lemma strip_Cons_space [simp]: "is_space x \<Longrightarrow> strip (x # s) = strip s"
  by (simp add: strip_def lstrip_def)

lemma strip_snoc_space [simp]: "is_space x \<Longrightarrow> strip (s @ [x]) = strip s"
proof -
  assume x: "is_space x"
  then have "lstrip (s @ [x]) = (if lstrip s = [] then [] else lstrip s @ [x])"
    by (induction s) (auto simp: lstrip_def)
  then show ?thesis using x by (cases "lstrip s = []") (simp_all add: strip_def, simp add: lstrip_def)
qed

text \<open>Stripping a text and then splitting it changes its parts by white space only.\<close>

lemma strip_split_lstrip: "\<not> is_space c \<Longrightarrow> map strip (split_on c (lstrip s)) = map strip (split_on c s)"
proof (induction s)
  case (Cons x s)
  then show ?case
    by (cases "is_space x"; cases "split_on c s") (auto simp: lstrip_def)
qed simp

lemma strip_split_snoc:
  assumes "\<not> is_space c" "is_space x"
  shows "map strip (split_on c (s @ [x])) = map strip (split_on c s)"
proof -
  obtain ls r where s: "split_on c s = ls @ [r]" by (metis rev_exhaust split_on_nonempty)
  have "c \<notin> set r" by (rule split_on_parts[of _ c s]) (simp add: s)
  then have "c \<notin> set (r @ [x])" using assms by auto
  then have "split_on c (s @ [x]) = ls @ [r @ [x]]"
    using split_on_append_last[OF s, of "[x]"] split_on_no_sep by metis
  then show ?thesis using assms s by simp
qed

lemma strip_split_rstrip:
  "\<not> is_space c \<Longrightarrow> map strip (split_on c (rev (lstrip (rev s)))) = map strip (split_on c s)"
proof (induction s rule: rev_induct)
  case (snoc x s)
  then show ?case using strip_split_snoc[of c x s] by (cases "is_space x") (auto simp: lstrip_def)
qed simp

lemma strip_split: "\<not> is_space c \<Longrightarrow> map strip (split_on c (strip s)) = map strip (split_on c s)"
  using strip_split_rstrip[of c "lstrip s"] strip_split_lstrip[of c s] by (simp add: strip_def[of s])

section \<open>Lines and words\<close>

text \<open>\<open>str.splitlines\<close>.\<close>

fun join_crlf :: "string \<Rightarrow> string" where
  "join_crlf (c # d # cs) =
     (if code c = 13 \<and> code d = 10 then d # join_crlf cs else c # join_crlf (d # cs))"
| "join_crlf cs = cs"

fun lines_from :: "string \<Rightarrow> string \<Rightarrow> string list" where
  "lines_from line [] = (if line = [] then [] else [line])"
| "lines_from line (c # cs) =
     (if code c \<in> {10, 11, 12, 13, 28, 29, 30} then line # lines_from [] cs else lines_from (line @ [c]) cs)"

definition split_lines :: "string \<Rightarrow> string list" where
  "split_lines s = lines_from [] (join_crlf s)"

text \<open>\<open>str.split()\<close>: the runs of characters that are not white space.\<close>

fun words_from :: "string \<Rightarrow> string \<Rightarrow> string list" where
  "words_from w [] = (if w = [] then [] else [w])"
| "words_from w (c # cs) =
     (if is_space c then (if w = [] then words_from [] cs else w # words_from [] cs) else words_from (w @ [c]) cs)"

definition words :: "string \<Rightarrow> string list" where
  "words s = words_from [] s"

section \<open>Table rows\<close>

text \<open>\<open>INSERT ... ON CONFLICT(key) DO UPDATE\<close>: the conflicting row is replaced in place.\<close>

definition upsert_by :: "('r \<Rightarrow> 'k) \<Rightarrow> 'r \<Rightarrow> 'r list \<Rightarrow> 'r list" where
  "upsert_by key r rows =
     (if list_ex (\<lambda>q. key q = key r) rows then map (\<lambda>q. if key q = key r then r else q) rows else rows @ [r])"

lemma set_upsert_by [row_simps]:
  "set (upsert_by key r rows) = insert r {q \<in> set rows. key q \<noteq> key r}"
  by (auto simp: upsert_by_def list_ex_iff)

lemma map_key_upsert_by:
  "map key (upsert_by key r rows) = (if key r \<in> key ` set rows then map key rows else map key rows @ [key r])"
  by (auto simp: upsert_by_def list_ex_iff image_iff eq_commute)

lemma distinct_upsert_by: "distinct (map key rows) \<Longrightarrow> distinct (map key (upsert_by key r rows))"
  by (simp add: map_key_upsert_by)

section \<open>Decimal notation\<close>

definition digit_char :: "nat \<Rightarrow> char" where
  "digit_char d = char_of (48 + d)"

definition digit_val :: "char \<Rightarrow> nat" where
  "digit_val c = code c - 48"

fun show_nat :: "nat \<Rightarrow> string" where
  "show_nat n = (if n < 10 then [digit_char n] else show_nat (n div 10) @ [digit_char (n mod 10)])"

declare show_nat.simps [simp del]

definition show_int :: "int \<Rightarrow> string" where
  "show_int i = (if i < 0 then CHR ''-'' # show_nat (nat (- i)) else show_nat (nat i))"

text \<open>
  Python's \<open>int(text)\<close>: surrounding white space, an optional sign, then digits that may be
  separated by single underscores. The Boolean says whether the last character was a digit.
\<close>

fun read_digits :: "nat \<Rightarrow> bool \<Rightarrow> string \<Rightarrow> nat option" where
  "read_digits acc d [] = (if d then Some acc else None)"
| "read_digits acc d (c # cs) =
     (if is_digit c then read_digits (10 * acc + digit_val c) True cs
      else if c = CHR ''_'' \<and> d then read_digits acc False cs
      else None)"

definition read_int :: "string \<Rightarrow> int option" where
  "read_int s =
     (case strip s of
        [] \<Rightarrow> None
      | c # cs \<Rightarrow>
          if c = CHR ''-'' then map_option (\<lambda>n. - int n) (read_digits 0 False cs)
          else if c = CHR ''+'' then map_option int (read_digits 0 False cs)
          else map_option int (read_digits 0 False (c # cs)))"

lemma code_digit_char [simp]: "d < 10 \<Longrightarrow> code (digit_char d) = 48 + d"
  by (simp add: code_def digit_char_def)

lemma is_digit_digit_char [simp]: "d < 10 \<Longrightarrow> is_digit (digit_char d)"
  by (simp add: is_digit_def Let_def)

lemma digit_val_digit_char [simp]: "d < 10 \<Longrightarrow> digit_val (digit_char d) = d"
  by (simp add: digit_val_def)

lemma digit_not_space: "is_digit c \<Longrightarrow> \<not> is_space c"
  by (auto simp: is_digit_def is_space_def Let_def)

lemma digit_not_sign: "is_digit c \<Longrightarrow> c \<noteq> CHR ''-'' \<and> c \<noteq> CHR ''+'' \<and> c \<noteq> CHR ''_''"
  by (auto simp: is_digit_def Let_def code_def)

lemma show_nat_nonempty [simp]: "show_nat n \<noteq> []"
  by (subst show_nat.simps) simp

lemma show_nat_digits: "c \<in> set (show_nat n) \<Longrightarrow> is_digit c"
proof (induction n rule: show_nat.induct)
  case (1 n)
  then show ?case
    by (cases "n < 10") (auto simp: show_nat.simps [of n])
qed

lemma show_nat_ends [simp]:
  "\<not> is_space (hd (show_nat n))" "\<not> is_space (last (show_nat n))"
  using show_nat_digits[of _ n] by (simp_all add: digit_not_space)

lemma read_digits_append:
  "\<forall>c \<in> set s. is_digit c \<Longrightarrow> s \<noteq> [] \<Longrightarrow>
   read_digits acc d (s @ t) =
     read_digits (foldl (\<lambda>a c. 10 * a + digit_val c) acc s) True t"
proof (induction s arbitrary: acc d)
  case Nil
  then show ?case by simp
next
  case (Cons c s)
  then show ?case by (cases "s = []") auto
qed

lemma foldl_show_nat: "foldl (\<lambda>a c. 10 * a + digit_val c) 0 (show_nat n) = n"
proof (induction n rule: show_nat.induct)
  case (1 n)
  show ?case
  proof (cases "n < 10")
    case True
    then show ?thesis by (simp add: show_nat.simps [of n])
  next
    case False
    then show ?thesis using "1.IH" by (simp add: show_nat.simps [of n])
  qed
qed

lemma read_digits_show_nat: "read_digits 0 False (show_nat n) = Some n"
  using read_digits_append[of "show_nat n" 0 False "[]"] show_nat_digits
  by (simp add: foldl_show_nat)

lemma strip_show_nat: "strip (show_nat n) = show_nat n"
  by (rule strip_id) simp

lemma read_int_show_nat [simp]: "read_int (show_nat n) = Some (int n)"
proof (cases "show_nat n")
  case Nil
  then show ?thesis by simp
next
  case (Cons c cs)
  then have "is_digit c" using show_nat_digits[of c n] by simp
  then show ?thesis
    using digit_not_sign[of c] Cons strip_show_nat[of n] read_digits_show_nat[of n]
    by (simp add: read_int_def)
qed

lemma strip_show_int: "strip (show_int i) = show_int i"
proof -
  have "\<not> is_space (CHR ''-'')" by code_simp
  then show ?thesis
    by (intro strip_id) (auto simp: show_int_def)
qed

text \<open>What is printed in decimal is read back.\<close>

lemma read_int_show_int [simp]: "read_int (show_int i) = Some i"
proof (cases "i < 0")
  case True
  then have "strip (show_int i) = CHR ''-'' # show_nat (nat (- i))"
    using strip_show_int[of i] by (simp add: show_int_def)
  then show ?thesis using True by (simp add: read_int_def read_digits_show_nat)
next
  case False
  then show ?thesis by (simp add: show_int_def)
qed

lemma show_int_inject: "show_int i = show_int j \<Longrightarrow> i = j"
  by (metis option.inject read_int_show_int)

lemma show_int_nonempty [simp]: "show_int i \<noteq> []"
  by (simp add: show_int_def)

end
