(* ===== verification/View_Push.thy ===== *)
theory View_Push
  imports Py_Prelude
begin

text \<open>
  The shared push controller (\<open>core/view_push.py\<close>, class \<open>BaseViewPushController\<close>).

  What a concrete controller overrides, and what it calls on the database and on the session
  registry, are the fields of the record \<open>controller\<close>: functions on an opaque world \<open>'w\<close> (database,
  sessions, devices) whose result is an exception text or a value. A result dictionary is the record
  \<open>reply\<close>; an absent text is empty. The abstract methods return dictionaries or raise; both are
  modelled, and the handlers \<open>except Exception\<close> of the class are the \<open>Inl\<close> branches here.
\<close>

section \<open>Actions\<close>

text \<open>An action changes the world and returns a value or raises.\<close>

type_synonym ('w, 'a) act = "'w \<Rightarrow> (string + 'a) \<times> 'w"

definition abind :: "('w, 'a) act \<Rightarrow> ('a \<Rightarrow> ('w, 'b) act) \<Rightarrow> ('w, 'b) act" where
  "abind m f w = (case m w of (Inl e, w') \<Rightarrow> (Inl e, w') | (Inr a, w') \<Rightarrow> f a w')"

definition areturn :: "'a \<Rightarrow> ('w, 'a) act" where
  "areturn a w = (Inr a, w)"

lemma abind_simps [simp]:
  "m w = (Inl e, w') \<Longrightarrow> abind m f w = (Inl e, w')"
  "m w = (Inr a, w') \<Longrightarrow> abind m f w = f a w'"
  "areturn a w = (Inr a, w)"
  by (simp_all add: abind_def areturn_def)

section \<open>Results\<close>

record sync_note =
  nt_ok :: "bool option"
  nt_message :: string

record ('r, 'x) reply =
  rp_ok :: bool
  rp_severity :: string
  rp_message :: string
  rp_report :: "'r list"
  rp_pending :: bool
  rp_context :: "'x option"
  rp_recon :: "sync_note option"
  rp_verify :: "sync_note option"

definition reply_of :: "bool \<Rightarrow> string \<Rightarrow> ('r, 'x) reply" where
  "reply_of ok msg = \<lparr>rp_ok = ok, rp_severity = '''', rp_message = msg, rp_report = [], rp_pending = False,
     rp_context = None, rp_recon = None, rp_verify = None\<rparr>"

record 'v executed =
  ex_ok :: bool
  ex_severity :: string
  ex_message :: string
  ex_value :: "'v option"

definition text_default :: "string \<Rightarrow> string \<Rightarrow> string" where
  "text_default s d = (if s = [] then d else s)"

section \<open>The controller\<close>

record ('w, 't, 'r, 'k, 'x) controller =
  ct_label :: string
  ct_collect :: "string \<Rightarrow> string \<Rightarrow> 'w \<Rightarrow> string + 't list"
  ct_preview :: "'t \<Rightarrow> string \<Rightarrow> string + string list"
  ct_push :: "string \<Rightarrow> string \<Rightarrow> 't list \<Rightarrow> ('w, ('r, 'x) reply) act"
  ct_dev_host :: "string \<Rightarrow> bool"
  ct_managed :: bool
  ct_execute :: "string \<Rightarrow> ('k \<Rightarrow> ('w, ('r, 'x) reply) act) \<Rightarrow> ('w, ('r, 'x) reply executed) act"
  ct_connector :: "string \<Rightarrow> ('w, 'k option) act"
  ct_reconcile :: "(string \<Rightarrow> string \<Rightarrow> 'k \<Rightarrow> ('w, sync_note) act) option"
  ct_verify :: "string \<Rightarrow> string \<Rightarrow> 'k \<Rightarrow> 'x option \<Rightarrow> ('w, sync_note) act"
  ct_context :: "'t list \<Rightarrow> ('r, 'x) reply \<Rightarrow> 'x option"

fun success_state :: "string option \<Rightarrow> string" where
  "success_state v =
     (if v = None \<or> v = Some ''pending_apply'' then ''setup''
      else if v = Some ''pending_delete'' then ''remove''
      else ''ignore'')"

definition has_text_bit :: "string \<Rightarrow> int \<Rightarrow> bool" where
  "has_text_bit cfg i =
     (if cfg = [] then True
      else let pos = int (length cfg) - 1 - i in
        if pos < 0 \<or> pos \<ge> int (length cfg) then False else cfg ! nat pos = CHR ''1'')"

record pending_summary =
  pd_ok :: bool
  pd_has :: bool
  pd_count :: nat
  pd_message :: string

definition pending_state :: "('w, 't, 'r, 'k, 'x) controller \<Rightarrow> string \<Rightarrow> string \<Rightarrow> 'w \<Rightarrow> pending_summary" where
  "pending_state c host m w =
     (let host = strip host in
      if host = [] then \<lparr>pd_ok = False, pd_has = False, pd_count = 0, pd_message = ''Host is empty.''\<rparr>
      else case ct_collect c host m w of
          Inl e \<Rightarrow> \<lparr>pd_ok = False, pd_has = False, pd_count = 0, pd_message = e\<rparr>
        | Inr ts \<Rightarrow> \<lparr>pd_ok = True, pd_has = (ts \<noteq> []), pd_count = length ts,
            pd_message = (if ts \<noteq> [] then show_nat (length ts) @ '' pending '' @ lower (ct_label c) @ '' task(s).''
                          else ''No configuration required for Push.'')\<rparr>)"

fun render_all :: "('t \<Rightarrow> string \<Rightarrow> string + string list) \<Rightarrow> string \<Rightarrow> 't list \<Rightarrow> string + string list" where
  "render_all f m [] = Inr []"
| "render_all f m (t # ts) =
     sbind (f t m) (\<lambda>lines. sbind (render_all f m ts) (\<lambda>rest. Inr (lines @ [''''] @ rest)))"

record 't preview_reply =
  pv_ok :: bool
  pv_message :: string
  pv_commands :: string
  pv_tasks :: "'t list"

definition preview :: "('w, 't, 'r, 'k, 'x) controller \<Rightarrow> string \<Rightarrow> string \<Rightarrow> 'w \<Rightarrow> 't preview_reply" where
  "preview c host m w =
     (let host = strip host; failed = \<lambda>e. \<lparr>pv_ok = False,
          pv_message = ''Preview '' @ lower (ct_label c) @ '' failed: '' @ e, pv_commands = '''', pv_tasks = []\<rparr> in
      if host = [] then \<lparr>pv_ok = False, pv_message = ''Host is empty.'', pv_commands = '''', pv_tasks = []\<rparr>
      else case ct_collect c host m w of
          Inl e \<Rightarrow> failed e
        | Inr ts \<Rightarrow>
            if ts = [] then \<lparr>pv_ok = True, pv_message = ''No configuration required for Push.'',
                pv_commands = '''', pv_tasks = []\<rparr>
            else case render_all (ct_preview c) m ts of
                Inl e \<Rightarrow> failed e
              | Inr lines \<Rightarrow> \<lparr>pv_ok = True,
                  pv_message = ''Prepared '' @ show_nat (length ts) @ '' '' @ lower (ct_label c) @ '' task(s).'',
                  pv_commands = strip (join [CHR ''\<newline>''] lines), pv_tasks = ts\<rparr>)"

section \<open>Reconciliation\<close>

definition note_texts :: "sync_note list \<Rightarrow> string list" where
  "note_texts ns = filter (\<lambda>s. s \<noteq> []) (map (\<lambda>n. strip (nt_message n)) ns)"

definition reconcile_with_connector ::
  "('w, 't, 'r, 'k, 'x) controller \<Rightarrow> string \<Rightarrow> string \<Rightarrow> 'k option \<Rightarrow> 'x option \<Rightarrow> ('w, ('r, 'x) reply) act" where
  "reconcile_with_connector c host m k ctx =
     (case k of
        None \<Rightarrow> areturn (reply_of False
          (''Background synchronization failed for '' @ host @ '': no active session.''))
      | Some k \<Rightarrow>
          abind (case ct_reconcile c of
              Some f \<Rightarrow> f host m k
            | None \<Rightarrow> areturn \<lparr>nt_ok = Some True, nt_message =
                ''No shared background synchronization required for '' @ host @ ''.''\<rparr>) (\<lambda>rec.
          abind (ct_verify c host m k ctx) (\<lambda>ver.
            let rec_ok = (nt_ok rec = Some True); ver_ok = (nt_ok ver \<noteq> Some False) in
            areturn ((reply_of (rec_ok \<and> ver_ok)
              (text_default (join '' '' (note_texts [rec, ver]))
                (''Background synchronization completed for '' @ host @ ''.'')))
              \<lparr>rp_severity := (if rec_ok \<and> ver_ok then ''success'' else ''warning''),
               rp_recon := Some rec, rp_verify := Some ver\<rparr>))))"

text \<open>\<open>executed.get("value") or {}\<close>, and the failure reported by the session registry.\<close>

definition value_of :: "('r, 'x) reply executed \<Rightarrow> ('r, 'x) reply" where
  "value_of x = (case ex_value x of None \<Rightarrow> reply_of False '''' | Some r \<Rightarrow> r)"

definition unwrap :: "string \<Rightarrow> bool \<Rightarrow> ('r, 'x) reply executed \<Rightarrow> ('r, 'x) reply" where
  "unwrap d severe x =
     (if ex_ok x then value_of x
      else (reply_of False (text_default (ex_message x) d))
        \<lparr>rp_severity := (if severe then text_default (ex_severity x) ''error'' else '''')\<rparr>)"

definition guard_errors :: "string \<Rightarrow> ('w, ('r, 'x) reply) act \<Rightarrow> 'w \<Rightarrow> ('r, 'x) reply \<times> 'w" where
  "guard_errors prefix m w =
     (case m w of (Inl e, w') \<Rightarrow> (reply_of False (prefix @ e), w') | (Inr r, w') \<Rightarrow> (r, w'))"

definition reconcile_after_push ::
  "('w, 't, 'r, 'k, 'x) controller \<Rightarrow> string \<Rightarrow> string \<Rightarrow> 'x option \<Rightarrow> 'w \<Rightarrow> ('r, 'x) reply \<times> 'w" where
  "reconcile_after_push c host m ctx w =
     (let host = strip host in
      if host = [] then (reply_of False ''Host is empty.'', w)
      else guard_errors (''Background synchronization failed for '' @ host @ '': '')
        (if ct_managed c then
           abind (ct_execute c host (\<lambda>k. reconcile_with_connector c host m (Some k) ctx))
             (\<lambda>x. areturn (unwrap (''Background synchronization failed for '' @ host @ ''.'') False x))
         else abind (ct_connector c host) (\<lambda>k. reconcile_with_connector c host m k ctx)) w)"

section \<open>Pushing\<close>

text \<open>\<open>result.get("report")\<close> together with \<open>result.get("ok")\<close>: something was pushed.\<close>

definition pushed :: "('r, 'x) reply \<Rightarrow> bool" where
  "pushed r = (rp_ok r \<and> rp_report r \<noteq> [])"

definition completed_text :: "('r, 'x) reply \<Rightarrow> string" where
  "completed_text r = text_default (rp_message r) ''Push completed.''"

definition with_background :: "('r, 'x) reply \<Rightarrow> ('r, 'x) reply \<Rightarrow> ('r, 'x) reply" where
  "with_background r bg =
     (let r' = r\<lparr>rp_recon := rp_recon bg, rp_verify := rp_verify bg\<rparr> in
      if rp_ok bg then r'\<lparr>rp_message := strip (completed_text r @ '' '' @ rp_message bg)\<rparr>
      else r'\<lparr>rp_severity := ''warning'', rp_message := completed_text r @ '' Warning: ''
        @ text_default (rp_message bg) ''Post-push persistence and synchronization failed.''\<rparr>)"

definition push_and_reconcile ::
  "('w, 't, 'r, 'k, 'x) controller \<Rightarrow> string \<Rightarrow> string \<Rightarrow> 't list \<Rightarrow> 'k option \<Rightarrow> ('w, ('r, 'x) reply) act" where
  "push_and_reconcile c host m ts k =
     abind (ct_push c host m ts) (\<lambda>r.
       if \<not> pushed r then areturn r
       else abind (case k of None \<Rightarrow> ct_connector c host | Some k \<Rightarrow> areturn (Some k)) (\<lambda>k.
         case k of
           None \<Rightarrow> areturn r
         | Some k \<Rightarrow> abind (reconcile_with_connector c host m (Some k) (ct_context c ts r))
             (\<lambda>bg. areturn (with_background r bg))))"

definition push :: "('w, 't, 'r, 'k, 'x) controller \<Rightarrow> string \<Rightarrow> string \<Rightarrow> 'w \<Rightarrow> ('r, 'x) reply \<times> 'w" where
  "push c host m w =
     (let host = strip host; failed = ''Push '' @ lower (ct_label c) @ '' failed: '' in
      if host = [] then (reply_of False ''Host is empty.'', w)
      else case ct_collect c host m w of
          Inl e \<Rightarrow> (reply_of False (failed @ e), w)
        | Inr ts \<Rightarrow>
            if ts = [] then (reply_of True ''No configuration required for Push.'', w)
            else guard_errors failed
              (if ct_dev_host c host then ct_push c host m ts
               else if ct_managed c then
                 abind (ct_execute c host (\<lambda>k. push_and_reconcile c host m ts (Some k)))
                   (\<lambda>x. areturn (unwrap (''Push '' @ lower (ct_label c) @ '' failed for '' @ host @ ''.'') True x))
               else push_and_reconcile c host m ts None) w)"

definition mark_deferred :: "('w, 't, 'r, 'k, 'x) controller \<Rightarrow> 't list \<Rightarrow> ('r, 'x) reply \<Rightarrow> ('r, 'x) reply" where
  "mark_deferred c ts r =
     (if pushed r then
        r\<lparr>rp_context := (case ct_context c ts r of None \<Rightarrow> rp_context r | Some x \<Rightarrow> Some x),
          rp_pending := True,
          rp_message := completed_text r @ '' Device synchronization continues in background.''\<rparr>
      else r)"

definition push_apply_only ::
  "('w, 't, 'r, 'k, 'x) controller \<Rightarrow> string \<Rightarrow> string \<Rightarrow> 'w \<Rightarrow> ('r, 'x) reply \<times> 'w" where
  "push_apply_only c host m w =
     (let host = strip host; failed = ''Push '' @ lower (ct_label c) @ '' failed: '' in
      if host = [] then (reply_of False ''Host is empty.'', w)
      else case ct_collect c host m w of
          Inl e \<Rightarrow> (reply_of False (failed @ e), w)
        | Inr ts \<Rightarrow>
            if ts = [] then (reply_of True ''No configuration required for Push.'', w)
            else guard_errors failed
              (if ct_dev_host c host then ct_push c host m ts
               else if ct_managed c then
                 abind (ct_execute c host (\<lambda>k. ct_push c host m ts))
                   (\<lambda>x. areturn (if ex_ok x then mark_deferred c ts (value_of x)
                                 else unwrap ''Push failed.'' True x))
               else abind (ct_push c host m ts) (\<lambda>r. areturn (mark_deferred c ts r))) w)"

section \<open>What a push guarantees\<close>

lemma guard_errors_snd [simp]: "snd (guard_errors p m w) = snd (m w)"
  by (auto simp: guard_errors_def split: prod.splits sum.splits)

lemma snd_abind_return [simp]: "snd (abind m (\<lambda>x. areturn (f x)) w) = snd (m w)"
  by (auto simp: abind_def areturn_def split: prod.splits sum.splits)

lemma reply_of_simps [simp]:
  "rp_ok (reply_of ok msg) = ok" "rp_report (reply_of ok msg) = []" "rp_pending (reply_of ok msg) = False"
  "rp_message (reply_of ok msg) = msg"
  by (simp_all add: reply_of_def)

lemma mark_deferred_simps:
  "rp_pending (mark_deferred c ts r) = (pushed r \<or> rp_pending r)"
  "rp_report (mark_deferred c ts r) = rp_report r" "rp_ok (mark_deferred c ts r) = rp_ok r"
  "pushed r \<Longrightarrow> rp_context r = None \<Longrightarrow> rp_context (mark_deferred c ts r) = ct_context c ts r"
  by (auto simp: mark_deferred_def split: option.splits)

text \<open>With nothing to do a push does nothing: for a blank host, for a host without a
  pending task and when collecting raises, neither the immediate nor the batch push touches the
  device, the session or the database, and the report is empty.\<close>

theorem push_without_tasks:
  assumes "strip host = [] \<or> (\<forall>ts. ct_collect c (strip host) m w = Inr ts \<longrightarrow> ts = [])"
  shows "snd (push c host m w) = w \<and> rp_report (fst (push c host m w)) = []
       \<and> snd (push_apply_only c host m w) = w \<and> rp_report (fst (push_apply_only c host m w)) = []
       \<and> \<not> rp_pending (fst (push_apply_only c host m w))"
  using assms
  by (cases "ct_collect c (strip host) m w") (auto simp: push_def push_apply_only_def Let_def)

definition plain_replies :: "('w, 't, 'r, 'k, 'x) controller \<Rightarrow> bool" where
  "plain_replies c \<longleftrightarrow> (\<forall>h m ts w r w'. ct_push c h m ts w = (Inr r, w') \<longrightarrow>
      rp_context r = None \<and> \<not> rp_pending r)"


section \<open>The interface to the session registry\<close>

text \<open>
  What a controller with a shared session relies on. \<open>exec\<close> always returns a reply; a successful one
  carries the value of a completed run of the operation on some connector, a failed one carries
  no value.
\<close>

locale session_executor =
  fixes exec :: "string \<Rightarrow> ('k \<Rightarrow> ('w, ('r, 'x) reply) act) \<Rightarrow> ('w, ('r, 'x) reply executed) act"
  assumes returns: "\<exists>x w'. exec host op w = (Inr x, w')"
    and ok_value: "exec host op w = (Inr x, w') \<Longrightarrow> ex_ok x \<Longrightarrow>
        \<exists>k w1 w2 v. op k w1 = (Inr v, w2) \<and> ex_value x = Some v"
begin

lemma unwrap_ok:
  assumes "exec host op w = (Inr x, w')" "rp_ok (unwrap d s x)"
  shows "\<exists>k w1 w2. op k w1 = (Inr (unwrap d s x), w2)"
proof -
  have "ex_ok x" using assms(2) by (auto simp: unwrap_def split: if_splits)
  with ok_value[OF assms(1)] show ?thesis by (force simp: unwrap_def value_of_def)
qed

lemma pushed_ran:
  assumes "push_and_reconcile c host m ts k w = (Inr r, w')" "rp_ok r"
  shows "\<exists>w1 r0. ct_push c host m ts w = (Inr r0, w1) \<and> rp_ok r0 \<and> rp_report r = rp_report r0"
proof -
  obtain y w1 where y: "ct_push c host m ts w = (y, w1)" by fastforce
  then obtain r0 where "y = Inr r0" using assms(1) by (cases y) (simp_all add: push_and_reconcile_def)
  with assms y show ?thesis
    by (auto simp: push_and_reconcile_def with_background_def Let_def pushed_def abind_def areturn_def
        split: if_splits prod.splits sum.splits option.splits)
qed

text \<open>A push that reports success either had nothing to do or ran the controller's tasks.\<close>

lemma push_success_ran:
  assumes c: "ct_execute c = exec" "ct_managed c" "\<not> ct_dev_host c (strip host)"
    and ok: "rp_ok (fst (push c host m w))"
  shows "ct_collect c (strip host) m w = Inr [] \<or>
    (\<exists>ts w1 w2 r0. ct_collect c (strip host) m w = Inr ts \<and> ts \<noteq> []
       \<and> ct_push c (strip host) m ts w1 = (Inr r0, w2) \<and> rp_ok r0
       \<and> rp_report (fst (push c host m w)) = rp_report r0)"
proof (cases "ct_collect c (strip host) m w")
  case (Inl e)
  then show ?thesis using ok by (auto simp: push_def Let_def split: if_splits)
next
  case (Inr ts)
  show ?thesis
  proof (cases "ts = []")
    case False
    let ?op = "\<lambda>k. push_and_reconcile c (strip host) m ts (Some k)"
    obtain x w' where x: "exec (strip host) ?op w = (Inr x, w')" using returns by blast
    have h: "strip host \<noteq> []" using ok by (auto simp: push_def)
    let ?d = "''Push '' @ lower (ct_label c) @ '' failed for '' @ strip host @ ''.''"
    have p: "fst (push c host m w) = unwrap ?d True x"
      using Inr False h c x by (simp add: push_def Let_def guard_errors_def)
    from unwrap_ok[OF x, of ?d True] ok p obtain k w1 w2 where
      "?op k w1 = (Inr (fst (push c host m w)), w2)" by auto
    from pushed_ran[OF this ok] Inr False show ?thesis by metis
  qed (use Inr in simp)
qed

end

end
