(* ===== verification/Sessions.thy ===== *)
theory Sessions
  imports View_Push
begin

text \<open>
  The registry of device sessions (\<open>infrastructure/network/session_entry.py\<close> and
  \<open>session_registry.py\<close>). \<open>SessionEntry\<close> objects are shared and mutable, so they live in a heap
  \<open>rg_entries\<close> indexed by allocation number, and \<open>_sessions\<close> maps a host to its entry. The network is
  the opaque part \<open>'w\<close> of the world; connectors (\<open>'k\<close>), the connector factory and the device loader
  are the fields of \<open>session_env\<close>. The registry is the only writer of \<open>_sessions\<close>, so the branches
  for raw connectors stored there by former callers are not modelled.

  \<open>execute\<close> and \<open>close\<close> hold the operation lock of the entry only around their middle part, so both
  are compositions of the atomic pieces that other threads can interleave with: \<open>exec_begin\<close> and
  \<open>exec_locked\<close>, \<open>close_begin\<close>, \<open>close_locked\<close> and \<open>close_end\<close>.
\<close>

section \<open>State\<close>

datatype session_state = Closed | Opening | Connected | Closing | Stale | ErrorState

record 'k session_entry =
  en_host :: string
  en_connector :: "'k option"
  en_state :: session_state
  en_opened :: int
  en_used :: int
  en_error :: string
  en_generation :: nat

record device =
  dv_dev :: int
  dv_method :: string

record ('k, 'w) session_env =
  se_device :: "string \<Rightarrow> 'w \<Rightarrow> device option"
  se_create :: "device \<Rightarrow> ('w, 'k) act"
  se_connect :: "'k \<Rightarrow> ('w, bool) act"
  se_reason :: "'k \<Rightarrow> 'w \<Rightarrow> string"
  se_prepare :: "'k \<Rightarrow> ('w, unit) act"
  se_alive :: "'k \<Rightarrow> 'w \<Rightarrow> bool"
  se_connection :: "'k \<Rightarrow> 'w \<Rightarrow> bool"
  se_disconnect :: "'k \<Rightarrow> 'w \<Rightarrow> 'w"
  se_time :: "'w \<Rightarrow> int"

record ('k, 'w) registry =
  rg_hosts :: "string \<rightharpoonup> nat"
  rg_entries :: "nat \<Rightarrow> 'k session_entry"
  rg_next :: nat
  rg_net :: 'w

definition new_entry :: "string \<Rightarrow> 'k session_entry" where
  "new_entry host = \<lparr>en_host = host, en_connector = None, en_state = Closed, en_opened = 0, en_used = 0,
     en_error = '''', en_generation = 0\<rparr>"

definition modify_entry :: "nat \<Rightarrow> ('k session_entry \<Rightarrow> 'k session_entry) \<Rightarrow> ('k, 'w) registry \<Rightarrow> ('k, 'w) registry" where
  "modify_entry i f g = g\<lparr>rg_entries := (rg_entries g)(i := f (rg_entries g i))\<rparr>"

definition touch :: "('k, 'w) session_env \<Rightarrow> nat \<Rightarrow> ('k, 'w) registry \<Rightarrow> ('k, 'w) registry" where
  "touch env i g = modify_entry i (\<lambda>e. e\<lparr>en_used := se_time env (rg_net g)\<rparr>) g"

definition set_state :: "nat \<Rightarrow> session_state \<Rightarrow> ('k, 'w) registry \<Rightarrow> ('k, 'w) registry" where
  "set_state i s g = modify_entry i (\<lambda>e. e\<lparr>en_state := s\<rparr>) g"

definition fail_entry :: "nat \<Rightarrow> string \<Rightarrow> ('k, 'w) registry \<Rightarrow> ('k, 'w) registry" where
  "fail_entry i reason g = modify_entry i (\<lambda>e. e\<lparr>en_state := ErrorState, en_error := reason\<rparr>) g"

definition disconnect :: "('k, 'w) session_env \<Rightarrow> 'k option \<Rightarrow> ('k, 'w) registry \<Rightarrow> ('k, 'w) registry" where
  "disconnect env k g = (case k of None \<Rightarrow> g | Some k \<Rightarrow> g\<lparr>rg_net := se_disconnect env k (rg_net g)\<rparr>)"

definition is_alive :: "('k, 'w) session_env \<Rightarrow> 'k option \<Rightarrow> ('k, 'w) registry \<Rightarrow> bool" where
  "is_alive env k g = (case k of None \<Rightarrow> False | Some k \<Rightarrow> se_alive env k (rg_net g))"

text \<open>\<open>_entry\<close>: the entry of a host, created on first use.\<close>

definition entry_of :: "string \<Rightarrow> ('k, 'w) registry \<Rightarrow> nat \<times> ('k, 'w) registry" where
  "entry_of host g =
     (case rg_hosts g host of
        Some i \<Rightarrow> (i, g)
      | None \<Rightarrow> (rg_next g, g\<lparr>rg_hosts := (rg_hosts g)(host \<mapsto> rg_next g),
          rg_entries := (rg_entries g)(rg_next g := new_entry host), rg_next := Suc (rg_next g)\<rparr>))"

definition get_connector :: "('k, 'w) session_env \<Rightarrow> string \<Rightarrow> ('k, 'w) registry \<Rightarrow> 'k option" where
  "get_connector env host g =
     (case rg_hosts g (strip host) of
        None \<Rightarrow> None
      | Some i \<Rightarrow>
          let k = en_connector (rg_entries g i) in if is_alive env k g then k else None)"

definition has_session :: "('k, 'w) session_env \<Rightarrow> string \<Rightarrow> ('k, 'w) registry \<Rightarrow> bool" where
  "has_session env host g = (get_connector env host g \<noteq> None)"

definition get_state :: "string \<Rightarrow> ('k, 'w) registry \<Rightarrow> session_state" where
  "get_state host g = (case rg_hosts g (strip host) of None \<Rightarrow> Closed | Some i \<Rightarrow> en_state (rg_entries g i))"

definition snapshot :: "string \<Rightarrow> ('k, 'w) registry \<Rightarrow> 'k session_entry" where
  "snapshot host g =
     (case rg_hosts g (strip host) of
        Some i \<Rightarrow> rg_entries g i
      | None \<Rightarrow> (new_entry (strip host))\<lparr>en_state := get_state host g\<rparr>)"

section \<open>Opening\<close>

record session_reply =
  sr_ok :: bool
  sr_severity :: string
  sr_message :: string

definition session_reply_of :: "bool \<Rightarrow> string \<Rightarrow> string \<Rightarrow> session_reply" where
  "session_reply_of ok sev msg = \<lparr>sr_ok = ok, sr_severity = sev, sr_message = msg\<rparr>"

definition open_failed :: "('k, 'w) session_env \<Rightarrow> string \<Rightarrow> nat \<Rightarrow> 'k option \<Rightarrow> string \<Rightarrow> ('k, 'w) registry
    \<Rightarrow> session_reply \<times> ('k, 'w) registry" where
  "open_failed env host i k e g =
     (session_reply_of False ''error'' (''Open session failed for '' @ host @ '': '' @ e),
      fail_entry i e (disconnect env k g))"

text \<open>Lines 140--162: create, connect, prepare, adopt.\<close>

definition adopt :: "('k, 'w) session_env \<Rightarrow> nat \<Rightarrow> 'k \<Rightarrow> ('k, 'w) registry \<Rightarrow> ('k, 'w) registry" where
  "adopt env i k g =
     modify_entry i (\<lambda>e. e\<lparr>en_connector := Some k, en_state := Connected,
       en_opened := se_time env (rg_net g), en_used := se_time env (rg_net g),
       en_generation := Suc (en_generation e)\<rparr>) g"

definition connect_device :: "('k, 'w) session_env \<Rightarrow> string \<Rightarrow> nat \<Rightarrow> device \<Rightarrow> ('k, 'w) registry
    \<Rightarrow> session_reply \<times> ('k, 'w) registry" where
  "connect_device env host i d g =
     (case se_create env d (rg_net g) of
        (Inl e, w) \<Rightarrow> open_failed env host i None e (g\<lparr>rg_net := w\<rparr>)
      | (Inr k, w) \<Rightarrow>
          (case se_connect env k w of
             (Inl e, w) \<Rightarrow> open_failed env host i (Some k) e (g\<lparr>rg_net := w\<rparr>)
           | (Inr False, w) \<Rightarrow>
               let reason = se_reason env k w in
               (session_reply_of False ''error'' (''Open session failed for '' @ host @ '': '' @ reason @ ''.''),
                disconnect env (Some k) (fail_entry i reason (g\<lparr>rg_net := w\<rparr>)))
           | (Inr True, w) \<Rightarrow>
               (case se_prepare env k w of
                  (Inl e, w) \<Rightarrow> open_failed env host i (Some k) e (g\<lparr>rg_net := w\<rparr>)
                | (Inr _, w) \<Rightarrow>
                    let previous = en_connector (rg_entries g i);
                        g' = adopt env i k (g\<lparr>rg_net := w\<rparr>)
                    in (session_reply_of True ''success'' (''Session opened for '' @ host @ ''.''),
                        if previous \<noteq> None \<and> previous \<noteq> Some k then disconnect env previous g' else g'))))"

definition open_session :: "('k, 'w) session_env \<Rightarrow> string \<Rightarrow> ('k, 'w) registry
    \<Rightarrow> session_reply \<times> ('k, 'w) registry" where
  "open_session env host g =
     (let host = strip host in
      if host = [] then (session_reply_of False ''warning'' ''Open session failed: host is empty.'', g)
      else
        let (i, g) = entry_of host g in
        if is_alive env (en_connector (rg_entries g i)) g then
          (session_reply_of True ''info'' (''Session for '' @ host @ '' is already open.''),
           touch env i (set_state i Connected g))
        else case se_device env host (rg_net g) of
            None \<Rightarrow>
              (session_reply_of False ''error'' (''Device '' @ host @ '' was not found.''),
               fail_entry i (''Device '' @ host @ '' was not found.'') g)
          | Some d \<Rightarrow>
              if dv_dev d = 1 then
                (session_reply_of False ''warning'' (host @ '' is in development mode, so real network access is disabled. Switch to Live Connection, then Connect before opening CLI.''),
                 set_state i Closed g)
              else if dv_method d \<notin> {''ssh'', ''telnet''} then
                (session_reply_of False ''warning'' (''Interactive CLI is unavailable for '' @ host
                   @ '': unsupported method '' @ text_default (dv_method d) ''unknown'' @ ''.''),
                 set_state i Closed g)
              else connect_device env host i d
                (modify_entry i (\<lambda>e. e\<lparr>en_state := Opening, en_error := ''''\<rparr>) g))"

section \<open>Closing\<close>

definition close_begin :: "string \<Rightarrow> ('k, 'w) registry \<Rightarrow> nat option" where
  "close_begin host g = rg_hosts g (strip host)"

definition close_locked :: "('k, 'w) session_env \<Rightarrow> nat \<Rightarrow> ('k, 'w) registry \<Rightarrow> ('k, 'w) registry" where
  "close_locked env i g =
     (let k = en_connector (rg_entries g i);
          g = disconnect env k (modify_entry i (\<lambda>e. e\<lparr>en_state := Closing, en_connector := None\<rparr>) g)
      in touch env i (set_state i Closed g))"

definition close_end :: "string \<Rightarrow> ('k, 'w) registry \<Rightarrow> ('k, 'w) registry" where
  "close_end host g = g\<lparr>rg_hosts := (rg_hosts g)(strip host := None)\<rparr>"

definition close_session :: "('k, 'w) session_env \<Rightarrow> string \<Rightarrow> ('k, 'w) registry
    \<Rightarrow> session_reply \<times> ('k, 'w) registry" where
  "close_session env host g =
     (case close_begin host g of
        None \<Rightarrow> (session_reply_of True ''info'' (''Session closed for '' @ strip host @ ''.''), g)
      | Some i \<Rightarrow>
          (session_reply_of True (if en_connector (rg_entries g i) \<noteq> None then ''success'' else ''info'')
             (''Session closed for '' @ strip host @ ''.''),
           close_end host (close_locked env i g)))"

text \<open>\<open>close_all\<close>: the map is emptied and every connector is disconnected; the disconnecting threads
  are run to their end here, which \<open>timeout=None\<close> waits for. The argument lists the known hosts.\<close>

definition close_all :: "('k, 'w) session_env \<Rightarrow> string list \<Rightarrow> ('k, 'w) registry \<Rightarrow> ('k, 'w) registry" where
  "close_all env hosts g =
     foldl (\<lambda>g' host. case rg_hosts g host of
              None \<Rightarrow> g'
            | Some i \<Rightarrow> disconnect env (en_connector (rg_entries g i)) g')
       (g\<lparr>rg_hosts := Map.empty\<rparr>) hosts"

section \<open>Executing\<close>

definition session_failed :: "string \<Rightarrow> string \<Rightarrow> 'v executed" where
  "session_failed sev msg = \<lparr>ex_ok = False, ex_severity = sev, ex_message = msg, ex_value = None\<rparr>"

definition exec_begin :: "('k, 'w) session_env \<Rightarrow> string \<Rightarrow> ('k, 'w) registry
    \<Rightarrow> 'k option \<times> nat \<times> ('k, 'w) registry" where
  "exec_begin env host g = (get_connector env host g, entry_of (strip host) g)"

text \<open>Lines 269--277: the connector found before the lock was taken replaces another one.\<close>

definition exec_adopt :: "('k, 'w) session_env \<Rightarrow> 'k option \<Rightarrow> nat \<Rightarrow> ('k, 'w) registry \<Rightarrow> ('k, 'w) registry" where
  "exec_adopt env existing i g =
     (case existing of
        None \<Rightarrow> g
      | Some k \<Rightarrow>
          if en_connector (rg_entries g i) = Some k then g
          else disconnect env (en_connector (rg_entries g i)) (adopt env i k g))"

text \<open>Lines 278--295: an entry without a live connector is opened; the result is an early reply.\<close>

definition exec_open :: "('k, 'w) session_env \<Rightarrow> string \<Rightarrow> bool \<Rightarrow> 'k option \<Rightarrow> nat \<Rightarrow> ('k, 'w) registry
    \<Rightarrow> 'v executed option \<times> ('k, 'w) registry" where
  "exec_open env host ensure existing i g =
     (if is_alive env (en_connector (rg_entries g i)) g \<or> existing \<noteq> None then (None, g)
      else
        let g = set_state i (if en_connector (rg_entries g i) \<noteq> None then Stale else Closed) g in
        if \<not> ensure then (Some (session_failed ''error'' (''No active session for '' @ host @ ''.'')), g)
        else
          let (r, g) = open_session env host g in
          if \<not> sr_ok r then (Some (session_failed (sr_severity r) (sr_message r)), g)
          else if \<not> is_alive env (en_connector (rg_entries g i)) g then
            (let msg = ''Session for '' @ host @ '' opened without a live connector.'' in
             (Some (session_failed ''error'' msg), fail_entry i msg g))
          else (None, g))"

text \<open>Lines 296--319.\<close>

definition run_operation :: "('k, 'w) session_env \<Rightarrow> 'k \<Rightarrow> ('k \<Rightarrow> (('k, 'w) registry, 'v) act)
    \<Rightarrow> (('k, 'w) registry, 'v) act" where
  "run_operation env k op g =
     (if se_connection env k (rg_net g) then
        (case se_prepare env k (rg_net g) of
           (Inl e, w) \<Rightarrow> (Inl e, g\<lparr>rg_net := w\<rparr>)
         | (Inr _, w) \<Rightarrow> op k (g\<lparr>rg_net := w\<rparr>))
      else op k g)"

definition exec_operation :: "('k, 'w) session_env \<Rightarrow> string \<Rightarrow> nat \<Rightarrow> ('k \<Rightarrow> (('k, 'w) registry, 'v) act)
    \<Rightarrow> ('k, 'w) registry \<Rightarrow> 'v executed \<times> ('k, 'w) registry" where
  "exec_operation env host i op g =
     (case en_connector (rg_entries g i) of
        None \<Rightarrow> (session_failed ''error'' (''Operation failed for '' @ host @ '': ''), g)
      | Some k \<Rightarrow>
          let generation = en_generation (rg_entries g i) in
          (case run_operation env k op g of
             (Inr v, g') \<Rightarrow>
               (\<lparr>ex_ok = True, ex_severity = ''success'',
                 ex_message = ''Operation completed for '' @ host @ ''.'', ex_value = Some v\<rparr>,
                if generation = en_generation (rg_entries g' i)
                then touch env i (set_state i Connected g') else g')
           | (Inl e, g') \<Rightarrow>
               (session_failed ''error'' (''Operation failed for '' @ host @ '': '' @ e),
                if generation = en_generation (rg_entries g' i)
                then modify_entry i (\<lambda>en. en\<lparr>en_error := e,
                  en_state := (if is_alive env (en_connector (rg_entries g' i)) g' then Connected else Stale)\<rparr>) g'
                else g')))"

definition exec_locked :: "('k, 'w) session_env \<Rightarrow> string \<Rightarrow> bool \<Rightarrow> 'k option \<Rightarrow> nat
    \<Rightarrow> ('k \<Rightarrow> (('k, 'w) registry, 'v) act) \<Rightarrow> ('k, 'w) registry \<Rightarrow> 'v executed \<times> ('k, 'w) registry" where
  "exec_locked env host ensure existing i op g =
     (case exec_open env host ensure existing i (exec_adopt env existing i g) of
        (Some r, g) \<Rightarrow> (r, g)
      | (None, g) \<Rightarrow> exec_operation env host i op g)"

text \<open>\<open>acquired\<close> is the result of \<open>operation_lock.acquire\<close>: \<open>False\<close> only with a timeout, when another
  thread keeps the session.\<close>

definition execute :: "('k, 'w) session_env \<Rightarrow> string \<Rightarrow> bool \<Rightarrow> bool
    \<Rightarrow> ('k \<Rightarrow> (('k, 'w) registry, 'v) act) \<Rightarrow> ('k, 'w) registry \<Rightarrow> 'v executed \<times> ('k, 'w) registry" where
  "execute env host ensure acquired op g =
     (let host = strip host in
      if host = [] then (session_failed ''warning'' ''Operation failed: host is empty.'', g)
      else
        let (existing, i, g) = exec_begin env host g in
        if \<not> acquired then
          (session_failed ''warning'' (''Device session for '' @ host
             @ '' is busy with another operation. Wait for its background synchronization to finish, then try Push again.''), g)
        else exec_locked env host ensure existing i op g)"

section \<open>Ownership of live connectors\<close>

text \<open>What the registry relies on: disconnecting closes the connector and no other one, connecting
  brings at most that connector to life, creating and preparing bring none to life.\<close>

definition well_behaved :: "('k, 'w) session_env \<Rightarrow> bool" where
  "well_behaved env \<longleftrightarrow>
     (\<forall>k k' w. se_alive env k' (se_disconnect env k w) \<longleftrightarrow> k' \<noteq> k \<and> se_alive env k' w)
   \<and> (\<forall>d w k'. se_alive env k' (snd (se_create env d w)) \<longrightarrow> se_alive env k' w)
   \<and> (\<forall>k w k'. se_alive env k' (snd (se_connect env k w)) \<longrightarrow> k' = k \<or> se_alive env k' w)
   \<and> (\<forall>k w k'. se_alive env k' (snd (se_prepare env k w)) \<longrightarrow> se_alive env k' w)"

definition registry_ok :: "('k, 'w) registry \<Rightarrow> bool" where
  "registry_ok g \<longleftrightarrow> (\<forall>h i. rg_hosts g h = Some i \<longrightarrow> i < rg_next g \<and> en_host (rg_entries g i) = h)"

definition owned :: "'k \<Rightarrow> ('k, 'w) registry \<Rightarrow> bool" where
  "owned k g \<longleftrightarrow> (\<exists>h i. rg_hosts g h = Some i \<and> en_connector (rg_entries g i) = Some k)"

definition no_leak :: "('k, 'w) session_env \<Rightarrow> ('k, 'w) registry \<Rightarrow> bool" where
  "no_leak env g \<longleftrightarrow> registry_ok g \<and> (\<forall>k. se_alive env k (rg_net g) \<longrightarrow> owned k g)"

lemma behaved:
  assumes "well_behaved env"
  shows "se_alive env k' (se_disconnect env k w) \<longleftrightarrow> k' \<noteq> k \<and> se_alive env k' w"
    "se_create env d w = (r, w') \<Longrightarrow> se_alive env k' w' \<Longrightarrow> se_alive env k' w"
    "se_connect env k w = (c, w') \<Longrightarrow> se_alive env k' w' \<Longrightarrow> k' = k \<or> se_alive env k' w"
    "se_prepare env k w = (p, w') \<Longrightarrow> se_alive env k' w' \<Longrightarrow> se_alive env k' w"
proof -
  note wb = assms[unfolded well_behaved_def]
  show "se_alive env k' (se_disconnect env k w) \<longleftrightarrow> k' \<noteq> k \<and> se_alive env k' w" using wb by blast
  have "se_alive env k' (snd (se_create env d w)) \<Longrightarrow> se_alive env k' w" using wb by blast
  then show "se_create env d w = (r, w') \<Longrightarrow> se_alive env k' w' \<Longrightarrow> se_alive env k' w" by simp
  have "se_alive env k' (snd (se_connect env k w)) \<Longrightarrow> k' = k \<or> se_alive env k' w" using wb by blast
  then show "se_connect env k w = (c, w') \<Longrightarrow> se_alive env k' w' \<Longrightarrow> k' = k \<or> se_alive env k' w" by simp
  have "se_alive env k' (snd (se_prepare env k w)) \<Longrightarrow> se_alive env k' w" using wb by blast
  then show "se_prepare env k w = (p, w') \<Longrightarrow> se_alive env k' w' \<Longrightarrow> se_alive env k' w" by simp
qed

lemma modify_simps [simp]:
  "rg_hosts (modify_entry i f g) = rg_hosts g" "rg_net (modify_entry i f g) = rg_net g"
  "rg_next (modify_entry i f g) = rg_next g"
  "rg_entries (modify_entry i f g) j = (if j = i then f (rg_entries g i) else rg_entries g j)"
  by (simp_all add: modify_entry_def)

lemma disconnect_simps [simp]:
  "rg_hosts (disconnect env k g) = rg_hosts g" "rg_entries (disconnect env k g) = rg_entries g"
  "rg_next (disconnect env k g) = rg_next g"
  by (simp_all add: disconnect_def split: option.splits)

lemma registry_ok_modify [simp]:
  "(\<And>e. en_host (f e) = en_host e) \<Longrightarrow> registry_ok (modify_entry i f g) = registry_ok g"
  by (auto simp: registry_ok_def)

lemma registry_ok_disconnect [simp]: "registry_ok (disconnect env k g) = registry_ok g"
  by (simp add: registry_ok_def)

lemma registry_ok_net [simp]: "registry_ok (g\<lparr>rg_net := w\<rparr>) = registry_ok g"
  by (simp add: registry_ok_def)

lemma owned_modify [simp]:
  "(\<And>e. en_connector (f e) = en_connector e) \<Longrightarrow> owned k (modify_entry i f g) = owned k g"
proof -
  assume f: "\<And>e. en_connector (f e) = en_connector e"
  have "en_connector (rg_entries (modify_entry i f g) j) = en_connector (rg_entries g j)" for j
    by (simp add: f)
  then show ?thesis unfolding owned_def by (simp del: modify_simps(4))
qed

lemma owned_others [simp]:
  "owned k (disconnect env k' g) = owned k g" "owned k (g\<lparr>rg_net := w\<rparr>) = owned k g"
  by (simp_all add: owned_def)

lemmas entry_ops = touch_def set_state_def fail_entry_def

lemma no_leak_modify [simp]:
  "(\<And>e. en_connector (f e) = en_connector e) \<Longrightarrow> (\<And>e. en_host (f e) = en_host e) \<Longrightarrow>
     no_leak env (modify_entry i f g) = no_leak env g"
  by (simp add: no_leak_def)

lemma no_leak_entry_ops [simp]:
  "no_leak env (touch env' i g) = no_leak env g" "no_leak env (set_state i s g) = no_leak env g"
  "no_leak env (fail_entry i e g) = no_leak env g"
  by (simp_all add: entry_ops)

text \<open>The state after a step that may have brought \<open>k\<close> to life: disconnecting \<open>k\<close>, or adopting it
  and disconnecting its predecessor, leaves no leak.\<close>

definition leak_only :: "('k, 'w) session_env \<Rightarrow> 'k option \<Rightarrow> ('k, 'w) registry \<Rightarrow> bool" where
  "leak_only env x g \<longleftrightarrow> registry_ok g \<and> (\<forall>k. se_alive env k (rg_net g) \<longrightarrow> Some k = x \<or> owned k g)"

lemma leak_only_None: "leak_only env None g = no_leak env g"
  by (simp add: leak_only_def no_leak_def)

lemma no_leak_disconnect: "well_behaved env \<Longrightarrow> leak_only env x g \<Longrightarrow> no_leak env (disconnect env x g)"
  by (cases x) (auto simp: behaved leak_only_def no_leak_def disconnect_def)

lemma leak_only_mono: "no_leak env g \<Longrightarrow> leak_only env x g"
  by (auto simp: no_leak_def leak_only_def)

lemma leak_only_entry_ops [simp]:
  "leak_only env x (touch env' i g) = leak_only env x g" "leak_only env x (set_state i s g) = leak_only env x g"
  "leak_only env x (fail_entry i e g) = leak_only env x g"
  by (simp_all add: leak_only_def entry_ops)

lemma leak_only_net:
  "leak_only env x g \<Longrightarrow> (\<And>k. se_alive env k w \<Longrightarrow> se_alive env k (rg_net g) \<or> Some k = x) \<Longrightarrow>
     leak_only env x (g\<lparr>rg_net := w\<rparr>)"
  by (auto simp: leak_only_def)

lemma adopt_simps [simp]:
  "rg_hosts (adopt env i k g) = rg_hosts g" "rg_net (adopt env i k g) = rg_net g"
  "rg_next (adopt env i k g) = rg_next g" "registry_ok (adopt env i k g) = registry_ok g"
  "en_connector (rg_entries (adopt env i k g) j) = (if j = i then Some k else en_connector (rg_entries g j))"
  by (simp_all add: adopt_def)

lemma owned_adopt: "rg_hosts g h = Some i \<Longrightarrow> owned k (adopt env i k g)"
  unfolding owned_def by (rule exI[of _ h], rule exI[of _ i]) simp

lemma owned_adopt_other: "owned k' g \<Longrightarrow> owned k' (adopt env i k g) \<or> en_connector (rg_entries g i) = Some k'"
  unfolding owned_def by (metis adopt_simps(1,5))

lemma no_leak_adopt:
  assumes wb: "well_behaved env" and l: "leak_only env (Some k) g" and h: "rg_hosts g h = Some i"
  defines "previous \<equiv> en_connector (rg_entries g i)"
  shows "no_leak env (if previous \<noteq> None \<and> previous \<noteq> Some k then disconnect env previous (adopt env i k g)
                      else adopt env i k g)"
proof -
  have o: "leak_only env previous (adopt env i k g)"
    using l owned_adopt[OF h, of k env] owned_adopt_other[of _ g env i k]
    unfolding leak_only_def previous_def by (metis adopt_simps(2,4) option.inject)
  show ?thesis
  proof (cases "previous \<noteq> None \<and> previous \<noteq> Some k")
    case True
    then show ?thesis using no_leak_disconnect[OF wb o] by simp
  next
    case False
    then show ?thesis using o owned_adopt[OF h, of k env]
      by (auto simp: leak_only_def no_leak_def simp del: adopt_simps)
  qed
qed

lemma entry_of_facts:
  assumes "registry_ok g" "entry_of host g = (i, g')"
  shows "rg_hosts g' host = Some i \<and> registry_ok g' \<and> rg_net g' = rg_net g \<and> (\<forall>k. owned k g \<longrightarrow> owned k g')
    \<and> (\<forall>k. en_connector (rg_entries g' i) = Some k \<longrightarrow> owned k g)"
  using assms
proof (cases "rg_hosts g host")
  case (Some j)
  then have "i = j" "g' = g" using assms(2) by (auto simp: entry_of_def)
  then show ?thesis using Some assms(1) by (auto simp: owned_def)
next
  case None
  then have g': "i = rg_next g" "rg_hosts g' = (rg_hosts g)(host \<mapsto> rg_next g)" "rg_net g' = rg_net g"
    "rg_entries g' = (rg_entries g)(rg_next g := new_entry host)" "rg_next g' = Suc (rg_next g)"
    using assms(2) by (auto simp: entry_of_def)
  have old: "rg_hosts g h = Some j \<Longrightarrow> j \<noteq> rg_next g \<and> h \<noteq> host" for h j
    using assms(1) None by (auto simp: registry_ok_def)
  have "registry_ok g'"
    unfolding registry_ok_def g'
  proof (intro allI impI)
    fix h j assume h: "((rg_hosts g)(host \<mapsto> rg_next g)) h = Some j"
    show "j < Suc (rg_next g) \<and> en_host (((rg_entries g)(rg_next g := new_entry host)) j) = h"
    proof (cases "h = host")
      case True
      then show ?thesis using h by (simp add: new_entry_def)
    next
      case False
      then show ?thesis using h old[of h j] assms(1) by (simp add: registry_ok_def less_SucI)
    qed
  qed
  moreover have "owned k g \<Longrightarrow> owned k g'" for k
    unfolding owned_def g' using old by (metis fun_upd_apply)
  ultimately show ?thesis by (simp add: g' new_entry_def)
qed

lemma no_leak_entry_of: "no_leak env g \<Longrightarrow> entry_of host g = (i, g') \<Longrightarrow> no_leak env g'"
  using entry_of_facts[of g host i g'] by (auto simp: no_leak_def)

lemma leak_only_connect:
  "well_behaved env \<Longrightarrow> no_leak env g \<Longrightarrow> se_connect env k w = (c, w') \<Longrightarrow>
     (\<And>k'. se_alive env k' w \<Longrightarrow> se_alive env k' (rg_net g)) \<Longrightarrow> leak_only env (Some k) (g\<lparr>rg_net := w'\<rparr>)"
  by (rule leak_only_net) (auto intro: leak_only_mono dest: behaved(3))

lemma no_leak_connect_device:
  assumes wb: "well_behaved env" and nl: "no_leak env g" and h: "rg_hosts g h = Some i"
  shows "no_leak env (snd (connect_device env host i d g))"
proof (cases "se_create env d (rg_net g)")
  case (Pair c w1)
  have created: "no_leak env (g\<lparr>rg_net := w1\<rparr>)" "\<And>k'. se_alive env k' w1 \<Longrightarrow> se_alive env k' (rg_net g)"
    using nl behaved(2)[OF wb Pair] by (auto simp: no_leak_def)
  show ?thesis
  proof (cases c)
    case (Inl e)
    then show ?thesis using Pair created(1)
      by (simp add: connect_device_def open_failed_def disconnect_def)
  next
    case (Inr k)
    note c = this
    obtain x w2 where x: "se_connect env k w1 = (x, w2)" by fastforce
    have l2: "leak_only env (Some k) (g\<lparr>rg_net := w2\<rparr>)"
      using leak_only_connect[OF wb nl x] created(2) by blast
    show ?thesis
    proof (cases "x = Inr True")
      case False
      have "no_leak env (disconnect env (Some k) (g\<lparr>rg_net := w2\<rparr>))"
        "no_leak env (disconnect env (Some k) (fail_entry i r (g\<lparr>rg_net := w2\<rparr>)))" for r
        using no_leak_disconnect[OF wb] l2 by simp_all
      then show ?thesis using False Pair c x
        by (auto simp: connect_device_def open_failed_def Let_def split: sum.splits bool.splits)
    next
      case True
      obtain p w3 where p: "se_prepare env k w2 = (p, w3)" by fastforce
      have "leak_only env (Some k) ((g\<lparr>rg_net := w2\<rparr>)\<lparr>rg_net := w3\<rparr>)"
        by (rule leak_only_net[OF l2]) (use behaved(4)[OF wb p] in auto)
      then have l3: "leak_only env (Some k) (g\<lparr>rg_net := w3\<rparr>)" by simp
      show ?thesis
      proof (cases p)
        case (Inl e)
        then show ?thesis using True Pair c x p no_leak_disconnect[OF wb l3]
          by (simp add: connect_device_def open_failed_def)
      next
        case (Inr u)
        have "rg_hosts (g\<lparr>rg_net := w3\<rparr>) h = Some i" using h by simp
        from no_leak_adopt[OF wb l3 this] show ?thesis using True Pair c x p Inr
          by (auto simp: connect_device_def Let_def split: if_splits)
      qed
    qed
  qed
qed

lemma no_leak_open:
  assumes "well_behaved env" "no_leak env g"
  shows "no_leak env (snd (open_session env host g))"
proof -
  obtain i g' where e: "entry_of (strip host) g = (i, g')" by fastforce
  have nl: "no_leak env g'" using no_leak_entry_of[OF assms(2) e] .
  have h: "rg_hosts g' (strip host) = Some i"
    using entry_of_facts[OF _ e] assms(2) by (simp add: no_leak_def)
  have "no_leak env (modify_entry i (\<lambda>e. e\<lparr>en_state := Opening, en_error := ''''\<rparr>) g')"
    using nl by simp
  from no_leak_connect_device[OF assms(1) this, of "strip host" i]
  have "no_leak env (snd (connect_device env (strip host) i d
      (modify_entry i (\<lambda>e. e\<lparr>en_state := Opening, en_error := ''''\<rparr>) g')))" for d
    using h by simp
  then show ?thesis using assms(2) nl e by (simp add: open_session_def Let_def split: option.splits)
qed

lemma no_leak_close_locked:
  assumes wb: "well_behaved env" and nl: "no_leak env g"
  shows "no_leak env (close_locked env i g) \<and> en_connector (rg_entries (close_locked env i g) i) = None"
proof -
  let ?k = "en_connector (rg_entries g i)"
  let ?g = "modify_entry i (\<lambda>e. e\<lparr>en_state := Closing, en_connector := None\<rparr>) g"
  have "owned k g \<Longrightarrow> Some k = ?k \<or> owned k ?g" for k
    unfolding owned_def by (metis (no_types, lifting) modify_simps(1,4))
  then have "leak_only env ?k ?g" using nl by (auto simp: leak_only_def no_leak_def)
  from no_leak_disconnect[OF wb this] show ?thesis
    by (simp add: close_locked_def Let_def) (simp add: entry_ops)
qed

lemma no_leak_close_end:
  assumes nl: "no_leak env g" and e: "\<And>i. rg_hosts g (strip host) = Some i \<Longrightarrow> en_connector (rg_entries g i) = None"
  shows "no_leak env (close_end host g)"
proof -
  have "owned k g \<Longrightarrow> owned k (close_end host g)" for k
  proof -
    assume "owned k g"
    then obtain h i where hi: "rg_hosts g h = Some i" "en_connector (rg_entries g i) = Some k"
      by (auto simp: owned_def)
    then have "h \<noteq> strip host" using e by auto
    then show ?thesis unfolding owned_def close_end_def
      by (intro exI[of _ h] exI[of _ i]) (simp add: hi)
  qed
  then show ?thesis using nl by (auto simp: no_leak_def registry_ok_def close_end_def)
qed

lemma close_locked_hosts [simp]: "rg_hosts (close_locked env i g) = rg_hosts g"
  by (simp add: close_locked_def Let_def entry_ops)

lemma no_leak_close:
  assumes "well_behaved env" "no_leak env g"
  shows "no_leak env (snd (close_session env host g))"
proof (cases "close_begin host g")
  case None
  then show ?thesis using assms by (simp add: close_session_def)
next
  case (Some i)
  have "no_leak env (close_end host (close_locked env i g))"
    using no_leak_close_locked[OF assms, of i] Some
    by (intro no_leak_close_end) (auto simp: close_begin_def)
  then show ?thesis using Some by (simp add: close_session_def)
qed

lemma no_leak_exec_adopt:
  assumes wb: "well_behaved env" and nl: "no_leak env g" and h: "rg_hosts g h = Some i"
  shows "no_leak env (exec_adopt env existing i g)"
proof (cases existing)
  case (Some k)
  have "leak_only env (Some k) g" using nl by (rule leak_only_mono)
  from no_leak_adopt[OF wb this h] nl Some show ?thesis
    by (cases "en_connector (rg_entries g i)") (auto simp: exec_adopt_def disconnect_def)
qed (use nl in \<open>simp add: exec_adopt_def\<close>)

lemma exec_adopt_hosts [simp]: "rg_hosts (exec_adopt env existing i g) = rg_hosts g"
  by (simp add: exec_adopt_def split: option.splits)

lemma no_leak_exec_open:
  "well_behaved env \<Longrightarrow> no_leak env g \<Longrightarrow> no_leak env (snd (exec_open env host ensure existing i g))"
proof -
  assume a: "well_behaved env" "no_leak env g"
  let ?g = "set_state i (if en_connector (rg_entries g i) \<noteq> None then Stale else Closed) g"
  have "no_leak env (snd (open_session env host ?g))" using a by (intro no_leak_open) simp_all
  then show ?thesis using a by (auto simp: exec_open_def Let_def split: prod.splits)
qed

definition keeps_no_leak :: "('k, 'w) session_env \<Rightarrow> ('k \<Rightarrow> (('k, 'w) registry, 'v) act) \<Rightarrow> bool" where
  "keeps_no_leak env op \<longleftrightarrow> (\<forall>k g. no_leak env g \<longrightarrow> no_leak env (snd (op k g)))"

lemma no_leak_exec_operation:
  assumes wb: "well_behaved env" and nl: "no_leak env g" and op: "keeps_no_leak env op"
  shows "no_leak env (snd (exec_operation env host i op g))"
proof (cases "en_connector (rg_entries g i)")
  case None
  then show ?thesis using nl by (simp add: exec_operation_def)
next
  case (Some k)
  obtain p w where p: "se_prepare env k (rg_net g) = (p, w)" by fastforce
  have "no_leak env (g\<lparr>rg_net := w\<rparr>)"
    using nl behaved(4)[OF wb p] by (auto simp: no_leak_def)
  then have "no_leak env (snd (run_operation env k op g))"
    using nl op p by (auto simp: run_operation_def keeps_no_leak_def split: sum.splits)
  then show ?thesis using Some
    by (auto simp: exec_operation_def Let_def split: prod.splits sum.splits)
qed

lemma no_leak_execute:
  fixes op :: "'k \<Rightarrow> (('k, 'w) registry, 'v) act"
  assumes wb: "well_behaved env" and nl: "no_leak env g" and op: "keeps_no_leak env op"
  shows "no_leak env (snd (execute env host ensure acquired op g))"
proof -
  obtain i g1 where e: "entry_of (strip host) g = (i, g1)" by fastforce
  have "no_leak env g1" "rg_hosts g1 (strip host) = Some i"
    using no_leak_entry_of[OF nl e] entry_of_facts[OF _ e] nl by (auto simp: no_leak_def)
  then have "no_leak env (exec_adopt env x i g1)" for x by (rule no_leak_exec_adopt[OF wb])
  then have "no_leak env (snd (exec_locked env (strip host) ensure x i op g1))" for x
  proof -
    obtain r :: "'v executed option" and g2 where o: "exec_open env (strip host) ensure x i (exec_adopt env x i g1) = (r, g2)"
      by fastforce
    have "no_leak env g2" using no_leak_exec_open[OF wb \<open>\<And>x. no_leak env (exec_adopt env x i g1)\<close>] o
      by (metis snd_conv)
    then show ?thesis using no_leak_exec_operation[OF wb _ op, of g2] o
      by (cases r) (simp_all add: exec_locked_def)
  qed
  then show ?thesis using nl \<open>no_leak env g1\<close> e
    by (simp add: execute_def exec_begin_def Let_def split: prod.splits)
qed

section \<open>Properties of the registry\<close>

inductive registry_step :: "('k, 'w) session_env \<Rightarrow> ('k, 'w) registry \<Rightarrow> ('k, 'w) registry \<Rightarrow> bool"
  for env :: "('k, 'w) session_env" where
  opened: "open_session env host g = (r, g') \<Longrightarrow> registry_step env g g'"
| closed: "close_session env host g = (r, g') \<Longrightarrow> registry_step env g g'"
| executed: "keeps_no_leak env (op :: 'k \<Rightarrow> (('k, 'w) registry, unit) act) \<Longrightarrow>
    execute env host ensure acquired op g = (x, g') \<Longrightarrow> registry_step env g g'"
| lost: "(\<And>k. se_alive env k w \<Longrightarrow> se_alive env k (rg_net g)) \<Longrightarrow> registry_step env g (g\<lparr>rg_net := w\<rparr>)"

lemma no_leak_step:
  assumes wb: "well_behaved env"
  shows "registry_step env g g' \<Longrightarrow> no_leak env g \<Longrightarrow> no_leak env g'"
proof (induction rule: registry_step.induct)
  case (opened host g r g')
  then show ?case using no_leak_open[OF wb, of g host] by simp
next
  case (closed host g r g')
  then show ?case using no_leak_close[OF wb, of g host] by simp
next
  case (executed op host ensure acquired g x g')
  then show ?case using no_leak_execute[OF wb, of g op host ensure acquired] by simp
next
  case (lost w g)
  then show ?case by (auto simp: no_leak_def)
qed


lemma open_ok_alive: "exec_open env host ensure existing i g = (None, g') \<Longrightarrow>
    existing \<noteq> None \<and> g' = g \<or> is_alive env (en_connector (rg_entries g' i)) g'"
  by (auto simp: exec_open_def Let_def split: if_splits prod.splits)

lemma exec_open_reply: "exec_open env host ensure existing i g = (Some x, g') \<Longrightarrow> \<not> ex_ok x \<and> ex_value x = None"
  by (auto simp: exec_open_def Let_def session_failed_def split: if_splits prod.splits)

lemma exec_begin_existing:
  assumes "exec_begin env host g = (Some k, i, g')"
  shows "g' = g \<and> en_connector (rg_entries g i) = Some k \<and> is_alive env (Some k) g"
  using assms
  by (auto simp: exec_begin_def get_connector_def entry_of_def Let_def split: option.splits if_splits)

lemma exec_operation_ok:
  assumes "exec_operation env host i op g = (x, g')" "ex_ok x"
  shows "\<exists>k g2 v. en_connector (rg_entries g i) = Some k \<and> run_operation env k op g = (Inr v, g2)
    \<and> ex_value x = Some v \<and> rg_net g' = rg_net g2 \<and> rg_hosts g' = rg_hosts g2"
  using assms
  by (auto simp: exec_operation_def session_failed_def Let_def entry_ops
      split: option.splits prod.splits sum.splits if_splits)

lemma execute_sound:
  fixes op :: "'k \<Rightarrow> (('k, 'w) registry, 'v) act"
  assumes "execute env host ensure acquired op g = (x, g')"
  shows "(ex_ok x \<longrightarrow> acquired \<and> (\<exists>k g1 g2 v. is_alive env (Some k) g1
            \<and> run_operation env k op g1 = (Inr v, g2) \<and> ex_value x = Some v
            \<and> rg_net g' = rg_net g2 \<and> rg_hosts g' = rg_hosts g2))
    \<and> (\<not> ex_ok x \<longrightarrow> ex_value x = None) \<and> (\<not> acquired \<longrightarrow> rg_net g' = rg_net g)"
proof -
  obtain existing i g1 where b: "exec_begin env (strip host) g = (existing, i, g1)"
    by (metis prod_cases3)
  have net: "rg_net g1 = rg_net g"
    using b by (auto simp: exec_begin_def entry_of_def split: option.splits)
  obtain r :: "'v executed option" and g2 where
    o: "exec_open env (strip host) ensure existing i (exec_adopt env existing i g1) = (r, g2)" by fastforce
  show ?thesis
  proof (cases "strip host = [] \<or> \<not> acquired")
    case True
    then show ?thesis using assms b net by (auto simp: execute_def Let_def session_failed_def split: if_splits)
  next
    case False
    show ?thesis
    proof (cases r)
      case (Some y)
      then show ?thesis using False assms b o exec_open_reply
        by (fastforce simp: execute_def Let_def exec_locked_def)
    next
      case None
      then have ex: "exec_operation env (strip host) i op g2 = (x, g')"
        using False assms b o by (simp add: execute_def Let_def exec_locked_def)
      have alive: "is_alive env (en_connector (rg_entries g2 i)) g2"
      proof (cases existing)
        case None
        then show ?thesis using open_ok_alive[OF o[unfolded \<open>r = None\<close>]] by simp
      next
        case (Some k)
        with b have f: "g1 = g" "en_connector (rg_entries g1 i) = Some k" "is_alive env (Some k) g1"
          using exec_begin_existing[of env "strip host" g k i g1] by auto
        then have "exec_adopt env existing i g1 = g1" using Some by (simp add: exec_adopt_def)
        then have "g2 = g1" using o Some \<open>r = None\<close> by (simp add: exec_open_def f)
        then show ?thesis using f by simp
      qed
      have fail: "\<not> ex_ok x \<Longrightarrow> ex_value x = None"
        using ex by (auto simp: exec_operation_def session_failed_def Let_def
            split: option.splits prod.splits sum.splits)
      show ?thesis
      proof (cases "ex_ok x")
        case True
        then obtain k h v where k: "en_connector (rg_entries g2 i) = Some k"
          "run_operation env k op g2 = (Inr v, h)" "ex_value x = Some v" "rg_net g' = rg_net h"
          "rg_hosts g' = rg_hosts h"
          using exec_operation_ok[OF ex] by blast
        moreover have "is_alive env (Some k) g2" using alive k(1) by simp
        ultimately have "\<exists>k g1 g2 v. is_alive env (Some k) g1 \<and> run_operation env k op g1 = (Inr v, g2)
            \<and> ex_value x = Some v \<and> rg_net g' = rg_net g2 \<and> rg_hosts g' = rg_hosts g2" by blast
        then show ?thesis using False True by simp
      qed (use False fail in auto)
    qed
  qed
qed


section \<open>A small network\<close>

text \<open>Connectors are numbered; the world is the next number and the list of live connectors.\<close>

definition sample_env :: "(nat, nat \<times> nat list) session_env" where
  "sample_env = \<lparr>
     se_device = (\<lambda>h w. if h = ''R1'' then Some \<lparr>dv_dev = 0, dv_method = ''ssh''\<rparr> else None),
     se_create = (\<lambda>d (n, ks). (Inr n, (Suc n, ks))),
     se_connect = (\<lambda>k (n, ks). (Inr True, (n, k # ks))),
     se_reason = (\<lambda>k w. ''login failed''),
     se_prepare = (\<lambda>k w. (Inr (), w)),
     se_alive = (\<lambda>k (n, ks). k \<in> set ks),
     se_connection = (\<lambda>k w. True),
     se_disconnect = (\<lambda>k (n, ks). (n, filter (\<lambda>j. j \<noteq> k) ks)),
     se_time = (\<lambda>w. 0)\<rparr>"

definition sample_registry :: "(nat, nat \<times> nat list) registry" where
  "sample_registry = \<lparr>rg_hosts = Map.empty, rg_entries = (\<lambda>i. new_entry ''''), rg_next = 0, rg_net = (0, [])\<rparr>"

lemma sample_env_behaved: "well_behaved sample_env"
  by (auto simp: well_behaved_def sample_env_def)

lemma sample_registry_ok: "no_leak sample_env sample_registry"
  by (simp add: no_leak_def registry_ok_def sample_registry_def sample_env_def)



text \<open>\<open>close\<close> removes the host from the map after it has released the operation lock: a session
  opened in between is forgotten while it is alive.\<close>

lemma close_open_race:
  "let g1 = snd (open_session sample_env ''R1'' sample_registry);
       g2 = close_locked sample_env 0 g1;
       g3 = snd (open_session sample_env ''R1'' g2);
       g4 = close_end ''R1'' g3
   in close_begin ''R1'' g1 = Some 0 \<and> rg_net g4 = (2, [1])
      \<and> sr_ok (fst (open_session sample_env ''R1'' g2)) \<and> rg_hosts g4 ''R1'' = None"
  by code_simp

section \<open>The registry as the controllers' executor\<close>

text \<open>\<open>_session_provider_for_host\<close> of the controllers, applied to its host; no connector is the case
  in which it returns no provider.\<close>

definition session_provider :: "('k, 'w) session_env \<Rightarrow> string \<Rightarrow> string \<Rightarrow> (('k, 'w) registry, 'k option) act" where
  "session_provider env method host g =
     (let m = upper (text_default method ''SSH'') in
      if m = ''SSH'' \<or> m = ''TELNET'' then
        (case get_connector env host g of
           Some k \<Rightarrow> (Inr (Some k), g)
         | None \<Rightarrow>
             let (r, g) = open_session env host g in
             (case (if sr_ok r then get_connector env host g else None) of
                Some k \<Rightarrow> (Inr (Some k), g)
              | None \<Rightarrow> (Inl (text_default (sr_message r)
                  (''Could not open a device session for '' @ host @ ''.'')), g)))
      else if m = ''RESTCONF'' then (Inr None, g)
      else (Inl (''persistent tab session is not supported for '' @ m), g))"

definition registry_execute :: "('k, 'w) session_env \<Rightarrow> string \<Rightarrow> ('k \<Rightarrow> (('k, 'w) registry, 'v) act)
    \<Rightarrow> (('k, 'w) registry, 'v executed) act" where
  "registry_execute env host op g = (case execute env host True True op g of (x, g') \<Rightarrow> (Inr x, g'))"

lemma run_operation_ran: "run_operation env k op g = (Inr v, g') \<Longrightarrow> \<exists>g1. op k g1 = (Inr v, g')"
  by (auto simp: run_operation_def split: if_splits prod.splits sum.splits)

interpretation sessions: session_executor "registry_execute env" for env :: "('k, 'w) session_env"
proof unfold_locales
  fix host and op :: "'k \<Rightarrow> (('k, 'w) registry, ('r, 'x) reply) act" and w x w'
  show "\<exists>x w'. registry_execute env host op w = (Inr x, w')"
    by (auto simp: registry_execute_def split: prod.splits)
  assume "registry_execute env host op w = (Inr x, w')" and ok: "ex_ok x"
  then have "execute env host True True op w = (x, w')"
    by (auto simp: registry_execute_def split: prod.splits)
  from execute_sound[OF this] ok run_operation_ran
  show "\<exists>k w1 w2 v. op k w1 = (Inr v, w2) \<and> ex_value x = Some v" by metis
qed

text \<open>Property C15. A push over the session registry reports success only for work that was done: the
  host had no pending task, or the collected tasks were given to \<open>push_tasks\<close> inside one
  \<open>execute\<close>, that call succeeded, and the report shown is its report.\<close>

theorem push_reports_honestly:
  assumes "ct_execute c = registry_execute env" "ct_managed c" "\<not> ct_dev_host c (strip host)"
    and "rp_ok (fst (push c host m g))"
  shows "ct_collect c (strip host) m g = Inr [] \<or>
    (\<exists>ts g1 g2 r. ct_collect c (strip host) m g = Inr ts \<and> ts \<noteq> []
       \<and> ct_push c (strip host) m ts g1 = (Inr r, g2) \<and> rp_ok r
       \<and> rp_report (fst (push c host m g)) = rp_report r)"
  using assms by (rule sessions.push_success_ran)

definition sample_controller :: "((nat, nat \<times> nat list) registry, unit, unit, nat, unit) controller" where
  "sample_controller = \<lparr>ct_label = ''Sample'', ct_collect = (\<lambda>h m g. Inr [()]),
     ct_preview = (\<lambda>t m. Inr []),
     ct_push = (\<lambda>h m ts g. (Inr ((reply_of True ''done'')\<lparr>rp_report := ts\<rparr>), g)),
     ct_dev_host = (\<lambda>h. False), ct_managed = True, ct_execute = registry_execute sample_env,
     ct_connector = session_provider sample_env ''ssh'', ct_reconcile = None,
     ct_verify = (\<lambda>h m k x. areturn \<lparr>nt_ok = Some True, nt_message = ''''\<rparr>), ct_context = (\<lambda>ts r. None)\<rparr>"

lemma push_reports_honestly_witness:
  "\<exists>ts g1 g2 r. ct_collect sample_controller ''R1'' ''all'' sample_registry = Inr ts \<and> ts \<noteq> []
     \<and> ct_push sample_controller ''R1'' ''all'' ts g1 = (Inr r, g2) \<and> rp_ok r"
proof -
  have "rp_ok (fst (push sample_controller ''R1'' ''all'' sample_registry))" "strip ''R1'' = ''R1''"
    by code_simp+
  moreover have "ct_execute sample_controller = registry_execute sample_env" "ct_managed sample_controller"
    "\<not> ct_dev_host sample_controller h" "ct_collect sample_controller h m g \<noteq> Inr []" for h m g
    by (simp_all add: sample_controller_def)
  ultimately show ?thesis
    using push_reports_honestly[of sample_controller sample_env "''R1''" "''all''" sample_registry] by force
qed

end
