(* ===== verification/Py_Values.thy ===== *)
theory Py_Values
  imports Py_Prelude
begin

text \<open>
  Plain payload values and the conversions of \<open>core/database/conversion.py\<close>
  (\<open>ConversionMixin\<close>): \<open>_int_or_none\<close>, \<open>_int_or_zero\<close>, \<open>_bool_int\<close>, \<open>_str_or_none\<close>.

  \<open>_int_or_none\<close> falls back from \<open>int(text)\<close> to \<open>float(text)\<close>, which rounds to an IEEE double;
  \<open>read_float_int\<close> computes that rounding exactly with integers (half to even, 53 significant
  bits, smallest unit \<open>2 ^ -1074\<close>, overflow to infinity).
\<close>

section \<open>Payload values\<close>

datatype pyval = PNone | PBool bool | PInt int | PStr string

type_synonym payload = "string \<rightharpoonup> pyval"

text \<open>The life cycle of a desired-state row, the \<open>CHECK\<close> of every \<open>sync_status\<close> and \<open>success\<close> column.\<close>

datatype sync_status = PendingApply | PendingDelete | Synchronized | Skipped

fun truthy :: "pyval \<Rightarrow> bool" where
  "truthy PNone = False"
| "truthy (PBool b) = b"
| "truthy (PInt i) = (i \<noteq> 0)"
| "truthy (PStr s) = (s \<noteq> [])"

fun py_str :: "pyval \<Rightarrow> string" where
  "py_str PNone = ''None''"
| "py_str (PBool b) = (if b then ''True'' else ''False'')"
| "py_str (PInt i) = show_int i"
| "py_str (PStr s) = s"

text \<open>\<open>payload.get(k)\<close> and \<open>payload.get(k, default)\<close>.\<close>

definition get_default :: "payload \<Rightarrow> string \<Rightarrow> pyval \<Rightarrow> pyval" where
  "get_default p k d = (case p k of None \<Rightarrow> d | Some v \<Rightarrow> v)"

definition get :: "payload \<Rightarrow> string \<Rightarrow> pyval" where
  "get p k = get_default p k PNone"

text \<open>\<open>a or b\<close>, and the idiom \<open>str(v or d)\<close>.\<close>

definition py_or :: "pyval \<Rightarrow> pyval \<Rightarrow> pyval" where
  "py_or a b = (if truthy a then a else b)"

definition text_or :: "pyval \<Rightarrow> string \<Rightarrow> string" where
  "text_or v d = py_str (py_or v (PStr d))"

lemma get_simps [dict_simps, simp]:
  "get (p(k \<mapsto> v)) k = v"
  "k \<noteq> k' \<Longrightarrow> get (p(k \<mapsto> v)) k' = get p k'"
  "get Map.empty k = PNone"
  by (simp_all add: get_def get_default_def)

lemma text_or_simps [text_simps, simp]:
  "text_or PNone d = d"
  "text_or (PStr s) d = (if s = [] then d else s)"
  by (simp_all add: text_or_def py_or_def)

section \<open>Numbers written as floats\<close>

definition digit_part :: "string \<Rightarrow> string" where
  "digit_part s = takeWhile (\<lambda>c. is_digit c \<or> c = CHR ''_'') s"

text \<open>The value of a digit part and the number of its digits; an empty part is zero.\<close>

definition read_part :: "string \<Rightarrow> (nat \<times> nat) option" where
  "read_part s =
     (if s = [] then Some (0, 0)
      else map_option (\<lambda>n. (n, length (filter is_digit s))) (read_digits 0 False s))"

definition read_exponent :: "string \<Rightarrow> int option" where
  "read_exponent s =
     (case s of
        [] \<Rightarrow> Some 0
      | e # r \<Rightarrow>
          if e \<noteq> CHR ''e'' \<and> e \<noteq> CHR ''E'' then None
          else case r of
              [] \<Rightarrow> None
            | c # cs \<Rightarrow>
                if c = CHR ''-'' then map_option (\<lambda>n. - int n) (read_digits 0 False cs)
                else if c = CHR ''+'' then map_option int (read_digits 0 False cs)
                else map_option int (read_digits 0 False (c # cs)))"

fun bit_length :: "nat \<Rightarrow> nat" where
  "bit_length n = (if n = 0 then 0 else Suc (bit_length (n div 2)))"

declare bit_length.simps [simp del]

text \<open>\<open>\<lfloor>log\<^sub>2 (num / den)\<rfloor>\<close> for positive arguments.\<close>

definition ratio_exponent :: "nat \<Rightarrow> nat \<Rightarrow> int" where
  "ratio_exponent num den =
     (let e = int (bit_length num) - int (bit_length den)
      in if (if e \<ge> 0 then num \<ge> den * 2 ^ nat e else num * 2 ^ nat (- e) \<ge> den) then e else e - 1)"

definition round_half_even :: "nat \<Rightarrow> nat \<Rightarrow> nat" where
  "round_half_even num den =
     (let q = num div den; r = num mod den
      in if 2 * r < den then q
         else if den < 2 * r then Suc q
         else if even q then q else Suc q)"

text \<open>The double nearest to \<open>num / den\<close>, when it is finite and integral.\<close>

definition double_int :: "nat \<Rightarrow> nat \<Rightarrow> nat option" where
  "double_int num den =
     (if num = 0 then Some 0
      else
        let q = max (ratio_exponent num den - 52) (- 1074) in
        if q \<ge> 0 then
          (let m = round_half_even num (den * 2 ^ nat q) * 2 ^ nat q
           in if m < 2 ^ 1024 then Some m else None)
        else
          (let m = round_half_even (num * 2 ^ nat (- q)) den
           in if 2 ^ nat (- q) dvd m then Some (m div 2 ^ nat (- q)) else None))"

definition read_float_int :: "string \<Rightarrow> int option" where
  "read_float_int s =
     (let t = strip s;
          neg = (t \<noteq> [] \<and> hd t = CHR ''-'');
          u = (if t \<noteq> [] \<and> (hd t = CHR ''-'' \<or> hd t = CHR ''+'') then tl t else t);
          ip = digit_part u;
          r = drop (length ip) u;
          dot = (r \<noteq> [] \<and> hd r = CHR ''.'');
          fp = (if dot then digit_part (tl r) else []);
          rest = (if dot then drop (length fp) (tl r) else r)
      in if ip = [] \<and> fp = [] then None
         else case (read_part ip, read_part fp, read_exponent rest) of
             (Some (a, _), Some (b, k), Some e) \<Rightarrow>
               let mant = a * 10 ^ k + b; ex = e - int k in
               map_option (\<lambda>n. if neg then - int n else int n)
                 (if ex \<ge> 0 then double_int (mant * 10 ^ nat ex) 1
                  else double_int mant (10 ^ nat (- ex)))
           | _ \<Rightarrow> None)"

section \<open>Conversions of the database facade\<close>

fun int_or_none :: "pyval \<Rightarrow> int option" where
  "int_or_none PNone = None"
| "int_or_none (PBool b) = Some (if b then 1 else 0)"
| "int_or_none (PInt i) = Some i"
| "int_or_none (PStr s) =
     (if s = [] then None
      else case read_int s of Some i \<Rightarrow> Some i | None \<Rightarrow> read_float_int s)"

definition int_or_zero :: "pyval \<Rightarrow> int" where
  "int_or_zero v = (case int_or_none v of None \<Rightarrow> 0 | Some i \<Rightarrow> i)"

fun bool_int :: "pyval \<Rightarrow> int" where
  "bool_int (PStr s) =
     (if lower (strip s) \<in> {''1'', ''true'', ''yes'', ''on''} then 1 else 0)"
| "bool_int v = (if truthy v then 1 else 0)"

definition str_or_none :: "pyval \<Rightarrow> string option" where
  "str_or_none v =
     (if v = PNone then None
      else let t = strip (py_str v) in if t = [] then None else Some t)"

text \<open>\<open>int(value)\<close> on a payload value; \<open>None\<close> stands for the \<open>TypeError\<close> or \<open>ValueError\<close>.\<close>

fun py_int :: "pyval \<Rightarrow> int option" where
  "py_int PNone = None"
| "py_int (PBool b) = Some (if b then 1 else 0)"
| "py_int (PInt i) = Some i"
| "py_int (PStr s) = read_int s"

lemma bool_int_range: "bool_int v = 0 \<or> bool_int v = 1"
  by (cases v) auto

lemma int_or_none_show_int [simp]: "int_or_none (PStr (show_int i)) = Some i"
  by simp

lemma int_or_none_py_str: "int_or_none (PInt i) = int_or_none (PStr (py_str (PInt i)))"
  by simp

lemma str_or_none_Some: "str_or_none v = Some t \<Longrightarrow> t \<noteq> [] \<and> strip t = t"
  by (auto simp: str_or_none_def Let_def split: if_splits)

lemma str_or_none_idem [simp]:
  "str_or_none v = Some t \<Longrightarrow> str_or_none (PStr t) = Some t"
  by (auto simp: str_or_none_def Let_def split: if_splits)

lemma str_or_none_id: "t \<noteq> [] \<Longrightarrow> strip t = t \<Longrightarrow> str_or_none (PStr t) = Some t"
  by (simp add: str_or_none_def)

end
