(* ===== verification/Ipv4.thy ===== *)
theory Ipv4
  imports Py_Prelude
begin

text \<open>
  The part of Python's \<open>ipaddress\<close> module the validators use: an IPv4 address is a number below
  \<open>2 ^ 32\<close>, written as four octets without leading zeros; a mask is written as a prefix length,
  as a netmask or as a host mask. \<open>parse_ipv4\<close> is \<open>IPv4Address(text)\<close>, \<open>parse_mask\<close> the
  \<open>_make_netmask\<close> of \<open>IPv4Interface\<close>, and \<open>show_ipv4\<close> is \<open>str\<close> of an address.
\<close>

section \<open>Addresses\<close>

definition parse_octet :: "string \<Rightarrow> nat option" where
  "parse_octet s =
     (if s = [] \<or> \<not> list_all is_digit s \<or> 3 < length s then None
      else if s \<noteq> ''0'' \<and> hd s = CHR ''0'' then None
      else case read_digits 0 False s of
          None \<Rightarrow> None
        | Some n \<Rightarrow> if n \<le> 255 then Some n else None)"

definition parse_ipv4 :: "string \<Rightarrow> nat option" where
  "parse_ipv4 s =
     (case map parse_octet (split_on (CHR ''.'') s) of
        [Some a, Some b, Some c, Some d] \<Rightarrow> Some (((a * 256 + b) * 256 + c) * 256 + d)
      | _ \<Rightarrow> None)"

definition show_ipv4 :: "nat \<Rightarrow> string" where
  "show_ipv4 n =
     show_nat (n div 16777216 mod 256) @ ''.'' @ show_nat (n div 65536 mod 256) @ ''.''
     @ show_nat (n div 256 mod 256) @ ''.'' @ show_nat (n mod 256)"

lemma length_show_nat_octet: "n \<le> 255 \<Longrightarrow> length (show_nat n) \<le> 3"
proof -
  assume "n \<le> 255"
  then have "n div 10 < 10 \<or> n div 10 div 10 < 10" by arith
  then show ?thesis
    by (subst show_nat.simps, subst show_nat.simps, subst show_nat.simps) auto
qed

lemma hd_show_nat: "0 < n \<Longrightarrow> hd (show_nat n) \<noteq> CHR ''0''"
proof (induction n rule: show_nat.induct)
  case (1 n)
  have zero: "digit_char d = CHR ''0'' \<longleftrightarrow> d = 0" if "d < 10" for d
  proof -
    have "digit_char 0 = CHR ''0''" by code_simp
    moreover have "digit_val (digit_char d) = d" using that by simp
    moreover have "digit_val (CHR ''0'') = 0" by code_simp
    ultimately show ?thesis by metis
  qed
  show ?case
  proof (cases "n < 10")
    case True
    then show ?thesis using "1.prems" zero by (simp add: show_nat.simps [of n])
  next
    case False
    then have "hd (show_nat n) = hd (show_nat (n div 10))"
      by (simp add: show_nat.simps [of n] hd_append)
    then show ?thesis using False "1.IH" by simp
  qed
qed

lemma parse_octet_show_nat [simp]: "n \<le> 255 \<Longrightarrow> parse_octet (show_nat n) = Some n"
proof -
  assume le: "n \<le> 255"
  have "show_nat 0 = ''0''" by code_simp
  then have "show_nat n \<noteq> ''0'' \<Longrightarrow> hd (show_nat n) \<noteq> CHR ''0''"
    using hd_show_nat[of n] by (cases "n = 0") auto
  then show ?thesis
    using le length_show_nat_octet[OF le] read_digits_show_nat[of n]
    by (auto simp: parse_octet_def list_all_iff show_nat_digits)
qed

lemma no_dot_show_nat: "CHR ''.'' \<notin> set (show_nat n)"
proof
  assume "CHR ''.'' \<in> set (show_nat n)"
  then have "is_digit (CHR ''.'')" by (rule show_nat_digits)
  moreover have "\<not> is_digit (CHR ''.'')" by code_simp
  ultimately show False by simp
qed

lemma octets_recombine:
  fixes n :: nat
  assumes "n < 2 ^ 32"
  shows "((n div 16777216 mod 256 * 256 + n div 65536 mod 256) * 256 + n div 256 mod 256) * 256
           + n mod 256 = n"
proof -
  have a: "n div 16777216 mod 256 = n div 16777216" using assms by simp
  have b: "n div 16777216 = n div 65536 div 256" by (simp add: div_mult2_eq[symmetric])
  have c: "n div 65536 = n div 256 div 256" by (simp add: div_mult2_eq[symmetric])
  show ?thesis
    unfolding a unfolding b unfolding c by (simp add: mult.commute)
qed

text \<open>Every address is read back from its text.\<close>

lemma parse_show_ipv4 [simp]: "n < 2 ^ 32 \<Longrightarrow> parse_ipv4 (show_ipv4 n) = Some n"
proof -
  assume n: "n < 2 ^ 32"
  let ?a = "n div 16777216 mod 256" and ?b = "n div 65536 mod 256"
  let ?c = "n div 256 mod 256" and ?d = "n mod 256"
  have le: "?a \<le> 255" "?b \<le> 255" "?c \<le> 255" "?d \<le> 255" by (auto simp: less_Suc_eq_le[symmetric])
  have "split_on (CHR ''.'') (show_ipv4 n) = [show_nat ?a, show_nat ?b, show_nat ?c, show_nat ?d]"
    by (simp add: show_ipv4_def split_on_append no_dot_show_nat split_on_no_sep)
  then show ?thesis
    using le octets_recombine[OF n] by (simp add: parse_ipv4_def)
qed

lemma parse_octet_le: "parse_octet s = Some n \<Longrightarrow> n \<le> 255"
  by (auto simp: parse_octet_def split: if_splits option.splits)

lemma parse_ipv4_bound: "parse_ipv4 s = Some n \<Longrightarrow> n < 2 ^ 32"
  by (auto simp: parse_ipv4_def map_eq_Cons_conv dest!: parse_octet_le
      split: list.splits option.splits)

section \<open>Masks\<close>

definition all_ones :: nat where
  "all_ones = 2 ^ 32 - 1"

text \<open>\<open>_ALL_ONES ^ (_ALL_ONES >> prefixlen)\<close>: the shifted value is a submask, so the exclusive or
  is a difference.\<close>

definition prefix_mask :: "nat \<Rightarrow> nat" where
  "prefix_mask p = all_ones - all_ones div 2 ^ p"

fun trailing_zeros :: "nat \<Rightarrow> nat" where
  "trailing_zeros n = (if n = 0 \<or> odd n then 0 else Suc (trailing_zeros (n div 2)))"

declare trailing_zeros.simps [simp del]

definition mask_prefix :: "nat \<Rightarrow> nat option" where
  "mask_prefix m =
     (let t = (if m = 0 then 32 else trailing_zeros m); p = 32 - t
      in if m div 2 ^ t = 2 ^ p - 1 then Some p else None)"

text \<open>A mask text is a prefix length, a netmask, or a host mask, tried in this order.\<close>

definition parse_mask :: "string \<Rightarrow> nat option" where
  "parse_mask s =
     (if s \<noteq> [] \<and> list_all is_digit s then
        (case read_digits 0 False s of
           Some p \<Rightarrow> if p \<le> 32 then Some p else None
         | None \<Rightarrow> None)
      else
        (case parse_ipv4 s of
           None \<Rightarrow> None
         | Some m \<Rightarrow>
             (case mask_prefix m of
                Some p \<Rightarrow> Some p
              | None \<Rightarrow> mask_prefix (all_ones - m))))"

lemma pow_minus_one_div: "((2::nat) ^ (p + t) - 1) div 2 ^ p = 2 ^ t - 1"
proof -
  have "((2::nat) ^ t - 1) * 2 ^ p + (2 ^ p - 1) = 2 ^ (p + t) - 1"
    by (simp add: power_add algebra_simps)
  then have "((2::nat) ^ (p + t) - 1) div 2 ^ p = ((2 ^ t - 1) * 2 ^ p + (2 ^ p - 1)) div 2 ^ p"
    by (simp only:)
  also have "\<dots> = 2 ^ t - 1"
    by (subst div_mult_self3) auto
  finally show ?thesis .
qed

lemma prefix_mask_alt: "p + t = 32 \<Longrightarrow> prefix_mask p = (2 ^ p - 1) * 2 ^ t"
proof -
  assume pt: "p + t = 32"
  have "all_ones div 2 ^ p = 2 ^ t - 1"
    using pow_minus_one_div[of p t] pt by (simp only: all_ones_def)
  then have "prefix_mask p = (2 ^ (p + t) - 1) - (2 ^ t - 1)"
    using pt by (simp add: prefix_mask_def all_ones_def)
  then show ?thesis by (simp add: power_add algebra_simps)
qed

lemma trailing_zeros_shift: "odd m \<Longrightarrow> trailing_zeros (m * 2 ^ t) = t"
proof (induction t)
  case 0
  then show ?case by (simp add: trailing_zeros.simps [of m])
next
  case (Suc t)
  moreover from Suc.prems have "m \<noteq> 0" by (cases m) auto
  ultimately show ?case by (simp add: trailing_zeros.simps [of "m * (2 * 2 ^ t)"])
qed

lemma mask_prefix_prefix_mask [simp]:
  assumes "p \<le> 32"
  shows "mask_prefix (prefix_mask p) = Some p"
proof -
  obtain t where pt: "p + t = 32" using assms by (metis le_add_diff_inverse)
  show ?thesis
  proof (cases "p = 0")
    case True
    then show ?thesis by (simp add: prefix_mask_def mask_prefix_def)
  next
    case False
    then have "odd ((2::nat) ^ p - 1)" by simp
    then have t: "trailing_zeros (prefix_mask p) = t"
      by (simp add: prefix_mask_alt[OF pt] trailing_zeros_shift)
    have "(2::nat) ^ p \<ge> 2 ^ 1" using False by (intro power_increasing) auto
    then have "prefix_mask p \<noteq> 0" by (simp add: prefix_mask_alt[OF pt])
    moreover have "32 - t = p" using pt by simp
    moreover have "prefix_mask p div 2 ^ t = 2 ^ p - 1" by (simp add: prefix_mask_alt[OF pt])
    ultimately show ?thesis
      by (simp add: mask_prefix_def t)
  qed
qed

lemma prefix_mask_bound: "prefix_mask p < 2 ^ 32"
  by (simp add: prefix_mask_def all_ones_def less_imp_diff_less)

lemma show_ipv4_not_digits: "\<not> list_all is_digit (show_ipv4 n)"
proof -
  have "\<not> is_digit (CHR ''.'')" by code_simp
  then show ?thesis by (simp add: show_ipv4_def)
qed

lemma show_ipv4_nonempty [simp]: "show_ipv4 n \<noteq> []"
  by (simp add: show_ipv4_def)

lemma parse_mask_show [simp]: "p \<le> 32 \<Longrightarrow> parse_mask (show_ipv4 (prefix_mask p)) = Some p"
  using show_ipv4_not_digits prefix_mask_bound by (simp add: parse_mask_def)

lemma mask_prefix_le: "mask_prefix m = Some p \<Longrightarrow> p \<le> 32"
  by (auto simp: mask_prefix_def Let_def split: if_splits)

lemma parse_mask_le: "parse_mask s = Some p \<Longrightarrow> p \<le> 32"
  by (auto simp: parse_mask_def dest: mask_prefix_le split: if_splits option.splits)

lemma strip_show_ipv4 [simp]: "strip (show_ipv4 n) = show_ipv4 n"
  by (rule strip_id) (simp add: show_ipv4_def)

lemma no_slash_show_ipv4: "CHR ''/'' \<notin> set (show_ipv4 n)"
proof -
  have d: "\<not> is_digit (CHR ''/'')" by code_simp
  have "CHR ''/'' \<notin> set (show_nat k)" for k
    using show_nat_digits[of "CHR ''/''" k] d by blast
  then show ?thesis by (simp add: show_ipv4_def)
qed

text \<open>\<open>IPv4Interface(text)\<close>: an address with an optional mask after one slash. The result is the
  address and the prefix length.\<close>

definition parse_interface :: "string \<Rightarrow> (nat \<times> nat) option" where
  "parse_interface s =
     (case split_on (CHR ''/'') s of
        [a] \<Rightarrow> map_option (\<lambda>n. (n, 32)) (parse_ipv4 a)
      | [a, m] \<Rightarrow>
          (case parse_ipv4 a of
             None \<Rightarrow> None
           | Some n \<Rightarrow> map_option (\<lambda>p. (n, p)) (parse_mask m))
      | _ \<Rightarrow> None)"

lemma parse_interface_show [simp]:
  "n < 2 ^ 32 \<Longrightarrow> p \<le> 32 \<Longrightarrow>
   parse_interface (show_ipv4 n @ CHR ''/'' # show_ipv4 (prefix_mask p)) = Some (n, p)"
  by (simp add: parse_interface_def split_on_append no_slash_show_ipv4 split_on_no_sep)

lemma parse_interface_bounds: "parse_interface s = Some (n, p) \<Longrightarrow> n < 2 ^ 32 \<and> p \<le> 32"
  by (auto simp: parse_interface_def dest: parse_ipv4_bound parse_mask_le
      split: list.splits option.splits)

end
