(* ===== verification/Iface_Models.thy ===== *)
theory Iface_Models
  imports Py_Values Ipv4
begin

text \<open>
  Router-interface names and types (\<open>features/interfaces/models.py\<close>).

  The regular expression \<open>([A-Za-z-]+)(\d[\d/]*(?:\.\d+)?)\<close>, matched against the whole text, is
  written out as the recogniser \<open>split_name\<close>. The lemmas show that a canonical name is its own
  canonical name, for every text.
\<close>

section \<open>Types and names\<close>

datatype iface_type = Physical | Loopback | Tunnel | Subinterface

fun type_value :: "iface_type \<Rightarrow> string" where
  "type_value Physical = ''physical''"
| "type_value Loopback = ''loopback''"
| "type_value Tunnel = ''tunnel''"
| "type_value Subinterface = ''subinterface''"

definition type_of_value :: "string \<Rightarrow> iface_type option" where
  "type_of_value s = find (\<lambda>t. type_value t = s) [Physical, Loopback, Tunnel, Subinterface]"

definition canonical_prefixes :: "(string \<times> string) list" where
  "canonical_prefixes =
     [(''gi'', ''GigabitEthernet''), (''gig'', ''GigabitEthernet''),
      (''gigabitethernet'', ''GigabitEthernet''),
      (''fa'', ''FastEthernet''), (''fastethernet'', ''FastEthernet''),
      (''te'', ''TenGigabitEthernet''), (''tengigabitethernet'', ''TenGigabitEthernet''),
      (''eth'', ''Ethernet''), (''ethernet'', ''Ethernet''),
      (''se'', ''Serial''), (''serial'', ''Serial''),
      (''lo'', ''Loopback''), (''loopback'', ''Loopback''),
      (''tu'', ''Tunnel''), (''tunnel'', ''Tunnel'')]"

definition name_char :: "char \<Rightarrow> bool" where
  "name_char c = (is_alpha c \<or> c = CHR ''-'')"

definition slot_char :: "char \<Rightarrow> bool" where
  "slot_char c = (is_digit c \<or> c = CHR ''/'')"

definition number_part :: "string \<Rightarrow> bool" where
  "number_part s =
     (s \<noteq> [] \<and> is_digit (hd s) \<and>
      (case dropWhile slot_char s of
         [] \<Rightarrow> True
       | c # ds \<Rightarrow> c = CHR ''.'' \<and> ds \<noteq> [] \<and> list_all is_digit ds))"

definition split_name :: "string \<Rightarrow> (string \<times> string) option" where
  "split_name s =
     (let pre = takeWhile name_char s; rest = dropWhile name_char s
      in if pre \<noteq> [] \<and> number_part rest then Some (pre, rest) else None)"

definition canonical_text :: "string \<Rightarrow> string" where
  "canonical_text s =
     (let name = filter (\<lambda>c. c \<noteq> CHR '' '') (strip s)
      in case split_name name of
           None \<Rightarrow> name
         | Some (pre, rest) \<Rightarrow>
             (case map_of canonical_prefixes (lower pre) of
                None \<Rightarrow> pre @ rest
              | Some full \<Rightarrow> full @ rest))"

definition canonical_interface_name :: "pyval \<Rightarrow> string" where
  "canonical_interface_name v = canonical_text (text_or v '''')"

definition short_prefixes :: "(string \<times> string) list" where
  "short_prefixes =
     [(''TenGigabitEthernet'', ''Te''), (''GigabitEthernet'', ''Gi''), (''FastEthernet'', ''Fa''),
      (''Ethernet'', ''Eth''), (''Serial'', ''Se''), (''Loopback'', ''Lo''), (''Tunnel'', ''Tu'')]"

definition short_interface_name :: "pyval \<Rightarrow> string" where
  "short_interface_name v =
     (let name = canonical_interface_name v
      in case find (\<lambda>(p, _). starts_with name p) short_prefixes of
           None \<Rightarrow> name
         | Some (p, short) \<Rightarrow> short @ drop (length p) name)"

definition infer_interface_type :: "pyval \<Rightarrow> iface_type" where
  "infer_interface_type v =
     (let name = canonical_interface_name v
      in if contains name ''.'' then Subinterface
         else if starts_with name ''Loopback'' then Loopback
         else if starts_with name ''Tunnel'' then Tunnel
         else Physical)"

record capabilities =
  can_create :: bool
  can_delete :: bool
  can_configure_l1 :: bool

fun type_capabilities :: "iface_type \<Rightarrow> capabilities" where
  "type_capabilities Physical = \<lparr>can_create = False, can_delete = False, can_configure_l1 = True\<rparr>"
| "type_capabilities Loopback = \<lparr>can_create = True, can_delete = True, can_configure_l1 = False\<rparr>"
| "type_capabilities Tunnel = \<lparr>can_create = True, can_delete = True, can_configure_l1 = False\<rparr>"
| "type_capabilities Subinterface = \<lparr>can_create = True, can_delete = True, can_configure_l1 = False\<rparr>"

record iface_metadata =
  md_type :: string
  md_display :: string
  md_virtual :: bool
  md_capabilities :: capabilities

definition qml_metadata :: "pyval \<Rightarrow> iface_metadata" where
  "qml_metadata name =
     (let t = infer_interface_type name
      in \<lparr>md_type = type_value t, md_display = short_interface_name name,
          md_virtual = (t \<noteq> Physical), md_capabilities = type_capabilities t\<rparr>)"

section \<open>Names are in canonical form\<close>

lemma canonical_prefixes_facts:
  "(k, f) \<in> set canonical_prefixes \<Longrightarrow>
     f \<noteq> [] \<and> list_all name_char f \<and> list_all is_alpha f \<and> map_of canonical_prefixes (lower f) = Some f"
proof -
  have "\<forall>x \<in> set canonical_prefixes. case x of (k, f) \<Rightarrow>
     f \<noteq> [] \<and> list_all name_char f \<and> list_all is_alpha f \<and> map_of canonical_prefixes (lower f) = Some f"
    by code_simp
  then show "(k, f) \<in> set canonical_prefixes \<Longrightarrow> ?thesis" by auto
qed

lemma alpha_not_space: "is_alpha c \<Longrightarrow> \<not> is_space c"
  by (auto simp: is_alpha_def is_space_def Let_def)

lemma alpha_not_digit: "is_alpha c \<Longrightarrow> \<not> is_digit c"
  by (auto simp: is_alpha_def is_digit_def Let_def)

lemma name_char_not_space: "name_char c \<Longrightarrow> \<not> is_space c"
proof -
  have "\<not> is_space (CHR ''-'')" by code_simp
  then show "name_char c \<Longrightarrow> ?thesis" by (auto simp: name_char_def alpha_not_space)
qed

lemma digit_not_name_char: "is_digit c \<Longrightarrow> \<not> name_char c"
proof -
  have "\<not> is_digit (CHR ''-'')" by code_simp
  then show "is_digit c \<Longrightarrow> ?thesis" by (auto simp: name_char_def dest: alpha_not_digit)
qed

lemma blank_is_space: "is_space (CHR '' '')"
  by code_simp

abbreviation no_blanks :: "string \<Rightarrow> string" where
  "no_blanks s \<equiv> filter (\<lambda>c. c \<noteq> CHR '' '') s"

lemma no_blanks_strip_ends:
  "no_blanks (strip s) = [] \<or>
   \<not> is_space (hd (no_blanks (strip s))) \<and> \<not> is_space (last (no_blanks (strip s)))"
proof (cases "strip s = []")
  case False
  note ends = strip_ends[OF False]
  obtain c cs where c: "strip s = c # cs" using False by (cases "strip s") auto
  obtain d ds where d: "strip s = ds @ [d]" using False by (metis append_butlast_last_id)
  have nc: "\<not> is_space c" using ends(1) c by simp
  then have "c \<noteq> CHR '' ''" using blank_is_space by auto
  then have h: "hd (no_blanks (strip s)) = c" by (simp add: c)
  have nd: "\<not> is_space d" using ends(2) d by simp
  then have "d \<noteq> CHR '' ''" using blank_is_space by auto
  then have l: "last (no_blanks (strip s)) = d" by (simp add: d)
  show ?thesis using h l nc nd by simp
qed simp

lemma strip_no_blanks: "strip (no_blanks (strip s)) = no_blanks (strip s)"
  using no_blanks_strip_ends by (rule strip_id)

lemma split_name_Some:
  "split_name s = Some (pre, rest) \<longleftrightarrow>
     s = pre @ rest \<and> pre \<noteq> [] \<and> list_all name_char pre \<and> number_part rest"
proof
  assume "split_name s = Some (pre, rest)"
  then show "s = pre @ rest \<and> pre \<noteq> [] \<and> list_all name_char pre \<and> number_part rest"
    by (auto simp: split_name_def Let_def list_all_iff dest: set_takeWhileD split: if_splits)
next
  assume r: "s = pre @ rest \<and> pre \<noteq> [] \<and> list_all name_char pre \<and> number_part rest"
  then obtain c cs where c: "rest = c # cs" "is_digit c"
    by (cases rest) (auto simp: number_part_def)
  then have "takeWhile name_char s = pre" "dropWhile name_char s = rest"
    using r digit_not_name_char[OF c(2)] by (auto simp: list_all_iff takeWhile_append dropWhile_append)
  then show "split_name s = Some (pre, rest)" using r by (simp add: split_name_def)
qed

lemma canonical_text_cases:
  obtains (plain) "canonical_text s = no_blanks (strip s)"
  | (mapped) pre rest k full where
      "no_blanks (strip s) = pre @ rest" "number_part rest" "(k, full) \<in> set canonical_prefixes"
      "canonical_text s = full @ rest"
proof (cases "split_name (no_blanks (strip s))")
  case None
  then show thesis by (intro plain) (simp add: canonical_text_def)
next
  case (Some x)
  obtain pre rest where x: "x = (pre, rest)" by (cases x)
  with Some have sn: "no_blanks (strip s) = pre @ rest" "number_part rest"
    by (auto simp: split_name_Some)
  show thesis
  proof (cases "map_of canonical_prefixes (lower pre)")
    case None
    then show thesis using Some x sn by (intro plain) (simp add: canonical_text_def)
  next
    case m: (Some full)
    show thesis
      by (rule mapped[OF sn map_of_SomeD[OF m]]) (simp add: canonical_text_def Some x m)
  qed
qed

lemma canonical_text_clean:
  "strip (canonical_text s) = canonical_text s \<and> no_blanks (canonical_text s) = canonical_text s"
proof (cases s rule: canonical_text_cases)
  case plain
  then show ?thesis by (simp add: strip_no_blanks)
next
  case (mapped pre rest k full)
  have full: "full \<noteq> []" "list_all name_char full"
    using canonical_prefixes_facts[OF mapped(3)] by auto
  have ne: "rest \<noteq> []" using mapped(2) by (simp add: number_part_def)
  then have "last (no_blanks (strip s)) = last rest" using mapped(1) by simp
  then have l: "\<not> is_space (last rest)"
    using no_blanks_strip_ends[of s] mapped(1) ne by simp
  have h: "\<not> is_space (hd full)" using full by (cases full) (auto simp: name_char_not_space)
  have "strip (full @ rest) = full @ rest" using full(1) ne h l by (intro strip_id) simp
  moreover have "no_blanks full = full"
    using full(2) blank_is_space name_char_not_space by (fastforce simp: list_all_iff filter_id_conv)
  moreover have "no_blanks rest = rest"
  proof -
    have "no_blanks (pre @ rest) = pre @ rest" by (simp only: mapped(1)[symmetric]) simp
    then have "CHR '' '' \<notin> set (pre @ rest)" by (simp only: filter_id_conv) blast
    then show ?thesis by (auto simp: filter_id_conv)
  qed
  ultimately show ?thesis by (simp add: mapped(4))
qed

lemma canonical_text_idem [simp]: "canonical_text (canonical_text s) = canonical_text s"
proof (cases s rule: canonical_text_cases)
  case plain
  then show ?thesis unfolding canonical_text_def by (simp add: strip_no_blanks Let_def)
next
  case (mapped pre rest k full)
  have full: "full \<noteq> []" "list_all name_char full" "map_of canonical_prefixes (lower full) = Some full"
    using canonical_prefixes_facts[OF mapped(3)] by auto
  have "split_name (full @ rest) = Some (full, rest)"
    using full mapped(2) by (simp add: split_name_Some)
  moreover have "no_blanks (strip (full @ rest)) = full @ rest"
    using canonical_text_clean[of s] by (simp add: mapped(4) del: filter_append)
  ultimately show ?thesis by (simp add: mapped(4) canonical_text_def[of "full @ rest"] full(3))
qed

lemma canonical_text_Nil [simp]: "canonical_text [] = []"
  by (simp add: canonical_text_def split_name_def)

lemma canonical_text_nonempty: "strip s \<noteq> [] \<Longrightarrow> canonical_text s \<noteq> []"
proof (cases s rule: canonical_text_cases)
  case plain
  assume ne: "strip s \<noteq> []"
  then have "hd (strip s) \<in> set (strip s)" "hd (strip s) \<noteq> CHR '' ''"
    using strip_ends(1)[OF ne] blank_is_space by auto
  then have "no_blanks (strip s) \<noteq> []" by (auto simp: filter_empty_conv)
  then show ?thesis using plain by simp
next
  case (mapped pre rest k full)
  then show ?thesis using canonical_prefixes_facts by auto
qed

lemma canonical_interface_name_idem [simp]:
  "canonical_interface_name (PStr (canonical_interface_name v)) = canonical_interface_name v"
  by (simp add: canonical_interface_name_def)

lemma canonical_interface_name_PStr: "canonical_interface_name (PStr s) = canonical_text s"
  by (simp add: canonical_interface_name_def)

end
