(* ===== verification/Iface_Validation.thy ===== *)
theory Iface_Validation
  imports Iface_Models
begin

text \<open>
  Validation of a router-interface payload (\<open>features/interfaces/validation.py\<close>).

  \<open>valid_iface_name\<close> is the regular expression \<open>[A-Za-z][A-Za-z-]*\d[\d/]*(?:\.\d+)?\<close>, matched
  against the whole text. Raised \<open>InterfaceValidationError\<close>s are the constructors of
  \<open>iface_error\<close>. The lemmas show what an accepted payload satisfies and that an accepted payload
  is accepted again unchanged.
\<close>

section \<open>Validation\<close>

datatype iface_error =
    UnsupportedVirtualType
  | PhysicalNotCreatable
  | ParentNotPhysical
  | MustBeInteger string
  | OutOfRange string int int
  | MaskTogether
  | InvalidIpv4
  | InvalidName
  | ProfileUnsupported iface_type string
  | SubifParentMismatch
  | TunnelEndsRequired
  | TunnelDestinationInvalid
  | TunnelSourceInvalid
  | PhysicalNotDiscovered

definition bounded_integer :: "pyval \<Rightarrow> string \<Rightarrow> int \<Rightarrow> int \<Rightarrow> iface_error + int" where
  "bounded_integer v label lo hi =
     (case read_int (strip (py_str v)) of
        None \<Rightarrow> Inl (MustBeInteger label)
      | Some i \<Rightarrow> if lo \<le> i \<and> i \<le> hi then Inr i else Inl (OutOfRange label lo hi))"

definition virtual_interface_name :: "pyval \<Rightarrow> payload \<Rightarrow> iface_error + string" where
  "virtual_interface_name ty p =
     (case type_of_value (lower (strip (text_or ty ''''))) of
        None \<Rightarrow> Inl UnsupportedVirtualType
      | Some Physical \<Rightarrow> Inl PhysicalNotCreatable
      | Some Loopback \<Rightarrow>
          sbind (bounded_integer (get p ''number'') ''Interface number'' 0 2147483647)
            (\<lambda>n. Inr (''Loopback'' @ show_int n))
      | Some Tunnel \<Rightarrow>
          sbind (bounded_integer (get p ''number'') ''Interface number'' 0 2147483647)
            (\<lambda>n. Inr (''Tunnel'' @ show_int n))
      | Some Subinterface \<Rightarrow>
          (let parent = canonical_interface_name (get p ''parent_interface'') in
           if infer_interface_type (PStr parent) \<noteq> Physical then Inl ParentNotPhysical
           else sbind (bounded_integer (get p ''number'') ''Subinterface number'' 1 4294967295)
             (\<lambda>n. Inr (parent @ ''.'' @ show_int n))))"

definition normalize_ipv4 :: "pyval \<Rightarrow> pyval \<Rightarrow> iface_error + (pyval \<times> pyval)" where
  "normalize_ipv4 address netmask =
     (let ip = strip (text_or address ''''); m = strip (text_or netmask '''') in
      if ip = [] \<and> m = [] then Inr (PNone, PNone)
      else if ip = [] \<or> m = [] then Inl MaskTogether
      else case parse_interface (ip @ CHR ''/'' # dropWhile (\<lambda>c. c = CHR ''/'') m) of
          None \<Rightarrow> Inl InvalidIpv4
        | Some (n, p) \<Rightarrow> Inr (PStr (show_ipv4 n), PStr (show_ipv4 (prefix_mask p))))"

definition valid_iface_name :: "string \<Rightarrow> bool" where
  "valid_iface_name s =
     (s \<noteq> [] \<and> is_alpha (hd s) \<and> number_part (dropWhile name_char s))"

fun allowed_kinds :: "iface_type \<Rightarrow> string list" where
  "allowed_kinds Physical = [''L3'', ''WAN'']"
| "allowed_kinds Loopback = [''L3'']"
| "allowed_kinds Tunnel = [''Tunnel'']"
| "allowed_kinds Subinterface = [''Subinterface'']"

text \<open>\<open>name.rsplit(".", 1)\<close>: the text before and after the last dot.\<close>

definition before_dot :: "string \<Rightarrow> string" where
  "before_dot s = rev (tl (dropWhile (\<lambda>c. c \<noteq> CHR ''.'') (rev s)))"

definition after_dot :: "string \<Rightarrow> string" where
  "after_dot s = rev (takeWhile (\<lambda>c. c \<noteq> CHR ''.'') (rev s))"

text \<open>The checks that depend on the type: lines 89--127 of \<open>validate_payload\<close>.\<close>

definition validate_subinterface :: "string \<Rightarrow> payload \<Rightarrow> iface_error + payload" where
  "validate_subinterface name p =
     (let p = p(''interface_kind'' \<mapsto> PStr ''Subinterface'');
          parent = canonical_interface_name (py_or (get p ''parent_interface'') (PStr (before_dot name)))
      in sbind (virtual_interface_name (PStr ''subinterface'')
                 [''parent_interface'' \<mapsto> PStr parent, ''number'' \<mapsto> PStr (after_dot name)])
        (\<lambda>expected.
          if expected \<noteq> name then Inl SubifParentMismatch
          else let p = p(''parent_interface'' \<mapsto> PStr parent) in
            sbind (bounded_integer (py_or (get p ''vlan_id'') (PStr (after_dot name))) ''VLAN ID'' 1 4094)
              (\<lambda>vlan. Inr (p(''vlan_id'' \<mapsto> PInt vlan)))))"

definition validate_tunnel :: "payload \<Rightarrow> iface_error + payload" where
  "validate_tunnel p =
     (let p = p(''interface_kind'' \<mapsto> PStr ''Tunnel'');
          source = strip (text_or (get p ''tunnel_src'') '''');
          destination = strip (text_or (get p ''tunnel_dst'') '''')
      in if source = [] \<or> destination = [] then Inl TunnelEndsRequired
         else if parse_ipv4 destination = None then Inl TunnelDestinationInvalid
         else let source' = canonical_interface_name (PStr source) in
           if parse_ipv4 source' = None \<and> \<not> valid_iface_name source' then Inl TunnelSourceInvalid
           else Inr (p(''tunnel_src'' \<mapsto> PStr source', ''tunnel_dst'' \<mapsto> PStr destination)))"

fun validate_profile :: "iface_type \<Rightarrow> string \<Rightarrow> payload \<Rightarrow> iface_error + payload" where
  "validate_profile Tunnel name p = validate_tunnel p"
| "validate_profile Subinterface name p = validate_subinterface name p"
| "validate_profile _ name p = Inr p"

definition normalize_secondary :: "payload \<Rightarrow> iface_error + (pyval \<times> pyval)" where
  "normalize_secondary p =
     (let ip = get p ''secondary_ip''; m = get p ''secondary_mask''
      in if truthy ip \<or> truthy m then normalize_ipv4 ip m else Inr (ip, m))"

definition validate_payload :: "payload \<Rightarrow> bool \<Rightarrow> iface_error + payload" where
  "validate_payload p existing =
     (let name = canonical_interface_name (get p ''interface_name'') in
      if name = [] \<or> \<not> valid_iface_name name then Inl InvalidName
      else let p = p(''interface_name'' \<mapsto> PStr name) in
        sbind (normalize_ipv4 (get p ''ip_address'') (get p ''subnet_mask'')) (\<lambda>(a, m).
        let p = p(''ip_address'' \<mapsto> a, ''subnet_mask'' \<mapsto> m) in
        sbind (normalize_secondary p) (\<lambda>(sa, sm).
        let p = p(''secondary_ip'' \<mapsto> sa, ''secondary_mask'' \<mapsto> sm);
            ty = infer_interface_type (PStr name);
            p = p(''interface_type'' \<mapsto> PStr (type_value ty));
            kind = strip (text_or (get p ''interface_kind'') ''L3'')
        in if kind \<notin> set (allowed_kinds ty) then Inl (ProfileUnsupported ty kind)
           else sbind (validate_profile ty name p) (\<lambda>p.
             if \<not> existing \<and> ty = Physical then Inl PhysicalNotDiscovered else Inr p))))"


section \<open>Results of the helpers\<close>

lemma bounded_integer_Inr:
  "bounded_integer v label lo hi = Inr i \<Longrightarrow> lo \<le> i \<and> i \<le> hi"
  by (auto simp: bounded_integer_def split: option.splits if_splits)

lemma bounded_integer_PInt [simp]:
  "lo \<le> i \<Longrightarrow> i \<le> hi \<Longrightarrow> bounded_integer (PInt i) label lo hi = Inr i"
  by (simp add: bounded_integer_def strip_show_int)

lemma drop_slashes_show_ipv4 [simp]:
  "dropWhile (\<lambda>c. c = CHR ''/'') (show_ipv4 n) = show_ipv4 n"
proof -
  have "hd (show_ipv4 n) \<in> set (show_ipv4 n)" by simp
  then have "hd (show_ipv4 n) \<noteq> CHR ''/''" using no_slash_show_ipv4[of n] by metis
  then show ?thesis by (cases "show_ipv4 n") auto
qed

lemma normalize_ipv4_cases:
  assumes "normalize_ipv4 a m = Inr r"
  obtains (none) "r = (PNone, PNone)"
  | (some) n p where "r = (PStr (show_ipv4 n), PStr (show_ipv4 (prefix_mask p)))"
      "n < 2 ^ 32" "p \<le> 32"
  using assms parse_interface_bounds
  by (auto simp: normalize_ipv4_def Let_def split: if_splits option.splits)

lemma normalize_ipv4_idem: "normalize_ipv4 a m = Inr (x, y) \<Longrightarrow> normalize_ipv4 x y = Inr (x, y)"
  by (erule normalize_ipv4_cases) (auto simp: normalize_ipv4_def)

lemma virtual_name_Subinterface:
  "virtual_interface_name (PStr ''subinterface'') p = Inr name \<Longrightarrow>
     \<exists>n. 1 \<le> n \<and> n \<le> 4294967295 \<and> infer_interface_type (PStr (canonical_interface_name (get p ''parent_interface''))) = Physical
       \<and> name = canonical_interface_name (get p ''parent_interface'') @ ''.'' @ show_int n"
proof -
  have "type_of_value (lower (strip ''subinterface'')) = Some Subinterface" by code_simp
  then show "virtual_interface_name (PStr ''subinterface'') p = Inr name \<Longrightarrow> ?thesis"
    by (auto simp: virtual_interface_name_def Let_def sbind_eq_Inr_conv
        split: if_splits dest!: bounded_integer_Inr)
qed

section \<open>Accepted payloads\<close>

text \<open>The payload after the checks that do not depend on the type.\<close>

definition common_fields :: "payload \<Rightarrow> string \<Rightarrow> pyval \<times> pyval \<Rightarrow> pyval \<times> pyval \<Rightarrow> payload" where
  "common_fields p name am sam =
     p(''interface_name'' \<mapsto> PStr name, ''ip_address'' \<mapsto> fst am, ''subnet_mask'' \<mapsto> snd am,
       ''secondary_ip'' \<mapsto> fst sam, ''secondary_mask'' \<mapsto> snd sam,
       ''interface_type'' \<mapsto> PStr (type_value (infer_interface_type (PStr name))))"

lemma normalize_secondary_idem:
  "normalize_secondary p = Inr (x, y) \<Longrightarrow> get q ''secondary_ip'' = x \<Longrightarrow>
   get q ''secondary_mask'' = y \<Longrightarrow> normalize_secondary q = Inr (x, y)"
  by (auto simp: normalize_secondary_def Let_def normalize_ipv4_idem split: if_splits)

lemma normalize_secondary_cong:
  "get p ''secondary_ip'' = get q ''secondary_ip'' \<Longrightarrow>
   get p ''secondary_mask'' = get q ''secondary_mask'' \<Longrightarrow>
   normalize_secondary p = normalize_secondary q"
  by (simp add: normalize_secondary_def)

lemma validate_payload_iff:
  "validate_payload p existing = Inr q \<longleftrightarrow>
     (\<exists>name am sam.
        name = canonical_interface_name (get p ''interface_name'') \<and>
        valid_iface_name name \<and>
        normalize_ipv4 (get p ''ip_address'') (get p ''subnet_mask'') = Inr am \<and>
        normalize_secondary p = Inr sam \<and>
        strip (text_or (get p ''interface_kind'') ''L3'')
          \<in> set (allowed_kinds (infer_interface_type (PStr name))) \<and>
        validate_profile (infer_interface_type (PStr name)) name (common_fields p name am sam) = Inr q \<and>
        (existing \<or> infer_interface_type (PStr name) \<noteq> Physical))"
proof -
  have sec: "normalize_secondary (p(''interface_name'' \<mapsto> n, ''ip_address'' \<mapsto> a, ''subnet_mask'' \<mapsto> m))
      = normalize_secondary p" for n a m
    by (rule normalize_secondary_cong) simp_all
  have ne: "valid_iface_name n \<Longrightarrow> n \<noteq> []" for n by (simp add: valid_iface_name_def)
  show ?thesis
    by (auto simp: validate_payload_def Let_def sbind_eq_Inr_conv sec common_fields_def
        dest: ne split: if_splits)
qed

lemma map_upd_same: "q k = Some v \<Longrightarrow> q(k \<mapsto> v) = q"
  by (rule map_upd_triv)

lemma get_Some: "q k = Some v \<Longrightarrow> get q k = v"
  by (simp add: get_def get_default_def)

lemma validate_tunnel_Inr:
  assumes "validate_tunnel p = Inr q"
  obtains src dst where
    "q = p(''interface_kind'' \<mapsto> PStr ''Tunnel'', ''tunnel_src'' \<mapsto> PStr src, ''tunnel_dst'' \<mapsto> PStr dst)"
    "src \<noteq> []" "dst \<noteq> []" "strip src = src" "canonical_text src = src" "strip dst = dst"
    "parse_ipv4 dst \<noteq> None" "parse_ipv4 src \<noteq> None \<or> valid_iface_name src"
proof -
  let ?s = "strip (text_or (get p ''tunnel_src'') '''')" and ?d = "strip (text_or (get p ''tunnel_dst'') '''')"
  have g: "get (p(''interface_kind'' \<mapsto> x)) ''tunnel_src'' = get p ''tunnel_src''"
    "get (p(''interface_kind'' \<mapsto> x)) ''tunnel_dst'' = get p ''tunnel_dst''" for x by simp_all
  from assms have "?s \<noteq> []" "?d \<noteq> []" "parse_ipv4 ?d \<noteq> None"
    and srcok: "parse_ipv4 (canonical_text ?s) \<noteq> None \<or> valid_iface_name (canonical_text ?s)"
    and q: "q = p(''interface_kind'' \<mapsto> PStr ''Tunnel'', ''tunnel_src'' \<mapsto> PStr (canonical_text ?s),
                  ''tunnel_dst'' \<mapsto> PStr ?d)"
    by (auto simp: validate_tunnel_def Let_def g canonical_interface_name_PStr split: if_splits)
  moreover have "canonical_text ?s \<noteq> []" using \<open>?s \<noteq> []\<close> by (intro canonical_text_nonempty) simp
  ultimately show thesis
    by (intro that[of "canonical_text ?s" ?d]) (auto simp: canonical_text_clean)
qed

lemma validate_subinterface_Inr:
  assumes "validate_subinterface name p = Inr q"
  obtains parent n vlan where
    "q = p(''interface_kind'' \<mapsto> PStr ''Subinterface'', ''parent_interface'' \<mapsto> PStr parent, ''vlan_id'' \<mapsto> PInt vlan)"
    "name = parent @ ''.'' @ show_int n" "canonical_text parent = parent"
    "infer_interface_type (PStr parent) = Physical" "1 \<le> n" "n \<le> 4294967295"
    "1 \<le> vlan" "vlan \<le> 4094"
    "virtual_interface_name (PStr ''subinterface'')
       [''parent_interface'' \<mapsto> PStr parent, ''number'' \<mapsto> PStr (after_dot name)] = Inr name"
proof -
  let ?v = "py_or (get p ''parent_interface'') (PStr (before_dot name))"
  let ?par = "canonical_interface_name ?v"
  have g: "get (p(''interface_kind'' \<mapsto> x)) ''parent_interface'' = get p ''parent_interface''" for x by simp
  from assms obtain vlan where
    v: "virtual_interface_name (PStr ''subinterface'')
         [''parent_interface'' \<mapsto> PStr ?par, ''number'' \<mapsto> PStr (after_dot name)] = Inr name"
    and b: "1 \<le> vlan \<and> vlan \<le> 4094"
    and q: "q = p(''interface_kind'' \<mapsto> PStr ''Subinterface'', ''parent_interface'' \<mapsto> PStr ?par, ''vlan_id'' \<mapsto> PInt vlan)"
    by (auto simp: validate_subinterface_def Let_def g sbind_eq_Inr_conv split: if_splits
        dest!: bounded_integer_Inr)
  have can: "canonical_interface_name (PStr ?par) = ?par" by simp
  then have "canonical_text ?par = ?par" by (simp only: canonical_interface_name_PStr)
  moreover from virtual_name_Subinterface[OF v] obtain n where
    "1 \<le> n" "n \<le> 4294967295" "infer_interface_type (PStr ?par) = Physical"
    "name = ?par @ ''.'' @ show_int n"
    by (auto simp: can)
  ultimately show thesis using that[OF q] b v by blast
qed

lemma validate_profile_keeps:
  assumes "validate_profile ty name p = Inr q"
    and "k \<notin> {''interface_kind'', ''parent_interface'', ''vlan_id'', ''tunnel_src'', ''tunnel_dst''}"
  shows "q k = p k"
proof (cases ty)
  case Tunnel
  with assms have "validate_tunnel p = Inr q" by simp
  then show ?thesis using assms(2) by (elim validate_tunnel_Inr) auto
next
  case Subinterface
  with assms have "validate_subinterface name p = Inr q" by simp
  then show ?thesis using assms(2) by (elim validate_subinterface_Inr) auto
qed (use assms in auto)

lemma validate_tunnel_idem: "validate_tunnel p = Inr q \<Longrightarrow> validate_tunnel q = Inr q"
proof (erule validate_tunnel_Inr)
  fix src dst
  assume q: "q = p(''interface_kind'' \<mapsto> PStr ''Tunnel'', ''tunnel_src'' \<mapsto> PStr src, ''tunnel_dst'' \<mapsto> PStr dst)"
    and facts: "src \<noteq> []" "dst \<noteq> []" "strip src = src" "canonical_text src = src" "strip dst = dst"
      "parse_ipv4 dst \<noteq> None" "parse_ipv4 src \<noteq> None \<or> valid_iface_name src"
  have upd: "q(''interface_kind'' \<mapsto> PStr ''Tunnel'') = q" "q(''tunnel_src'' \<mapsto> PStr src) = q"
    "q(''tunnel_dst'' \<mapsto> PStr dst) = q"
    by (rule map_upd_same, simp add: q)+
  have "get q ''tunnel_src'' = PStr src" "get q ''tunnel_dst'' = PStr dst"
    by (rule get_Some, simp add: q)+
  then show "validate_tunnel q = Inr q"
    using facts by (auto simp: validate_tunnel_def upd canonical_interface_name_PStr)
qed

lemma validate_subinterface_idem:
  assumes v: "validate_subinterface name p = Inr q" and name: "valid_iface_name name"
  shows "validate_subinterface name q = Inr q"
  using v
proof (rule validate_subinterface_Inr)
  fix parent n vlan
  assume q: "q = p(''interface_kind'' \<mapsto> PStr ''Subinterface'', ''parent_interface'' \<mapsto> PStr parent, ''vlan_id'' \<mapsto> PInt vlan)"
    and nm: "name = parent @ ''.'' @ show_int n" "canonical_text parent = parent"
    and vl: "1 \<le> vlan" "vlan \<le> 4094"
    and vn: "virtual_interface_name (PStr ''subinterface'')
       [''parent_interface'' \<mapsto> PStr parent, ''number'' \<mapsto> PStr (after_dot name)] = Inr name"
  have "\<not> is_alpha (CHR ''.'')" by code_simp
  then have ne: "parent \<noteq> []" using name nm(1) by (auto simp: valid_iface_name_def)
  have upd: "q(''interface_kind'' \<mapsto> PStr ''Subinterface'') = q" "q(''parent_interface'' \<mapsto> PStr parent) = q"
    "q(''vlan_id'' \<mapsto> PInt vlan) = q"
    by (rule map_upd_same, simp add: q)+
  have "get q ''parent_interface'' = PStr parent" "get q ''vlan_id'' = PInt vlan"
    by (rule get_Some, simp add: q)+
  then show "validate_subinterface name q = Inr q"
    using ne vn vl nm(2)
    by (simp add: validate_subinterface_def upd py_or_def canonical_interface_name_PStr)
qed

lemma validate_profile_kind:
  "validate_profile ty name p = Inr q \<Longrightarrow>
   strip (text_or (get p ''interface_kind'') ''L3'') \<in> set (allowed_kinds ty) \<Longrightarrow>
   strip (text_or (get q ''interface_kind'') ''L3'') \<in> set (allowed_kinds ty)"
proof (cases ty)
  case Tunnel
  have "strip ''Tunnel'' = ''Tunnel''" by code_simp
  then show "validate_profile ty name p = Inr q \<Longrightarrow> ?thesis"
    by (auto simp: Tunnel elim!: validate_tunnel_Inr)
next
  case Subinterface
  have "strip ''Subinterface'' = ''Subinterface''" by code_simp
  then show "validate_profile ty name p = Inr q \<Longrightarrow> ?thesis"
    by (auto simp: Subinterface elim!: validate_subinterface_Inr)
qed auto

text \<open>Property C1. Validation is a normal form: an accepted payload is accepted again, for an
  existing interface or a new one alike, and comes back unchanged, whatever its name, addresses,
  type and profile.\<close>

theorem validate_payload_idem:
  assumes "validate_payload p existing = Inr q"
  shows "validate_payload q existing = Inr q"
proof -
  from assms obtain name a m sa sm where
    name: "name = canonical_interface_name (get p ''interface_name'')" "valid_iface_name name" and
    am: "normalize_ipv4 (get p ''ip_address'') (get p ''subnet_mask'') = Inr (a, m)" and
    sam: "normalize_secondary p = Inr (sa, sm)" and
    kind: "strip (text_or (get p ''interface_kind'') ''L3'')
        \<in> set (allowed_kinds (infer_interface_type (PStr name)))" and
    prof: "validate_profile (infer_interface_type (PStr name)) name (common_fields p name (a, m) (sa, sm)) = Inr q"
    and ex: "existing \<or> infer_interface_type (PStr name) \<noteq> Physical"
    unfolding validate_payload_iff by (metis surj_pair)
  let ?ty = "infer_interface_type (PStr name)" and ?p = "common_fields p name (a, m) (sa, sm)"
  note keep = validate_profile_keeps[OF prof]
  have q: "q ''interface_name'' = Some (PStr name)" "q ''ip_address'' = Some a"
    "q ''subnet_mask'' = Some m" "q ''secondary_ip'' = Some sa" "q ''secondary_mask'' = Some sm"
    "q ''interface_type'' = Some (PStr (type_value ?ty))"
    by (subst keep, simp, simp add: common_fields_def)+
  have gq: "get q ''interface_name'' = PStr name" "get q ''ip_address'' = a"
    "get q ''subnet_mask'' = m" "get q ''secondary_ip'' = sa" "get q ''secondary_mask'' = sm"
    by (simp_all add: get_def get_default_def q)
  have cf: "common_fields q name (a, m) (sa, sm) = q"
    by (simp add: common_fields_def map_upd_same q)
  have "name = canonical_interface_name (PStr name)" by (simp add: name(1))
  moreover have "strip (text_or (get ?p ''interface_kind'') ''L3'') \<in> set (allowed_kinds ?ty)"
    using kind by (simp add: common_fields_def)
  note validate_profile_kind[OF prof this]
  moreover have "validate_profile ?ty name q = Inr q"
    using prof name(2) by (cases ?ty) (auto intro: validate_tunnel_idem validate_subinterface_idem)
  ultimately show ?thesis
    unfolding validate_payload_iff
    using name(2) normalize_ipv4_idem[OF am] normalize_secondary_idem[OF sam gq(4,5)] ex cf gq
    by (intro exI[of _ name] exI[of _ "(a, m)"] exI[of _ "(sa, sm)"]) simp
qed

lemma validate_payload_idem_witness:
  "\<exists>q. validate_payload [''interface_name'' \<mapsto> PStr ''gi 0/1.20'', ''interface_kind'' \<mapsto> PStr ''Subinterface'',
        ''ip_address'' \<mapsto> PStr ''10.0.0.1'', ''subnet_mask'' \<mapsto> PStr ''/24''] False = Inr q
     \<and> validate_payload q False = Inr q"
proof -
  let ?p = "[''interface_name'' \<mapsto> PStr ''gi 0/1.20'', ''interface_kind'' \<mapsto> PStr ''Subinterface'',
        ''ip_address'' \<mapsto> PStr ''10.0.0.1'', ''subnet_mask'' \<mapsto> PStr ''/24'']"
  have "\<not> isl (validate_payload ?p False)" by code_simp
  then obtain q where "validate_payload ?p False = Inr q" by (cases "validate_payload ?p False") auto
  then show ?thesis using validate_payload_idem[of ?p False q] by blast
qed

text \<open>Property C2. What an accepted payload satisfies: a canonical, well-formed name; no address at
  all or an address and a contiguous netmask in dotted notation; a profile its type allows; for a
  subinterface a physical parent that its name is built from and a VLAN from 1 to 4094; for a
  tunnel an IPv4 destination; and a physical interface only when it is already known.\<close>

theorem validate_payload_sound:
  assumes "validate_payload p existing = Inr q"
  shows "\<exists>name. get q ''interface_name'' = PStr name \<and> valid_iface_name name \<and> canonical_text name = name
    \<and> (get q ''ip_address'' = PNone \<and> get q ''subnet_mask'' = PNone \<or>
       (\<exists>n m. n < 2 ^ 32 \<and> m \<le> 32 \<and> get q ''ip_address'' = PStr (show_ipv4 n)
          \<and> get q ''subnet_mask'' = PStr (show_ipv4 (prefix_mask m))))
    \<and> strip (text_or (get q ''interface_kind'') ''L3'')
        \<in> set (allowed_kinds (infer_interface_type (PStr name)))
    \<and> (case infer_interface_type (PStr name) of
         Physical \<Rightarrow> existing
       | Loopback \<Rightarrow> True
       | Tunnel \<Rightarrow> (\<exists>dst. get q ''tunnel_dst'' = PStr dst \<and> parse_ipv4 dst \<noteq> None)
       | Subinterface \<Rightarrow> (\<exists>parent n vlan. name = parent @ ''.'' @ show_int n
            \<and> infer_interface_type (PStr parent) = Physical
            \<and> get q ''parent_interface'' = PStr parent
            \<and> get q ''vlan_id'' = PInt vlan \<and> 1 \<le> vlan \<and> vlan \<le> 4094))"
proof -
  from assms obtain name am sam where
    name: "name = canonical_interface_name (get p ''interface_name'')" "valid_iface_name name" and
    am: "normalize_ipv4 (get p ''ip_address'') (get p ''subnet_mask'') = Inr am" and
    kind: "strip (text_or (get p ''interface_kind'') ''L3'')
        \<in> set (allowed_kinds (infer_interface_type (PStr name)))" and
    prof: "validate_profile (infer_interface_type (PStr name)) name (common_fields p name am sam) = Inr q"
    and ex: "existing \<or> infer_interface_type (PStr name) \<noteq> Physical"
    unfolding validate_payload_iff by blast
  let ?ty = "infer_interface_type (PStr name)" and ?p = "common_fields p name am sam"
  note keep = validate_profile_keeps[OF prof]
  have q: "q ''interface_name'' = Some (PStr name)" "q ''ip_address'' = Some (fst am)"
    "q ''subnet_mask'' = Some (snd am)"
    by (subst keep, simp, simp add: common_fields_def)+
  then have gq: "get q ''interface_name'' = PStr name" "get q ''ip_address'' = fst am"
    "get q ''subnet_mask'' = snd am"
    by (simp_all add: get_def get_default_def)
  have can: "canonical_text name = name"
    using canonical_interface_name_idem[of "get p ''interface_name''"] name(1)
    by (simp add: canonical_interface_name_PStr)
  have "strip (text_or (get ?p ''interface_kind'') ''L3'') \<in> set (allowed_kinds ?ty)"
    using kind by (simp add: common_fields_def)
  note kq = validate_profile_kind[OF prof this]
  have addr: "get q ''ip_address'' = PNone \<and> get q ''subnet_mask'' = PNone \<or>
       (\<exists>n m. n < 2 ^ 32 \<and> m \<le> 32 \<and> get q ''ip_address'' = PStr (show_ipv4 n)
          \<and> get q ''subnet_mask'' = PStr (show_ipv4 (prefix_mask m)))"
    using am by (rule normalize_ipv4_cases) (auto simp: gq)
  have ty: "case ?ty of Physical \<Rightarrow> existing | Loopback \<Rightarrow> True
      | Tunnel \<Rightarrow> (\<exists>dst. get q ''tunnel_dst'' = PStr dst \<and> parse_ipv4 dst \<noteq> None)
      | Subinterface \<Rightarrow> (\<exists>parent n vlan. name = parent @ ''.'' @ show_int n
            \<and> infer_interface_type (PStr parent) = Physical
            \<and> get q ''parent_interface'' = PStr parent
            \<and> get q ''vlan_id'' = PInt vlan \<and> 1 \<le> vlan \<and> vlan \<le> 4094)"
  proof (cases ?ty)
    case Tunnel
    with prof have "validate_tunnel ?p = Inr q" by simp
    then show ?thesis by (rule validate_tunnel_Inr) (simp add: Tunnel)
  next
    case Subinterface
    with prof have "validate_subinterface name ?p = Inr q" by simp
    then show ?thesis
    proof (rule validate_subinterface_Inr)
      fix parent n vlan
      assume a: "q = ?p(''interface_kind'' \<mapsto> PStr ''Subinterface'', ''parent_interface'' \<mapsto> PStr parent,
          ''vlan_id'' \<mapsto> PInt vlan)" "name = parent @ ''.'' @ show_int n"
        "infer_interface_type (PStr parent) = Physical" "1 \<le> vlan" "vlan \<le> 4094"
      have "get q ''parent_interface'' = PStr parent" "get q ''vlan_id'' = PInt vlan"
        by (rule get_Some, simp add: a(1))+
      then show ?thesis using a(2-5) unfolding Subinterface iface_type.case by blast
    qed
  qed (use ex in auto)
  show ?thesis
    by (intro exI[of _ name] conjI gq(1) name(2) can addr kq ty)
qed

lemma validate_payload_sound_witness:
  "\<exists>q. validate_payload [''interface_name'' \<mapsto> PStr ''tu 7'', ''interface_kind'' \<mapsto> PStr ''Tunnel'',
        ''tunnel_src'' \<mapsto> PStr ''lo 0'', ''tunnel_dst'' \<mapsto> PStr ''192.0.2.1''] False = Inr q
     \<and> (\<exists>name. get q ''interface_name'' = PStr name \<and> valid_iface_name name)"
proof -
  let ?p = "[''interface_name'' \<mapsto> PStr ''tu 7'', ''interface_kind'' \<mapsto> PStr ''Tunnel'',
        ''tunnel_src'' \<mapsto> PStr ''lo 0'', ''tunnel_dst'' \<mapsto> PStr ''192.0.2.1'']"
  have "\<not> isl (validate_payload ?p False)" by code_simp
  then obtain q where "validate_payload ?p False = Inr q" by (cases "validate_payload ?p False") auto
  then show ?thesis using validate_payload_sound[of ?p False q] by blast
qed

end
