(* ===== verification/Action_Bits.thy ===== *)
theory Action_Bits
  imports Py_Values
begin

text \<open>
  The dirty-field mask of a router interface (\<open>features/interfaces/action_bits.py\<close>): thirteen
  characters \<open>0\<close> or \<open>1\<close>, one per editor field in order. The abstract view of a mask is the set of
  its dirty fields (\<open>dirty_set\<close>); the lemmas show that every operation computes on that set.
\<close>

section \<open>The mask\<close>

definition action_fields :: "string list" where
  "action_fields =
     [''description'', ''primary_ip'', ''secondary_ip'', ''mtu'', ''bandwidth'', ''delay'', ''speed'',
      ''duplex'', ''negotiation'', ''proxy_arp'', ''unreachables'', ''directed_broadcast'', ''shutdown'']"

definition action_width :: nat where
  "action_width = length action_fields"

definition empty_action_cfg :: string where
  "empty_action_cfg = replicate action_width (CHR ''0'')"

definition full_action_cfg :: string where
  "full_action_cfg = replicate action_width (CHR ''1'')"

fun index_of :: "'a list \<Rightarrow> 'a \<Rightarrow> nat option" where
  "index_of [] x = None"
| "index_of (y # ys) x = (if x = y then Some 0 else map_option Suc (index_of ys x))"

definition field_index :: "string \<Rightarrow> nat option" where
  "field_index f = index_of action_fields f"

definition valid_mask :: "string \<Rightarrow> bool" where
  "valid_mask s = (length s = action_width \<and> list_all (\<lambda>b. b = CHR ''0'' \<or> b = CHR ''1'') s)"

definition normalize_action_cfg :: "string \<Rightarrow> string" where
  "normalize_action_cfg s = (if valid_mask s then s else empty_action_cfg)"

definition set_bit :: "string \<Rightarrow> string \<Rightarrow> string" where
  "set_bit bits f = (case field_index f of None \<Rightarrow> bits | Some i \<Rightarrow> bits[i := CHR ''1''])"

definition action_cfg_for :: "string list \<Rightarrow> string" where
  "action_cfg_for fields = foldl set_bit empty_action_cfg fields"

definition merge_action_cfg :: "string list \<Rightarrow> string" where
  "merge_action_cfg values =
     (let masks = map normalize_action_cfg values
      in map (\<lambda>i. if list_ex (\<lambda>m. m ! i = CHR ''1'') masks then CHR ''1'' else CHR ''0'')
           [0..<action_width])"

definition field_is_dirty :: "string \<Rightarrow> string \<Rightarrow> bool" where
  "field_is_dirty cfg f =
     (case field_index f of None \<Rightarrow> False | Some i \<Rightarrow> normalize_action_cfg cfg ! i = CHR ''1'')"

definition has_dirty_fields :: "string \<Rightarrow> bool" where
  "has_dirty_fields cfg = (CHR ''1'' \<in> set (normalize_action_cfg cfg))"

section \<open>The set of dirty fields\<close>

definition dirty_set :: "string \<Rightarrow> string set" where
  "dirty_set cfg = {f \<in> set action_fields. field_is_dirty cfg f}"

lemma action_width_13: "action_width = 13"
  by (simp add: action_width_def action_fields_def)

lemma distinct_action_fields: "distinct action_fields"
  by code_simp

lemma index_of_Some: "index_of xs x = Some i \<Longrightarrow> i < length xs \<and> xs ! i = x"
  by (induction xs arbitrary: i) (auto split: if_splits simp: nth_Cons')

lemma index_of_None: "index_of xs x = None \<longleftrightarrow> x \<notin> set xs"
  by (induction xs) auto

lemma index_of_nth: "distinct xs \<Longrightarrow> i < length xs \<Longrightarrow> index_of xs (xs ! i) = Some i"
  by (induction xs arbitrary: i) (auto simp: nth_Cons' less_Suc_eq_0_disj)

lemma field_index_Some: "field_index f = Some i \<Longrightarrow> i < action_width \<and> action_fields ! i = f"
  by (simp add: field_index_def action_width_def index_of_Some)

lemma field_index_nth [simp]: "i < action_width \<Longrightarrow> field_index (action_fields ! i) = Some i"
  by (simp add: field_index_def action_width_def index_of_nth distinct_action_fields)

lemma field_index_None: "field_index f = None \<longleftrightarrow> f \<notin> set action_fields"
  by (simp add: field_index_def index_of_None)

lemma valid_mask_empty [simp]: "valid_mask empty_action_cfg"
  by (simp add: valid_mask_def empty_action_cfg_def list_all_iff)

lemma valid_mask_full [simp]: "valid_mask full_action_cfg"
  by (simp add: valid_mask_def full_action_cfg_def list_all_iff)

lemma valid_mask_normalize [simp]: "valid_mask (normalize_action_cfg s)"
  by (simp add: normalize_action_cfg_def)

lemma normalize_valid [simp]: "valid_mask s \<Longrightarrow> normalize_action_cfg s = s"
  by (simp add: normalize_action_cfg_def)

lemma valid_mask_set_bit: "valid_mask s \<Longrightarrow> valid_mask (set_bit s f)"
  by (auto simp: valid_mask_def set_bit_def list_all_iff dest: set_update_subset_insert[THEN subsetD]
      split: option.splits)

lemma valid_mask_action_cfg_for [simp]: "valid_mask (action_cfg_for fs)"
proof -
  have "valid_mask s \<Longrightarrow> valid_mask (foldl set_bit s fs)" for s
    by (induction fs arbitrary: s) (auto simp: valid_mask_set_bit)
  then show ?thesis by (simp add: action_cfg_for_def)
qed

lemma valid_mask_merge [simp]: "valid_mask (merge_action_cfg vs)"
  by (auto simp: valid_mask_def merge_action_cfg_def Let_def list_all_iff)

lemma field_is_dirty_valid:
  "valid_mask s \<Longrightarrow> field_index f = Some i \<Longrightarrow> field_is_dirty s f \<longleftrightarrow> s ! i = CHR ''1''"
  by (simp add: field_is_dirty_def)

lemma field_is_dirty_in: "field_is_dirty s f \<Longrightarrow> f \<in> set action_fields"
  using field_index_None[of f] by (auto simp: field_is_dirty_def split: option.splits)

lemma dirty_set_iff [simp]: "f \<in> dirty_set s \<longleftrightarrow> field_is_dirty s f"
  by (auto simp: dirty_set_def field_is_dirty_in)

lemma not_dirty_empty [simp]: "\<not> field_is_dirty empty_action_cfg f"
  by (cases "field_index f") (auto simp: field_is_dirty_def dest!: field_index_Some,
      simp add: empty_action_cfg_def)

lemma field_is_dirty_full [simp]: "field_is_dirty full_action_cfg f \<longleftrightarrow> f \<in> set action_fields"
proof (cases "field_index f")
  case None
  then show ?thesis using field_index_None[of f] by (simp add: field_is_dirty_def)
next
  case (Some i)
  then have "i < action_width" "f \<in> set action_fields"
    using field_index_Some[OF Some] field_index_None[of f] by auto
  then show ?thesis using Some by (simp add: field_is_dirty_def) (simp add: full_action_cfg_def)
qed

lemma field_is_dirty_set_bit:
  assumes "valid_mask s"
  shows "field_is_dirty (set_bit s g) f \<longleftrightarrow> f = g \<and> g \<in> set action_fields \<or> field_is_dirty s f"
proof (cases "field_index g")
  case None
  then show ?thesis using field_index_None[of g] by (auto simp: set_bit_def)
next
  case (Some j)
  have j: "j < action_width" "action_fields ! j = g" "g \<in> set action_fields"
    using field_index_Some[OF Some] field_index_None[of g] Some by auto
  have len: "length s = action_width" using assms by (simp add: valid_mask_def)
  have v: "valid_mask (s[j := CHR ''1''])"
    using valid_mask_set_bit[OF assms, of g] by (simp add: set_bit_def Some)
  show ?thesis
  proof (cases "field_index f")
    case None
    then show ?thesis using field_index_None[of f] j by (auto simp: field_is_dirty_def)
  next
    case (Some i)
    note fi = field_index_Some[OF Some]
    show ?thesis
    proof (cases "i = j")
      case True
      then show ?thesis using Some fi j len v
        by (simp add: field_is_dirty_valid set_bit_def \<open>field_index g = Some j\<close>)
    next
      case False
      then have "f \<noteq> g" using Some \<open>field_index g = Some j\<close> by auto
      then show ?thesis using False Some assms v
        by (simp add: field_is_dirty_valid set_bit_def \<open>field_index g = Some j\<close>)
    qed
  qed
qed

lemma dirty_action_cfg_for:
  "field_is_dirty (action_cfg_for fs) f \<longleftrightarrow> f \<in> set fs \<and> f \<in> set action_fields"
proof -
  have "valid_mask s \<Longrightarrow> field_is_dirty (foldl set_bit s fs) f
      \<longleftrightarrow> f \<in> set fs \<and> f \<in> set action_fields \<or> field_is_dirty s f" for s
    by (induction fs arbitrary: s) (auto simp: valid_mask_set_bit field_is_dirty_set_bit)
  from this[OF valid_mask_empty] show ?thesis by (simp add: action_cfg_for_def)
qed

lemma nth_merge:
  "i < action_width \<Longrightarrow> merge_action_cfg vs ! i = CHR ''1''
     \<longleftrightarrow> (\<exists>v \<in> set vs. normalize_action_cfg v ! i = CHR ''1'')"
  by (auto simp: merge_action_cfg_def Let_def list_ex_iff)

lemma dirty_merge:
  "field_is_dirty (merge_action_cfg vs) f \<longleftrightarrow> (\<exists>v \<in> set vs. field_is_dirty v f)"
proof (cases "field_index f")
  case (Some i)
  then have "i < action_width" by (simp add: field_index_Some)
  from nth_merge[OF this, of vs] Some show ?thesis by (simp add: field_is_dirty_def)
qed (simp add: field_is_dirty_def)

lemma has_dirty_iff: "has_dirty_fields s \<longleftrightarrow> (\<exists>f. field_is_dirty s f)"
proof
  assume "has_dirty_fields s"
  then obtain i where i: "i < action_width" "normalize_action_cfg s ! i = CHR ''1''"
    using valid_mask_normalize[of s] by (auto simp: has_dirty_fields_def in_set_conv_nth valid_mask_def)
  then show "\<exists>f. field_is_dirty s f"
    by (intro exI[of _ "action_fields ! i"]) (simp add: field_is_dirty_def)
next
  assume "\<exists>f. field_is_dirty s f"
  then obtain f i where "field_index f = Some i" "normalize_action_cfg s ! i = CHR ''1''"
    by (auto simp: field_is_dirty_def split: option.splits)
  moreover have "length (normalize_action_cfg s) = action_width"
    using valid_mask_normalize[of s] by (simp add: valid_mask_def)
  ultimately show "has_dirty_fields s"
    unfolding has_dirty_fields_def by (metis field_index_Some nth_mem)
qed

lemma valid_mask_eqI:
  assumes "valid_mask s" "valid_mask t" "\<And>f. field_is_dirty s f = field_is_dirty t f"
  shows "s = t"
proof (rule nth_equalityI)
  show "length s = length t" using assms by (simp add: valid_mask_def)
  fix i assume "i < length s"
  then have i: "i < action_width" using assms by (simp add: valid_mask_def)
  then have "(s ! i = CHR ''1'') = (t ! i = CHR ''1'')"
    using assms(3)[of "action_fields ! i"] field_is_dirty_valid[OF assms(1) field_index_nth[OF i]]
      field_is_dirty_valid[OF assms(2) field_index_nth[OF i]] by simp
  moreover have "s ! i = CHR ''0'' \<or> s ! i = CHR ''1''" "t ! i = CHR ''0'' \<or> t ! i = CHR ''1''"
    using assms i by (auto simp: valid_mask_def list_all_iff)
  ultimately show "s ! i = t ! i" by auto
qed

section \<open>The contract of the mask\<close>

text \<open>
  What the store and the renderer rely on: masks stand for sets of field names, \<open>merge\<close> is union,
  and a mask is determined by its set. The store keeps \<open>merge [old, changed]\<close>, so a sequence of
  saves accumulates exactly the fields changed by one of them (\<open>accumulate\<close>).
\<close>

locale dirty_mask =
  fixes ok :: "'m \<Rightarrow> bool" and fields :: "'m \<Rightarrow> 'f set" and known :: "'f set"
    and none :: 'm and all :: 'm and mark :: "'f list \<Rightarrow> 'm" and join_masks :: "'m list \<Rightarrow> 'm"
    and dirty :: "'m \<Rightarrow> bool"
  assumes ok_none: "ok none" and ok_all: "ok all" and ok_mark: "ok (mark fs)"
    and ok_join: "ok (join_masks ms)"
    and fields_none: "fields none = {}" and fields_all: "fields all = known"
    and fields_mark: "fields (mark fs) = set fs \<inter> known"
    and fields_join: "fields (join_masks ms) = (\<Union>m \<in> set ms. fields m)"
    and dirty_fields: "dirty m \<longleftrightarrow> fields m \<noteq> {}"
    and fields_known: "fields m \<subseteq> known"
    and ok_inject: "ok m \<Longrightarrow> ok m' \<Longrightarrow> fields m = fields m' \<Longrightarrow> m = m'"
begin

lemma join_none: "ok m \<Longrightarrow> join_masks [m, none] = m"
  by (rule ok_inject) (simp_all add: ok_join fields_join fields_none)

lemma join_mark_nil: "ok m \<Longrightarrow> join_masks [m, mark []] = m"
  by (rule ok_inject) (simp_all add: ok_join fields_join fields_mark)

lemma join_all: "join_masks [m, all] = all"
  using fields_known by (intro ok_inject) (auto simp: ok_join ok_all fields_join fields_all)

lemma fields_accumulate:
  "fields (foldl (\<lambda>m fs. join_masks [m, mark fs]) m fss) = fields m \<union> (\<Union>fs \<in> set fss. set fs \<inter> known)"
  by (induction fss arbitrary: m) (auto simp: fields_join fields_mark)

lemma accumulate:
  "ok m \<Longrightarrow> foldl (\<lambda>m fs. join_masks [m, mark fs]) m fss = join_masks [m, mark (concat fss)]"
proof (rule ok_inject)
  show "ok m \<Longrightarrow> ok (foldl (\<lambda>m fs. join_masks [m, mark fs]) m fss)"
    by (induction fss arbitrary: m) (auto simp: ok_join)
qed (auto simp: ok_join fields_accumulate fields_join fields_mark)

lemma dirty_join: "dirty (join_masks [a, b]) \<longleftrightarrow> dirty a \<or> dirty b"
  by (auto simp: dirty_fields fields_join)

lemma dirty_mark: "dirty (mark fs) \<longleftrightarrow> set fs \<inter> known \<noteq> {}"
  by (simp add: dirty_fields fields_mark)

end

interpretation bits: dirty_mask valid_mask dirty_set "set action_fields" empty_action_cfg full_action_cfg
    action_cfg_for merge_action_cfg has_dirty_fields
proof unfold_locales
  fix m m' assume ok: "valid_mask m" "valid_mask m'" and eq: "dirty_set m = dirty_set m'"
  have "field_is_dirty m f = field_is_dirty m' f" for f
    using eq by (auto simp: set_eq_iff)
  then show "m = m'" using ok by (intro valid_mask_eqI)
qed (auto simp: dirty_action_cfg_for dirty_merge has_dirty_iff dest: field_is_dirty_in)

text \<open>Property C3. The stored mask after any sequence of edits: folding the edits into the mask with
  \<open>merge_action_cfg\<close> gives the same mask as marking all the edited fields at once, and a field is
  dirty in it exactly when it was dirty before or some edit names it as one of the thirteen
  fields. An unknown field name marks nothing.\<close>

theorem edits_accumulate:
  assumes "valid_mask m"
  shows "foldl (\<lambda>m fs. merge_action_cfg [m, action_cfg_for fs]) m edits
       = merge_action_cfg [m, action_cfg_for (concat edits)]
     \<and> (field_is_dirty (foldl (\<lambda>m fs. merge_action_cfg [m, action_cfg_for fs]) m edits) f
        \<longleftrightarrow> field_is_dirty m f \<or> f \<in> set action_fields \<and> (\<exists>fs \<in> set edits. f \<in> set fs))"
  using bits.accumulate[OF assms] bits.fields_accumulate[of m edits]
  by (auto simp flip: dirty_set_iff)

lemma edits_accumulate_witness:
  "field_is_dirty (foldl (\<lambda>m fs. merge_action_cfg [m, action_cfg_for fs]) empty_action_cfg
     [[''mtu''], [''no_such_field'', ''shutdown'']]) ''shutdown''"
  by (rule edits_accumulate[OF valid_mask_empty, THEN conjunct2, THEN iffD2])
    (simp add: action_fields_def)

end
