(* ===== verification/Iface_Tables.thy ===== *)
theory Iface_Tables
  imports Iface_Validation Action_Bits
begin

text \<open>
  The router-interface tables of the desired-state database (schema
  \<open>02_interface_router_l3.sql\<close>) and the single statements the repository runs on them.

  The base table is a list of rows (its key is \<open>if_id\<close>, its second key the pair of host and name);
  the profile tables are maps from their primary key. A nullable column is an \<open>option\<close>;
  \<open>sync_status\<close> is \<open>NOT NULL\<close> with a \<open>CHECK\<close>, so \<open>COALESCE\<close> and \<open>or\<close> on it are the identity.
  \<open>db_ok\<close> is what the schema's constraints enforce. A statement that violates one raises
  \<open>IntegrityError\<close>; an integer outside 64 bits cannot be bound and raises \<open>OverflowError\<close>.
\<close>

section \<open>Rows\<close>

datatype profile = L3 | TunnelP | WanP | SubifP

datatype store_error = IntegrityError | ValueError | OverflowError | IndexError | Refused

record iface_row =
  if_id :: int
  if_host :: string
  if_name :: string
  if_ip :: "string option"
  if_mask :: "string option"
  if_desc :: "string option"
  if_shutdown :: "int option"
  if_sync :: sync_status
  if_action :: string

record l3_values =
  l3_sec_ip :: "string option"
  l3_sec_mask :: "string option"
  l3_mtu :: "int option"
  l3_bandwidth :: "int option"
  l3_delay :: "int option"
  l3_speed :: "string option"
  l3_duplex :: "string option"
  l3_negotiation :: "int option"
  l3_proxy_arp :: "int option"
  l3_unreachables :: "int option"
  l3_directed :: "int option"

record l3_row = l3_values +
  l3_sync :: sync_status
  l3_action :: "string option"

record tunnel_row =
  tn_mode :: string
  tn_src :: string
  tn_dst :: string
  tn_key :: "int option"
  tn_ka_sec :: "int option"
  tn_ka_retry :: "int option"
  tn_ipsec :: "string option"
  tn_sync :: sync_status
  tn_action :: "string option"

record wan_row =
  wn_encap :: string
  wn_pool :: "int option"
  wn_auth :: "string option"
  wn_user :: "string option"
  wn_password :: "string option"
  wn_clock :: "int option"
  wn_lmi :: "string option"
  wn_sync :: sync_status
  wn_action :: "string option"

record subif_row =
  sb_parent :: int
  sb_encap :: string
  sb_vlan :: int
  sb_native :: "int option"
  sb_ip :: "string option"
  sb_mask :: "string option"
  sb_shutdown :: "int option"
  sb_sync :: sync_status

record ifdb =
  db_devices :: "string list"
  db_next :: int
  db_ifaces :: "iface_row list"
  db_l3 :: "int \<rightharpoonup> l3_row"
  db_tunnel :: "int \<rightharpoonup> tunnel_row"
  db_wan :: "int \<rightharpoonup> wan_row"
  db_subif :: "string \<times> string \<rightharpoonup> subif_row"

section \<open>Statements\<close>

definition find_id :: "ifdb \<Rightarrow> int \<Rightarrow> iface_row option" where
  "find_id db i = find (\<lambda>r. if_id r = i) (db_ifaces db)"

definition find_name :: "ifdb \<Rightarrow> string \<Rightarrow> string \<Rightarrow> iface_row option" where
  "find_name db host name = find (\<lambda>r. if_host r = host \<and> if_name r = name) (db_ifaces db)"

definition update_iface :: "int \<Rightarrow> (iface_row \<Rightarrow> iface_row) \<Rightarrow> ifdb \<Rightarrow> ifdb" where
  "update_iface i f db =
     db\<lparr>db_ifaces := map (\<lambda>r. if if_id r = i then f r else r) (db_ifaces db)\<rparr>"

text \<open>\<open>DELETE FROM t02_interface_name WHERE iface_id = ?\<close>, with \<open>ON DELETE CASCADE\<close>.\<close>

definition drop_iface :: "int \<Rightarrow> ifdb \<Rightarrow> ifdb" where
  "drop_iface i db = db\<lparr>
     db_ifaces := filter (\<lambda>r. if_id r \<noteq> i) (db_ifaces db),
     db_l3 := (db_l3 db)(i := None),
     db_tunnel := (db_tunnel db)(i := None),
     db_wan := (db_wan db)(i := None),
     db_subif := (\<lambda>k. case db_subif db k of None \<Rightarrow> None
                   | Some s \<Rightarrow> if sb_parent s = i then None else Some s)\<rparr>"

text \<open>\<open>UPDATE <table> SET sync_status = s WHERE <key> = k\<close>.\<close>

definition sync_l3 :: "sync_status \<Rightarrow> int \<Rightarrow> ifdb \<Rightarrow> ifdb" where
  "sync_l3 s i db = db\<lparr>db_l3 := (db_l3 db)(i := map_option (\<lambda>r. r\<lparr>l3_sync := s\<rparr>) (db_l3 db i))\<rparr>"

definition sync_tunnel :: "sync_status \<Rightarrow> int \<Rightarrow> ifdb \<Rightarrow> ifdb" where
  "sync_tunnel s i db =
     db\<lparr>db_tunnel := (db_tunnel db)(i := map_option (\<lambda>r. r\<lparr>tn_sync := s\<rparr>) (db_tunnel db i))\<rparr>"

definition sync_wan :: "sync_status \<Rightarrow> int \<Rightarrow> ifdb \<Rightarrow> ifdb" where
  "sync_wan s i db =
     db\<lparr>db_wan := (db_wan db)(i := map_option (\<lambda>r. r\<lparr>wn_sync := s\<rparr>) (db_wan db i))\<rparr>"

definition sync_subif :: "sync_status \<Rightarrow> string \<times> string \<Rightarrow> ifdb \<Rightarrow> ifdb" where
  "sync_subif s k db =
     db\<lparr>db_subif := (db_subif db)(k := map_option (\<lambda>r. r\<lparr>sb_sync := s\<rparr>) (db_subif db k))\<rparr>"

section \<open>The schema's constraints\<close>

definition bindable :: "int option \<Rightarrow> bool" where
  "bindable v = (case v of None \<Rightarrow> True | Some i \<Rightarrow> - (2 ^ 63) \<le> i \<and> i < 2 ^ 63)"

definition mtu_ok :: "int option \<Rightarrow> bool" where
  "mtu_ok v = (case v of None \<Rightarrow> True | Some i \<Rightarrow> 68 \<le> i \<and> i \<le> 65535)"

definition bandwidth_ok :: "int option \<Rightarrow> bool" where
  "bandwidth_ok v = (case v of None \<Rightarrow> True | Some i \<Rightarrow> 0 < i)"

definition iface_ok :: "ifdb \<Rightarrow> iface_row \<Rightarrow> bool" where
  "iface_ok db r \<longleftrightarrow> 0 < if_id r \<and> if_id r < db_next db \<and> if_host r \<in> set (db_devices db)
     \<and> valid_mask (if_action r)"

definition l3_ok :: "l3_row \<Rightarrow> bool" where
  "l3_ok r \<longleftrightarrow> mtu_ok (l3_mtu r) \<and> bandwidth_ok (l3_bandwidth r)
     \<and> bindable (l3_bandwidth r) \<and> bindable (l3_delay r)"

definition subif_ok :: "subif_row \<Rightarrow> bool" where
  "subif_ok r \<longleftrightarrow> 1 \<le> sb_vlan r \<and> sb_vlan r \<le> 4094"

definition iface_ids :: "ifdb \<Rightarrow> int set" where
  "iface_ids db = if_id ` set (db_ifaces db)"

definition db_ok :: "ifdb \<Rightarrow> bool" where
  "db_ok db \<longleftrightarrow>
     0 < db_next db
   \<and> distinct (map if_id (db_ifaces db))
   \<and> distinct (map (\<lambda>r. (if_host r, if_name r)) (db_ifaces db))
   \<and> (\<forall>r \<in> set (db_ifaces db). iface_ok db r)
   \<and> dom (db_l3 db) \<subseteq> iface_ids db \<and> dom (db_tunnel db) \<subseteq> iface_ids db
   \<and> dom (db_wan db) \<subseteq> iface_ids db
   \<and> (\<forall>i r. db_l3 db i = Some r \<longrightarrow> l3_ok r)
   \<and> (\<forall>k r. db_subif db k = Some r \<longrightarrow> subif_ok r \<and> sb_parent r \<in> iface_ids db
        \<and> fst k \<in> set (db_devices db))"

lemmas schema_defs = db_ok_def iface_ok_def iface_ids_def l3_ok_def subif_ok_def

section \<open>Lookups\<close>

lemma find_Some_iff: "find P xs = Some x \<Longrightarrow> x \<in> set xs \<and> P x"
  by (induction xs) (auto split: if_splits)

lemma find_id_Some: "find_id db i = Some r \<Longrightarrow> r \<in> set (db_ifaces db) \<and> if_id r = i"
  unfolding find_id_def by (drule find_Some_iff) simp

lemma find_name_Some:
  "find_name db h n = Some r \<Longrightarrow> r \<in> set (db_ifaces db) \<and> if_host r = h \<and> if_name r = n"
  unfolding find_name_def by (drule find_Some_iff) simp

lemma find_id_None: "find_id db i = None \<longleftrightarrow> i \<notin> iface_ids db"
  by (auto simp: find_id_def find_None_iff iface_ids_def)

lemma find_name_None:
  "find_name db h n = None \<longleftrightarrow> (\<forall>r \<in> set (db_ifaces db). \<not> (if_host r = h \<and> if_name r = n))"
  by (auto simp: find_name_def find_None_iff)

lemma db_ok_id_inject:
  "db_ok db \<Longrightarrow> r \<in> set (db_ifaces db) \<Longrightarrow> s \<in> set (db_ifaces db) \<Longrightarrow> if_id r = if_id s \<Longrightarrow> r = s"
  by (auto simp: db_ok_def distinct_map dest: inj_onD)

lemma db_ok_name_inject:
  "db_ok db \<Longrightarrow> r \<in> set (db_ifaces db) \<Longrightarrow> s \<in> set (db_ifaces db) \<Longrightarrow> if_host r = if_host s \<Longrightarrow>
     if_name r = if_name s \<Longrightarrow> r = s"
  by (auto simp: db_ok_def distinct_map dest: inj_onD)

lemma find_id_eq: "db_ok db \<Longrightarrow> r \<in> set (db_ifaces db) \<Longrightarrow> find_id db (if_id r) = Some r"
proof -
  assume ok: "db_ok db" "r \<in> set (db_ifaces db)"
  then obtain s where "find_id db (if_id r) = Some s"
    using find_id_None[of db "if_id r"] by (auto simp: iface_ids_def)
  then show ?thesis using ok by (metis db_ok_id_inject find_id_Some)
qed

lemma find_name_eq:
  "db_ok db \<Longrightarrow> r \<in> set (db_ifaces db) \<Longrightarrow> find_name db (if_host r) (if_name r) = Some r"
proof -
  assume ok: "db_ok db" "r \<in> set (db_ifaces db)"
  then obtain s where "find_name db (if_host r) (if_name r) = Some s"
    using find_name_None[of db "if_host r" "if_name r"] by auto
  then show ?thesis using ok by (metis db_ok_name_inject find_name_Some)
qed

section \<open>Every statement keeps the constraints\<close>

lemma map_id_update [simp]:
  "(\<And>r. if_id (f r) = if_id r) \<Longrightarrow>
     map if_id (db_ifaces (update_iface i f db)) = map if_id (db_ifaces db)"
  by (simp add: update_iface_def)

lemma iface_ids_update [simp]:
  "(\<And>r. if_id (f r) = if_id r) \<Longrightarrow> iface_ids (update_iface i f db) = iface_ids db"
  unfolding iface_ids_def set_map[symmetric] by (subst map_id_update) simp_all

lemma iface_ids_tables [simp]:
  "iface_ids (db\<lparr>db_l3 := a\<rparr>) = iface_ids db" "iface_ids (db\<lparr>db_tunnel := b\<rparr>) = iface_ids db"
  "iface_ids (db\<lparr>db_wan := c\<rparr>) = iface_ids db" "iface_ids (db\<lparr>db_subif := d\<rparr>) = iface_ids db"
  by (simp_all add: iface_ids_def)

lemma iface_ok_tables [simp]:
  "iface_ok (db\<lparr>db_l3 := a\<rparr>) = iface_ok db" "iface_ok (db\<lparr>db_tunnel := b\<rparr>) = iface_ok db"
  "iface_ok (db\<lparr>db_wan := c\<rparr>) = iface_ok db" "iface_ok (db\<lparr>db_subif := d\<rparr>) = iface_ok db"
  by (simp_all add: iface_ok_def fun_eq_iff)

lemma db_ok_put:
  assumes "db_ok db"
  shows "i \<in> iface_ids db \<Longrightarrow> l3_ok l \<Longrightarrow> db_ok (db\<lparr>db_l3 := (db_l3 db)(i \<mapsto> l)\<rparr>)"
    "i \<in> iface_ids db \<Longrightarrow> db_ok (db\<lparr>db_tunnel := (db_tunnel db)(i \<mapsto> t)\<rparr>)"
    "i \<in> iface_ids db \<Longrightarrow> db_ok (db\<lparr>db_wan := (db_wan db)(i \<mapsto> w)\<rparr>)"
    "subif_ok s \<Longrightarrow> sb_parent s \<in> iface_ids db \<Longrightarrow> fst k \<in> set (db_devices db) \<Longrightarrow>
       db_ok (db\<lparr>db_subif := (db_subif db)(k \<mapsto> s)\<rparr>)"
  using assms by (auto simp: db_ok_def)

lemma update_iface_other [simp]:
  "db_l3 (update_iface i f db) = db_l3 db" "db_tunnel (update_iface i f db) = db_tunnel db"
  "db_wan (update_iface i f db) = db_wan db" "db_subif (update_iface i f db) = db_subif db"
  "db_next (update_iface i f db) = db_next db" "db_devices (update_iface i f db) = db_devices db"
  by (simp_all add: update_iface_def)

lemma db_ok_update_iface:
  assumes ok: "db_ok db"
    and f: "\<And>r. if_id (f r) = if_id r" "\<And>r. if_host (f r) = if_host r" "\<And>r. if_name (f r) = if_name r"
      "\<And>r. valid_mask (if_action r) \<Longrightarrow> valid_mask (if_action (f r))"
  shows "db_ok (update_iface i f db)"
proof -
  let ?g = "\<lambda>r. if if_id r = i then f r else r"
  have "(\<lambda>r. (if_host r, if_name r)) \<circ> ?g = (\<lambda>r. (if_host r, if_name r))"
    by (auto simp: fun_eq_iff f)
  then have "map (\<lambda>r. (if_host r, if_name r)) (db_ifaces (update_iface i f db))
      = map (\<lambda>r. (if_host r, if_name r)) (db_ifaces db)"
    by (simp add: update_iface_def)
  moreover have "\<forall>r \<in> set (db_ifaces (update_iface i f db)). iface_ok (update_iface i f db) r"
    using ok f by (auto simp: update_iface_def db_ok_def iface_ok_def)
  ultimately show ?thesis
    using ok f(1) unfolding db_ok_def by simp
qed

lemma db_ok_sync_l3 [simp]: "db_ok db \<Longrightarrow> db_ok (sync_l3 s i db)"
  by (cases "db_l3 db i") (auto simp: schema_defs sync_l3_def split: if_splits)

lemma db_ok_sync_tunnel [simp]: "db_ok db \<Longrightarrow> db_ok (sync_tunnel s i db)"
  by (cases "db_tunnel db i") (auto simp: schema_defs sync_tunnel_def split: if_splits)

lemma db_ok_sync_wan [simp]: "db_ok db \<Longrightarrow> db_ok (sync_wan s i db)"
  by (cases "db_wan db i") (auto simp: schema_defs sync_wan_def split: if_splits)

lemma db_ok_sync_subif [simp]: "db_ok db \<Longrightarrow> db_ok (sync_subif s k db)"
  by (cases "db_subif db k") (auto simp: schema_defs sync_subif_def split: if_splits)

lemma db_ok_drop_subif: "db_ok db \<Longrightarrow> db_ok (db\<lparr>db_subif := (db_subif db)(k := None)\<rparr>)"
  by (auto simp: schema_defs)

lemma db_ok_drop_iface: "db_ok db \<Longrightarrow> db_ok (drop_iface i db)"
proof -
  assume ok: "db_ok db"
  have ids: "iface_ids (drop_iface i db) = iface_ids db - {i}"
    by (auto simp: iface_ids_def drop_iface_def)
  have "distinct (map if_id (db_ifaces (drop_iface i db)))"
    "distinct (map (\<lambda>r. (if_host r, if_name r)) (db_ifaces (drop_iface i db)))"
    using ok by (simp_all add: db_ok_def drop_iface_def distinct_map_filter)
  moreover have "\<forall>r \<in> set (db_ifaces (drop_iface i db)). iface_ok (drop_iface i db) r"
    using ok by (auto simp: db_ok_def drop_iface_def iface_ok_def)
  moreover have "\<forall>k r. db_subif (drop_iface i db) k = Some r \<longrightarrow>
      subif_ok r \<and> sb_parent r \<in> iface_ids db - {i} \<and> fst k \<in> set (db_devices db)"
    using ok by (auto simp: db_ok_def drop_iface_def split: option.splits if_splits)
  ultimately show ?thesis using ok unfolding db_ok_def ids
    by (auto simp: drop_iface_def dest: bspec)
qed

lemma db_ok_insert_iface:
  assumes "db_ok db" "if_host r \<in> set (db_devices db)" "if_id r = db_next db" "valid_mask (if_action r)"
    and "find_name db (if_host r) (if_name r) = None"
  shows "db_ok (db\<lparr>db_ifaces := db_ifaces db @ [r], db_next := db_next db + 1\<rparr>)" (is "db_ok ?db")
proof -
  have rows: "\<forall>q \<in> set (db_ifaces db). iface_ok db q" using assms(1) by (simp add: db_ok_def)
  then have new: "db_next db \<notin> if_id ` set (db_ifaces db)"
    by (auto simp: iface_ok_def dest!: bspec)
  have ids: "iface_ids ?db = insert (db_next db) (iface_ids db)"
    using assms(3) by (auto simp: iface_ids_def)
  have "distinct (map if_id (db_ifaces ?db))"
    using assms(1,3) new by (simp add: db_ok_def)
  moreover have "distinct (map (\<lambda>r. (if_host r, if_name r)) (db_ifaces ?db))"
    using assms(1,5) by (auto simp: db_ok_def find_name_None)
  moreover have "\<forall>q \<in> set (db_ifaces ?db). iface_ok ?db q"
    using rows assms by (auto simp: iface_ok_def db_ok_def)
  ultimately show ?thesis using assms(1) unfolding db_ok_def ids by auto
qed

end
