(* ===== verification/Iface_Store.thy ===== *)
theory Iface_Store
  imports Iface_Tables
begin

text \<open>
  The router-interface repository (\<open>features/interfaces/repository.py\<close>): the desired profile of a
  payload, the fields it changes, and the transactions \<open>save_router_interface\<close> and
  \<open>delete_router_interface\<close>. A transaction is a function to an error or the new database; the
  surrounding \<open>with db_connection\<close> rolls back on an exception, so an error leaves the database
  as it was, and \<open>sqlite3.Error\<close> and \<open>ValueError\<close> become the result \<open>False\<close>.
\<close>

section \<open>Values of a payload\<close>

definition text_or_none :: "pyval \<Rightarrow> string option" where
  "text_or_none v =
     (if v = PNone then None
      else let text = strip (py_str v) in if text = [] then None else Some text)"

definition normalize_host :: "pyval \<Rightarrow> string" where
  "normalize_host v = strip (text_or v '''')"

definition choice :: "pyval \<Rightarrow> string list \<Rightarrow> string \<Rightarrow> string" where
  "choice v allowed d =
     (let text = lower (strip (text_or v '''')) in if text \<in> set allowed then text else d)"

text \<open>\<open>x or d\<close> on an optional integer.\<close>

definition int_or :: "int option \<Rightarrow> int \<Rightarrow> int" where
  "int_or v d = (case v of None \<Rightarrow> d | Some i \<Rightarrow> if i = 0 then d else i)"

definition desired_l3 :: "payload \<Rightarrow> l3_values" where
  "desired_l3 p = \<lparr>
     l3_sec_ip = text_or_none (get p ''secondary_ip''),
     l3_sec_mask = text_or_none (get p ''secondary_mask''),
     l3_mtu = Some (int_or (int_or_none (get p ''mtu'')) 1500),
     l3_bandwidth = int_or_none (get p ''bandwidth''),
     l3_delay = int_or_none (get p ''delay''),
     l3_speed = Some (choice (get p ''speed'') [''auto'', ''10'', ''100'', ''1000'', ''10000''] ''auto''),
     l3_duplex = Some (choice (get p ''duplex'') [''auto'', ''full'', ''half''] ''auto''),
     l3_negotiation = Some (bool_int (get_default p ''negotiation'' (PBool True))),
     l3_proxy_arp = Some (bool_int (get_default p ''proxy_arp'' (PBool True))),
     l3_unreachables = Some (bool_int (get_default p ''unreachables'' (PBool True))),
     l3_directed = Some (bool_int (get p ''directed_broadcast''))\<rparr>"

definition l3_fields :: "string list" where
  "l3_fields = [''secondary_ip'', ''mtu'', ''bandwidth'', ''delay'', ''speed'', ''duplex'',
     ''negotiation'', ''proxy_arp'', ''unreachables'', ''directed_broadcast'']"

definition changed_l3_fields :: "l3_row option \<Rightarrow> l3_values \<Rightarrow> string list" where
  "changed_l3_fields current d =
     (case current of
        None \<Rightarrow> l3_fields
      | Some c \<Rightarrow> map fst (filter snd
          [(''secondary_ip'', l3_sec_ip c \<noteq> l3_sec_ip d \<or> l3_sec_mask c \<noteq> l3_sec_mask d),
           (''mtu'', l3_mtu c \<noteq> l3_mtu d),
           (''bandwidth'', l3_bandwidth c \<noteq> l3_bandwidth d),
           (''delay'', l3_delay c \<noteq> l3_delay d),
           (''speed'', l3_speed c \<noteq> l3_speed d),
           (''duplex'', l3_duplex c \<noteq> l3_duplex d),
           (''negotiation'', l3_negotiation c \<noteq> l3_negotiation d),
           (''proxy_arp'', l3_proxy_arp c \<noteq> l3_proxy_arp d),
           (''unreachables'', l3_unreachables c \<noteq> l3_unreachables d),
           (''directed_broadcast'', l3_directed c \<noteq> l3_directed d)]))"

section \<open>Upserts of a profile row\<close>

definition upsert_l3 :: "int \<Rightarrow> payload \<Rightarrow> sync_status \<Rightarrow> ifdb \<Rightarrow> store_error + ifdb" where
  "upsert_l3 i p s db =
     (let v = desired_l3 p in
      if \<not> (bindable (l3_mtu v) \<and> bindable (l3_bandwidth v) \<and> bindable (l3_delay v))
      then Inl OverflowError
      else if \<not> (mtu_ok (l3_mtu v) \<and> bandwidth_ok (l3_bandwidth v)) then Inl IntegrityError
      else Inr (db\<lparr>db_l3 := (db_l3 db)(i \<mapsto>
        l3_values.extend v \<lparr>l3_sync = s, l3_action = Some ''00000''\<rparr>)\<rparr>))"

definition upsert_tunnel :: "int \<Rightarrow> payload \<Rightarrow> ifdb \<Rightarrow> store_error + ifdb" where
  "upsert_tunnel i p db =
     (case (text_or_none (get p ''tunnel_src''), text_or_none (get p ''tunnel_dst'')) of
        (Some src, Some dst) \<Rightarrow>
          (let key = int_or_none (get p ''tunnel_key'');
               ks = int_or_none (get p ''keepalive_sec'');
               kr = int_or_none (get p ''keepalive_retry'')
           in if \<not> (bindable key \<and> bindable ks \<and> bindable kr) then Inl OverflowError
              else Inr (db\<lparr>db_tunnel := (db_tunnel db)(i \<mapsto>
                \<lparr>tn_mode = choice (get p ''tunnel_mode'') [''gre'', ''ipip'', ''ipsec'', ''gre-ipsec''] ''gre'',
                 tn_src = src, tn_dst = dst, tn_key = key, tn_ka_sec = ks, tn_ka_retry = kr,
                 tn_ipsec = text_or_none (get p ''ipsec_profile''),
                 tn_sync = PendingApply, tn_action = Some ''111''\<rparr>)\<rparr>))
      | _ \<Rightarrow> Inr db)"

definition none_if_empty :: "string \<Rightarrow> string option" where
  "none_if_empty s = (if s = [] then None else Some s)"

definition upsert_wan :: "int \<Rightarrow> payload \<Rightarrow> ifdb \<Rightarrow> store_error + ifdb" where
  "upsert_wan i p db =
     (let pool = int_or_none (get p ''pppoe_dialer_pool'');
          clock = int_or_none (get p ''clock_rate'')
      in if \<not> (bindable pool \<and> bindable clock) then Inl OverflowError
         else Inr (db\<lparr>db_wan := (db_wan db)(i \<mapsto>
           \<lparr>wn_encap = choice (get p ''encap_type'') [''none'', ''pppoe'', ''hdlc'', ''ppp'', ''frame-relay''] ''none'',
            wn_pool = pool,
            wn_auth = none_if_empty (choice (get p ''ppp_auth'') [''pap'', ''chap''] ''''),
            wn_user = text_or_none (get p ''ppp_username''),
            wn_password = text_or_none (get p ''ppp_password''),
            wn_clock = clock,
            wn_lmi = none_if_empty (choice (get p ''lmi_type'') [''cisco'', ''ansi'', ''q933a''] ''''),
            wn_sync = PendingApply, wn_action = Some ''11''\<rparr>)\<rparr>))"

text \<open>\<open>name.rsplit(".", 1)\<close>: with no dot the list has the whole name as its only element.\<close>

definition rsplit_head :: "string \<Rightarrow> string" where
  "rsplit_head s = (if CHR ''.'' \<in> set s then before_dot s else s)"

text \<open>\<open>int(payload.get("vlan_id") or name.rsplit(".", 1)[1])\<close>.\<close>

definition subif_vlan :: "payload \<Rightarrow> string \<Rightarrow> store_error + int" where
  "subif_vlan p name =
     (if truthy (get p ''vlan_id'') then
        (case py_int (get p ''vlan_id'') of None \<Rightarrow> Inl ValueError | Some v \<Rightarrow> Inr v)
      else if CHR ''.'' \<notin> set name then Inl IndexError
      else case read_int (after_dot name) of None \<Rightarrow> Inl ValueError | Some v \<Rightarrow> Inr v)"

definition upsert_subif :: "payload \<Rightarrow> string \<Rightarrow> string \<Rightarrow> ifdb \<Rightarrow> store_error + ifdb" where
  "upsert_subif p host name db =
     (let parent_name = strip (py_str (py_or (get p ''parent_interface'') (PStr (rsplit_head name)))) in
      case find (\<lambda>r. if_host r = host \<and> if_name r = parent_name \<and> if_sync r \<noteq> PendingDelete)
             (db_ifaces db) of
        None \<Rightarrow> Inl IntegrityError
      | Some parent \<Rightarrow>
          sbind (subif_vlan p name) (\<lambda>vlan.
            if \<not> bindable (Some vlan) then Inl OverflowError
            else if \<not> (1 \<le> vlan \<and> vlan \<le> 4094) then Inl IntegrityError
            else Inr (db\<lparr>db_subif := (db_subif db)((host, name) \<mapsto>
              \<lparr>sb_parent = if_id parent,
               sb_encap = choice (get p ''encapsulation'') [''dot1q'', ''isl''] ''dot1q'',
               sb_vlan = vlan, sb_native = Some (bool_int (get p ''native'')),
               sb_ip = text_or_none (get p ''ip_address''),
               sb_mask = text_or_none (get p ''subnet_mask''),
               sb_shutdown = Some (bool_int (get p ''shutdown'')), sb_sync = PendingApply\<rparr>)\<rparr>)))"

section \<open>Saving an interface\<close>

definition requested_profile :: "payload \<Rightarrow> profile" where
  "requested_profile p =
     (let kind = strip (text_or (get p ''interface_kind'') ''L3'') in
      if kind = ''WAN'' then WanP
      else if kind = ''Tunnel'' then TunnelP
      else if kind = ''Subinterface'' then SubifP
      else L3)"

text \<open>Renaming a row that was never pushed (lines 364--375).\<close>

definition rename_iface :: "iface_row \<Rightarrow> string \<Rightarrow> ifdb \<Rightarrow> store_error + ifdb" where
  "rename_iface row name db =
     (if if_sync row \<noteq> PendingApply then Inl Refused
      else if find_name db (if_host row) name \<noteq> None then Inl IntegrityError
      else
        let db1 = update_iface (if_id row) (\<lambda>r. r\<lparr>if_name := name\<rparr>) db in
        case db_subif db (if_host row, if_name row) of
          None \<Rightarrow> Inr db1
        | Some s \<Rightarrow>
            if db_subif db (if_host row, name) \<noteq> None then Inl IntegrityError
            else Inr (db1\<lparr>db_subif := ((db_subif db)((if_host row, if_name row) := None))
                                         ((if_host row, name) \<mapsto> s)\<rparr>))"

text \<open>The row a payload addresses (lines 352--386): by its id, else by host and name. The pair
  \<open>(host, name)\<close> is unique, so the \<open>ORDER BY\<close> of the second query never chooses.\<close>

definition locate :: "payload \<Rightarrow> string \<Rightarrow> string \<Rightarrow> ifdb \<Rightarrow> store_error + (ifdb \<times> int option)" where
  "locate p host name db =
     (let by_name = Inr (db, map_option if_id (find_name db host name)) in
      case int_or_none (get p ''iface_id'') of
        None \<Rightarrow> by_name
      | Some i \<Rightarrow>
          if i \<le> 0 then by_name
          else if \<not> bindable (Some i) then Inl OverflowError
          else case find (\<lambda>r. if_id r = i \<and> if_host r = host) (db_ifaces db) of
              None \<Rightarrow> by_name
            | Some row \<Rightarrow>
                if if_name row \<noteq> name
                then sbind (rename_iface row name db) (\<lambda>db1. Inr (db1, Some i))
                else Inr (db, Some i))"

definition changed_base_fields :: "iface_row \<Rightarrow> payload \<Rightarrow> string list" where
  "changed_base_fields c p =
     (let blank = \<lambda>v. text_or_none (case v of None \<Rightarrow> PNone | Some s \<Rightarrow> PStr s) in
      (if blank (if_desc c) \<noteq> text_or_none (get p ''description'') then [''description''] else [])
      @ (if (blank (if_ip c), blank (if_mask c))
            \<noteq> (text_or_none (get p ''ip_address''), text_or_none (get p ''subnet_mask''))
         then [''primary_ip''] else [])
      @ (if (case if_shutdown c of None \<Rightarrow> 0 | Some i \<Rightarrow> i) \<noteq> bool_int (get p ''shutdown'')
         then [''shutdown''] else []))"

definition live :: "sync_status option \<Rightarrow> bool" where
  "live s = (case s of None \<Rightarrow> False | Some x \<Rightarrow> x \<noteq> PendingDelete)"

text \<open>The profile the row has now, in the order of the dictionary \<open>existing_kinds\<close>.\<close>

definition current_profile :: "ifdb \<Rightarrow> int \<Rightarrow> string \<Rightarrow> string \<Rightarrow> profile option" where
  "current_profile db i host name =
     (if live (map_option l3_sync (db_l3 db i)) then Some L3
      else if live (map_option tn_sync (db_tunnel db i)) then Some TunnelP
      else if live (map_option wn_sync (db_wan db i)) then Some WanP
      else if live (map_option sb_sync (db_subif db (host, name))) then Some SubifP
      else None)"
text \<open>What the base-table step hands on: the row's id, the l3 row before the save, the fields it
  changes, and whether the profile changed.\<close>

record base_change =
  bc_id :: int
  bc_l3 :: "l3_row option"
  bc_fields :: "string list"
  bc_profile_changed :: bool

definition base_change_of :: "ifdb \<Rightarrow> iface_row \<Rightarrow> payload \<Rightarrow> profile \<Rightarrow> base_change" where
  "base_change_of db c p kind =
     (let cur_l3 = db_l3 db (if_id c);
          now = current_profile db (if_id c) (if_host c) (if_name c)
      in \<lparr>bc_id = if_id c, bc_l3 = cur_l3,
          bc_fields = changed_base_fields c p
            @ (if kind = L3 then changed_l3_fields cur_l3 (desired_l3 p) else []),
          bc_profile_changed = (now \<noteq> None \<and> now \<noteq> Some kind \<or> kind = L3 \<and> cur_l3 = None)\<rparr>)"

definition previous_mask :: "iface_row \<Rightarrow> l3_row option \<Rightarrow> string" where
  "previous_mask c cur_l3 =
     (case cur_l3 of
        None \<Rightarrow> if_action c
      | Some l \<Rightarrow>
          if l3_sync l = PendingApply \<and> CHR ''1'' \<in> set (case l3_action l of None \<Rightarrow> '''' | Some m \<Rightarrow> m)
             \<and> \<not> has_dirty_fields (if_action c)
          then full_action_cfg else if_action c)"

definition next_mask :: "iface_row \<Rightarrow> base_change \<Rightarrow> string" where
  "next_mask c b =
     (if bc_profile_changed b then full_action_cfg
      else merge_action_cfg [previous_mask c (bc_l3 b), action_cfg_for (bc_fields b)])"

definition next_status :: "iface_row \<Rightarrow> string \<Rightarrow> sync_status" where
  "next_status c m = (if has_dirty_fields m \<or> if_sync c = PendingApply then PendingApply else if_sync c)"

definition write_base :: "payload \<Rightarrow> string \<Rightarrow> sync_status \<Rightarrow> iface_row \<Rightarrow> iface_row" where
  "write_base p m s r = r\<lparr>
     if_ip := text_or_none (get p ''ip_address''),
     if_mask := text_or_none (get p ''subnet_mask''),
     if_desc := text_or_none (get p ''description''),
     if_shutdown := Some (bool_int (get p ''shutdown'')),
     if_sync := s, if_action := m\<rparr>"

definition update_base :: "iface_row \<Rightarrow> payload \<Rightarrow> profile \<Rightarrow> ifdb \<Rightarrow> ifdb \<times> base_change" where
  "update_base c p kind db =
     (let b = base_change_of db c p kind; m = next_mask c b
      in (update_iface (if_id c) (write_base p m (next_status c m)) db, b))"

definition insert_base :: "payload \<Rightarrow> string \<Rightarrow> string \<Rightarrow> ifdb \<Rightarrow> store_error + (ifdb \<times> base_change)" where
  "insert_base p host name db =
     (if host \<notin> set (db_devices db) then Inl IntegrityError
      else Inr
        (db\<lparr>db_ifaces := db_ifaces db @
             [write_base p full_action_cfg PendingApply
               \<lparr>if_id = db_next db, if_host = host, if_name = name, if_ip = None, if_mask = None,
                if_desc = None, if_shutdown = None, if_sync = PendingApply,
                if_action = full_action_cfg\<rparr>],
             db_next := db_next db + 1\<rparr>,
         \<lparr>bc_id = db_next db, bc_l3 = None, bc_fields = [], bc_profile_changed = True\<rparr>))"

definition next_l3_status :: "base_change \<Rightarrow> sync_status" where
  "next_l3_status b =
     (case bc_l3 b of
        None \<Rightarrow> PendingApply
      | Some l \<Rightarrow>
          if bc_profile_changed b \<or> set (bc_fields b) \<inter> set l3_fields \<noteq> {} \<or> l3_sync l = PendingApply
          then PendingApply else l3_sync l)"

text \<open>Lines 501--584: the requested profile is written, the other ones are marked for deletion.\<close>

fun write_profile :: "profile \<Rightarrow> payload \<Rightarrow> string \<Rightarrow> string \<Rightarrow> base_change \<Rightarrow> ifdb \<Rightarrow> store_error + ifdb" where
  "write_profile L3 p host name b db =
     sbind (upsert_l3 (bc_id b) p (next_l3_status b) db) (\<lambda>db.
       Inr (sync_subif PendingDelete (host, name) (sync_wan PendingDelete (bc_id b)
             (sync_tunnel PendingDelete (bc_id b) db))))"
| "write_profile TunnelP p host name b db =
     sbind (upsert_tunnel (bc_id b) p db) (\<lambda>db.
       Inr (sync_subif PendingDelete (host, name) (sync_wan PendingDelete (bc_id b)
             (sync_l3 PendingDelete (bc_id b) db))))"
| "write_profile WanP p host name b db =
     sbind (upsert_wan (bc_id b) p db) (\<lambda>db.
       Inr (sync_subif PendingDelete (host, name) (sync_tunnel PendingDelete (bc_id b)
             (sync_l3 PendingDelete (bc_id b) db))))"
| "write_profile SubifP p host name b db =
     sbind (upsert_subif p host name db) (\<lambda>db.
       Inr (sync_wan PendingDelete (bc_id b) (sync_tunnel PendingDelete (bc_id b)
             (sync_l3 PendingDelete (bc_id b) db))))"

text \<open>The body of the \<open>with\<close> block.\<close>

definition save_tx :: "payload \<Rightarrow> string \<Rightarrow> string \<Rightarrow> profile \<Rightarrow> ifdb \<Rightarrow> store_error + ifdb" where
  "save_tx p host name kind db =
     sbind (locate p host name db) (\<lambda>(db, at).
     sbind (case at of
              None \<Rightarrow> insert_base p host name db
            | Some i \<Rightarrow> (case find_id db i of
                None \<Rightarrow> Inl Refused
              | Some c \<Rightarrow> Inr (update_base c p kind db))) (\<lambda>(db, b).
     write_profile kind p host name b db))"

definition caught :: "store_error \<Rightarrow> bool" where
  "caught e = (e = IntegrityError \<or> e = ValueError \<or> e = Refused)"

definition save_router_interface :: "payload \<Rightarrow> ifdb \<Rightarrow> (store_error + bool) \<times> ifdb" where
  "save_router_interface p db =
     (case (normalize_host (get p ''host''), text_or_none (get p ''interface_name'')) of
        (host, Some name) \<Rightarrow>
          if host = [] then (Inr False, db)
          else
            let kind = requested_profile p in
            if kind = TunnelP \<and> (text_or_none (get p ''tunnel_src'') = None
                                  \<or> text_or_none (get p ''tunnel_dst'') = None)
            then (Inr False, db)
            else (case save_tx p host name kind db of
                    Inr db' \<Rightarrow> (Inr True, db')
                  | Inl e \<Rightarrow> (if caught e then Inr False else Inl e, db))
      | (host, None) \<Rightarrow> (Inr False, db))"

definition delete_router_interface :: "int \<Rightarrow> ifdb \<Rightarrow> (store_error + bool) \<times> ifdb" where
  "delete_router_interface i db =
     (if \<not> bindable (Some i) then (Inl OverflowError, db)
      else case find_id db i of
        None \<Rightarrow> (Inr False, db)
      | Some row \<Rightarrow>
          if infer_interface_type (PStr (if_name row)) = Physical then (Inr False, db)
          else if if_sync row = PendingApply then
            (Inr True, drop_iface i
              (db\<lparr>db_subif := (db_subif db)((if_host row, if_name row) := None)\<rparr>))
          else
            (Inr True, sync_subif PendingDelete (if_host row, if_name row)
              (sync_wan PendingDelete i (sync_tunnel PendingDelete i (sync_l3 PendingDelete i
                (update_iface i (\<lambda>r. r\<lparr>if_sync := PendingDelete\<rparr>) db))))))"

section \<open>The constraints hold after every transaction\<close>

lemma valid_mask_next [simp]: "valid_mask (if_action c) \<Longrightarrow> valid_mask (next_mask c b)"
  by (simp add: next_mask_def)

lemma write_base_simps [simp]:
  "if_id (write_base p m s r) = if_id r" "if_host (write_base p m s r) = if_host r"
  "if_name (write_base p m s r) = if_name r" "if_action (write_base p m s r) = m"
  "if_sync (write_base p m s r) = s"
  by (simp_all add: write_base_def)

lemma db_ok_rename:
  assumes ok: "db_ok db" and row: "row \<in> set (db_ifaces db)" and r: "rename_iface row name db = Inr db'"
  shows "db_ok db'"
proof -
  let ?db1 = "update_iface (if_id row) (\<lambda>r. r\<lparr>if_name := name\<rparr>) db"
  have free: "find_name db (if_host row) name = None"
    using r by (simp add: rename_iface_def split: if_splits)
  let ?g = "\<lambda>r. if if_id r = if_id row then r\<lparr>if_name := name\<rparr> else r"
  have ids: "iface_ids ?db1 = iface_ids db" by simp
  have hosts: "\<forall>r \<in> set (db_ifaces ?db1). iface_ok ?db1 r"
    using ok by (auto simp: update_iface_def db_ok_def iface_ok_def)
  have d1: "distinct (map if_id (db_ifaces ?db1))"
    using ok by (simp add: db_ok_def)
  have "inj_on (\<lambda>r. (if_host (?g r), if_name (?g r))) (set (db_ifaces db))"
  proof (rule inj_onI)
    fix a b assume ab: "a \<in> set (db_ifaces db)" "b \<in> set (db_ifaces db)"
      and eq: "(if_host (?g a), if_name (?g a)) = (if_host (?g b), if_name (?g b))"
    have same: "if_id x = if_id row \<Longrightarrow> x = row" if "x \<in> set (db_ifaces db)" for x
      using db_ok_id_inject[OF ok that row] .
    show "a = b" using eq free ab same[OF ab(1)] same[OF ab(2)] db_ok_name_inject[OF ok ab]
      by (auto simp: find_name_None split: if_splits)
  qed
  then have d2: "distinct (map (\<lambda>r. (if_host r, if_name r)) (db_ifaces ?db1))"
    using ok by (simp add: db_ok_def update_iface_def distinct_map comp_def)
  have "db_ok ?db1"
    using ok d1 d2 hosts unfolding db_ok_def ids by simp
  note ok1 = this
  show ?thesis
  proof (cases "db_subif db (if_host row, if_name row)")
    case None
    then show ?thesis using r ok1 by (auto simp: rename_iface_def Let_def split: if_splits)
  next
    case (Some s)
    then have s: "subif_ok s" "sb_parent s \<in> iface_ids db" using ok by (auto simp: db_ok_def)
    have h: "if_host row \<in> set (db_devices db)" using ok row by (auto simp: db_ok_def iface_ok_def)
    have "db' = ?db1\<lparr>db_subif := ((db_subif db)((if_host row, if_name row) := None))
        ((if_host row, name) \<mapsto> s)\<rparr>"
      using r Some by (auto simp: rename_iface_def Let_def split: if_splits)
    then show ?thesis
      using db_ok_put(4)[OF db_ok_drop_subif[OF ok1, of "(if_host row, if_name row)"] s(1),
          of "(if_host row, name)"] s h by simp
  qed
qed

lemma db_ok_locate:
  "db_ok db \<Longrightarrow> locate p host name db = Inr (db', at) \<Longrightarrow> db_ok db'"
  by (auto simp: locate_def Let_def sbind_eq_Inr_conv split: option.splits if_splits
      intro: db_ok_rename dest!: find_Some_iff)

lemma db_ok_upsert_l3:
  "db_ok db \<Longrightarrow> i \<in> iface_ids db \<Longrightarrow> upsert_l3 i p s db = Inr db' \<Longrightarrow> db_ok db'"
  by (auto simp: upsert_l3_def Let_def l3_ok_def l3_values.defs split: if_splits intro!: db_ok_put)

lemma db_ok_upsert_tunnel:
  "db_ok db \<Longrightarrow> i \<in> iface_ids db \<Longrightarrow> upsert_tunnel i p db = Inr db' \<Longrightarrow> db_ok db'"
  by (auto simp: upsert_tunnel_def Let_def split: if_splits option.splits intro!: db_ok_put)

lemma db_ok_upsert_wan:
  "db_ok db \<Longrightarrow> i \<in> iface_ids db \<Longrightarrow> upsert_wan i p db = Inr db' \<Longrightarrow> db_ok db'"
  by (auto simp: upsert_wan_def Let_def split: if_splits option.splits intro!: db_ok_put)

lemma db_ok_upsert_subif:
  "db_ok db \<Longrightarrow> host \<in> set (db_devices db) \<Longrightarrow> upsert_subif p host name db = Inr db' \<Longrightarrow> db_ok db'"
  by (auto simp: upsert_subif_def Let_def sbind_eq_Inr_conv subif_ok_def iface_ids_def
      split: if_splits option.splits dest!: find_Some_iff intro!: db_ok_put)

lemma rename_Inr:
  assumes "rename_iface row name db = Inr db'"
  shows "db_ifaces db' = map (\<lambda>r. if if_id r = if_id row then r\<lparr>if_name := name\<rparr> else r) (db_ifaces db)
    \<and> db_l3 db' = db_l3 db \<and> db_tunnel db' = db_tunnel db \<and> db_wan db' = db_wan db
    \<and> db_devices db' = db_devices db \<and> db_next db' = db_next db"
  using assms by (auto simp: rename_iface_def Let_def update_iface_def split: if_splits option.splits)

lemma locate_None: "locate p host name db = Inr (db', None) \<Longrightarrow> db' = db \<and> find_name db host name = None"
  by (auto simp: locate_def Let_def sbind_eq_Inr_conv split: option.splits if_splits)

lemma locate_Some:
  assumes "locate p host name db = Inr (db', Some i)"
  obtains c where "c \<in> set (db_ifaces db')" "if_id c = i" "if_host c = host" "if_name c = name"
proof -
  consider (same) c where "db' = db" "c \<in> set (db_ifaces db)" "if_id c = i" "if_host c = host" "if_name c = name"
    | (renamed) row where "row \<in> set (db_ifaces db)" "if_id row = i" "if_host row = host"
        "rename_iface row name db = Inr db'"
    using assms
    by (auto simp: locate_def Let_def sbind_eq_Inr_conv dest!: find_Some_iff find_name_Some
        split: option.splits if_splits)
  then show thesis
  proof cases
    case same
    then show thesis using that by blast
  next
    case renamed
    then show thesis using rename_Inr[OF renamed(4)] by (intro that[of "row\<lparr>if_name := name\<rparr>"]) auto
  qed
qed

lemma base_change_simps [simp]:
  "bc_id (base_change_of db c p kind) = if_id c" "bc_l3 (base_change_of db c p kind) = db_l3 db (if_id c)"
  by (simp_all add: base_change_of_def Let_def)

lemma db_ok_update_base:
  assumes "db_ok db" "c \<in> set (db_ifaces db)" "update_base c p kind db = (db', b)"
  shows "db_ok db' \<and> bc_id b = if_id c \<and> if_id c \<in> iface_ids db'"
proof -
  let ?m = "next_mask c (base_change_of db c p kind)"
  have "valid_mask ?m" using assms(1,2) by (auto simp: db_ok_def iface_ok_def)
  then have "db_ok (update_iface (if_id c) (write_base p ?m (next_status c ?m)) db)"
    by (intro db_ok_update_iface[OF assms(1)]) simp_all
  then show ?thesis using assms(2,3) by (auto simp: update_base_def Let_def iface_ids_def[of db])
qed

lemma db_ok_insert_base:
  assumes "db_ok db" "find_name db host name = None" "insert_base p host name db = Inr (db', b)"
  shows "db_ok db' \<and> bc_id b \<in> iface_ids db'"
  using assms by (auto simp: insert_base_def iface_ids_def split: if_splits intro!: db_ok_insert_iface)

lemma db_ok_write_profile:
  assumes "db_ok db" "bc_id b \<in> iface_ids db" "host \<in> set (db_devices db)"
    "write_profile kind p host name b db = Inr db'"
  shows "db_ok db'"
  using assms
  by (cases kind) (auto simp: sbind_eq_Inr_conv
      dest: db_ok_upsert_l3 db_ok_upsert_tunnel db_ok_upsert_wan db_ok_upsert_subif)

text \<open>The two ways through a save: the row is found and updated, or it is new.\<close>

lemma save_tx_cases:
  assumes ok: "db_ok db" and save: "save_tx p host name kind db = Inr db'"
  obtains (update) db1 c db2 b where "locate p host name db = Inr (db1, Some (if_id c))"
      "db_ok db1" "c \<in> set (db_ifaces db1)" "if_host c = host" "if_name c = name"
      "update_base c p kind db1 = (db2, b)" "write_profile kind p host name b db2 = Inr db'"
  | (insert) db2 b where "locate p host name db = Inr (db, None)" "find_name db host name = None"
      "insert_base p host name db = Inr (db2, b)" "write_profile kind p host name b db2 = Inr db'"
proof -
  obtain db1 at where l: "locate p host name db = Inr (db1, at)"
    using save by (auto simp: save_tx_def sbind_eq_Inr_conv)
  show thesis
  proof (cases at)
    case None
    then have n: "locate p host name db = Inr (db, None)" "find_name db host name = None"
      using l locate_None by auto
    then show thesis using insert save
      by (auto simp: save_tx_def sbind_eq_Inr_conv)
  next
    case (Some i)
    note ok1 = db_ok_locate[OF ok l]
    from l Some obtain c where c: "c \<in> set (db_ifaces db1)" "if_id c = i" "if_host c = host" "if_name c = name"
      by (auto elim: locate_Some)
    then have "find_id db1 i = Some c" using find_id_eq[OF ok1 c(1)] by simp
    then obtain db2 b where "update_base c p kind db1 = (db2, b)" "write_profile kind p host name b db2 = Inr db'"
      using save l Some by (cases "update_base c p kind db1") (auto simp: save_tx_def)
    then show thesis using update[of db1 c db2 b] l Some c ok1 by simp
  qed
qed

lemma db_ok_save_tx:
  assumes ok: "db_ok db" and save: "save_tx p host name kind db = Inr db'"
  shows "db_ok db'"
  using ok save
proof (cases rule: save_tx_cases)
  case (update db1 c db2 b)
  have "host \<in> set (db_devices db2)"
    using update(2-6) by (auto simp: update_base_def Let_def db_ok_def iface_ok_def)
  then show ?thesis using db_ok_update_base[OF update(2,3,6)] db_ok_write_profile[OF _ _ _ update(7)]
    by auto
next
  case (insert db2 b)
  have "host \<in> set (db_devices db2)" using insert(3) by (auto simp: insert_base_def split: if_splits)
  then show ?thesis using db_ok_insert_base[OF ok insert(2,3)] db_ok_write_profile insert(4) by blast
qed

lemma save_True:
  "save_router_interface p db = (Inr True, db') \<longleftrightarrow>
     (\<exists>name. text_or_none (get p ''interface_name'') = Some name \<and> normalize_host (get p ''host'') \<noteq> []
       \<and> (requested_profile p = TunnelP \<longrightarrow> text_or_none (get p ''tunnel_src'') \<noteq> None
            \<and> text_or_none (get p ''tunnel_dst'') \<noteq> None)
       \<and> save_tx p (normalize_host (get p ''host'')) name (requested_profile p) db = Inr db')"
  by (auto simp: save_router_interface_def Let_def split: option.splits sum.splits)

lemma save_False:
  "save_router_interface p db = (r, db') \<Longrightarrow> r \<noteq> Inr True \<Longrightarrow> db' = db"
  by (auto simp: save_router_interface_def Let_def split: option.splits sum.splits if_splits)

lemma db_ok_save: "db_ok db \<Longrightarrow> save_router_interface p db = (r, db') \<Longrightarrow> db_ok db'"
  by (cases "r = Inr True") (auto simp: save_True dest: db_ok_save_tx save_False)

lemma db_ok_delete: "db_ok db \<Longrightarrow> delete_router_interface i db = (r, db') \<Longrightarrow> db_ok db'"
  by (auto simp: delete_router_interface_def db_ok_update_iface db_ok_drop_iface db_ok_drop_subif
      split: option.splits if_splits)

section \<open>What a save leaves in the tables\<close>

definition profile_live :: "ifdb \<Rightarrow> iface_row \<Rightarrow> profile \<Rightarrow> bool" where
  "profile_live db r k = live (case k of
     L3 \<Rightarrow> map_option l3_sync (db_l3 db (if_id r))
   | TunnelP \<Rightarrow> map_option tn_sync (db_tunnel db (if_id r))
   | WanP \<Rightarrow> map_option wn_sync (db_wan db (if_id r))
   | SubifP \<Rightarrow> map_option sb_sync (db_subif db (if_host r, if_name r)))"

lemma live_simps [simp]:
  "\<not> live None" "live (Some s) \<longleftrightarrow> s \<noteq> PendingDelete"
  by (simp_all add: live_def)

lemma not_live_deleted [simp]:
  "\<not> live (map_option f (map_option g x))" if "\<And>r. f (g r) = PendingDelete"
  using that by (cases x) auto

lemma sync_tables [simp]:
  "db_ifaces (sync_l3 s i db) = db_ifaces db" "db_ifaces (sync_tunnel s i db) = db_ifaces db"
  "db_ifaces (sync_wan s i db) = db_ifaces db" "db_ifaces (sync_subif s k db) = db_ifaces db"
  "db_l3 (sync_tunnel s i db) = db_l3 db" "db_l3 (sync_wan s i db) = db_l3 db"
  "db_l3 (sync_subif s k db) = db_l3 db"
  "db_tunnel (sync_l3 s i db) = db_tunnel db" "db_tunnel (sync_wan s i db) = db_tunnel db"
  "db_tunnel (sync_subif s k db) = db_tunnel db"
  "db_wan (sync_l3 s i db) = db_wan db" "db_wan (sync_tunnel s i db) = db_wan db"
  "db_wan (sync_subif s k db) = db_wan db"
  "db_subif (sync_l3 s i db) = db_subif db" "db_subif (sync_tunnel s i db) = db_subif db"
  "db_subif (sync_wan s i db) = db_subif db"
  "db_devices (sync_l3 s i db) = db_devices db" "db_devices (sync_tunnel s i db) = db_devices db"
  "db_devices (sync_wan s i db) = db_devices db" "db_devices (sync_subif s k db) = db_devices db"
  by (simp_all add: sync_l3_def sync_tunnel_def sync_wan_def sync_subif_def)

lemma sync_same [simp]:
  "db_l3 (sync_l3 s i db) j = (if i = j then map_option (\<lambda>r. r\<lparr>l3_sync := s\<rparr>) (db_l3 db j) else db_l3 db j)"
  "db_tunnel (sync_tunnel s i db) j =
     (if i = j then map_option (\<lambda>r. r\<lparr>tn_sync := s\<rparr>) (db_tunnel db j) else db_tunnel db j)"
  "db_wan (sync_wan s i db) j =
     (if i = j then map_option (\<lambda>r. r\<lparr>wn_sync := s\<rparr>) (db_wan db j) else db_wan db j)"
  "db_subif (sync_subif s k db) k' =
     (if k = k' then map_option (\<lambda>r. r\<lparr>sb_sync := s\<rparr>) (db_subif db k') else db_subif db k')"
  by (simp_all add: sync_l3_def sync_tunnel_def sync_wan_def sync_subif_def)

lemma write_profile_ifaces:
  "write_profile kind p host name b db = Inr db' \<Longrightarrow> db_ifaces db' = db_ifaces db"
  by (cases kind) (auto simp: sbind_eq_Inr_conv upsert_l3_def upsert_tunnel_def upsert_wan_def
      upsert_subif_def Let_def split: if_splits option.splits)

lemma write_profile_others:
  assumes "write_profile kind p (if_host r) (if_name r) b db = Inr db'" "if_id r = bc_id b" "k \<noteq> kind"
  shows "\<not> profile_live db' r k"
  using assms
  by (cases kind; cases k) (auto simp: sbind_eq_Inr_conv profile_live_def upsert_l3_def
      upsert_tunnel_def upsert_wan_def upsert_subif_def Let_def split: if_splits option.splits)

lemma write_profile_requested:
  assumes "write_profile kind p (if_host r) (if_name r) b db = Inr db'" "if_id r = bc_id b"
    and "kind = TunnelP \<longrightarrow> text_or_none (get p ''tunnel_src'') \<noteq> None \<and> text_or_none (get p ''tunnel_dst'') \<noteq> None"
  shows "profile_live db' r kind \<longleftrightarrow> kind \<noteq> L3 \<or> next_l3_status b \<noteq> PendingDelete"
  using assms
  by (cases kind) (auto simp: sbind_eq_Inr_conv profile_live_def upsert_l3_def l3_values.defs
      upsert_tunnel_def upsert_wan_def upsert_subif_def Let_def split: if_splits option.splits)

lemma rename_l3: "locate p host name db = Inr (db', at) \<Longrightarrow> db_l3 db' = db_l3 db"
  by (auto simp: locate_def Let_def sbind_eq_Inr_conv dest!: rename_Inr split: option.splits if_splits)

lemma next_l3_status_deleted:
  "next_l3_status b = PendingDelete \<Longrightarrow> \<exists>l. bc_l3 b = Some l \<and> l3_sync l = PendingDelete"
  by (auto simp: next_l3_status_def split: option.splits if_splits)

text \<open>The row of the payload after a successful save.\<close>

definition row_holds :: "payload \<Rightarrow> iface_row \<Rightarrow> bool" where
  "row_holds p r \<longleftrightarrow> if_host r = normalize_host (get p ''host'')
     \<and> Some (if_name r) = text_or_none (get p ''interface_name'')
     \<and> if_ip r = text_or_none (get p ''ip_address'') \<and> if_mask r = text_or_none (get p ''subnet_mask'')
     \<and> if_desc r = text_or_none (get p ''description'')
     \<and> if_shutdown r = Some (bool_int (get p ''shutdown''))"

text \<open>Property C4. A save that reports success has written the interface: the base row of the
  payload's host and name holds the payload's values, no profile but the requested one is live, and
  the requested profile is live -- except that an l3 row that was marked for deletion before the
  save may still be.\<close>

theorem save_writes_profile:
  assumes ok: "db_ok db" and save: "save_router_interface p db = (Inr True, db')"
  shows "\<exists>r \<in> set (db_ifaces db'). row_holds p r
    \<and> (\<forall>k. k \<noteq> requested_profile p \<longrightarrow> \<not> profile_live db' r k)
    \<and> (profile_live db' r (requested_profile p)
       \<or> requested_profile p = L3 \<and> (\<exists>l. db_l3 db (if_id r) = Some l \<and> l3_sync l = PendingDelete))"
proof -
  let ?host = "normalize_host (get p ''host'')" and ?kind = "requested_profile p"
  from save obtain name where nm: "text_or_none (get p ''interface_name'') = Some name"
    and tun: "?kind = TunnelP \<longrightarrow> text_or_none (get p ''tunnel_src'') \<noteq> None \<and> text_or_none (get p ''tunnel_dst'') \<noteq> None"
    and tx: "save_tx p ?host name ?kind db = Inr db'"
    by (auto simp: save_True)
  from ok tx show ?thesis
  proof (cases rule: save_tx_cases)
    case (update db1 c db2 b)
    let ?m = "next_mask c b"
    let ?r = "write_base p ?m (next_status c ?m) c"
    have b: "b = base_change_of db1 c p ?kind" and
      d2: "db2 = update_iface (if_id c) (write_base p ?m (next_status c ?m)) db1"
      using update(6) by (auto simp: update_base_def Let_def)
    have r: "?r \<in> set (db_ifaces db')"
      using update(3) write_profile_ifaces[OF update(7)] by (auto simp: d2 update_iface_def)
    have hn: "if_id ?r = bc_id b" "write_profile ?kind p (if_host ?r) (if_name ?r) b db2 = Inr db'"
      using update(4,5,7) by (simp_all add: b)
    have "row_holds p ?r" using update(4,5) nm by (simp add: row_holds_def) (simp add: write_base_def)
    then show ?thesis
      using write_profile_others[OF hn(2,1)] write_profile_requested[OF hn(2,1) tun]
        next_l3_status_deleted[of b] rename_l3[OF update(1)] b
      by (intro bexI[OF _ r]) auto
  next
    case (insert db2 b)
    define r where "r = write_base p full_action_cfg PendingApply
      \<lparr>if_id = db_next db, if_host = ?host, if_name = name, if_ip = None, if_mask = None,
       if_desc = None, if_shutdown = None, if_sync = PendingApply, if_action = full_action_cfg\<rparr>"
    have "db_ifaces db2 = db_ifaces db @ [r]" "bc_id b = db_next db" and b: "bc_l3 b = None"
      using insert(3) by (auto simp: insert_base_def r_def split: if_splits)
    then have r: "r \<in> set (db_ifaces db')" "if_id r = bc_id b" "if_host r = ?host" "if_name r = name"
      using write_profile_ifaces[OF insert(4)] by (simp_all add: r_def)
    have "row_holds p r" using nm r(3,4) by (simp add: row_holds_def) (simp add: r_def write_base_def)
    have wp: "write_profile ?kind p (if_host r) (if_name r) b db2 = Inr db'" using insert(4) r by simp
    show ?thesis
      using write_profile_others[OF wp r(2)] write_profile_requested[OF wp r(2) tun]
        next_l3_status_deleted[of b] b r \<open>row_holds p r\<close>
      by (intro bexI[OF _ r(1)]) auto
  qed
qed

section \<open>Saving unchanged values\<close>

lemma text_or_none_stored [simp]:
  "text_or_none (case text_or_none v of None \<Rightarrow> PNone | Some s \<Rightarrow> PStr s) = text_or_none v"
  by (cases "text_or_none v") (auto simp: text_or_none_def Let_def split: if_splits)

lemma changed_base_nil: "row_holds p r \<Longrightarrow> changed_base_fields r p = []"
  by (simp add: changed_base_fields_def Let_def row_holds_def)

lemma changed_l3_nil: "changed_l3_fields (Some l) (l3_values.truncate l) = []"
  by (simp add: changed_l3_fields_def l3_values.defs)

lemma merge_empty_nil: "merge_action_cfg [empty_action_cfg, action_cfg_for []] = empty_action_cfg"
  by (rule bits.join_mark_nil) simp

lemma not_dirty_empty_cfg [simp]: "\<not> has_dirty_fields empty_action_cfg"
  by (simp add: has_dirty_iff)

lemma update_iface_triv:
  "(\<And>r. r \<in> set (db_ifaces db) \<Longrightarrow> if_id r = i \<Longrightarrow> f r = r) \<Longrightarrow> update_iface i f db = db"
  by (simp add: update_iface_def map_idI)

lemma write_base_triv: "row_holds p r \<Longrightarrow> write_base p (if_action r) (if_sync r) r = r"
  by (simp add: write_base_def row_holds_def)

lemma sync_absent [simp]:
  "db_tunnel db i = None \<Longrightarrow> sync_tunnel s i db = db" "db_wan db i = None \<Longrightarrow> sync_wan s i db = db"
  "db_subif db k = None \<Longrightarrow> sync_subif s k db = db"
  by (simp_all add: sync_tunnel_def sync_wan_def sync_subif_def fun_upd_idem)

lemma locate_row:
  assumes "db_ok db" "r \<in> set (db_ifaces db)" "if_host r = host" "if_name r = name"
    and "int_or_none (get p ''iface_id'') = None"
  shows "locate p host name db = Inr (db, Some (if_id r))"
  using find_name_eq[OF assms(1,2)] assms by (simp add: locate_def)

text \<open>Saving what is already there changes nothing: when the base row and the live l3 row
  hold the payload's values, no field is dirty and no other profile row exists, the save succeeds
  and the database is unchanged, so no task becomes pending.\<close>

theorem resave_unchanged:
  assumes ok: "db_ok db" and r: "r \<in> set (db_ifaces db)" "row_holds p r" "if_host r \<noteq> []"
    and l3: "db_l3 db (if_id r) = Some l" "l3_values.truncate l = desired_l3 p" "l3_sync l \<noteq> PendingDelete"
      "l3_action l = Some ''00000''"
    and clean: "if_action r = empty_action_cfg"
    and alone: "db_tunnel db (if_id r) = None" "db_wan db (if_id r) = None"
      "db_subif db (if_host r, if_name r) = None"
    and p: "requested_profile p = L3" "int_or_none (get p ''iface_id'') = None"
  shows "save_router_interface p db = (Inr True, db)"
proof -
  have nm: "text_or_none (get p ''interface_name'') = Some (if_name r)" "normalize_host (get p ''host'') = if_host r"
    using r(2) by (simp_all add: row_holds_def)
  have now: "current_profile db (if_id r) (if_host r) (if_name r) = Some L3"
    using l3 by (simp add: current_profile_def)
  let ?b = "base_change_of db r p L3"
  have b: "bc_fields ?b = []" "\<not> bc_profile_changed ?b" "bc_l3 ?b = Some l"
    using now changed_base_nil[OF r(2)] changed_l3_nil[of l] l3(1)
    by (simp_all add: base_change_of_def Let_def l3(2))
  have "CHR ''1'' \<notin> set ''00000''" by simp
  then have "previous_mask r (Some l) = empty_action_cfg"
    using clean l3(4) by (simp add: previous_mask_def)
  then have m: "next_mask r ?b = empty_action_cfg" using b by (simp add: next_mask_def merge_empty_nil)
  then have st: "next_status r (next_mask r ?b) = if_sync r" by (simp add: next_status_def)
  have "update_iface (if_id r) (write_base p empty_action_cfg (if_sync r)) db = db"
    using write_base_triv[OF r(2)] clean db_ok_id_inject[OF ok _ r(1)]
    by (intro update_iface_triv) metis
  then have ub: "update_base r p L3 db = (db, ?b)" using m st by (simp add: update_base_def Let_def)
  have ls: "next_l3_status ?b = l3_sync l" using b by (simp add: next_l3_status_def)
  have "l = l3_values.extend (desired_l3 p) \<lparr>l3_sync = l3_sync l, l3_action = Some ''00000''\<rparr>"
    unfolding l3(2)[symmetric] using l3(4) by (cases l) (simp add: l3_values.defs)
  moreover have "l3_ok l" using ok l3(1) by (simp add: db_ok_def)
  moreover have "l3_mtu (desired_l3 p) = l3_mtu l \<and> l3_bandwidth (desired_l3 p) = l3_bandwidth l
      \<and> l3_delay (desired_l3 p) = l3_delay l"
    using l3(2)[symmetric] by (simp add: l3_values.defs)
  moreover have "mtu_ok v \<Longrightarrow> bindable v" for v by (auto simp: mtu_ok_def bindable_def split: option.splits)
  ultimately have up: "upsert_l3 (if_id r) p (l3_sync l) db = Inr db"
    using l3(1) by (simp add: upsert_l3_def Let_def l3_ok_def fun_upd_idem)
  have "save_tx p (if_host r) (if_name r) L3 db = Inr db"
    using locate_row[OF ok r(1) refl refl p(2)] find_id_eq[OF ok r(1)] ub ls up alone
    by (simp add: save_tx_def)
  then show ?thesis using r(3) nm p(1) by (simp add: save_router_interface_def Let_def)
qed

end
