(* ===== verification/Iface_Tasks.thy ===== *)
theory Iface_Tasks
  imports Iface_Store "HOL-Library.List_Lexorder" "HOL-Library.Char_ord"
begin

text \<open>
  Pending work: \<open>collect_interface_tasks\<close> (\<open>features/interfaces/collector.py\<close>) reads one task per
  interface with a pending row, and \<open>mark_interface_task_applied\<close> (\<open>push_state.py\<close>) commits a
  pushed task. The locale \<open>synced_table\<close> is the contract of one profile table; each of the four
  tables interprets it.
\<close>

section \<open>Collecting\<close>

datatype profile_data = DL3 l3_row | DTunnel tunnel_row | DWan wan_row | DSubif subif_row

fun data_sync :: "profile_data \<Rightarrow> sync_status" where
  "data_sync (DL3 r) = l3_sync r"
| "data_sync (DTunnel r) = tn_sync r"
| "data_sync (DWan r) = wn_sync r"
| "data_sync (DSubif r) = sb_sync r"

record iface_task =
  tk_host :: string
  tk_remove :: bool
  tk_iface :: iface_row
  tk_kind :: "profile option"
  tk_profile :: "profile_data option"
  tk_removed :: "(profile \<times> profile_data) list"
  tk_id :: int
  tk_base_pending :: bool
  tk_states :: "(profile \<times> sync_status) list"

definition pending :: "sync_status \<Rightarrow> bool" where
  "pending s = (s = PendingApply \<or> s = PendingDelete)"

fun load_profile :: "ifdb \<Rightarrow> string \<Rightarrow> iface_row \<Rightarrow> profile \<Rightarrow> profile_data option" where
  "load_profile db host r L3 = map_option DL3 (db_l3 db (if_id r))"
| "load_profile db host r TunnelP = map_option DTunnel (db_tunnel db (if_id r))"
| "load_profile db host r WanP = map_option DWan (db_wan db (if_id r))"
| "load_profile db host r SubifP = map_option DSubif (db_subif db (host, if_name r))"

definition row_pending :: "ifdb \<Rightarrow> iface_row \<Rightarrow> bool" where
  "row_pending db r =
     (pending (if_sync r)
      \<or> list_ex (\<lambda>k. case load_profile db (if_host r) r k of None \<Rightarrow> False | Some d \<Rightarrow> pending (data_sync d))
          [L3, TunnelP, WanP, SubifP])"

definition stored_profiles :: "ifdb \<Rightarrow> string \<Rightarrow> iface_row \<Rightarrow> (profile \<times> profile_data) list" where
  "stored_profiles db host r =
     List.map_filter (\<lambda>k. map_option (\<lambda>d. (k, d)) (load_profile db host r k)) [L3, TunnelP, WanP, SubifP]"

definition active_profile :: "ifdb \<Rightarrow> string \<Rightarrow> iface_row \<Rightarrow> profile option" where
  "active_profile db host r =
     find (\<lambda>k. live (map_option data_sync (load_profile db host r k))) [SubifP, TunnelP, WanP, L3]"

definition task_of :: "ifdb \<Rightarrow> string \<Rightarrow> iface_row \<Rightarrow> iface_task" where
  "task_of db host r =
     (let profiles = stored_profiles db host r; kind = active_profile db host r in
      \<lparr>tk_host = host, tk_remove = (if_sync r = PendingDelete), tk_iface = r, tk_kind = kind,
       tk_profile = (case kind of None \<Rightarrow> None | Some k \<Rightarrow> load_profile db host r k),
       tk_removed = filter (\<lambda>(k, d). data_sync d = PendingDelete) profiles,
       tk_id = if_id r, tk_base_pending = pending (if_sync r),
       tk_states = map (\<lambda>(k, d). (k, data_sync d)) profiles\<rparr>)"

definition collect_interface_tasks :: "ifdb \<Rightarrow> string \<Rightarrow> iface_task list" where
  "collect_interface_tasks db host =
     (let host = strip host in
      if host = [] then []
      else map (task_of db host)
        (sort_key (\<lambda>r. lower (if_name r))
          (filter (\<lambda>r. if_host r = host \<and> row_pending db r) (db_ifaces db))))"

section \<open>Committing a pushed task\<close>

definition settle_l3 :: "sync_status \<Rightarrow> int \<Rightarrow> ifdb \<Rightarrow> ifdb" where
  "settle_l3 s i db =
     (if s = PendingDelete then db\<lparr>db_l3 := (db_l3 db)(i := None)\<rparr>
      else if s = PendingApply then db\<lparr>db_l3 := (db_l3 db)(i :=
        map_option (\<lambda>r. r\<lparr>l3_sync := Synchronized, l3_action := Some ''00000''\<rparr>) (db_l3 db i))\<rparr>
      else db)"

definition settle_tunnel :: "sync_status \<Rightarrow> int \<Rightarrow> ifdb \<Rightarrow> ifdb" where
  "settle_tunnel s i db =
     (if s = PendingDelete then db\<lparr>db_tunnel := (db_tunnel db)(i := None)\<rparr>
      else if s = PendingApply then sync_tunnel Synchronized i db
      else db)"

definition settle_wan :: "sync_status \<Rightarrow> int \<Rightarrow> ifdb \<Rightarrow> ifdb" where
  "settle_wan s i db =
     (if s = PendingDelete then db\<lparr>db_wan := (db_wan db)(i := None)\<rparr>
      else if s = PendingApply then sync_wan Synchronized i db
      else db)"

definition settle_subif :: "sync_status \<Rightarrow> string \<times> string \<Rightarrow> ifdb \<Rightarrow> ifdb" where
  "settle_subif s k db =
     (if s = PendingDelete then db\<lparr>db_subif := (db_subif db)(k := None)\<rparr>
      else if s = PendingApply then sync_subif Synchronized k db
      else db)"

fun settle_profile :: "iface_task \<Rightarrow> profile \<times> sync_status \<Rightarrow> ifdb \<Rightarrow> ifdb" where
  "settle_profile t (L3, s) db = settle_l3 s (tk_id t) db"
| "settle_profile t (TunnelP, s) db = settle_tunnel s (tk_id t) db"
| "settle_profile t (WanP, s) db = settle_wan s (tk_id t) db"
| "settle_profile t (SubifP, s) db = settle_subif s (tk_host t, if_name (tk_iface t)) db"

definition mark_interface_task_applied :: "iface_task \<Rightarrow> ifdb \<Rightarrow> ifdb" where
  "mark_interface_task_applied t db =
     (if tk_remove t then
        drop_iface (tk_id t)
          (db\<lparr>db_subif := (db_subif db)((tk_host t, if_name (tk_iface t)) := None)\<rparr>)
      else
        fold (settle_profile t) (tk_states t)
          (if tk_base_pending t
           then update_iface (tk_id t) (\<lambda>r. r\<lparr>if_sync := Synchronized, if_action := empty_action_cfg\<rparr>) db
           else db))"

section \<open>The contract of a profile table\<close>

text \<open>
  A table with a lookup, and the operation \<open>settle s k\<close> that a push applies to the row whose
  status was \<open>s\<close> when the task was collected. The laws are those of the code's statements: a
  row marked for deletion disappears, a pending row becomes synchronized with its configuration
  columns (\<open>content\<close>) unchanged, other rows are untouched.
\<close>

locale synced_table =
  fixes look :: "'k \<Rightarrow> ifdb \<Rightarrow> 'r option" and status :: "'r \<Rightarrow> sync_status" and content :: "'r \<Rightarrow> 'c"
    and settle :: "sync_status \<Rightarrow> 'k \<Rightarrow> ifdb \<Rightarrow> ifdb"
  assumes settle_delete: "look k (settle PendingDelete k db) = None"
    and settle_apply: "look k db = Some r \<Longrightarrow>
          \<exists>r'. look k (settle PendingApply k db) = Some r' \<and> status r' = Synchronized \<and> content r' = content r"
    and settle_none: "look k db = None \<Longrightarrow> look k (settle s k db) = None"
    and settle_noop: "\<not> pending s \<Longrightarrow> settle s k db = db"
    and settle_other: "k \<noteq> k' \<Longrightarrow> look k' (settle s k db) = look k' db"
    and settle_ifaces: "db_ifaces (settle s k db) = db_ifaces db"
    and settle_ok: "db_ok db \<Longrightarrow> db_ok (settle s k db)"
begin

lemma settled:
  "look k db = Some r \<Longrightarrow> look k (settle (status r) k db) = Some r' \<Longrightarrow> \<not> pending (status r')"
  by (cases "status r")
    (use settle_apply[of k db r] in \<open>auto simp: settle_delete settle_noop pending_def\<close>)

lemma settle_look:
  "look k db = Some r \<Longrightarrow>
     look k (settle (status r) k db) = None \<and> status r = PendingDelete
     \<or> (\<exists>r'. look k (settle (status r) k db) = Some r' \<and> content r' = content r)"
  by (cases "status r")
    (use settle_apply[of k db r] in \<open>auto simp: settle_delete settle_noop pending_def\<close>)

end

lemma db_ok_drop_profile:
  assumes "db_ok db"
  shows "db_ok (db\<lparr>db_l3 := (db_l3 db)(i := None)\<rparr>)" "db_ok (db\<lparr>db_tunnel := (db_tunnel db)(i := None)\<rparr>)"
    "db_ok (db\<lparr>db_wan := (db_wan db)(i := None)\<rparr>)"
  using assms by (auto simp: db_ok_def)

lemma db_ok_settle_l3: "db_ok db \<Longrightarrow> db_ok (settle_l3 s i db)"
  by (cases "db_l3 db i")
    (auto simp: settle_l3_def db_ok_drop_profile db_ok_def l3_ok_def split: if_splits)

interpretation l3_table: synced_table "\<lambda>i db. db_l3 db i" l3_sync l3_values.truncate settle_l3
  by (unfold_locales; (erule db_ok_settle_l3)?) (auto simp: settle_l3_def pending_def l3_values.defs)

interpretation tunnel_table: synced_table "\<lambda>i db. db_tunnel db i" tn_sync "tn_sync_update (\<lambda>_. Skipped)" settle_tunnel
  by unfold_locales (auto simp: settle_tunnel_def pending_def db_ok_drop_profile)

interpretation wan_table: synced_table "\<lambda>i db. db_wan db i" wn_sync "wn_sync_update (\<lambda>_. Skipped)" settle_wan
  by unfold_locales (auto simp: settle_wan_def pending_def db_ok_drop_profile)

interpretation subif_table: synced_table "\<lambda>k db. db_subif db k" sb_sync "sb_sync_update (\<lambda>_. Skipped)" settle_subif
  by unfold_locales (auto simp: settle_subif_def pending_def db_ok_drop_subif)

section \<open>One committed task\<close>

definition settle_opt :: "(sync_status \<Rightarrow> 'k \<Rightarrow> ifdb \<Rightarrow> ifdb) \<Rightarrow> sync_status option \<Rightarrow> 'k \<Rightarrow> ifdb \<Rightarrow> ifdb" where
  "settle_opt f s k db = (case s of None \<Rightarrow> db | Some s \<Rightarrow> f s k db)"

lemma mark_setup:
  assumes "if_sync r \<noteq> PendingDelete"
  shows "mark_interface_task_applied (task_of db0 h r) db =
    settle_opt settle_subif (map_option sb_sync (db_subif db0 (h, if_name r))) (h, if_name r)
     (settle_opt settle_wan (map_option wn_sync (db_wan db0 (if_id r))) (if_id r)
      (settle_opt settle_tunnel (map_option tn_sync (db_tunnel db0 (if_id r))) (if_id r)
       (settle_opt settle_l3 (map_option l3_sync (db_l3 db0 (if_id r))) (if_id r)
        (if pending (if_sync r)
         then update_iface (if_id r) (\<lambda>r. r\<lparr>if_sync := Synchronized, if_action := empty_action_cfg\<rparr>) db
         else db))))"
  using assms
  by (cases "db_l3 db0 (if_id r)"; cases "db_tunnel db0 (if_id r)"; cases "db_wan db0 (if_id r)";
      cases "db_subif db0 (h, if_name r)")
    (simp_all add: mark_interface_task_applied_def task_of_def Let_def stored_profiles_def
      map_filter_simps settle_opt_def)

lemma mark_remove:
  "if_sync r = PendingDelete \<Longrightarrow> mark_interface_task_applied (task_of db0 h r) db =
     drop_iface (if_id r) (db\<lparr>db_subif := (db_subif db)((h, if_name r) := None)\<rparr>)"
  by (simp add: mark_interface_task_applied_def task_of_def Let_def)

lemma settle_others [simp]:
  "db_ifaces (settle_l3 s i db) = db_ifaces db" "db_tunnel (settle_l3 s i db) = db_tunnel db"
  "db_wan (settle_l3 s i db) = db_wan db" "db_subif (settle_l3 s i db) = db_subif db"
  "db_ifaces (settle_tunnel s i db) = db_ifaces db" "db_l3 (settle_tunnel s i db) = db_l3 db"
  "db_wan (settle_tunnel s i db) = db_wan db" "db_subif (settle_tunnel s i db) = db_subif db"
  "db_ifaces (settle_wan s i db) = db_ifaces db" "db_l3 (settle_wan s i db) = db_l3 db"
  "db_tunnel (settle_wan s i db) = db_tunnel db" "db_subif (settle_wan s i db) = db_subif db"
  "db_ifaces (settle_subif s k db) = db_ifaces db" "db_l3 (settle_subif s k db) = db_l3 db"
  "db_tunnel (settle_subif s k db) = db_tunnel db" "db_wan (settle_subif s k db) = db_wan db"
  by (simp_all add: settle_l3_def settle_tunnel_def settle_wan_def settle_subif_def)

lemma settle_opt_others [simp]:
  "db_ifaces (settle_opt settle_l3 o1 i db) = db_ifaces db" "db_tunnel (settle_opt settle_l3 o1 i db) = db_tunnel db"
  "db_wan (settle_opt settle_l3 o1 i db) = db_wan db" "db_subif (settle_opt settle_l3 o1 i db) = db_subif db"
  "db_ifaces (settle_opt settle_tunnel o1 i db) = db_ifaces db" "db_l3 (settle_opt settle_tunnel o1 i db) = db_l3 db"
  "db_wan (settle_opt settle_tunnel o1 i db) = db_wan db" "db_subif (settle_opt settle_tunnel o1 i db) = db_subif db"
  "db_ifaces (settle_opt settle_wan o1 i db) = db_ifaces db" "db_l3 (settle_opt settle_wan o1 i db) = db_l3 db"
  "db_tunnel (settle_opt settle_wan o1 i db) = db_tunnel db" "db_subif (settle_opt settle_wan o1 i db) = db_subif db"
  "db_ifaces (settle_opt settle_subif o2 k db) = db_ifaces db" "db_l3 (settle_opt settle_subif o2 k db) = db_l3 db"
  "db_tunnel (settle_opt settle_subif o2 k db) = db_tunnel db" "db_wan (settle_opt settle_subif o2 k db) = db_wan db"
  by (cases o1; cases o2; simp add: settle_opt_def)+

context synced_table
begin

lemma opt_other: "k \<noteq> k' \<Longrightarrow> look k' (settle_opt settle s k db) = look k' db"
  by (cases s) (simp_all add: settle_opt_def settle_other)

lemma opt_ok: "db_ok db \<Longrightarrow> db_ok (settle_opt settle s k db)"
  by (cases s) (simp_all add: settle_opt_def settle_ok)

lemma opt_settled:
  assumes "look k db = look k db0 \<or> look k db = None"
    and "look k (settle_opt settle (map_option status (look k db0)) k db) = Some r'"
  shows "\<not> pending (status r')"
proof (cases "look k db")
  case None
  then have "look k (settle_opt settle s k db) = None" for s
    by (cases s) (simp_all add: settle_opt_def settle_none)
  then show ?thesis using assms(2) by simp
next
  case (Some r)
  then have "look k db0 = Some r" using assms(1) by simp
  then show ?thesis using assms(2) settled[OF Some] by (simp add: settle_opt_def)
qed

lemma opt_none: "look k db = None \<Longrightarrow> look k (settle_opt settle s k db) = None"
  by (cases s) (simp_all add: settle_opt_def settle_none)

lemma opt_content:
  "look k db = Some r \<Longrightarrow> look k db0 = Some r \<Longrightarrow> status r \<noteq> PendingDelete \<Longrightarrow>
     \<exists>r'. look k (settle_opt settle (map_option status (look k db0)) k db) = Some r' \<and> content r' = content r"
  using settle_look[of k db r] by (auto simp: settle_opt_def)

end

lemma db_ok_mark: "db_ok db \<Longrightarrow> db_ok (mark_interface_task_applied (task_of db0 h r) db)"
proof (cases "if_sync r = PendingDelete")
  case True
  then show "db_ok db \<Longrightarrow> ?thesis"
    by (simp add: mark_remove db_ok_drop_iface db_ok_drop_subif)
next
  case False
  then show "db_ok db \<Longrightarrow> ?thesis"
    by (simp add: mark_setup l3_table.opt_ok tunnel_table.opt_ok wan_table.opt_ok subif_table.opt_ok
        db_ok_update_iface)
qed

section \<open>A whole push\<close>

text \<open>\<open>untouched\<close>: the rows of an interface are as when its task was collected (a subinterface row
  may be gone with its parent). \<open>finished\<close>: nothing of the interface is pending.\<close>

definition untouched :: "ifdb \<Rightarrow> ifdb \<Rightarrow> iface_row \<Rightarrow> bool" where
  "untouched db0 db r \<longleftrightarrow>
     (\<forall>q \<in> set (db_ifaces db). if_id q = if_id r \<longrightarrow> q = r)
     \<and> db_l3 db (if_id r) = db_l3 db0 (if_id r) \<and> db_tunnel db (if_id r) = db_tunnel db0 (if_id r)
     \<and> db_wan db (if_id r) = db_wan db0 (if_id r)
     \<and> (db_subif db (if_host r, if_name r) = db_subif db0 (if_host r, if_name r)
        \<or> db_subif db (if_host r, if_name r) = None)"

definition finished :: "ifdb \<Rightarrow> iface_row \<Rightarrow> bool" where
  "finished db r \<longleftrightarrow>
     (\<forall>q \<in> set (db_ifaces db). if_id q = if_id r \<longrightarrow>
        \<not> row_pending db q \<and> if_host q = if_host r \<and> if_name q = if_name r)"

lemma row_pending_iff:
  "row_pending db q \<longleftrightarrow> pending (if_sync q)
     \<or> (\<exists>x. db_l3 db (if_id q) = Some x \<and> pending (l3_sync x))
     \<or> (\<exists>x. db_tunnel db (if_id q) = Some x \<and> pending (tn_sync x))
     \<or> (\<exists>x. db_wan db (if_id q) = Some x \<and> pending (wn_sync x))
     \<or> (\<exists>x. db_subif db (if_host q, if_name q) = Some x \<and> pending (sb_sync x))"
  by (auto simp: row_pending_def split: option.splits)

lemma not_pending_sync [simp]: "\<not> pending Synchronized" "\<not> pending Skipped" "pending PendingApply"
  "pending PendingDelete"
  by (simp_all add: pending_def)

lemma mark_ifaces:
  "db_ifaces (mark_interface_task_applied (task_of db0 h r) db) =
     (if if_sync r = PendingDelete then filter (\<lambda>q. if_id q \<noteq> if_id r) (db_ifaces db)
      else if pending (if_sync r)
        then map (\<lambda>q. if if_id q = if_id r then q\<lparr>if_sync := Synchronized, if_action := empty_action_cfg\<rparr> else q)
               (db_ifaces db)
      else db_ifaces db)"
  by (simp add: mark_remove mark_setup drop_iface_def update_iface_def)

lemma mark_elsewhere:
  fixes db db0 :: ifdb
  assumes "i \<noteq> if_id r" "k \<noteq> (h, if_name r)"
  defines "db' \<equiv> mark_interface_task_applied (task_of db0 h r) db"
  shows "db_l3 db' i = db_l3 db i" "db_tunnel db' i = db_tunnel db i" "db_wan db' i = db_wan db i"
    "db_subif db' k = db_subif db k \<or> db_subif db' k = None"
proof -
  note ne = assms(1)[symmetric] assms(2)[symmetric]
  have "db_l3 db' i = db_l3 db i \<and> db_tunnel db' i = db_tunnel db i \<and> db_wan db' i = db_wan db i
    \<and> (db_subif db' k = db_subif db k \<or> db_subif db' k = None)"
  proof (cases "if_sync r = PendingDelete")
    case True
    then show ?thesis using ne by (auto simp: db'_def mark_remove drop_iface_def split: option.splits)
  next
    case False
    then show ?thesis using ne
      by (simp add: db'_def mark_setup l3_table.opt_other tunnel_table.opt_other wan_table.opt_other
          subif_table.opt_other)
  qed
  then show "db_l3 db' i = db_l3 db i" "db_tunnel db' i = db_tunnel db i" "db_wan db' i = db_wan db i"
    "db_subif db' k = db_subif db k \<or> db_subif db' k = None" by auto
qed

lemma mark_untouched:
  assumes "untouched db0 db s" "if_id s \<noteq> if_id r" "(if_host s, if_name s) \<noteq> (h, if_name r)"
  shows "untouched db0 (mark_interface_task_applied (task_of db0 h r) db) s"
  using assms(1) mark_elsewhere[OF assms(2,3), of db0 db] assms(2)
  by (auto simp: untouched_def mark_ifaces split: if_splits)

lemma mark_finished:
  assumes "finished db s" "if_id s \<noteq> if_id r" "(if_host s, if_name s) \<noteq> (h, if_name r)"
  shows "finished (mark_interface_task_applied (task_of db0 h r) db) s"
proof -
  let ?db' = "mark_interface_task_applied (task_of db0 h r) db"
  have "\<not> row_pending ?db' q \<and> if_host q = if_host s \<and> if_name q = if_name s"
    if "q \<in> set (db_ifaces ?db')" "if_id q = if_id s" for q
  proof -
    have "q \<in> set (db_ifaces db)" using that assms(2) by (auto simp: mark_ifaces split: if_splits)
    then have "\<not> row_pending db q" "if_host q = if_host s" "if_name q = if_name s"
      using assms(1) that(2) by (auto simp: finished_def)
    then show ?thesis
      using mark_elsewhere[OF assms(2,3), of db0 db] that(2) by (auto simp: row_pending_iff)
  qed
  then show ?thesis by (auto simp: finished_def)
qed

lemma mark_finishes:
  assumes un: "untouched db0 db r" and h: "if_host r = h"
  shows "finished (mark_interface_task_applied (task_of db0 h r) db) r"
proof (cases "if_sync r = PendingDelete")
  case True
  then show ?thesis by (auto simp: finished_def mark_ifaces)
next
  case False
  let ?db' = "mark_interface_task_applied (task_of db0 h r) db"
  let ?db1 = "if pending (if_sync r)
         then update_iface (if_id r) (\<lambda>r. r\<lparr>if_sync := Synchronized, if_action := empty_action_cfg\<rparr>) db
         else db"
  have same: "db_l3 ?db1 = db_l3 db" "db_tunnel ?db1 = db_tunnel db" "db_wan ?db1 = db_wan db"
    "db_subif ?db1 = db_subif db" by simp_all
  have "\<not> row_pending ?db' q \<and> if_host q = if_host r \<and> if_name q = if_name r"
    if q: "q \<in> set (db_ifaces ?db')" "if_id q = if_id r" for q
  proof -
    from q un have "\<not> pending (if_sync q)" "if_host q = if_host r" "if_name q = if_name r"
      using False by (auto simp: untouched_def mark_ifaces split: if_splits)
    then show ?thesis using un q(2) h
      by (auto simp: row_pending_iff untouched_def mark_setup[OF False] same
          dest!: l3_table.opt_settled[rotated] tunnel_table.opt_settled[rotated]
            wan_table.opt_settled[rotated] subif_table.opt_settled[rotated])
  qed
  then show ?thesis by (auto simp: finished_def)
qed

definition commit_all :: "iface_task list \<Rightarrow> ifdb \<Rightarrow> ifdb" where
  "commit_all ts db = fold mark_interface_task_applied ts db"

lemma untouched_refl: "db_ok db \<Longrightarrow> r \<in> set (db_ifaces db) \<Longrightarrow> untouched db db r"
  by (auto simp: untouched_def dest: db_ok_id_inject)

lemma finished_not_pending:
  "db_ok db \<Longrightarrow> r \<in> set (db_ifaces db) \<Longrightarrow> \<not> row_pending db r \<Longrightarrow> finished db r"
  by (auto simp: finished_def dest: db_ok_id_inject)

lemma ids_mark: "iface_ids (mark_interface_task_applied (task_of db0 h r) db) \<subseteq> iface_ids db"
  by (auto simp: iface_ids_def mark_ifaces intro: rev_image_eqI)

lemma db_ok_commit: "db_ok db \<Longrightarrow> db_ok (commit_all (map (task_of db0 h) rs) db)"
  by (induction rs arbitrary: db) (auto simp: commit_all_def db_ok_mark)

lemma ids_commit: "iface_ids (commit_all (map (task_of db0 h) rs) db) \<subseteq> iface_ids db"
  by (induction rs arbitrary: db) (auto simp: commit_all_def dest!: subsetD[OF ids_mark] subsetD)

lemma different_rows:
  assumes "db_ok db" "r \<in> set (db_ifaces db)" "s \<in> set (db_ifaces db)" "s \<noteq> r"
  shows "if_id s \<noteq> if_id r" "(if_host s, if_name s) \<noteq> (if_host r, if_name r)"
  using assms by (auto dest: db_ok_id_inject db_ok_name_inject)

lemma commit_finishes:
  assumes ok: "db_ok db0" and rs: "set rs \<subseteq> {r \<in> set (db_ifaces db0). if_host r = h}" "distinct rs"
    and set_D: "D \<subseteq> {r \<in> set (db_ifaces db0). if_host r = h}" "D \<inter> set rs = {}"
    and un: "\<And>r. r \<in> set rs \<Longrightarrow> untouched db0 db r" and fin: "\<And>r. r \<in> D \<Longrightarrow> finished db r"
  shows "\<forall>r \<in> set rs \<union> D. finished (commit_all (map (task_of db0 h) rs) db) r"
  using rs set_D un fin
proof (induction rs arbitrary: db D)
  case Nil
  then show ?case by (simp add: commit_all_def)
next
  case (Cons r rs)
  let ?db' = "mark_interface_task_applied (task_of db0 h r) db"
  have r: "r \<in> set (db_ifaces db0)" "if_host r = h" using Cons.prems(1) by auto
  have "untouched db0 ?db' s" if "s \<in> set rs" for s
  proof -
    have "s \<in> set (db_ifaces db0)" "s \<noteq> r" using that Cons.prems(1,2) by auto
    then show ?thesis using different_rows[OF ok r(1)] Cons.prems(5)[of s] that r(2)
      by (auto intro!: mark_untouched)
  qed
  moreover have "finished ?db' s" if "s \<in> insert r D" for s
  proof (cases "s = r")
    case True
    then show ?thesis using mark_finishes[OF Cons.prems(5)[of r] r(2)] by simp
  next
    case False
    then have s: "s \<in> D" "s \<in> set (db_ifaces db0)" "if_host s = h" using that Cons.prems(3) by auto
    then show ?thesis using different_rows[OF ok r(1) s(2) False] Cons.prems(6)[of s] r(2)
      by (auto intro!: mark_finished)
  qed
  ultimately have "\<forall>s \<in> set rs \<union> insert r D. finished (commit_all (map (task_of db0 h) rs) ?db') s"
    using Cons.prems(1-4) r by (intro Cons.IH) auto
  then show ?case by (simp add: commit_all_def)
qed

lemma collect_rows:
  "strip host \<noteq> [] \<Longrightarrow> db_ok db \<Longrightarrow> \<exists>rs. collect_interface_tasks db host = map (task_of db (strip host)) rs
     \<and> set rs = {r \<in> set (db_ifaces db). if_host r = strip host \<and> row_pending db r} \<and> distinct rs"
  by (rule exI[of _ "sort_key (\<lambda>r. lower (if_name r))
          (filter (\<lambda>r. if_host r = strip host \<and> row_pending db r) (db_ifaces db))"])
    (auto simp: collect_interface_tasks_def Let_def db_ok_def distinct_map)

lemma hosts_commit:
  assumes "db_ok db0" "set rs \<subseteq> {r \<in> set (db_ifaces db0). if_host r = h}" "q \<in> set (db_ifaces db0)" "if_host q \<noteq> h"
  shows "q \<in> set (db_ifaces db) \<Longrightarrow> q \<in> set (db_ifaces (commit_all (map (task_of db0 h) rs) db))
    \<and> db_l3 (commit_all (map (task_of db0 h) rs) db) (if_id q) = db_l3 db (if_id q)
    \<and> db_tunnel (commit_all (map (task_of db0 h) rs) db) (if_id q) = db_tunnel db (if_id q)
    \<and> db_wan (commit_all (map (task_of db0 h) rs) db) (if_id q) = db_wan db (if_id q)"
  using assms(2)
proof (induction rs arbitrary: db)
  case (Cons r rs)
  then have r: "r \<in> set (db_ifaces db0)" "if_host r = h" by auto
  then have ne: "if_id q \<noteq> if_id r" using assms(1,3,4) db_ok_id_inject by metis
  have "q \<in> set (db_ifaces (mark_interface_task_applied (task_of db0 h r) db))"
    using Cons.prems(1) ne by (auto simp: mark_ifaces intro!: image_eqI[of _ _ q])
  moreover have "(if_host q, if_name q) \<noteq> (h, if_name r)" using assms(4) by simp
  ultimately show ?case
    using Cons.IH[of "mark_interface_task_applied (task_of db0 h r) db"] Cons.prems(2)
      mark_elsewhere[OF ne, of "(if_host q, if_name q)" h db0 db]
    by (simp add: commit_all_def)
qed (simp add: commit_all_def)


section \<open>Edits and pushes interleaved\<close>

text \<open>The database with the tasks a push worker has collected and not yet committed. Edits run in
  the user-interface thread, so a save or delete may fall between a collection and its commits.\<close>

record iface_system =
  sys_db :: ifdb
  sys_tasks :: "iface_task list"

inductive iface_step :: "iface_system \<Rightarrow> iface_system \<Rightarrow> bool" where
  save: "save_router_interface p (sys_db s) = (res, db') \<Longrightarrow> iface_step s (s\<lparr>sys_db := db'\<rparr>)"
| delete: "delete_router_interface i (sys_db s) = (res, db') \<Longrightarrow> iface_step s (s\<lparr>sys_db := db'\<rparr>)"
| collect: "iface_step s (s\<lparr>sys_tasks := sys_tasks s @ collect_interface_tasks (sys_db s) host\<rparr>)"
| commit: "t \<in> set (sys_tasks s) \<Longrightarrow>
    iface_step s (s\<lparr>sys_db := mark_interface_task_applied t (sys_db s),
                    sys_tasks := remove1 t (sys_tasks s)\<rparr>)"

definition system_ok :: "iface_system \<Rightarrow> bool" where
  "system_ok s \<longleftrightarrow> db_ok (sys_db s)
     \<and> (\<forall>t \<in> set (sys_tasks s). \<exists>db0 h r. t = task_of db0 h r)"

lemma collect_task_of:
  "t \<in> set (collect_interface_tasks db host) \<Longrightarrow> \<exists>db0 h r. t = task_of db0 h r"
  by (auto simp: collect_interface_tasks_def Let_def split: if_splits)

lemma system_ok_step: "iface_step s s' \<Longrightarrow> system_ok s \<Longrightarrow> system_ok s'"
proof (induction rule: iface_step.induct)
  case (commit t s)
  then show ?case using db_ok_mark by (fastforce simp: system_ok_def dest: notin_set_remove1)
qed (auto simp: system_ok_def dest: db_ok_save db_ok_delete collect_task_of)

text \<open>Property C6. Whatever the order of saves, deletions, collections and commits, including a commit
  of a task that later edits have overtaken, the database keeps the schema's constraints: keys and
  names stay unique, every profile and subinterface row belongs to an existing interface, masks
  have thirteen bits, MTUs, bandwidths and VLAN ids stay in range.\<close>

theorem reachable_constraints:
  assumes "iface_step\<^sup>*\<^sup>* \<lparr>sys_db = db, sys_tasks = []\<rparr> s" "db_ok db"
  shows "db_ok (sys_db s)"
proof -
  have "system_ok s"
    using assms(1) by (induction rule: rtranclp_induct)
      (use assms(2) in \<open>auto simp: system_ok_def[of "\<lparr>sys_db = db, sys_tasks = []\<rparr>"] dest: system_ok_step\<close>)
  then show ?thesis by (simp add: system_ok_def)
qed

section \<open>Examples\<close>

definition sample_db :: ifdb where
  "sample_db = \<lparr>db_devices = [''R1'', ''R2''], db_next = 3,
     db_ifaces =
       [\<lparr>if_id = 1, if_host = ''R1'', if_name = ''Loopback1'', if_ip = Some ''10.0.0.1'',
         if_mask = Some ''255.255.255.0'', if_desc = Some ''uplink'', if_shutdown = Some 0,
         if_sync = Synchronized, if_action = empty_action_cfg\<rparr>,
        \<lparr>if_id = 2, if_host = ''R2'', if_name = ''Loopback0'', if_ip = None, if_mask = None,
         if_desc = None, if_shutdown = Some 0, if_sync = PendingApply, if_action = full_action_cfg\<rparr>],
     db_l3 = [1 \<mapsto> \<lparr>l3_sec_ip = None, l3_sec_mask = None, l3_mtu = Some 1500, l3_bandwidth = None,
         l3_delay = None, l3_speed = Some ''auto'', l3_duplex = Some ''auto'', l3_negotiation = Some 1,
         l3_proxy_arp = Some 1, l3_unreachables = Some 1, l3_directed = Some 0,
         l3_sync = Synchronized, l3_action = Some ''00000''\<rparr>],
     db_tunnel = Map.empty, db_wan = Map.empty, db_subif = Map.empty\<rparr>"

definition sample_payload :: payload where
  "sample_payload = [''host'' \<mapsto> PStr ''R1'', ''interface_name'' \<mapsto> PStr ''Loopback1'',
     ''interface_kind'' \<mapsto> PStr ''L3'', ''ip_address'' \<mapsto> PStr ''10.0.0.1'',
     ''subnet_mask'' \<mapsto> PStr ''255.255.255.0'', ''description'' \<mapsto> PStr ''uplink'']"

lemma sample_db_ok: "db_ok sample_db"
  by (simp add: sample_db_def schema_defs mtu_ok_def bandwidth_ok_def bindable_def)

lemma save_writes_profile_witness:
  "\<exists>db'. save_router_interface (sample_payload(''description'' \<mapsto> PStr ''core'')) sample_db = (Inr True, db')
     \<and> (\<exists>r \<in> set (db_ifaces db'). row_holds (sample_payload(''description'' \<mapsto> PStr ''core'')) r)"
proof -
  let ?p = "sample_payload(''description'' \<mapsto> PStr ''core'')"
  have "fst (save_router_interface ?p sample_db) = Inr True" by code_simp
  then obtain db' where "save_router_interface ?p sample_db = (Inr True, db')" by (metis prod.collapse)
  then show ?thesis using save_writes_profile[OF sample_db_ok] by blast
qed


lemma resave_unchanged_witness: "save_router_interface sample_payload sample_db = (Inr True, sample_db)"
proof (rule resave_unchanged)
  show "hd (db_ifaces sample_db) \<in> set (db_ifaces sample_db)" by (simp add: sample_db_def)
  show "row_holds sample_payload (hd (db_ifaces sample_db))" by code_simp
  show "db_l3 sample_db (if_id (hd (db_ifaces sample_db))) = Some (the (db_l3 sample_db 1))" by code_simp
qed (rule sample_db_ok | code_simp)+

lemma reachable_constraints_witness:
  "\<exists>s. iface_step\<^sup>*\<^sup>* \<lparr>sys_db = sample_db, sys_tasks = []\<rparr> s
     \<and> snd (delete_router_interface 2 sample_db) = sys_db s \<and> db_ok (sys_db s)"
proof -
  let ?db = "snd (delete_router_interface 2 sample_db)"
  have "iface_step \<lparr>sys_db = sample_db, sys_tasks = []\<rparr> (\<lparr>sys_db = sample_db, sys_tasks = []\<rparr>\<lparr>sys_db := ?db\<rparr>)"
    by (rule iface_step.delete[of 2 _ "fst (delete_router_interface 2 sample_db)"]) simp
  then have "iface_step\<^sup>*\<^sup>* \<lparr>sys_db = sample_db, sys_tasks = []\<rparr> \<lparr>sys_db = ?db, sys_tasks = []\<rparr>" by simp
  from reachable_constraints[OF this sample_db_ok] this show ?thesis by auto
qed

text \<open>An edit that falls between a collection and its commit is marked as pushed: the commit clears
  the pending status and the mask of the new description although the task it commits was rendered
  with the old one.\<close>

lemma overtaken_edit_lost:
  "let ts = collect_interface_tasks sample_db ''R2'';
       db = commit_all ts (snd (save_router_interface [''host'' \<mapsto> PStr ''R2'',
          ''interface_name'' \<mapsto> PStr ''Loopback0'', ''description'' \<mapsto> PStr ''core''] sample_db))
   in map (\<lambda>t. if_desc (tk_iface t)) ts = [None]
      \<and> map (\<lambda>r. (if_desc r, if_sync r)) (filter (\<lambda>r. if_id r = 2) (db_ifaces db))
          = [(Some ''core'', Synchronized)]"
  by code_simp

text \<open>Deleting a synchronized loopback and saving it again with the values it had reports success,
  but the rows keep their deletion mark, so the next push still removes it.\<close>

lemma resave_keeps_deletion:
  "let (ok, db) = save_router_interface sample_payload (snd (delete_router_interface 1 sample_db))
   in ok = Inr True \<and> map tk_remove (collect_interface_tasks db ''R1'') = [True]"
  by code_simp

end
