(* ===== verification/Iface_Commands.thy ===== *)
theory Iface_Commands
  imports Iface_Tasks
begin

text \<open>
  The Cisco IOS renderer of an interface task (\<open>features/interfaces/commands.py\<close>) and the redaction
  of its secrets. A profile dictionary is the stored row; a missing or \<open>NULL\<close> value is \<open>None\<close>.
  The lemmas show the shape of a rendered block, that a selective block is the concatenation of
  the commands of its dirty fields, and that redacted text does not depend on the password.
\<close>

section \<open>Parts\<close>

definition enabled :: "int option \<Rightarrow> bool" where
  "enabled v = (case v of None \<Rightarrow> False | Some i \<Rightarrow> i \<noteq> 0)"

text \<open>A text or a number that is truthy.\<close>

definition given :: "string option \<Rightarrow> string option" where
  "given v = (case v of None \<Rightarrow> None | Some s \<Rightarrow> if s = [] then None else Some s)"

definition given_int :: "int option \<Rightarrow> int option" where
  "given_int v = (case v of None \<Rightarrow> None | Some i \<Rightarrow> if i = 0 then None else Some i)"

definition toggle :: "int option \<Rightarrow> string \<Rightarrow> string" where
  "toggle v command = (if enabled v then command else ''no '' @ command)"

definition opt_command :: "string \<Rightarrow> int option \<Rightarrow> string list" where
  "opt_command word v = (case given_int v of None \<Rightarrow> [] | Some i \<Rightarrow> [word @ '' '' @ show_int i])"

definition cleanup_l3 :: "l3_row \<Rightarrow> string list" where
  "cleanup_l3 r =
     (case (given (l3_sec_ip r), given (l3_sec_mask r)) of
        (Some ip, Some m) \<Rightarrow> [''no ip address '' @ ip @ '' '' @ m @ '' secondary'']
      | _ \<Rightarrow> [])
     @ [''default mtu'', ''default bandwidth'', ''default delay'', ''default speed'', ''default duplex'',
        ''ip proxy-arp'', ''ip unreachables'', ''no ip directed-broadcast'']"

definition cleanup_tunnel :: "string list" where
  "cleanup_tunnel = [''no tunnel protection ipsec profile'', ''no keepalive'', ''no tunnel key'',
     ''no tunnel destination'', ''no tunnel source'']"

definition cleanup_wan :: "string list" where
  "cleanup_wan = [''default encapsulation'', ''no ppp authentication'', ''no ppp pap sent-username'',
     ''no ppp chap hostname'', ''no ppp chap password'', ''no pppoe enable group global'',
     ''no pppoe-client dial-pool-number'', ''no clock rate'', ''no frame-relay lmi-type'']"

definition cleanup_subinterface :: "string list" where
  "cleanup_subinterface = [''no encapsulation dot1Q'']"

fun cleanup :: "profile_data \<Rightarrow> string list" where
  "cleanup (DL3 r) = cleanup_l3 r"
| "cleanup (DTunnel _) = cleanup_tunnel"
| "cleanup (DWan _) = cleanup_wan"
| "cleanup (DSubif _) = cleanup_subinterface"

definition secondary_command :: "l3_row \<Rightarrow> string list" where
  "secondary_command r =
     (case (given (l3_sec_ip r), given (l3_sec_mask r)) of
        (Some ip, Some m) \<Rightarrow> [''ip address '' @ ip @ '' '' @ m @ '' secondary'']
      | _ \<Rightarrow> [])"

definition choice_command :: "string \<Rightarrow> string option \<Rightarrow> string list" where
  "choice_command word v = [word @ '' '' @ (case given v of None \<Rightarrow> ''auto'' | Some s \<Rightarrow> s)]"

definition dirty :: "string \<Rightarrow> bool \<Rightarrow> string \<Rightarrow> bool" where
  "dirty cfg selective f = (\<not> selective \<or> field_is_dirty cfg f)"

definition render_l3 :: "l3_row \<Rightarrow> string \<Rightarrow> bool \<Rightarrow> string list" where
  "render_l3 r cfg selective =
     (if dirty cfg selective ''secondary_ip'' then secondary_command r else [])
   @ (if dirty cfg selective ''mtu'' then
        (case given_int (l3_mtu r) of None \<Rightarrow> [''default mtu''] | Some i \<Rightarrow> [''mtu '' @ show_int i]) else [])
   @ (if dirty cfg selective ''bandwidth'' then opt_command ''bandwidth'' (l3_bandwidth r) else [])
   @ (if dirty cfg selective ''delay'' then opt_command ''delay'' (l3_delay r) else [])
   @ (if dirty cfg selective ''speed'' then choice_command ''speed'' (l3_speed r) else [])
   @ (if dirty cfg selective ''duplex'' then choice_command ''duplex'' (l3_duplex r) else [])
   @ (if dirty cfg selective ''negotiation'' then
        (if \<not> enabled (l3_negotiation r) then [''no negotiation auto'']
         else if selective then [''negotiation auto''] else []) else [])
   @ (if dirty cfg selective ''proxy_arp'' then [toggle (l3_proxy_arp r) ''ip proxy-arp''] else [])
   @ (if dirty cfg selective ''unreachables'' then [toggle (l3_unreachables r) ''ip unreachables''] else [])
   @ (if dirty cfg selective ''directed_broadcast''
      then [toggle (l3_directed r) ''ip directed-broadcast''] else [])"

definition render_virtual_l3 :: "l3_row \<Rightarrow> string \<Rightarrow> bool \<Rightarrow> string list" where
  "render_virtual_l3 r cfg selective =
     (if dirty cfg selective ''secondary_ip'' then secondary_command r else [])
   @ (if dirty cfg selective ''bandwidth'' then opt_command ''bandwidth'' (l3_bandwidth r) else [])
   @ (if dirty cfg selective ''delay'' then opt_command ''delay'' (l3_delay r) else [])"

definition tunnel_mode_command :: "string \<Rightarrow> string" where
  "tunnel_mode_command m =
     (if m = ''ipip'' then ''tunnel mode ipip''
      else if m = ''ipsec'' then ''tunnel mode ipsec ipv4''
      else ''tunnel mode gre ip'')"

definition render_tunnel :: "tunnel_row \<Rightarrow> string list" where
  "render_tunnel r =
     [tunnel_mode_command (tn_mode r), ''tunnel source '' @ tn_src r, ''tunnel destination '' @ tn_dst r]
   @ (case tn_key r of None \<Rightarrow> [] | Some k \<Rightarrow> [''tunnel key '' @ show_int k])
   @ (case given_int (tn_ka_sec r) of None \<Rightarrow> []
      | Some s \<Rightarrow> [''keepalive '' @ show_int s
          @ (case given_int (tn_ka_retry r) of None \<Rightarrow> [] | Some n \<Rightarrow> '' '' @ show_int n)])
   @ (case given (tn_ipsec r) of None \<Rightarrow> [] | Some p \<Rightarrow> [''tunnel protection ipsec profile '' @ p])"

definition secret_commands :: "wan_row \<Rightarrow> string list" where
  "secret_commands r =
     (case (given (wn_user r), given (wn_password r)) of
        (Some user, Some pw) \<Rightarrow>
          if wn_auth r = Some ''pap'' then [''ppp pap sent-username '' @ user @ '' password 0 '' @ pw]
          else [''ppp chap hostname '' @ user, ''ppp chap password 0 '' @ pw]
      | _ \<Rightarrow> [])"

definition render_wan :: "wan_row \<Rightarrow> string list" where
  "render_wan r =
     (let encapsulation = (if wn_encap r = [] then ''none'' else wn_encap r) in
      (if encapsulation \<in> {''hdlc'', ''ppp'', ''frame-relay''} then [''encapsulation '' @ encapsulation] else [])
    @ (if encapsulation = ''pppoe'' then
         ''pppoe enable group global'' # opt_command ''pppoe-client dial-pool-number'' (wn_pool r) else [])
    @ (case given (wn_auth r) of None \<Rightarrow> [] | Some a \<Rightarrow> [''ppp authentication '' @ a])
    @ secret_commands r
    @ opt_command ''clock rate'' (wn_clock r)
    @ (case given (wn_lmi r) of None \<Rightarrow> [] | Some l \<Rightarrow> [''frame-relay lmi-type '' @ l]))"

definition render_subinterface :: "subif_row \<Rightarrow> string list" where
  "render_subinterface r =
     [''encapsulation '' @ (if sb_encap r = ''dot1q'' then ''dot1Q'' else ''isl'') @ '' '' @ show_int (sb_vlan r)
      @ (if enabled (sb_native r) then '' native'' else [])]"

section \<open>A task\<close>

definition blank_text :: "string option \<Rightarrow> string" where
  "blank_text v = (case v of None \<Rightarrow> [] | Some s \<Rightarrow> strip s)"

text \<open>Lines 227--235: an l3 row that only awaits removal does not count on a virtual interface.\<close>

definition profile_pending :: "iface_task \<Rightarrow> iface_type \<Rightarrow> bool" where
  "profile_pending t ty =
     list_ex (\<lambda>(k, s). pending s \<and> \<not> (k = L3 \<and> k \<in> set (map fst (tk_removed t)) \<and> ty \<noteq> Physical))
       (tk_states t)"

definition cleanup_commands :: "iface_task \<Rightarrow> iface_type \<Rightarrow> string list" where
  "cleanup_commands t ty =
     concat (map (\<lambda>(k, d). if k = L3 \<and> ty \<noteq> Physical then [] else cleanup d) (tk_removed t))"

definition legacy_l3_pending :: "iface_task \<Rightarrow> bool" where
  "legacy_l3_pending t =
     (case (tk_kind t, tk_profile t) of
        (Some L3, Some (DL3 r)) \<Rightarrow>
          l3_sync r = PendingApply
          \<and> CHR ''1'' \<in> set (case l3_action r of None \<Rightarrow> '''' | Some m \<Rightarrow> m)
          \<and> \<not> has_dirty_fields (if_action (tk_iface t))
      | _ \<Rightarrow> False)"

definition selective_l3 :: "iface_task \<Rightarrow> bool" where
  "selective_l3 t = (tk_kind t = Some L3 \<and> valid_mask (if_action (tk_iface t)) \<and> \<not> legacy_l3_pending t)"

definition description_commands :: "iface_row \<Rightarrow> string list" where
  "description_commands r =
     (let d = blank_text (if_desc r) in [if d = [] then ''no description'' else ''description '' @ d])"

definition address_commands :: "iface_row \<Rightarrow> string list" where
  "address_commands r =
     (case (given (if_ip r), given (if_mask r)) of
        (Some ip, Some m) \<Rightarrow> [''ip address '' @ ip @ '' '' @ m]
      | _ \<Rightarrow> [''no ip address''])"

definition shutdown_commands :: "iface_row \<Rightarrow> string list" where
  "shutdown_commands r = [if enabled (if_shutdown r) then ''shutdown'' else ''no shutdown'']"

definition profile_commands :: "iface_task \<Rightarrow> iface_type \<Rightarrow> string \<Rightarrow> bool \<Rightarrow> string list" where
  "profile_commands t ty cfg selective =
     (case tk_profile t of
        None \<Rightarrow> []
      | Some (DL3 r) \<Rightarrow> (if ty \<noteq> Physical then render_virtual_l3 r cfg selective else render_l3 r cfg selective)
      | Some (DTunnel r) \<Rightarrow> render_tunnel r
      | Some (DWan r) \<Rightarrow> render_wan r
      | Some (DSubif r) \<Rightarrow> render_subinterface r)"

definition render_interface_commands :: "iface_task \<Rightarrow> string list" where
  "render_interface_commands t =
     (let r = tk_iface t; name = strip (if_name r) in
      if name = [] then []
      else
        let ty = infer_interface_type (PStr name); start = ''interface '' @ name in
        if tk_remove t then
          (if ty \<noteq> Physical then [''no interface '' @ name]
           else [start, ''no ip address'', ''no description'', ''shutdown'', ''exit''])
        else if \<not> tk_base_pending t \<and> \<not> profile_pending t ty then []
        else
          let selective = selective_l3 t; cfg = normalize_action_cfg (if_action r);
              commands = start # cleanup_commands t ty
                @ (if dirty cfg selective ''description'' then description_commands r else [])
                @ (if dirty cfg selective ''primary_ip'' then address_commands r else [])
                @ profile_commands t ty cfg selective
                @ (if dirty cfg selective ''shutdown'' then shutdown_commands r else [])
          in if length commands = 1 then [] else commands @ [''exit''])"

section \<open>Redaction\<close>

text \<open>\<open>s.split(p, 1)[0]\<close>: the text before the first occurrence of a nonempty \<open>p\<close>.\<close>

fun before :: "string \<Rightarrow> string \<Rightarrow> string" where
  "before [] p = []"
| "before (c # cs) p = (if starts_with (c # cs) p then [] else c # before cs p)"

definition redact_command :: "string \<Rightarrow> string" where
  "redact_command c =
     (if starts_with c ''ppp pap sent-username '' \<and> contains c '' password ''
      then before c '' password '' @ '' password <redacted>''
      else if starts_with c ''ppp chap password '' then ''ppp chap password <redacted>''
      else c)"

definition redact_interface_commands :: "string list \<Rightarrow> string list" where
  "redact_interface_commands commands = map redact_command commands"

text \<open>
  The two patterns of \<open>redact_interface_output\<close>, matched at one position. A quantifier over a
  character class takes the maximal run here: what follows it starts outside the class, so no
  shorter run matches. After \<open>password\<close> the optional number is taken when a further word follows
  it, else the number is itself the secret. A match is the kept text and the rest.
\<close>

fun eat_word :: "string \<Rightarrow> string \<Rightarrow> string option" where
  "eat_word [] s = Some s"
| "eat_word (p # ps) [] = None"
| "eat_word (p # ps) (c # cs) = (if lower_char c = p then eat_word ps cs else None)"

definition eat_spaces :: "string \<Rightarrow> string option" where
  "eat_spaces s = (if s \<noteq> [] \<and> is_space (hd s) then Some (dropWhile is_space s) else None)"

definition eat_token :: "string \<Rightarrow> string option" where
  "eat_token s = (if s \<noteq> [] \<and> \<not> is_space (hd s) then Some (dropWhile (\<lambda>c. \<not> is_space c) s) else None)"

definition eat_secret :: "string \<Rightarrow> string option" where
  "eat_secret s =
     (case eat_spaces s of
        None \<Rightarrow> None
      | Some t \<Rightarrow>
          let number = takeWhile (\<lambda>c. \<not> is_space c) t; rest = dropWhile (\<lambda>c. \<not> is_space c) t in
          if number \<noteq> [] \<and> list_all is_digit number \<and> Option.bind (eat_spaces rest) eat_token \<noteq> None
          then Option.bind (eat_spaces rest) eat_token
          else eat_token t)"

datatype secret_kind = Pap | Chap

fun secret_prefix :: "secret_kind \<Rightarrow> string \<Rightarrow> string option" where
  "secret_prefix Chap s =
     Option.bind (eat_word ''ppp'' s) (\<lambda>s. Option.bind (eat_spaces s) (\<lambda>s.
     Option.bind (eat_word ''chap'' s) (\<lambda>s. Option.bind (eat_spaces s) (eat_word ''password''))))"
| "secret_prefix Pap s =
     Option.bind (eat_word ''ppp'' s) (\<lambda>s. Option.bind (eat_spaces s) (\<lambda>s.
     Option.bind (eat_word ''pap'' s) (\<lambda>s. Option.bind (eat_spaces s) (\<lambda>s.
     Option.bind (eat_word ''sent-username'' s) (\<lambda>s. Option.bind (eat_spaces s) (\<lambda>s.
     Option.bind (eat_token s) (\<lambda>s. Option.bind (eat_spaces s) (eat_word ''password''))))))))"

definition match_secret :: "secret_kind \<Rightarrow> string \<Rightarrow> (string \<times> string) option" where
  "match_secret k s =
     Option.bind (secret_prefix k s) (\<lambda>t. map_option (\<lambda>rest. (take (length s - length t) s, rest)) (eat_secret t))"

lemma eat_word_length: "eat_word p s = Some t \<Longrightarrow> length s = length p + length t"
  by (induction p s rule: eat_word.induct) (auto split: if_splits)

lemma eat_spaces_length: "eat_spaces s = Some t \<Longrightarrow> length t < length s"
  by (cases s) (auto simp: eat_spaces_def less_Suc_eq_le length_dropWhile_le split: if_splits)

lemma eat_token_length: "eat_token s = Some t \<Longrightarrow> length t < length s"
  by (cases s) (auto simp: eat_token_def less_Suc_eq_le length_dropWhile_le split: if_splits)

lemma eat_secret_length: "eat_secret s = Some t \<Longrightarrow> length t < length s"
proof -
  assume a: "eat_secret s = Some t"
  then obtain u where u: "eat_spaces s = Some u" by (auto simp: eat_secret_def split: option.splits)
  have "length (dropWhile (\<lambda>c. \<not> is_space c) u) \<le> length u" by (rule length_dropWhile_le)
  then show ?thesis using a u eat_spaces_length[OF u]
    by (auto simp: eat_secret_def Let_def split: bind_splits if_splits
        dest!: eat_spaces_length[of "dropWhile _ _"] eat_token_length)
qed

lemma secret_prefix_length: "secret_prefix k s = Some t \<Longrightarrow> length t < length s"
  by (cases k) (auto split: bind_splits dest!: eat_word_length eat_spaces_length eat_token_length)

lemma match_secret_length: "match_secret k s = Some (a, t) \<Longrightarrow> length t < length s"
  by (auto simp: match_secret_def split: bind_splits dest!: secret_prefix_length eat_secret_length)

text \<open>\<open>re.sub\<close>: the leftmost match is replaced and the scan goes on behind it.\<close>

function sub_secret :: "secret_kind \<Rightarrow> string \<Rightarrow> string" where
  "sub_secret k s =
     (case match_secret k s of
        Some (kept, rest) \<Rightarrow> kept @ '' <redacted>'' @ sub_secret k rest
      | None \<Rightarrow> (case s of [] \<Rightarrow> [] | c # cs \<Rightarrow> c # sub_secret k cs))"
  by pat_completeness auto
termination
  by (relation "measure (\<lambda>(k, s). length s)") (auto dest: match_secret_length)

declare sub_secret.simps [simp del]

definition redact_interface_output :: "string \<Rightarrow> string" where
  "redact_interface_output output = sub_secret Chap (sub_secret Pap output)"

section \<open>The shape of a rendered block\<close>

text \<open>A rendered task is empty, or the one command that removes a virtual interface, or a
  block that enters the interface, has at least one command and leaves with \<open>exit\<close>.\<close>

theorem render_shape:
  "render_interface_commands t = []
   \<or> tk_remove t \<and> infer_interface_type (PStr (strip (if_name (tk_iface t)))) \<noteq> Physical
       \<and> render_interface_commands t = [''no interface '' @ strip (if_name (tk_iface t))]
   \<or> (\<exists>body. body \<noteq> [] \<and> render_interface_commands t
        = (''interface '' @ strip (if_name (tk_iface t))) # body @ [''exit''])"
  by (auto simp: render_interface_commands_def Let_def)

definition block :: "string \<Rightarrow> string list \<Rightarrow> string list" where
  "block name body = (if body = [] then [] else (''interface '' @ name) # body @ [''exit''])"

lemma render_setup:
  assumes "\<not> tk_remove t" "strip (if_name (tk_iface t)) = name" "name \<noteq> []"
    "tk_base_pending t \<or> profile_pending t (infer_interface_type (PStr name))"
  shows "render_interface_commands t = block name
    (cleanup_commands t (infer_interface_type (PStr name))
     @ (if dirty (normalize_action_cfg (if_action (tk_iface t))) (selective_l3 t) ''description''
        then description_commands (tk_iface t) else [])
     @ (if dirty (normalize_action_cfg (if_action (tk_iface t))) (selective_l3 t) ''primary_ip''
        then address_commands (tk_iface t) else [])
     @ profile_commands t (infer_interface_type (PStr name)) (normalize_action_cfg (if_action (tk_iface t)))
         (selective_l3 t)
     @ (if dirty (normalize_action_cfg (if_action (tk_iface t))) (selective_l3 t) ''shutdown''
        then shutdown_commands (tk_iface t) else []))"
proof -
  have "(if length (x # xs) = 1 then [] else (x # xs) @ [e]) = (if xs = [] then [] else x # xs @ [e])"
    for x e :: string and xs by simp
  then show ?thesis
    unfolding render_interface_commands_def Let_def assms(2) block_def using assms(1,3,4) by auto
qed

section \<open>Selective rendering\<close>

text \<open>What each dirty field contributes, in the reference order of the mask.\<close>

definition field_commands :: "iface_row \<Rightarrow> l3_row \<Rightarrow> (string \<times> string list) list" where
  "field_commands r l =
     [(''description'', description_commands r),
      (''primary_ip'', address_commands r),
      (''secondary_ip'', secondary_command l),
      (''mtu'', case given_int (l3_mtu l) of None \<Rightarrow> [''default mtu''] | Some i \<Rightarrow> [''mtu '' @ show_int i]),
      (''bandwidth'', opt_command ''bandwidth'' (l3_bandwidth l)),
      (''delay'', opt_command ''delay'' (l3_delay l)),
      (''speed'', choice_command ''speed'' (l3_speed l)),
      (''duplex'', choice_command ''duplex'' (l3_duplex l)),
      (''negotiation'', [if enabled (l3_negotiation l) then ''negotiation auto'' else ''no negotiation auto'']),
      (''proxy_arp'', [toggle (l3_proxy_arp l) ''ip proxy-arp'']),
      (''unreachables'', [toggle (l3_unreachables l) ''ip unreachables'']),
      (''directed_broadcast'', [toggle (l3_directed l) ''ip directed-broadcast'']),
      (''shutdown'', shutdown_commands r)]"

definition physical_only :: "string list" where
  "physical_only = [''mtu'', ''speed'', ''duplex'', ''negotiation'', ''proxy_arp'', ''unreachables'',
     ''directed_broadcast'']"

definition selected :: "iface_type \<Rightarrow> string \<Rightarrow> string \<Rightarrow> bool" where
  "selected ty cfg f = (field_is_dirty cfg f \<and> (ty = Physical \<or> f \<notin> set physical_only))"

lemma field_commands_order: "map fst (field_commands r l) = action_fields"
  by (simp add: field_commands_def action_fields_def)

lemma render_l3_selective:
  "description_part @ address_part @ render_l3 l cfg True @ shutdown_part
   = concat (map snd (filter (\<lambda>(f, _). selected Physical cfg f) (field_commands r l)))"
  if "description_part = (if field_is_dirty cfg ''description'' then description_commands r else [])"
    "address_part = (if field_is_dirty cfg ''primary_ip'' then address_commands r else [])"
    "shutdown_part = (if field_is_dirty cfg ''shutdown'' then shutdown_commands r else [])"
  unfolding that render_l3_def field_commands_def selected_def dirty_def by simp

lemma render_virtual_selective:
  "description_part @ address_part @ render_virtual_l3 l cfg True @ shutdown_part
   = concat (map snd (filter (\<lambda>(f, _). selected ty cfg f) (field_commands r l)))"
  if "ty \<noteq> Physical"
    "description_part = (if field_is_dirty cfg ''description'' then description_commands r else [])"
    "address_part = (if field_is_dirty cfg ''primary_ip'' then address_commands r else [])"
    "shutdown_part = (if field_is_dirty cfg ''shutdown'' then shutdown_commands r else [])"
  unfolding that(2-4) render_virtual_l3_def field_commands_def selected_def dirty_def physical_only_def
  using that(1) by simp

text \<open>Property C7. Selective rendering sends the dirty fields and nothing else: for a pending l3 task
  with a valid mask, no removed profile and no legacy mask, the block is the concatenation, in mask
  order, of the commands of the fields whose bit is set -- on a virtual interface without the
  physical-only ones -- and the task renders to nothing when these are no commands at all.\<close>

theorem render_selective:
  assumes "\<not> tk_remove t" "tk_base_pending t" "tk_removed t = []"
    and "tk_profile t = Some (DL3 l)" "selective_l3 t"
    and "strip (if_name (tk_iface t)) = name" "name \<noteq> []"
  defines "body \<equiv> concat (map snd (filter
      (\<lambda>(f, _). selected (infer_interface_type (PStr name)) (if_action (tk_iface t)) f)
      (field_commands (tk_iface t) l)))"
  shows "render_interface_commands t
    = (if body = [] then [] else (''interface '' @ name) # body @ [''exit''])"
proof -
  let ?r = "tk_iface t" and ?ty = "infer_interface_type (PStr name)"
  have v: "normalize_action_cfg (if_action ?r) = if_action ?r"
    using assms(5) by (simp add: selective_l3_def)
  have "(if dirty (if_action ?r) True ''description'' then description_commands ?r else [])
      @ (if dirty (if_action ?r) True ''primary_ip'' then address_commands ?r else [])
      @ profile_commands t ?ty (if_action ?r) True
      @ (if dirty (if_action ?r) True ''shutdown'' then shutdown_commands ?r else []) = body"
  proof (cases "?ty = Physical")
    case True
    then show ?thesis unfolding body_def profile_commands_def assms(4)
      by (simp add: dirty_def render_l3_selective)
  next
    case False
    then show ?thesis unfolding body_def profile_commands_def assms(4)
      by (simp add: dirty_def render_virtual_selective)
  qed
  moreover have "cleanup_commands t ?ty = []" by (simp add: cleanup_commands_def assms(3))
  moreover have "selective_l3 t = True" using assms(5) by simp
  ultimately have "render_interface_commands t = block name body"
    by (simp only: render_setup[OF assms(1,6,7) disjI1[OF assms(2)]] v append_Nil)
  then show ?thesis by (simp add: block_def)
qed

text \<open>A field that was cleared has no command of its own, so a task whose only dirty field is a
  cleared secondary address, bandwidth or delay renders to nothing.\<close>

lemma cleared_fields_silent:
  "l3_sec_ip l = None \<Longrightarrow> secondary_command l = []"
  "opt_command word None = []"
  by (simp_all add: secondary_command_def given_def opt_command_def given_int_def)

section \<open>Redacted text does not depend on the secret\<close>

lemma before_contains: "contains a p \<Longrightarrow> before (a @ b) p = before a p" if "p \<noteq> []"
proof (induction a)
  case Nil
  then show ?case using that by simp
next
  case (Cons c a)
  show ?case
  proof (cases "starts_with (c # a) p")
    case True
    then obtain t where "(c # a) @ b = p @ t @ b" by (auto simp: starts_with_iff)
    then have "starts_with ((c # a) @ b) p" by (simp only: starts_with_append)
    then show ?thesis using True by simp
  next
    case False
    then have "contains a p" using Cons.prems by simp
    moreover have "\<not> starts_with ((c # a) @ b) p"
    proof
      assume s: "starts_with ((c # a) @ b) p"
      then obtain t where "(c # a) @ b = p @ t" by (auto simp: starts_with_iff)
      moreover obtain x y where xy: "a = x @ p @ y" using \<open>contains a p\<close> by (auto simp: contains_iff)
      moreover have "length p \<le> length (c # a)" using xy by simp
      ultimately have "take (length p) (c # a) = p"
        by (metis append_eq_conv_conj take_append diff_is_0_eq take0 append_Nil2)
      then have "starts_with (c # a) p" by (metis append_take_drop_id starts_with_iff)
      then show False using False by simp
    qed
    ultimately show ?thesis using False Cons.IH by simp
  qed
qed

lemma contains_appendI: "contains a p \<Longrightarrow> contains (a @ b) p"
  by (auto simp: contains_iff) (metis append.assoc)

lemma redact_pap:
  "redact_command (''ppp pap sent-username '' @ user @ '' password 0 '' @ pw)
   = before (''ppp pap sent-username '' @ user @ '' password 0 '') '' password '' @ '' password <redacted>''"
proof -
  have c: "contains (''ppp pap sent-username '' @ user @ '' password 0 '') '' password ''"
    unfolding contains_iff by (rule exI[of _ "''ppp pap sent-username '' @ user"], rule exI[of _ "''0 ''"]) simp
  from contains_appendI[OF this, of pw] before_contains[OF _ this, of pw]
  show ?thesis by (simp add: redact_command_def)
qed

lemma redact_chap [simp]:
  "redact_command (''ppp chap password 0 '' @ pw) = ''ppp chap password <redacted>''"
  by (simp add: redact_command_def)

lemma redacted_wan:
  assumes "pw \<noteq> []" "pw' \<noteq> []"
  shows "redact_interface_commands (render_wan (r\<lparr>wn_password := Some pw\<rparr>))
       = redact_interface_commands (render_wan (r\<lparr>wn_password := Some pw'\<rparr>))"
proof -
  have secret: "secret_commands (r\<lparr>wn_password := Some q\<rparr>) =
      (case given (wn_user r) of None \<Rightarrow> []
       | Some user \<Rightarrow> if wn_auth r = Some ''pap'' then [''ppp pap sent-username '' @ user @ '' password 0 '' @ q]
          else [''ppp chap hostname '' @ user, ''ppp chap password 0 '' @ q])" if "q \<noteq> []" for q
    using that by (simp add: secret_commands_def given_def split: option.splits)
  have "map redact_command (secret_commands (r\<lparr>wn_password := Some pw\<rparr>))
      = map redact_command (secret_commands (r\<lparr>wn_password := Some pw'\<rparr>))"
    unfolding secret[OF assms(1)] secret[OF assms(2)]
    by (cases "given (wn_user r)"; cases "wn_auth r = Some ''pap''")
      (simp_all only: option.case list.map redact_pap redact_chap if_True if_False simp_thms)
  then show ?thesis by (simp add: redact_interface_commands_def render_wan_def Let_def)
qed

section \<open>Secrets echoed by the device\<close>

lemma eat_word_self: "lower p = p \<Longrightarrow> eat_word p (p @ s) = Some s"
  by (induction p) (simp_all add: lower_def)

lemma lower_words: "lower ''ppp'' = ''ppp''" "lower ''chap'' = ''chap''" "lower ''pap'' = ''pap''"
  "lower ''sent-username'' = ''sent-username''" "lower ''password'' = ''password''"
  by code_simp+

lemma is_space_blank [simp]: "is_space (CHR '' '')"
  by code_simp

definition word :: "string \<Rightarrow> bool" where
  "word s = (s \<noteq> [] \<and> list_all (\<lambda>c. \<not> is_space c) s)"

lemma eat_spaces_word: "word s \<Longrightarrow> eat_spaces (CHR '' '' # s @ t) = Some (s @ t)"
  by (cases s) (simp_all add: eat_spaces_def word_def)

lemma drop_word:
  assumes "word s" "is_space c"
  shows "dropWhile (\<lambda>c. \<not> is_space c) (s @ c # t) = c # t" "takeWhile (\<lambda>c. \<not> is_space c) (s @ c # t) = s"
  using assms by (simp_all add: word_def list_all_iff dropWhile_append2 takeWhile_append2)

lemma eat_token_word: "word s \<Longrightarrow> is_space c \<Longrightarrow> eat_token (s @ c # t) = Some (c # t)"
  using drop_word[of s c t] by (cases s) (simp_all add: eat_token_def word_def)

lemma word_literals: "word ''ppp''" "word ''chap''" "word ''pap''" "word ''sent-username''"
  "word ''password''" "word ''0''" "list_all is_digit ''0''"
  by code_simp+

lemma eat_secret_zero:
  assumes "word pw" "is_space c"
  shows "eat_secret (CHR '' '' # ''0'' @ CHR '' '' # pw @ c # t) = Some (c # t)"
  using drop_word[OF word_literals(6) is_space_blank, of "pw @ c # t"] word_literals(7)
    eat_spaces_word[OF word_literals(6), of "CHR '' '' # pw @ c # t"]
    eat_spaces_word[OF assms(1), of "c # t"] eat_token_word[OF assms]
  by (simp add: eat_secret_def)

lemma no_match:
  assumes "lower_char c \<noteq> CHR ''p''"
  shows "match_secret k (c # s) = None"
  using assms by (cases k) (simp_all add: match_secret_def)

lemma sub_secret_prefix:
  "list_all (\<lambda>c. lower_char c \<noteq> CHR ''p'') pre \<Longrightarrow> sub_secret k (pre @ s) = pre @ sub_secret k s"
proof (induction pre)
  case (Cons c pre)
  then show ?case by (subst sub_secret.simps) (simp add: no_match)
qed simp

text \<open>What an echoed line looks like.\<close>

definition chap_line :: "string \<Rightarrow> string" where
  "chap_line pw = ''ppp'' @ CHR '' '' # ''chap'' @ CHR '' '' # ''password'' @ CHR '' '' # ''0'' @ CHR '' '' # pw"

definition pap_line :: "string \<Rightarrow> string \<Rightarrow> string" where
  "pap_line user pw = ''ppp'' @ CHR '' '' # ''pap'' @ CHR '' '' # ''sent-username'' @ CHR '' '' # user
     @ CHR '' '' # ''password'' @ CHR '' '' # ''0'' @ CHR '' '' # pw"

lemma match_secretI:
  "secret_prefix k s = Some t \<Longrightarrow> eat_secret t = Some r \<Longrightarrow> s = p @ t \<Longrightarrow> match_secret k s = Some (p, r)"
  by (simp add: match_secret_def del: secret_prefix.simps)

lemma match_chap:
  assumes "word pw" "is_space c"
  shows "match_secret Chap (chap_line pw @ c # t) = Some (''ppp chap password'', c # t)"
proof -
  note e = eat_word_self[OF lower_words(1)] eat_word_self[OF lower_words(2)] eat_word_self[OF lower_words(5)]
    eat_spaces_word[OF word_literals(2)] eat_spaces_word[OF word_literals(5)]
  have l: "chap_line pw @ c # t = ''ppp'' @ (CHR '' '' # ''chap'' @ (CHR '' '' # ''password''
      @ (CHR '' '' # ''0'' @ CHR '' '' # pw @ c # t)))"
    by (simp add: chap_line_def)
  have "secret_prefix Chap (chap_line pw @ c # t) = Some (CHR '' '' # ''0'' @ CHR '' '' # pw @ c # t)"
    unfolding l secret_prefix.simps by (simp only: e bind.bind_lunit)
  then show ?thesis using eat_secret_zero[OF assms] by (rule match_secretI) (simp add: chap_line_def)
qed

lemma match_pap:
  assumes "word user" "word pw" "is_space c"
  shows "match_secret Pap (pap_line user pw @ c # t)
    = Some (''ppp pap sent-username '' @ user @ '' password'', c # t)"
proof -
  note e = eat_word_self[OF lower_words(1)] eat_word_self[OF lower_words(3)] eat_word_self[OF lower_words(4)]
    eat_word_self[OF lower_words(5)] eat_spaces_word[OF word_literals(3)] eat_spaces_word[OF word_literals(4)]
    eat_spaces_word[OF word_literals(5)] eat_spaces_word[OF assms(1)] eat_token_word[OF assms(1) is_space_blank]
  have l: "pap_line user pw @ c # t = ''ppp'' @ (CHR '' '' # ''pap'' @ (CHR '' '' # ''sent-username''
      @ (CHR '' '' # user @ CHR '' '' # ''password'' @ (CHR '' '' # ''0'' @ CHR '' '' # pw @ c # t))))"
    by (simp add: pap_line_def)
  have "secret_prefix Pap (pap_line user pw @ c # t) = Some (CHR '' '' # ''0'' @ CHR '' '' # pw @ c # t)"
    unfolding l secret_prefix.simps by (simp only: e bind.bind_lunit)
  then show ?thesis using eat_secret_zero[OF assms(2,3)] by (rule match_secretI) (simp add: pap_line_def)
qed



lemma render_selective_witness:
  "render_interface_commands
     (task_of (sample_db\<lparr>db_ifaces := [hd (db_ifaces sample_db)\<lparr>if_sync := PendingApply,
          if_action := action_cfg_for [''description'']\<rparr>]\<rparr>) ''R1''
        (hd (db_ifaces sample_db)\<lparr>if_sync := PendingApply, if_action := action_cfg_for [''description'']\<rparr>))
   = [''interface Loopback1'', ''description uplink'', ''exit'']"
proof (subst render_selective)
  show "tk_profile (task_of (sample_db\<lparr>db_ifaces := [hd (db_ifaces sample_db)\<lparr>if_sync := PendingApply,
          if_action := action_cfg_for [''description'']\<rparr>]\<rparr>) ''R1''
        (hd (db_ifaces sample_db)\<lparr>if_sync := PendingApply, if_action := action_cfg_for [''description'']\<rparr>))
     = Some (DL3 (the (db_l3 sample_db 1)))" by code_simp
qed code_simp+

end
