(* ===== verification/Iface_Push.thy ===== *)
theory Iface_Push
  imports Sessions Iface_Commands
begin

text \<open>
  The push controller of router interfaces (\<open>features/interfaces/view_push.py\<close> and \<open>worker.py\<close>) as
  an instance of the shared controller over the session registry. The world is the registry whose
  opaque part holds the network \<open>'n\<close> and the interface database. The device's answer to a command
  set, the routing context of a host and an error while a task is committed are parameters.
\<close>

section \<open>The controller's operations\<close>

record device_context =
  dc_template :: string
  dc_platform :: string
  dc_method :: string

record iface_push_task = iface_task +
  tk_commands :: "string list"

record ('k, 'n) iface_env =
  ie_sessions :: "('k, 'n \<times> ifdb) session_env"
  ie_context :: "string \<Rightarrow> string + device_context"
  ie_send :: "'k \<Rightarrow> string list \<Rightarrow> ('n, string) act"
  ie_commit_error :: "iface_push_task \<Rightarrow> 'n \<Rightarrow> string option"
  ie_dev_host :: "string \<Rightarrow> bool"
  ie_reconcile :: "(string \<Rightarrow> string \<Rightarrow> 'k \<Rightarrow> (('k, 'n \<times> ifdb) registry, sync_note) act) option"

definition check_target :: "('k, 'n) iface_env \<Rightarrow> string \<Rightarrow> string \<Rightarrow> string + unit" where
  "check_target ie host module_name =
     (let module = lower (strip (text_default module_name ''all'')) in
      if module \<noteq> ''all'' \<and> module \<noteq> ''interface''
      then Inl (''Unsupported router-interface module: '' @ module_name)
      else sbind (ie_context ie host) (\<lambda>ctx.
        if dc_template ctx \<noteq> ''cisco_ios'' then
          Inl (''Router Interface View & Push currently supports Cisco IOS only, not '' @ dc_platform ctx)
        else if upper (text_default (dc_method ctx) ''SSH'') = ''RESTCONF'' then
          Inl ''Router Interface RESTCONF push is not integrated yet''
        else Inr ()))"

definition with_commands :: "iface_task \<Rightarrow> iface_push_task" where
  "with_commands t = iface_task.extend t \<lparr>tk_commands = render_interface_commands t\<rparr>"

definition iface_collect :: "('k, 'n) iface_env \<Rightarrow> string \<Rightarrow> string \<Rightarrow> ('k, 'n \<times> ifdb) registry
    \<Rightarrow> string + iface_push_task list" where
  "iface_collect ie host module_name g =
     sbind (check_target ie host module_name) (\<lambda>_.
       Inr (filter (\<lambda>t. tk_commands t \<noteq> [])
         (map with_commands (collect_interface_tasks (snd (rg_net g)) host))))"

definition iface_task_preview :: "iface_push_task \<Rightarrow> string \<Rightarrow> string + string list" where
  "iface_task_preview t module_name =
     Inr ((''# '' @ tk_host t @ '' / ROUTER INTERFACE / '' @ if_name (tk_iface t))
          # redact_interface_commands (tk_commands t))"

definition error_markers :: "string list" where
  "error_markers = [''% invalid input'', ''% incomplete command'', ''% ambiguous command'', ''% authorization failed'']"

text \<open>Output that shows no error marker is accepted.\<close>

definition accept_output :: "string \<Rightarrow> string + string" where
  "accept_output out =
     (if list_ex (contains (lower out)) error_markers
      then Inl (text_default (strip out) ''The router rejected the interface configuration'')
      else Inr out)"

definition apply_interface_commands :: "('k, 'n) iface_env \<Rightarrow> 'k \<Rightarrow> string list
    \<Rightarrow> (('k, 'n \<times> ifdb) registry, string) act" where
  "apply_interface_commands ie k commands g =
     (if \<not> se_connection (ie_sessions ie) k (rg_net g) then
        (Inl ''The active device session is unavailable'', g)
      else case ie_send ie k commands (fst (rg_net g)) of
          (Inl e, n) \<Rightarrow> (Inl e, g\<lparr>rg_net := (n, snd (rg_net g))\<rparr>)
        | (Inr out, n) \<Rightarrow> (accept_output out, g\<lparr>rg_net := (n, snd (rg_net g))\<rparr>))"

record push_item =
  pi_host :: string
  pi_iface :: string
  pi_success :: bool
  pi_log :: string
  pi_updated :: bool

definition push_item :: "string \<Rightarrow> iface_push_task \<Rightarrow> bool \<Rightarrow> string \<Rightarrow> push_item" where
  "push_item host t ok log = \<lparr>pi_host = host, pi_iface = if_name (tk_iface t), pi_success = ok,
     pi_log = redact_interface_output log, pi_updated = ok\<rparr>"

text \<open>The loop over the tasks inside the \<open>try\<close>: an error stops it, what was committed stays.\<close>

fun commit_tasks :: "(iface_push_task \<Rightarrow> string option) \<Rightarrow> string \<Rightarrow> string \<Rightarrow> iface_push_task list \<Rightarrow> ifdb
    \<Rightarrow> string option \<times> push_item list \<times> ifdb" where
  "commit_tasks err host out [] db = (None, [], db)"
| "commit_tasks err host out (t # ts) db =
     (case err t of
        Some e \<Rightarrow> (Some e, [], db)
      | None \<Rightarrow>
          let (e, report, db') = commit_tasks err host out ts
                (mark_interface_task_applied (iface_task.truncate t) db)
          in (e, push_item host t True out # report, db'))"

text \<open>The summary of a report (lines 142--154 of \<open>view_push.py\<close>).\<close>

definition push_reply :: "push_item list \<Rightarrow> (push_item, unit) reply" where
  "push_reply report =
     (let ok = (report \<noteq> [] \<and> list_all pi_success report);
          detail = (case find (\<lambda>i. \<not> pi_success i) report of None \<Rightarrow> '''' | Some i \<Rightarrow> pi_log i)
      in (reply_of ok (if ok then ''Router Interface push completed.''
            else ''Router Interface push stopped: '' @ detail))\<lparr>rp_report := report\<rparr>)"

definition iface_push_tasks :: "('k, 'n) iface_env \<Rightarrow> string \<Rightarrow> string \<Rightarrow> iface_push_task list
    \<Rightarrow> (('k, 'n \<times> ifdb) registry, (push_item, unit) reply) act" where
  "iface_push_tasks ie host module_name ts =
     abind (\<lambda>g. case ie_context ie host of
              Inl e \<Rightarrow> (Inl e, g)
            | Inr ctx \<Rightarrow> session_provider (ie_sessions ie) (dc_method ctx) host g) (\<lambda>x g.
       case x of
         None \<Rightarrow> (Inl ''Router Interface RESTCONF push is not implemented'', g)
       | Some k \<Rightarrow>
           (case apply_interface_commands ie k (concat (map tk_commands ts)) g of
              (Inl e, g) \<Rightarrow> (Inr (push_reply (map (\<lambda>t. push_item host t False e) ts)), g)
            | (Inr out, g) \<Rightarrow>
                let n = fst (rg_net g);
                    (err, report, db) = commit_tasks (\<lambda>t. ie_commit_error ie t n) host out ts (snd (rg_net g));
                    failed = (case err of None \<Rightarrow> [] | Some e \<Rightarrow> map (\<lambda>t. push_item host t False e) ts)
                in (Inr (push_reply (report @ failed)), g\<lparr>rg_net := (n, db)\<rparr>)))"

definition iface_controller :: "('k, 'n) iface_env
    \<Rightarrow> (('k, 'n \<times> ifdb) registry, iface_push_task, push_item, 'k, unit) controller" where
  "iface_controller ie = \<lparr>ct_label = ''Router Interface'', ct_collect = iface_collect ie,
     ct_preview = iface_task_preview, ct_push = iface_push_tasks ie, ct_dev_host = ie_dev_host ie,
     ct_managed = True, ct_execute = registry_execute (ie_sessions ie),
     ct_connector = (\<lambda>host g. case ie_context ie host of Inl e \<Rightarrow> (Inl e, g)
        | Inr ctx \<Rightarrow> session_provider (ie_sessions ie) (dc_method ctx) host g),
     ct_reconcile = ie_reconcile ie,
     ct_verify = (\<lambda>host m k x. areturn \<lparr>nt_ok = Some True,
        nt_message = ''No additional router interface verification required.''\<rparr>),
     ct_context = (\<lambda>ts r. None)\<rparr>"

text \<open>The preview shown to the user: tasks are reduced to host, interface and action.\<close>

record task_summary =
  sm_host :: string
  sm_iface :: string
  sm_remove :: bool

definition iface_preview :: "('k, 'n) iface_env \<Rightarrow> string \<Rightarrow> string \<Rightarrow> ('k, 'n \<times> ifdb) registry
    \<Rightarrow> task_summary preview_reply" where
  "iface_preview ie host module_name g =
     (let r = preview (iface_controller ie) host module_name g in
      \<lparr>pv_ok = pv_ok r, pv_message = pv_message r, pv_commands = pv_commands r,
       pv_tasks = (if pv_ok r then map (\<lambda>t. \<lparr>sm_host = tk_host t, sm_iface = if_name (tk_iface t),
         sm_remove = tk_remove t\<rparr>) (pv_tasks r) else [])\<rparr>)"

section \<open>The preview\<close>

lemma map_block_cong: "map f a = map f b \<Longrightarrow> map f (block n a) = map f (block n b)"
  by (cases a; cases b) (auto simp: block_def)

lemma render_wan_redacted:
  assumes "pw \<noteq> []" "pw' \<noteq> []"
  shows "map redact_command (render_interface_commands (t\<lparr>tk_profile := Some (DWan (w\<lparr>wn_password := Some pw\<rparr>))\<rparr>))
    = map redact_command (render_interface_commands (t\<lparr>tk_profile := Some (DWan (w\<lparr>wn_password := Some pw'\<rparr>))\<rparr>))"
proof -
  let ?w = "\<lambda>q. render_wan (w\<lparr>wn_password := Some q\<rparr>)"
  have eq: "map redact_command (?w pw) = map redact_command (?w pw')"
    using redacted_wan[OF assms, of w] by (simp add: redact_interface_commands_def)
  let ?t = "\<lambda>q. t\<lparr>tk_profile := Some (DWan (w\<lparr>wn_password := Some q\<rparr>))\<rparr>"
    and ?name = "strip (if_name (tk_iface t))"
  let ?ty = "infer_interface_type (PStr ?name)"
  have same: "cleanup_commands (?t q) ty = cleanup_commands t ty" "profile_pending (?t q) ty = profile_pending t ty"
    "selective_l3 (?t q) = (tk_kind t = Some L3 \<and> valid_mask (if_action (tk_iface t)))"
    "profile_commands (?t q) ty c s = ?w q" for q ty c s
    by (simp_all add: cleanup_commands_def profile_pending_def selective_l3_def legacy_l3_pending_def
        profile_commands_def split: option.splits profile.splits)
  show ?thesis
  proof (cases "?name \<noteq> [] \<and> \<not> tk_remove t \<and> (tk_base_pending t \<or> profile_pending t ?ty)")
    case True
    then have r: "render_interface_commands (?t q) = block ?name
      (cleanup_commands (?t q) ?ty
       @ (if dirty (normalize_action_cfg (if_action (tk_iface t))) (selective_l3 (?t q)) ''description''
          then description_commands (tk_iface t) else [])
       @ (if dirty (normalize_action_cfg (if_action (tk_iface t))) (selective_l3 (?t q)) ''primary_ip''
          then address_commands (tk_iface t) else [])
       @ profile_commands (?t q) ?ty (normalize_action_cfg (if_action (tk_iface t))) (selective_l3 (?t q))
       @ (if dirty (normalize_action_cfg (if_action (tk_iface t))) (selective_l3 (?t q)) ''shutdown''
          then shutdown_commands (tk_iface t) else []))" for q
      using render_setup[of "?t q" ?name] same(2) by simp
    show ?thesis unfolding r same by (intro map_block_cong) (simp add: eq)
  next
    case False
    then show ?thesis using same(2)[of _ ?ty] by (auto simp: render_interface_commands_def Let_def)
  qed
qed


section \<open>The push\<close>

lemma truncate_with_commands [simp]: "iface_task.truncate (with_commands t) = t"
  by (simp add: with_commands_def iface_task.defs)

lemma tk_commands_with [simp]: "tk_commands (with_commands t) = render_interface_commands t"
  by (simp add: with_commands_def iface_task.defs)

lemma commit_tasks_all:
  "(\<And>t. t \<in> set ts \<Longrightarrow> err t = None) \<Longrightarrow>
     commit_tasks err host out ts db =
       (None, map (\<lambda>t. push_item host t True out) ts, commit_all (map iface_task.truncate ts) db)"
  by (induction ts arbitrary: db) (auto simp: commit_all_def)

lemma push_reply_simps [simp]:
  "rp_report (push_reply r) = r" "rp_ok (push_reply r) \<longleftrightarrow> r \<noteq> [] \<and> list_all pi_success r"
  by (simp_all add: push_reply_def Let_def reply_of_def)

lemma push_tasks_session:
  assumes "ie_context ie host = Inr ctx"
    and "session_provider (ie_sessions ie) (dc_method ctx) host g = (Inr (Some k), g1)"
  shows "iface_push_tasks ie host m ts g =
    (case apply_interface_commands ie k (concat (map tk_commands ts)) g1 of
       (Inl e, g) \<Rightarrow> (Inr (push_reply (map (\<lambda>t. push_item host t False e) ts)), g)
     | (Inr out, g) \<Rightarrow>
         let n = fst (rg_net g);
             (err, report, db) = commit_tasks (\<lambda>t. ie_commit_error ie t n) host out ts (snd (rg_net g));
             failed = (case err of None \<Rightarrow> [] | Some e \<Rightarrow> map (\<lambda>t. push_item host t False e) ts)
         in (Inr (push_reply (report @ failed)), g\<lparr>rg_net := (n, db)\<rparr>))"
  using assms by (simp add: iface_push_tasks_def abind_def)

lemma apply_keeps_db:
  "apply_interface_commands ie k cs g = (r, g') \<Longrightarrow> snd (rg_net g') = snd (rg_net g)"
  by (auto simp: apply_interface_commands_def split: if_splits prod.splits sum.splits)

text \<open>Property C10. A rejected push changes no desired state: when the device refuses the commands --
  the session is gone, sending fails, or the output shows one of the error markers -- the database
  is untouched, the reply is a failure and every task is reported as failed and not updated.\<close>

theorem rejected_push_keeps_database:
  assumes "ie_context ie host = Inr ctx"
    and "session_provider (ie_sessions ie) (dc_method ctx) host g = (Inr (Some k), g1)"
    and "apply_interface_commands ie k (concat (map tk_commands ts)) g1 = (Inl e, g2)"
  shows "\<exists>r. iface_push_tasks ie host m ts g = (Inr r, g2) \<and> \<not> rp_ok r
    \<and> snd (rg_net g2) = snd (rg_net g1) \<and> length (rp_report r) = length ts
    \<and> (\<forall>i \<in> set (rp_report r). \<not> pi_success i \<and> \<not> pi_updated i)"
proof -
  let ?r = "push_reply (map (\<lambda>t. push_item host t False e) ts)"
  have "iface_push_tasks ie host m ts g = (Inr ?r, g2)"
    using push_tasks_session[OF assms(1,2), of m ts] assms(3) by simp
  moreover have "\<not> rp_ok ?r" by (cases ts) (simp_all add: push_item_def)
  ultimately show ?thesis using apply_keeps_db[OF assms(3)]
    by (intro exI[of _ ?r]) (auto simp: push_item_def)
qed

text \<open>Property C11. An accepted push settles what it pushed: when the device accepts the commands of
  the tasks collected from the database and no commit fails, the reply is a success with every task
  updated, and no interface that was pushed is pending any more, while the schema's constraints
  still hold.\<close>

theorem accepted_push_settles:
  assumes ok: "db_ok (snd (rg_net g1))" and host: "strip host = host" "host \<noteq> []"
    and ctx: "ie_context ie host = Inr ctx"
    and session: "session_provider (ie_sessions ie) (dc_method ctx) host g = (Inr (Some k), g1)"
    and tasks: "iface_collect ie host m g1 = Inr ts" "ts \<noteq> []"
    and sent: "apply_interface_commands ie k (concat (map tk_commands ts)) g1 = (Inr out, g2)"
    and commits: "\<And>t. t \<in> set ts \<Longrightarrow> ie_commit_error ie t (fst (rg_net g2)) = None"
  shows "\<exists>r g3. iface_push_tasks ie host m ts g = (Inr r, g3) \<and> rp_ok r
    \<and> length (rp_report r) = length ts \<and> (\<forall>i \<in> set (rp_report r). pi_updated i)
    \<and> db_ok (snd (rg_net g3))
    \<and> (\<forall>t \<in> set ts. \<forall>t' \<in> set (collect_interface_tasks (snd (rg_net g3)) host). tk_id t' \<noteq> tk_id t)"
proof -
  let ?db = "snd (rg_net g1)"
  obtain rs0 where rs0: "collect_interface_tasks ?db host = map (task_of ?db host) rs0"
    "set rs0 = {r \<in> set (db_ifaces ?db). if_host r = host \<and> row_pending ?db r}" "distinct rs0"
    using collect_rows[of host ?db] host ok by auto
  define rs where "rs = filter (\<lambda>r. render_interface_commands (task_of ?db host r) \<noteq> []) rs0"
  have ts: "ts = map (\<lambda>r. with_commands (task_of ?db host r)) rs"
    using tasks(1) by (auto simp: iface_collect_def sbind_eq_Inr_conv rs0(1) rs_def filter_map comp_def)
  have rs: "set rs \<subseteq> {r \<in> set (db_ifaces ?db). if_host r = host}" "distinct rs"
    using rs0 by (auto simp: rs_def)
  let ?db' = "commit_all (map (task_of ?db host) rs) ?db"
  have trunc: "map iface_task.truncate ts = map (task_of ?db host) rs" by (simp add: ts)
  have net: "snd (rg_net g2) = ?db" using apply_keeps_db[OF sent] .
  let ?r = "push_reply (map (\<lambda>t. push_item host t True out) ts)"
  have push: "iface_push_tasks ie host m ts g = (Inr ?r, g2\<lparr>rg_net := (fst (rg_net g2), ?db')\<rparr>)"
    using push_tasks_session[OF ctx session, of m ts] sent
      commit_tasks_all[OF commits, where host = host and out = out and db = ?db]
    by (simp add: net trunc)
  have "\<forall>r \<in> set rs \<union> {}. finished ?db' r"
    using rs ok by (intro commit_finishes) (auto intro: untouched_refl)
  then have fin: "\<forall>r \<in> set rs. finished ?db' r" by simp
  have "tk_id t' \<noteq> tk_id t" if t: "t \<in> set ts" "t' \<in> set (collect_interface_tasks ?db' host)" for t t'
  proof
    assume same: "tk_id t' = tk_id t"
    from t(1) obtain r where r: "r \<in> set rs" "tk_id t = if_id r"
      by (auto simp: ts with_commands_def iface_task.defs task_of_def Let_def)
    from t(2) obtain q where q: "q \<in> set (db_ifaces ?db')" "row_pending ?db' q" "tk_id t' = if_id q"
      by (auto simp: collect_interface_tasks_def Let_def task_of_def split: if_splits)
    show False using fin r q same by (auto simp: finished_def)
  qed
  then have settled: "\<forall>t \<in> set ts. \<forall>t' \<in> set (collect_interface_tasks ?db' host). tk_id t' \<noteq> tk_id t" by blast
  have "rp_ok ?r" using tasks(2) by (simp add: list_all_iff push_item_def)
  moreover have "\<forall>i \<in> set (rp_report ?r). pi_updated i" by (simp add: push_item_def)
  ultimately show ?thesis
    using settled db_ok_commit[OF ok, of ?db host rs] unfolding push
    by (intro exI[of _ ?r] exI[of _ "g2\<lparr>rg_net := (fst (rg_net g2), ?db')\<rparr>"]) simp
qed

text \<open>When a commit fails, the tasks committed before it are reported twice, as updated and as failed.\<close>

lemma committed_task_reported_failed:
  "err t = None \<Longrightarrow> err u = Some e \<Longrightarrow>
     commit_tasks err host out [t, u] db =
       (Some e, [push_item host t True out], mark_interface_task_applied (iface_task.truncate t) db)"
  by simp

section \<open>A connected router\<close>

text \<open>The small network of the registry with a database beside it, and a device that answers every
  command set with the same text.\<close>

definition sample_iface_env :: "string \<Rightarrow> (nat, nat \<times> nat list) iface_env" where
  "sample_iface_env answer = \<lparr>
     ie_sessions = \<lparr>
       se_device = (\<lambda>h w. se_device sample_env h (fst w)),
       se_create = (\<lambda>d w. (Inr (fst (fst w)), ((Suc (fst (fst w)), snd (fst w)), snd w))),
       se_connect = (\<lambda>k w. (Inr True, ((fst (fst w), k # snd (fst w)), snd w))),
       se_reason = (\<lambda>k w. ''login failed''),
       se_prepare = (\<lambda>k w. (Inr (), w)),
       se_alive = (\<lambda>k w. k \<in> set (snd (fst w))),
       se_connection = (\<lambda>k w. True),
       se_disconnect = (\<lambda>k w. ((fst (fst w), filter (\<lambda>j. j \<noteq> k) (snd (fst w))), snd w)),
       se_time = (\<lambda>w. 0)\<rparr>,
     ie_context = (\<lambda>h. Inr \<lparr>dc_template = ''cisco_ios'', dc_platform = ''Cisco IOS'', dc_method = ''ssh''\<rparr>),
     ie_send = (\<lambda>k cs n. (Inr answer, n)),
     ie_commit_error = (\<lambda>t n. None), ie_dev_host = (\<lambda>h. False), ie_reconcile = None\<rparr>"

definition sample_world :: "(nat, (nat \<times> nat list) \<times> ifdb) registry" where
  "sample_world = \<lparr>rg_hosts = [''R2'' \<mapsto> 0],
     rg_entries = (\<lambda>i. (new_entry ''R2'')\<lparr>en_connector := Some 0, en_state := Connected\<rparr>),
     rg_next = 1, rg_net = ((1, [0]), sample_db)\<rparr>"

lemma sample_session:
  "session_provider (ie_sessions (sample_iface_env a)) ''ssh'' ''R2'' sample_world = (Inr (Some 0), sample_world)"
proof -
  have "strip ''R2'' = ''R2''" "upper (text_default ''ssh'' ''SSH'') = ''SSH''" by code_simp+
  then show ?thesis
    by (simp add: session_provider_def get_connector_def is_alive_def sample_iface_env_def sample_world_def)
qed

lemma sample_context: "ie_context (sample_iface_env a) ''R2''
    = Inr \<lparr>dc_template = ''cisco_ios'', dc_platform = ''Cisco IOS'', dc_method = ''ssh''\<rparr>"
  by (simp add: sample_iface_env_def)

lemma sample_apply:
  "apply_interface_commands (sample_iface_env a) 0 cs sample_world = (accept_output a, sample_world)"
  by (simp add: apply_interface_commands_def sample_iface_env_def sample_world_def)

definition sample_tasks :: "iface_push_task list" where
  "sample_tasks = map with_commands (collect_interface_tasks sample_db ''R2'')"

lemma sample_tasks_collected:
  "iface_collect (sample_iface_env a) ''R2'' ''all'' sample_world = Inr sample_tasks \<and> sample_tasks \<noteq> []"
proof -
  have "check_target (sample_iface_env a) ''R2'' ''all'' = Inr ()"
    unfolding check_target_def sample_context by code_simp
  moreover have "list_all (\<lambda>t. tk_commands t \<noteq> []) sample_tasks" "sample_tasks \<noteq> []" by code_simp+
  ultimately show ?thesis
    by (simp add: iface_collect_def sample_tasks_def sample_world_def list_all_iff)
qed

definition sample_wan :: wan_row where
  "sample_wan = \<lparr>wn_encap = ''ppp'', wn_pool = None, wn_auth = Some ''pap'', wn_user = Some ''u'',
     wn_password = None, wn_clock = None, wn_lmi = None, wn_sync = PendingApply, wn_action = None\<rparr>"


lemma rejected_push_keeps_database_witness:
  "\<exists>r g2. iface_push_tasks (sample_iface_env ''% Invalid input'') ''R2'' ''all'' sample_tasks sample_world
      = (Inr r, g2) \<and> \<not> rp_ok r"
proof -
  have "accept_output ''% Invalid input'' = Inl ''% Invalid input''" by code_simp
  then have "apply_interface_commands (sample_iface_env ''% Invalid input'') 0
      (concat (map tk_commands sample_tasks)) sample_world = (Inl ''% Invalid input'', sample_world)"
    by (simp add: sample_apply)
  from rejected_push_keeps_database[OF sample_context _ this] sample_session show ?thesis by force
qed

lemma accepted_push_settles_witness:
  "\<exists>r g3. iface_push_tasks (sample_iface_env ''R2#'') ''R2'' ''all'' sample_tasks sample_world = (Inr r, g3)
     \<and> rp_ok r \<and> (\<forall>t' \<in> set (collect_interface_tasks (snd (rg_net g3)) ''R2''). tk_id t' \<noteq> 2)"
proof -
  have "accept_output ''R2#'' = Inr ''R2#''" by code_simp
  then have sent: "apply_interface_commands (sample_iface_env ''R2#'') 0
      (concat (map tk_commands sample_tasks)) sample_world = (Inr ''R2#'', sample_world)"
    by (simp add: sample_apply)
  have facts: "db_ok (snd (rg_net sample_world))" "strip ''R2'' = ''R2''" "''R2'' \<noteq> []"
    by (simp add: sample_world_def sample_db_ok, code_simp, simp)
  have "list_ex (\<lambda>t. tk_id t = 2) sample_tasks" by code_simp
  then obtain t where t: "t \<in> set sample_tasks" "tk_id t = 2" by (auto simp: list_ex_iff)
  have "ie_commit_error (sample_iface_env ''R2#'') u n = None" for u n by (simp add: sample_iface_env_def)
  from accepted_push_settles[OF facts sample_context _ sample_tasks_collected[THEN conjunct1]
      sample_tasks_collected[THEN conjunct2] sent this] sample_session t
  show ?thesis by fastforce
qed

lemma iface_plain: "plain_replies ((iface_controller ie)\<lparr>ct_managed := b\<rparr>)"
proof -
  have "rp_context (push_reply rep) = None \<and> \<not> rp_pending (push_reply rep)" for rep
    by (simp add: push_reply_def Let_def reply_of_def)
  then show ?thesis
    by (auto simp: plain_replies_def iface_controller_def iface_push_tasks_def abind_def Let_def
        split: sum.splits prod.splits option.splits)
qed

lemma push_without_tasks_witness:
  "rp_report (fst (push (iface_controller (sample_iface_env ''R1#'')) '' '' ''all'' sample_world)) = []"
  by (rule push_without_tasks[OF disjI1, THEN conjunct2, THEN conjunct1]) code_simp


end
