(* ===== verification/Vtp_Group.thy ===== *)
theory Vtp_Group
  imports Py_Values "HOL-Library.List_Lexorder" "HOL-Library.Char_ord" "HOL-Library.Multiset"
begin

text \<open>
  VTP groups: one VTP domain staged for several switches
  (\<open>features/switching/vtp_group.py\<close>: \<open>VtpGroupRepository\<close>, \<open>VtpGroupService\<close>), and the VLAN ownership that
  follows from it (\<open>features/switching/vtp_membership.py\<close>).

  A table is a list of rows. A method that runs in \<open>with conn:\<close> is a transaction: it returns the new
  database, or an error and the caller keeps the old one. \<open>ValueError\<close> and the errors of the schema's
  constraints and triggers (\<open>09_vtp.sql\<close>) are their texts. The lemmas show that the failure of one switch
  leaves the others saved and that the stored roles decide who may edit VLANs.
\<close>

section \<open>Tables\<close>

record device_row =
  dv_host :: string
  dv_name :: "string option"
  dv_role :: "string option"
  dv_type :: "string option"
  dv_connection :: string

record domain_row =
  dm_id :: int
  dm_name :: string
  dm_version :: int
  dm_password_type :: string
  dm_password :: "string option"
  dm_description :: "string option"

record switch_row =
  sw_id :: int
  sw_domain :: int
  sw_host :: string
  sw_pruning :: bool
  sw_sync :: sync_status
  sw_success :: sync_status

record mode_row =
  md_switch :: int
  md_type :: string
  md_mode :: string
  md_primary :: bool

record vtp_db =
  vb_devices :: "device_row list"
  vb_domains :: "domain_row list"
  vb_switches :: "switch_row list"
  vb_modes :: "mode_row list"
  vb_next_domain :: int
  vb_next_switch :: int

definition VTP_MODES :: "string list" where
  "VTP_MODES = [''server'', ''client'', ''transparent'', ''off'']"

definition find_domain :: "vtp_db \<Rightarrow> string \<Rightarrow> domain_row option" where
  "find_domain db name = find (\<lambda>d. dm_name d = name) (vb_domains db)"

definition find_switch :: "vtp_db \<Rightarrow> string \<Rightarrow> switch_row option" where
  "find_switch db host = find (\<lambda>s. sw_host s = host) (vb_switches db)"

definition find_mode :: "vtp_db \<Rightarrow> int \<Rightarrow> mode_row option" where
  "find_mode db i = find (\<lambda>m. md_switch m = i \<and> md_type m = ''vlan'') (vb_modes db)"

section \<open>The repository\<close>

definition connected_switch :: "device_row \<Rightarrow> bool" where
  "connected_switch d =
     (dv_connection d = ''connected''
      \<and> (lower (case dv_role d of None \<Rightarrow> [] | Some r \<Rightarrow> r) \<in> {''sw2'', ''sw3''}
         \<or> lower (case dv_type d of None \<Rightarrow> [] | Some t \<Rightarrow> t) \<in> {''switch'', ''sw2'', ''sw3''}))"

definition connected_switches :: "vtp_db \<Rightarrow> (string \<times> string) list" where
  "connected_switches db =
     map (\<lambda>d. (dv_host d, case dv_name d of None \<Rightarrow> [] | Some n \<Rightarrow> n))
       (sort_key (\<lambda>d. lower (dv_host d)) (filter connected_switch (vb_devices db)))"

record group_domain =
  gd_name :: string
  gd_version :: int
  gd_description :: string

record group_member =
  gm_host :: string
  gm_mode :: string
  gm_pruning :: bool

text \<open>\<open>trg_t09_vtp_version_update_validate\<close>: a row that only version 3 may have, on a member of the domain.\<close>

definition needs_version3 :: "vtp_db \<Rightarrow> int \<Rightarrow> bool" where
  "needs_version3 db i =
     list_ex (\<lambda>s. sw_domain s = i
       \<and> list_ex (\<lambda>m. md_switch m = sw_id s \<and> (md_type m \<noteq> ''vlan'' \<or> md_primary m)) (vb_modes db))
     (vb_switches db)"

definition mark_members :: "int \<Rightarrow> vtp_db \<Rightarrow> vtp_db" where
  "mark_members i db = db\<lparr>vb_switches :=
     map (\<lambda>s. if sw_domain s = i then s\<lparr>sw_sync := PendingApply, sw_success := PendingApply\<rparr> else s) (vb_switches db)\<rparr>"

definition upsert_domain :: "group_domain \<Rightarrow> vtp_db \<Rightarrow> vtp_db \<times> int" where
  "upsert_domain g db =
     (let description = (if gd_description g = [] then None else Some (gd_description g)) in
      case find_domain db (gd_name g) of
        Some d \<Rightarrow> (db\<lparr>vb_domains := map (\<lambda>r. if dm_name r = gd_name g
            then r\<lparr>dm_version := gd_version g, dm_description := description\<rparr> else r) (vb_domains db)\<rparr>, dm_id d)
      | None \<Rightarrow> (db\<lparr>vb_domains := vb_domains db @ [\<lparr>dm_id = vb_next_domain db, dm_name = gd_name g,
            dm_version = gd_version g, dm_password_type = ''none'', dm_password = None,
            dm_description = description\<rparr>], vb_next_domain := vb_next_domain db + 1\<rparr>, vb_next_domain db))"

definition save_domain :: "group_domain \<Rightarrow> vtp_db \<Rightarrow> string + vtp_db \<times> int" where
  "save_domain g db =
     (case find_domain db (gd_name g) of
        Some d \<Rightarrow>
          if dm_password_type d \<noteq> ''none''
            then Inl ''An authenticated VTP domain cannot be changed by VTP Group''
          else if gd_version g \<notin> {1, 2, 3} then Inl ''CHECK constraint failed: version IN (1,2,3)''
          else if gd_version g \<in> {1, 2} \<and> needs_version3 db (dm_id d)
            then Inl ''Remove VTPv3 database modes/primary role before downgrade''
          else let (db', i) = upsert_domain g db in Inr (mark_members i db', i)
      | None \<Rightarrow>
          if gd_version g \<notin> {1, 2, 3} then Inl ''CHECK constraint failed: version IN (1,2,3)''
          else let (db', i) = upsert_domain g db in Inr (mark_members i db', i))"

text \<open>A row only the interactive VTPv3 workflow may own.\<close>

definition interactive_only :: "vtp_db \<Rightarrow> string \<Rightarrow> bool" where
  "interactive_only db host =
     list_ex (\<lambda>s. sw_host s = host
       \<and> list_ex (\<lambda>m. md_switch m = sw_id s \<and> (md_type m \<noteq> ''vlan'' \<or> md_primary m)) (vb_modes db))
     (vb_switches db)"

definition upsert_switch :: "int \<Rightarrow> group_member \<Rightarrow> vtp_db \<Rightarrow> vtp_db \<times> int" where
  "upsert_switch i m db =
     (case find_switch db (gm_host m) of
        Some s \<Rightarrow> (db\<lparr>vb_switches := map (\<lambda>r. if sw_host r = gm_host m
            then r\<lparr>sw_domain := i, sw_pruning := gm_pruning m, sw_sync := PendingApply, sw_success := PendingApply\<rparr>
            else r) (vb_switches db)\<rparr>, sw_id s)
      | None \<Rightarrow> (db\<lparr>vb_switches := vb_switches db @ [\<lparr>sw_id = vb_next_switch db, sw_domain = i,
            sw_host = gm_host m, sw_pruning = gm_pruning m, sw_sync = PendingApply, sw_success = PendingApply\<rparr>],
            vb_next_switch := vb_next_switch db + 1\<rparr>, vb_next_switch db))"

definition upsert_mode :: "int \<Rightarrow> string \<Rightarrow> vtp_db \<Rightarrow> vtp_db" where
  "upsert_mode i mode db =
     (case find_mode db i of
        Some _ \<Rightarrow> db\<lparr>vb_modes := map (\<lambda>m. if md_switch m = i \<and> md_type m = ''vlan''
            then m\<lparr>md_mode := mode, md_primary := False\<rparr> else m) (vb_modes db)\<rparr>
      | None \<Rightarrow> db\<lparr>vb_modes := vb_modes db
            @ [\<lparr>md_switch = i, md_type = ''vlan'', md_mode = mode, md_primary = False\<rparr>]\<rparr>)"

text \<open>The cascade of this \<open>DELETE\<close> is empty: the domain has no switch.\<close>

definition drop_empty_domain :: "int \<Rightarrow> vtp_db \<Rightarrow> vtp_db" where
  "drop_empty_domain i db =
     (if list_ex (\<lambda>s. sw_domain s = i) (vb_switches db) then db
      else db\<lparr>vb_domains := filter (\<lambda>d. dm_id d \<noteq> i) (vb_domains db)\<rparr>)"

definition save_member :: "int \<Rightarrow> group_member \<Rightarrow> vtp_db \<Rightarrow> string + vtp_db" where
  "save_member i m db =
     (if \<not> list_ex (\<lambda>d. dv_host d = gm_host m \<and> connected_switch d) (vb_devices db)
        then Inl ''Host is not a connected switch''
      else if interactive_only db (gm_host m)
        then Inl ''VTPv3 MST/primary state requires the interactive workflow''
      else if \<not> list_ex (\<lambda>d. dm_id d = i) (vb_domains db) then Inl ''FOREIGN KEY constraint failed''
      else if gm_mode m \<notin> set VTP_MODES then Inl ''CHECK constraint failed: mode''
      else let previous = find_switch db (gm_host m);
               (db1, sid) = upsert_switch i m db;
               db2 = upsert_mode sid (gm_mode m) db1
           in Inr (case previous of
                None \<Rightarrow> db2
              | Some s \<Rightarrow> if sw_domain s \<noteq> i then drop_empty_domain (sw_domain s) db2 else db2))"

record group_reply =
  gr_ok :: bool
  gr_partial :: bool
  gr_domain :: int
  gr_successful :: "string list"
  gr_failed :: "(string \<times> string) list"
  gr_message :: string

fun save_members :: "int \<Rightarrow> group_member list \<Rightarrow> vtp_db \<Rightarrow> vtp_db \<times> string list \<times> (string \<times> string) list" where
  "save_members i [] db = (db, [], [])"
| "save_members i (m # ms) db =
     (case save_member i m db of
        Inl e \<Rightarrow> let (db', good, bad) = save_members i ms db in (db', good, (gm_host m, e) # bad)
      | Inr db1 \<Rightarrow> let (db', good, bad) = save_members i ms db1 in (db', gm_host m # good, bad))"

definition group_message :: "string list \<Rightarrow> (string \<times> string) list \<Rightarrow> string" where
  "group_message good bad =
     ''VTP Group saved: '' @ show_int (int (length good)) @ '' succeeded, '' @ show_int (int (length bad)) @ '' failed.''
     @ (if bad = [] then []
        else '' Failed switches: '' @ join ''; '' (map (\<lambda>(h, e). h @ '': '' @ e) bad) @ ''.'')"

definition save_group :: "group_domain \<Rightarrow> group_member list \<Rightarrow> vtp_db \<Rightarrow> string + vtp_db \<times> group_reply" where
  "save_group g members db =
     (let eligible_hosts = map fst (connected_switches db);
          eligible = filter (\<lambda>m. gm_host m \<in> set eligible_hosts) members;
          refused = map (\<lambda>m. (gm_host m, ''Host is not a connected switch''))
                      (filter (\<lambda>m. gm_host m \<notin> set eligible_hosts) members)
      in sbind (if eligible = [] then Inr (db, 0) else save_domain g db) (\<lambda>(db1, i).
           let (db2, good, bad) = save_members i eligible db1; all_bad = refused @ bad
           in Inr (db2, \<lparr>gr_ok = good \<noteq> [] \<and> all_bad = [], gr_partial = good \<noteq> [] \<and> all_bad \<noteq> [],
                gr_domain = i, gr_successful = good, gr_failed = all_bad, gr_message = group_message good all_bad\<rparr>)))"

section \<open>The service\<close>

definition MAX_HOSTS :: nat where "MAX_HOSTS = 5"

record group_payload =
  gp_domain_name :: pyval
  gp_version :: pyval
  gp_description :: pyval
  gp_members :: "payload list"

definition domain_char :: "char \<Rightarrow> bool" where
  "domain_char c = (is_alpha c \<or> is_digit c \<or> c \<in> {CHR ''.'', CHR ''_'', CHR ''-''})"

definition domain_name_ok :: "string \<Rightarrow> bool" where
  "domain_name_ok s =
     (case s of [] \<Rightarrow> False | c # cs \<Rightarrow> (is_alpha c \<or> is_digit c) \<and> list_all domain_char cs \<and> length cs \<le> 31)"

fun normalize_members :: "string list \<Rightarrow> payload list \<Rightarrow> string + group_member list" where
  "normalize_members seen [] = Inr []"
| "normalize_members seen (raw # raws) =
     (let host = strip (text_or (get raw ''host'') []);
          mode = lower (strip (text_or (get raw ''mode'') ''client''))
      in if host = [] \<or> host \<in> set seen then Inl ''Every VTP member must use a unique switch host.''
         else if mode \<notin> set VTP_MODES then Inl (''Unsupported VTP mode on '' @ host @ '': '' @ mode @ ''.'')
         else sbind (normalize_members (host # seen) raws) (\<lambda>ms.
                Inr (\<lparr>gm_host = host, gm_mode = mode, gm_pruning = truthy (get raw ''pruning'')\<rparr> # ms)))"

definition normalize_group :: "group_payload \<Rightarrow> string + group_domain \<times> group_member list" where
  "normalize_group p =
     (let name = strip (text_or (gp_domain_name p) []) in
      if \<not> (1 \<le> length name \<and> length name \<le> 32)
        then Inl ''VTP domain name must contain 1 to 32 characters.''
      else if \<not> domain_name_ok name
        then Inl ''VTP domain name may only contain letters, numbers, dots, dashes and underscores.''
      else case int_or_none (gp_version p) of
          None \<Rightarrow> Inl ''VTP version must be 1, 2 or 3.''
        | Some v \<Rightarrow>
            if v \<notin> {1, 2, 3} then Inl ''VTP version must be 1, 2 or 3.''
            else if length (gp_members p) < 2 then Inl ''VTP Group requires at least two selected switches.''
            else if length (gp_members p) > MAX_HOSTS then Inl ''VTP Group supports at most 5 selected switches.''
            else sbind (normalize_members [] (gp_members p)) (\<lambda>ms.
                   Inr (\<lparr>gd_name = name, gd_version = v, gd_description = strip (text_or (gp_description p) [])\<rparr>, ms)))"

definition save_vtp_group :: "group_payload \<Rightarrow> vtp_db \<Rightarrow> vtp_db \<times> group_reply" where
  "save_vtp_group p db =
     (case sbind (normalize_group p) (\<lambda>(g, ms). save_group g ms db) of
        Inl e \<Rightarrow> (db, \<lparr>gr_ok = False, gr_partial = False, gr_domain = 0, gr_successful = [], gr_failed = [], gr_message = e\<rparr>)
      | Inr r \<Rightarrow> r)"

section \<open>The schema's constraints\<close>

definition vtp_ok :: "vtp_db \<Rightarrow> bool" where
  "vtp_ok db \<longleftrightarrow>
     distinct (map dm_id (vb_domains db)) \<and> distinct (map dm_name (vb_domains db))
   \<and> distinct (map sw_id (vb_switches db)) \<and> distinct (map sw_host (vb_switches db))
   \<and> distinct (map (\<lambda>m. (md_switch m, md_type m)) (vb_modes db))
   \<and> (\<forall>d \<in> set (vb_domains db). dm_id d < vb_next_domain db \<and> dm_version d \<in> {1, 2, 3})
   \<and> (\<forall>s \<in> set (vb_switches db). sw_id s < vb_next_switch db \<and> sw_domain s \<in> dm_id ` set (vb_domains db))
   \<and> (\<forall>m \<in> set (vb_modes db). md_switch m \<in> sw_id ` set (vb_switches db) \<and> md_mode m \<in> set VTP_MODES)
   \<and> (\<forall>d \<in> set (vb_domains db). dm_version d \<noteq> 3 \<longrightarrow> \<not> needs_version3 db (dm_id d))"

text \<open>What the tables say about one switch: domain, pruning, push state and VLAN mode.\<close>

definition membership :: "vtp_db \<Rightarrow> string \<Rightarrow> (int \<times> bool \<times> sync_status \<times> string option) option" where
  "membership db h = map_option (\<lambda>s. (sw_domain s, sw_pruning s, sw_success s, map_option md_mode (find_mode db (sw_id s))))
     (find_switch db h)"

lemma find_map_other: "(\<And>x. x \<in> set xs \<Longrightarrow> P (f x) = P x) \<Longrightarrow> find P (map f xs) = map_option f (find P xs)"
  by (induction xs) auto

lemma find_append_new: "find P (xs @ [y]) = (case find P xs of None \<Rightarrow> if P y then Some y else None | Some x \<Rightarrow> Some x)"
  by (induction xs) auto

lemma find_SomeD: "find P xs = Some x \<Longrightarrow> x \<in> set xs \<and> P x"
  by (induction xs) (auto split: if_splits)

lemma find_switch_SomeD: "find_switch db h = Some s \<Longrightarrow> s \<in> set (vb_switches db) \<and> sw_host s = h"
  unfolding find_switch_def by (drule find_SomeD) simp

lemma find_switch_None: "find_switch db h = None \<longleftrightarrow> h \<notin> sw_host ` set (vb_switches db)"
  by (auto simp: find_switch_def find_None_iff)

lemma find_switch_eq: "vtp_ok db \<Longrightarrow> s \<in> set (vb_switches db) \<Longrightarrow> find_switch db (sw_host s) = Some s"
proof -
  assume a: "vtp_ok db" "s \<in> set (vb_switches db)"
  then obtain t where t: "find_switch db (sw_host s) = Some t" using find_switch_None[of db "sw_host s"] by auto
  then have "t \<in> set (vb_switches db)" "sw_host t = sw_host s" using find_switch_SomeD by blast+
  then show ?thesis using a t by (auto simp: vtp_ok_def distinct_map dest: inj_onD)
qed

lemma find_mode_SomeD: "find_mode db i = Some m \<Longrightarrow> m \<in> set (vb_modes db) \<and> md_switch m = i \<and> md_type m = ''vlan''"
  unfolding find_mode_def by (drule find_SomeD) simp

lemma find_mode_None: "find_mode db i = None \<longleftrightarrow> (\<forall>m \<in> set (vb_modes db). \<not> (md_switch m = i \<and> md_type m = ''vlan''))"
  by (auto simp: find_mode_def find_None_iff)

lemma find_domain_SomeD: "find_domain db n = Some d \<Longrightarrow> d \<in> set (vb_domains db) \<and> dm_name d = n"
  unfolding find_domain_def by (drule find_SomeD) simp

subsection \<open>One switch\<close>

lemma upsert_switch_other:
  assumes "upsert_switch i m db = (db', sid)"
  shows "vb_devices db' = vb_devices db" "vb_domains db' = vb_domains db" "vb_modes db' = vb_modes db"
    "vb_next_domain db' = vb_next_domain db"
  using assms by (auto simp: upsert_switch_def split: option.splits)

lemma upsert_switch_find:
  assumes "vtp_ok db" "upsert_switch i m db = (db', sid)"
  shows "find_switch db' h = (if h = gm_host m
      then Some \<lparr>sw_id = sid, sw_domain = i, sw_host = gm_host m, sw_pruning = gm_pruning m,
        sw_sync = PendingApply, sw_success = PendingApply\<rparr>
      else find_switch db h)"
proof (cases "find_switch db (gm_host m)")
  case None
  then show ?thesis using assms(2)
    by (auto simp: upsert_switch_def find_switch_def find_append_new split: option.splits)
next
  case (Some s)
  let ?f = "\<lambda>r. if sw_host r = gm_host m
      then r\<lparr>sw_domain := i, sw_pruning := gm_pruning m, sw_sync := PendingApply, sw_success := PendingApply\<rparr> else r"
  have "find_switch db' h = map_option ?f (find_switch db h)"
    using assms(2) Some by (auto simp: upsert_switch_def find_switch_def intro!: find_map_other)
  moreover have "sw_host s = gm_host m" "sid = sw_id s"
    using find_switch_SomeD[OF Some] assms(2) Some by (auto simp: upsert_switch_def)
  ultimately show ?thesis using Some find_switch_SomeD[of db h]
    by (cases "find_switch db h") auto
qed

lemma upsert_switch_ids:
  assumes "vtp_ok db" "upsert_switch i m db = (db', sid)"
  shows "distinct (map sw_id (vb_switches db'))" "distinct (map sw_host (vb_switches db'))"
    "sid \<in> sw_id ` set (vb_switches db')" "sw_id ` set (vb_switches db) \<subseteq> sw_id ` set (vb_switches db')"
    "\<forall>s \<in> set (vb_switches db'). sw_id s < vb_next_switch db'"
    "\<forall>s \<in> set (vb_switches db'). sw_domain s = i \<and> sw_host s = gm_host m \<and> sw_id s = sid
        \<or> s \<in> set (vb_switches db) \<and> sw_host s \<noteq> gm_host m"
proof -
  let ?f = "\<lambda>r. if sw_host r = gm_host m
      then r\<lparr>sw_domain := i, sw_pruning := gm_pruning m, sw_sync := PendingApply, sw_success := PendingApply\<rparr> else r"
  have ids: "sw_id \<circ> ?f = sw_id" "sw_host \<circ> ?f = sw_host" by (auto simp: fun_eq_iff)
  have bound: "\<forall>s \<in> set (vb_switches db). sw_id s < vb_next_switch db" and
    d: "distinct (map sw_id (vb_switches db))" "distinct (map sw_host (vb_switches db))"
    using assms(1) by (auto simp: vtp_ok_def)
  have same: "sw_id s = sw_id t" if "s \<in> set (vb_switches db)" "t \<in> set (vb_switches db)" "sw_host s = sw_host t" for s t
    using that d by (auto simp: distinct_map dest: inj_onD)
  consider "find_switch db (gm_host m) = None" "sid = vb_next_switch db"
      "vb_switches db' = vb_switches db @ [\<lparr>sw_id = sid, sw_domain = i, sw_host = gm_host m, sw_pruning = gm_pruning m,
         sw_sync = PendingApply, sw_success = PendingApply\<rparr>]" "vb_next_switch db' = vb_next_switch db + 1"
    | s where "find_switch db (gm_host m) = Some s" "sid = sw_id s" "vb_switches db' = map ?f (vb_switches db)"
      "vb_next_switch db' = vb_next_switch db"
    using assms(2) by (cases "find_switch db (gm_host m)") (auto simp: upsert_switch_def)
  then have "distinct (map sw_id (vb_switches db')) \<and> distinct (map sw_host (vb_switches db'))
    \<and> sid \<in> sw_id ` set (vb_switches db') \<and> sw_id ` set (vb_switches db) \<subseteq> sw_id ` set (vb_switches db')
    \<and> (\<forall>s \<in> set (vb_switches db'). sw_id s < vb_next_switch db')
    \<and> (\<forall>s \<in> set (vb_switches db'). sw_domain s = i \<and> sw_host s = gm_host m \<and> sw_id s = sid
        \<or> s \<in> set (vb_switches db) \<and> sw_host s \<noteq> gm_host m)"
  proof cases
    case 1
    have new: "gm_host m \<notin> sw_host ` set (vb_switches db)" using 1(1) by (simp add: find_switch_None)
    have "vb_next_switch db \<notin> sw_id ` set (vb_switches db)" using bound by auto
    then have "distinct (map sw_id (vb_switches db'))" "distinct (map sw_host (vb_switches db'))"
      using 1 d new by simp_all
    moreover have "\<forall>s \<in> set (vb_switches db'). sw_id s < vb_next_switch db'"
      using 1 bound by auto
    moreover have "\<forall>r \<in> set (vb_switches db). sw_host r \<noteq> gm_host m" using new by (metis imageI)
    ultimately show ?thesis using 1 by auto
  next
    case (2 s)
    have s: "s \<in> set (vb_switches db)" "sw_host s = gm_host m" using find_switch_SomeD[OF 2(1)] by auto
    have "map sw_id (vb_switches db') = map sw_id (vb_switches db)"
      "map sw_host (vb_switches db') = map sw_host (vb_switches db)" using ids by (simp_all add: 2)
    moreover from this have img: "sw_id ` set (vb_switches db') = sw_id ` set (vb_switches db)"
      by (metis set_map)
    moreover have "\<forall>r \<in> set (vb_switches db'). sw_id r < vb_next_switch db'"
    proof
      fix r assume "r \<in> set (vb_switches db')"
      then have "sw_id r \<in> sw_id ` set (vb_switches db)" using img by auto
      then show "sw_id r < vb_next_switch db'" using bound 2(4) by auto
    qed
    moreover have "sid \<in> sw_id ` set (vb_switches db')" using img s 2(2) by simp
    moreover have "\<forall>r \<in> set (vb_switches db'). sw_domain r = i \<and> sw_host r = gm_host m \<and> sw_id r = sid
        \<or> r \<in> set (vb_switches db) \<and> sw_host r \<noteq> gm_host m"
      using 2 same[OF _ s(1)] s(2) by (auto split: if_splits)
    ultimately show ?thesis using d by simp
  qed
  then show "distinct (map sw_id (vb_switches db'))" "distinct (map sw_host (vb_switches db'))"
    "sid \<in> sw_id ` set (vb_switches db')" "sw_id ` set (vb_switches db) \<subseteq> sw_id ` set (vb_switches db')"
    "\<forall>s \<in> set (vb_switches db'). sw_id s < vb_next_switch db'"
    "\<forall>s \<in> set (vb_switches db'). sw_domain s = i \<and> sw_host s = gm_host m \<and> sw_id s = sid
        \<or> s \<in> set (vb_switches db) \<and> sw_host s \<noteq> gm_host m" by blast+
qed

lemma upsert_mode_fields [simp]:
  "vb_devices (upsert_mode i mode db) = vb_devices db" "vb_domains (upsert_mode i mode db) = vb_domains db"
  "vb_switches (upsert_mode i mode db) = vb_switches db" "vb_next_domain (upsert_mode i mode db) = vb_next_domain db"
  "vb_next_switch (upsert_mode i mode db) = vb_next_switch db"
  by (simp_all add: upsert_mode_def split: option.split)

lemma upsert_mode_find:
  "find_mode (upsert_mode i mode db) j = (if j = i
     then Some \<lparr>md_switch = i, md_type = ''vlan'', md_mode = mode, md_primary = False\<rparr> else find_mode db j)"
proof (cases "find_mode db i")
  case None
  then show ?thesis by (auto simp: upsert_mode_def find_mode_def find_append_new split: option.splits)
next
  case (Some m)
  let ?f = "\<lambda>m. if md_switch m = i \<and> md_type m = ''vlan'' then m\<lparr>md_mode := mode, md_primary := False\<rparr> else m"
  have "find_mode (upsert_mode i mode db) j = map_option ?f (find_mode db j)"
    using Some by (auto simp: upsert_mode_def find_mode_def intro!: find_map_other split: if_splits)
  then show ?thesis using Some find_mode_SomeD[of db j] find_mode_SomeD[OF Some]
    by (cases "find_mode db j") auto
qed

lemma upsert_mode_rows:
  assumes "m \<in> set (vb_modes (upsert_mode i mode db))"
  shows "m \<in> set (vb_modes db) \<or> md_switch m = i \<and> md_type m = ''vlan'' \<and> md_mode m = mode \<and> \<not> md_primary m"
  using assms by (auto simp: upsert_mode_def split: option.splits if_splits)

lemma upsert_mode_distinct:
  assumes "distinct (map (\<lambda>m. (md_switch m, md_type m)) (vb_modes db))"
  shows "distinct (map (\<lambda>m. (md_switch m, md_type m)) (vb_modes (upsert_mode i mode db)))"
proof (cases "find_mode db i")
  case None
  then have "\<forall>m \<in> set (vb_modes db). \<not> (md_switch m = i \<and> md_type m = ''vlan'')" by (simp add: find_mode_None)
  then show ?thesis using None assms by (auto simp: upsert_mode_def)
next
  case (Some m)
  have "map (\<lambda>m. (md_switch m, md_type m)) (vb_modes (upsert_mode i mode db))
      = map (\<lambda>m. (md_switch m, md_type m)) (vb_modes db)"
    using Some by (simp add: upsert_mode_def)
  then show ?thesis using assms by simp
qed

lemma drop_empty_domain_fields [simp]:
  "vb_devices (drop_empty_domain i db) = vb_devices db" "vb_switches (drop_empty_domain i db) = vb_switches db"
  "vb_modes (drop_empty_domain i db) = vb_modes db" "vb_next_domain (drop_empty_domain i db) = vb_next_domain db"
  "vb_next_switch (drop_empty_domain i db) = vb_next_switch db"
  by (simp_all add: drop_empty_domain_def)

lemma drop_empty_domain_rows: "d \<in> set (vb_domains (drop_empty_domain i db)) \<longleftrightarrow> d \<in> set (vb_domains db)
    \<and> (dm_id d = i \<longrightarrow> i \<in> sw_domain ` set (vb_switches db))"
  by (auto simp: drop_empty_domain_def list_ex_iff)

text \<open>The shape of a successful save of one member.\<close>

lemma save_memberE:
  assumes "save_member i m db = Inr db'"
  obtains db1 sid where "upsert_switch i m db = (db1, sid)"
    "db' = upsert_mode sid (gm_mode m) db1
      \<or> (\<exists>j. j \<noteq> i \<and> db' = drop_empty_domain j (upsert_mode sid (gm_mode m) db1))"
    "\<not> interactive_only db (gm_host m)" "i \<in> dm_id ` set (vb_domains db)" "gm_mode m \<in> set VTP_MODES"
    "\<exists>d \<in> set (vb_devices db). dv_host d = gm_host m \<and> connected_switch d"
proof -
  obtain db1 sid where u: "upsert_switch i m db = (db1, sid)" by fastforce
  have c: "\<not> interactive_only db (gm_host m)" "i \<in> dm_id ` set (vb_domains db)" "gm_mode m \<in> set VTP_MODES"
    "\<exists>d \<in> set (vb_devices db). dv_host d = gm_host m \<and> connected_switch d"
    using assms by (auto simp: save_member_def list_ex_iff split: if_splits)
  have "db' = upsert_mode sid (gm_mode m) db1
      \<or> (\<exists>j. j \<noteq> i \<and> db' = drop_empty_domain j (upsert_mode sid (gm_mode m) db1))"
    using assms u by (auto simp: save_member_def Let_def split: if_splits option.splits)
  then show ?thesis using that u c by blast
qed

lemma find_switch_drop [simp]: "find_switch (drop_empty_domain j db) h = find_switch db h"
  by (simp add: find_switch_def)

lemma find_mode_drop [simp]: "find_mode (drop_empty_domain j db) h = find_mode db h"
  by (simp add: find_mode_def)

lemma find_switch_upsert_mode [simp]: "find_switch (upsert_mode i mode db) h = find_switch db h"
  by (simp add: find_switch_def)

lemma find_mode_upsert_switch: "upsert_switch i m db = (db1, sid) \<Longrightarrow> find_mode db1 j = find_mode db j"
  using upsert_switch_other by (simp add: find_mode_def)

lemma save_member_membership:
  assumes "vtp_ok db" "save_member i m db = Inr db'"
  shows "membership db' h = (if h = gm_host m then Some (i, gm_pruning m, PendingApply, Some (gm_mode m))
      else membership db h)"
  using assms(2)
proof (rule save_memberE)
  fix db1 sid assume u: "upsert_switch i m db = (db1, sid)" and
    db': "db' = upsert_mode sid (gm_mode m) db1
      \<or> (\<exists>j. j \<noteq> i \<and> db' = drop_empty_domain j (upsert_mode sid (gm_mode m) db1))"
  have f: "find_switch db' h = find_switch db1 h" "find_mode db' j = find_mode (upsert_mode sid (gm_mode m) db1) j" for j
    using db' by auto
  have "sid \<noteq> sw_id s" if "find_switch db h = Some s" "h \<noteq> gm_host m" for s
  proof -
    have s: "s \<in> set (vb_switches db)" "sw_host s = h" using find_switch_SomeD that(1) by blast+
    have "find_switch db1 h = Some s" using upsert_switch_find[OF assms(1) u, of h] that by simp
    moreover obtain t where "find_switch db1 (gm_host m) = Some t" "sw_id t = sid"
      using upsert_switch_find[OF assms(1) u, of "gm_host m"] by auto
    ultimately have "s \<in> set (vb_switches db1)" "t \<in> set (vb_switches db1)" "sw_host t = gm_host m" "sw_id t = sid"
      using find_switch_SomeD by blast+
    then show ?thesis using upsert_switch_ids(1)[OF assms(1) u] s that(2)
      by (auto simp: distinct_map dest: inj_onD)
  qed
  then show ?thesis
    using upsert_switch_find[OF assms(1) u, of h]
    by (cases "find_switch db h") (auto simp: membership_def f upsert_mode_find find_mode_upsert_switch[OF u])
qed

lemma not_needs_version3:
  "\<not> needs_version3 db i \<longleftrightarrow> (\<forall>s \<in> set (vb_switches db). sw_domain s = i \<longrightarrow>
     (\<forall>m \<in> set (vb_modes db). md_switch m = sw_id s \<longrightarrow> md_type m = ''vlan'' \<and> \<not> md_primary m))"
  by (auto simp: needs_version3_def list_ex_iff)

lemma not_interactive:
  "\<not> interactive_only db h \<longleftrightarrow> (\<forall>s \<in> set (vb_switches db). sw_host s = h \<longrightarrow>
     (\<forall>m \<in> set (vb_modes db). md_switch m = sw_id s \<longrightarrow> md_type m = ''vlan'' \<and> \<not> md_primary m))"
  by (auto simp: interactive_only_def list_ex_iff)

lemma vtp_ok_drop: "vtp_ok db \<Longrightarrow> vtp_ok (drop_empty_domain j db)"
proof -
  assume ok: "vtp_ok db"
  have "distinct (map dm_id (vb_domains (drop_empty_domain j db)))"
    "distinct (map dm_name (vb_domains (drop_empty_domain j db)))"
    using ok by (simp_all add: drop_empty_domain_def vtp_ok_def distinct_map_filter)
  moreover have "\<forall>s \<in> set (vb_switches db). sw_domain s \<in> dm_id ` set (vb_domains (drop_empty_domain j db))"
  proof
    fix s assume s: "s \<in> set (vb_switches db)"
    then have "sw_domain s \<in> dm_id ` set (vb_domains db)" using ok by (simp add: vtp_ok_def)
    then obtain d where "d \<in> set (vb_domains db)" "dm_id d = sw_domain s" by auto
    then have "d \<in> set (vb_domains (drop_empty_domain j db))" "dm_id d = sw_domain s"
      using s by (auto simp: drop_empty_domain_rows)
    then show "sw_domain s \<in> dm_id ` set (vb_domains (drop_empty_domain j db))" by (metis imageI)
  qed
  moreover have "needs_version3 (drop_empty_domain j db) = needs_version3 db"
    by (simp add: needs_version3_def fun_eq_iff)
  ultimately show ?thesis using ok unfolding vtp_ok_def by (auto simp: drop_empty_domain_rows)
qed

lemma save_member_ok:
  assumes ok: "vtp_ok db" and "save_member i m db = Inr db'"
  shows "vtp_ok db'"
  using assms(2)
proof (rule save_memberE)
  fix db1 sid assume u: "upsert_switch i m db = (db1, sid)" and
    db': "db' = upsert_mode sid (gm_mode m) db1
      \<or> (\<exists>j. j \<noteq> i \<and> db' = drop_empty_domain j (upsert_mode sid (gm_mode m) db1))" and
    ni: "\<not> interactive_only db (gm_host m)" and i: "i \<in> dm_id ` set (vb_domains db)" and mode: "gm_mode m \<in> set VTP_MODES"
  let ?db2 = "upsert_mode sid (gm_mode m) db1"
  note o = upsert_switch_other[OF u] and n = upsert_switch_ids[OF ok u]
  have plain: "md_type x = ''vlan'' \<and> \<not> md_primary x" if "x \<in> set (vb_modes db)" "md_switch x = sid" for x
  proof -
    have "md_switch x \<in> sw_id ` set (vb_switches db)" using ok that(1) by (simp add: vtp_ok_def)
    with that(2) obtain s where s: "s \<in> set (vb_switches db)" "sw_id s = sid" by auto
    obtain t where t: "t \<in> set (vb_switches db1)" "sw_id t = sid" "sw_host t = gm_host m"
      using upsert_switch_find[OF ok u, of "gm_host m"] find_switch_SomeD[of db1 "gm_host m"] by auto
    have "sw_host s = gm_host m"
    proof (rule ccontr)
      assume h: "sw_host s \<noteq> gm_host m"
      then have "find_switch db1 (sw_host s) = Some s"
        using upsert_switch_find[OF ok u, of "sw_host s"] find_switch_eq[OF ok s(1)] by simp
      then have "s \<in> set (vb_switches db1)" using find_switch_SomeD by blast
      then show False using n(1) s t h by (auto simp: distinct_map dest: inj_onD)
    qed
    then show ?thesis using ni s that by (auto simp: not_interactive)
  qed
  have modes: "\<forall>x \<in> set (vb_modes ?db2). x \<in> set (vb_modes db)
      \<or> md_switch x = sid \<and> md_type x = ''vlan'' \<and> md_mode x = gm_mode m \<and> \<not> md_primary x"
    using upsert_mode_rows[of _ sid "gm_mode m" db1] o by auto
  have "\<forall>x \<in> set (vb_modes ?db2). md_switch x \<in> sw_id ` set (vb_switches ?db2) \<and> md_mode x \<in> set VTP_MODES"
  proof
    fix x assume "x \<in> set (vb_modes ?db2)"
    then consider "x \<in> set (vb_modes db)" | "md_switch x = sid" "md_mode x = gm_mode m" using modes by blast
    then show "md_switch x \<in> sw_id ` set (vb_switches ?db2) \<and> md_mode x \<in> set VTP_MODES"
    proof cases
      case 1
      then have "md_switch x \<in> sw_id ` set (vb_switches db) \<and> md_mode x \<in> set VTP_MODES"
        using ok by (simp add: vtp_ok_def)
      then show ?thesis using n(4) by auto
    next
      case 2
      then show ?thesis using n(3) mode by simp
    qed
  qed
  moreover have "\<forall>s \<in> set (vb_switches ?db2). sw_id s < vb_next_switch ?db2 \<and> sw_domain s \<in> dm_id ` set (vb_domains ?db2)"
    using n(5,6) o i ok by (auto simp: vtp_ok_def)
  moreover have "\<forall>d \<in> set (vb_domains ?db2). dm_version d \<noteq> 3 \<longrightarrow> \<not> needs_version3 ?db2 (dm_id d)"
  proof (intro ballI impI, subst not_needs_version3, intro ballI impI)
    fix d s x assume d: "d \<in> set (vb_domains ?db2)" "dm_version d \<noteq> 3" and s: "s \<in> set (vb_switches ?db2)"
      "sw_domain s = dm_id d" and x: "x \<in> set (vb_modes ?db2)" "md_switch x = sw_id s"
    show "md_type x = ''vlan'' \<and> \<not> md_primary x"
    proof (cases "md_switch x = sid")
      case True
      then show ?thesis using modes x(1) plain by auto
    next
      case False
      then have "x \<in> set (vb_modes db)" "s \<in> set (vb_switches db)" using modes x n(6) s(1) by auto
      moreover have "\<not> needs_version3 db (dm_id d)" using ok d o by (auto simp: vtp_ok_def)
      ultimately show ?thesis using s(2) x(2) by (auto simp: not_needs_version3)
    qed
  qed
  ultimately have "vtp_ok ?db2"
    using ok n(1,2) o upsert_mode_distinct[of db1 sid "gm_mode m"] unfolding vtp_ok_def by auto
  then show ?thesis using db' vtp_ok_drop by blast
qed

lemma needs_version3_cong:
  assumes "map (\<lambda>s. (sw_id s, sw_domain s)) (vb_switches a) = map (\<lambda>s. (sw_id s, sw_domain s)) (vb_switches b)"
    and "vb_modes a = vb_modes b"
  shows "needs_version3 a i = needs_version3 b i"
proof -
  have "needs_version3 db i \<longleftrightarrow> (\<exists>(k, d) \<in> set (map (\<lambda>s. (sw_id s, sw_domain s)) (vb_switches db)).
      d = i \<and> list_ex (\<lambda>m. md_switch m = k \<and> (md_type m \<noteq> ''vlan'' \<or> md_primary m)) (vb_modes db))" for db
    by (auto simp: needs_version3_def list_ex_iff)
  then show ?thesis by (simp only: assms)
qed

subsection \<open>The domain\<close>

text \<open>Pruning, mode and domain of a switch, without its push state.\<close>

definition settings :: "vtp_db \<Rightarrow> string \<Rightarrow> (int \<times> bool \<times> string option) option" where
  "settings db h = map_option (\<lambda>(d, p, s, m). (d, p, m)) (membership db h)"

lemma mark_members_find:
  "find_switch (mark_members i db) h = map_option (\<lambda>s. if sw_domain s = i
     then s\<lparr>sw_sync := PendingApply, sw_success := PendingApply\<rparr> else s) (find_switch db h)"
  unfolding find_switch_def mark_members_def by (simp, rule find_map_other) simp

lemma find_mode_cong: "vb_modes db' = vb_modes db \<Longrightarrow> find_mode db' j = find_mode db j"
  by (simp add: find_mode_def)

lemma settings_mark: "settings (mark_members i db) h = settings db h"
proof -
  have "vb_modes (mark_members i db) = vb_modes db" by (simp add: mark_members_def)
  then have "find_mode (mark_members i db) j = find_mode db j" for j by (rule find_mode_cong)
  then show ?thesis
    by (cases "find_switch db h") (simp_all add: settings_def membership_def mark_members_find)
qed

lemma upsert_domain_fields:
  assumes "upsert_domain g db = (db', i)"
  shows "vb_devices db' = vb_devices db" "vb_switches db' = vb_switches db" "vb_modes db' = vb_modes db"
    "vb_next_switch db' = vb_next_switch db"
  using assms by (auto simp: upsert_domain_def Let_def split: option.splits)

lemma settings_cong: "vb_switches db' = vb_switches db \<Longrightarrow> vb_modes db' = vb_modes db \<Longrightarrow> settings db' h = settings db h"
  by (simp add: settings_def membership_def find_switch_def find_mode_def)

lemma upsert_domain_ok:
  assumes ok: "vtp_ok db" and u: "upsert_domain g db = (db', i)" and v: "gd_version g \<in> {1, 2, 3}"
    and n: "\<And>d. find_domain db (gd_name g) = Some d \<Longrightarrow> gd_version g \<in> {1, 2} \<Longrightarrow> \<not> needs_version3 db (dm_id d)"
  shows "vtp_ok db' \<and> i \<in> dm_id ` set (vb_domains db')"
proof -
  note f = upsert_domain_fields[OF u]
  have nv: "needs_version3 db' = needs_version3 db" using f by (simp add: needs_version3_def fun_eq_iff)
  let ?desc = "if gd_description g = [] then None else Some (gd_description g)"
  show ?thesis
  proof (cases "find_domain db (gd_name g)")
    case None
    let ?d = "\<lparr>dm_id = vb_next_domain db, dm_name = gd_name g, dm_version = gd_version g,
      dm_password_type = ''none'', dm_password = None, dm_description = ?desc\<rparr>"
    have d: "vb_domains db' = vb_domains db @ [?d]" "vb_next_domain db' = vb_next_domain db + 1" "i = vb_next_domain db"
      using u None by (auto simp: upsert_domain_def Let_def)
    have "vb_next_domain db \<notin> dm_id ` set (vb_domains db)" using ok by (auto simp: vtp_ok_def)
    moreover have "gd_name g \<notin> dm_name ` set (vb_domains db)" using None by (auto simp: find_domain_def find_None_iff)
    moreover have "\<not> needs_version3 db (vb_next_domain db)"
    proof -
      have "sw_domain s \<noteq> vb_next_domain db" if "s \<in> set (vb_switches db)" for s
      proof -
        have "sw_domain s \<in> dm_id ` set (vb_domains db)" using ok that by (simp add: vtp_ok_def)
        then show ?thesis using ok by (auto simp: vtp_ok_def)
      qed
      then show ?thesis by (auto simp: not_needs_version3)
    qed
    ultimately show ?thesis using ok v f d unfolding vtp_ok_def nv by auto
  next
    case (Some d)
    let ?f = "\<lambda>r. if dm_name r = gd_name g then r\<lparr>dm_version := gd_version g, dm_description := ?desc\<rparr> else r"
    have d: "vb_domains db' = map ?f (vb_domains db)" "vb_next_domain db' = vb_next_domain db" "i = dm_id d"
      using u Some by (auto simp: upsert_domain_def Let_def)
    have m: "map dm_id (vb_domains db') = map dm_id (vb_domains db)" "map dm_name (vb_domains db') = map dm_name (vb_domains db)"
      using d by auto
    have img: "dm_id ` set (vb_domains db') = dm_id ` set (vb_domains db)" using m(1) by (metis set_map)
    have in_db: "d \<in> set (vb_domains db)" "dm_name d = gd_name g" using find_domain_SomeD[OF Some] by auto
    have inj: "inj_on dm_name (set (vb_domains db))" using ok by (simp add: vtp_ok_def distinct_map)
    have same: "r = d" if "r \<in> set (vb_domains db)" "dm_name r = gd_name g" for r
      using inj_onD[OF inj, of r d] that in_db by simp
    have "\<forall>r \<in> set (vb_domains db'). dm_id r < vb_next_domain db' \<and> dm_version r \<in> {1, 2, 3}"
      using ok v d by (auto simp: vtp_ok_def)
    moreover have "\<forall>r \<in> set (vb_domains db'). dm_version r \<noteq> 3 \<longrightarrow> \<not> needs_version3 db (dm_id r)"
    proof (intro ballI impI)
      fix r assume "r \<in> set (vb_domains db')" and v3: "dm_version r \<noteq> 3"
      then obtain q where q: "q \<in> set (vb_domains db)" "r = ?f q" using d by auto
      show "\<not> needs_version3 db (dm_id r)"
      proof (cases "dm_name q = gd_name g")
        case True
        have "dm_version r = gd_version g" "dm_id r = dm_id d" using True q(2) same[OF q(1)] by simp_all
        then show ?thesis using v3 v n[OF Some] by simp
      next
        case False
        then show ?thesis using q v3 ok by (simp add: vtp_ok_def)
      qed
    qed
    moreover have "dm_id d \<in> dm_id ` set (vb_domains db')" using img in_db by simp
    ultimately show ?thesis using ok f d(2,3) m img unfolding vtp_ok_def nv by simp
  qed
qed

lemma vtp_ok_mark: "vtp_ok db \<Longrightarrow> vtp_ok (mark_members i db)"
proof -
  assume ok: "vtp_ok db"
  have m: "map sw_id (vb_switches (mark_members i db)) = map sw_id (vb_switches db)"
    "map sw_host (vb_switches (mark_members i db)) = map sw_host (vb_switches db)"
    by (auto simp: mark_members_def)
  have o: "vb_domains (mark_members i db) = vb_domains db" "vb_modes (mark_members i db) = vb_modes db"
    "vb_next_domain (mark_members i db) = vb_next_domain db" "vb_next_switch (mark_members i db) = vb_next_switch db"
    by (simp_all add: mark_members_def)
  have img: "sw_id ` set (vb_switches (mark_members i db)) = sw_id ` set (vb_switches db)" using m(1) by (metis set_map)
  have "needs_version3 (mark_members i db) j = needs_version3 db j" for j
    by (rule needs_version3_cong) (simp_all add: mark_members_def)
  moreover have "\<forall>s \<in> set (vb_switches (mark_members i db)). sw_id s < vb_next_switch db \<and> sw_domain s \<in> dm_id ` set (vb_domains db)"
    using ok by (auto simp: mark_members_def vtp_ok_def)
  ultimately show ?thesis using ok m img unfolding vtp_ok_def o by simp
qed

lemma save_domain_ok:
  assumes "vtp_ok db" "save_domain g db = Inr (db', i)"
  shows "vtp_ok db' \<and> i \<in> dm_id ` set (vb_domains db') \<and> settings db' h = settings db h \<and> vb_devices db' = vb_devices db"
proof -
  obtain db1 j where u1: "upsert_domain g db = (db1, j)" by fastforce
  have u: "upsert_domain g db = (db1, i)" "db' = mark_members i db1" and v: "gd_version g \<in> {1, 2, 3}"
    and n: "\<And>d. find_domain db (gd_name g) = Some d \<Longrightarrow> gd_version g \<in> {1, 2} \<Longrightarrow> \<not> needs_version3 db (dm_id d)"
    using assms(2) u1 by (auto simp: save_domain_def split: option.splits if_splits)
  have "vtp_ok db1 \<and> i \<in> dm_id ` set (vb_domains db1)" using upsert_domain_ok[OF assms(1) u(1) v n] .
  moreover have "vb_domains db' = vb_domains db1" "vb_devices db' = vb_devices db1" using u(2) by (simp_all add: mark_members_def)
  moreover have "settings db' h = settings db h"
    using u(2) settings_mark settings_cong upsert_domain_fields[OF u(1)] by metis
  ultimately show ?thesis using u(2) vtp_ok_mark upsert_domain_fields[OF u(1)] by simp
qed

subsection \<open>The members\<close>

lemma settings_step:
  assumes "vtp_ok db" "save_member i m db = Inr db'"
  shows "settings db' h = (if h = gm_host m then Some (i, gm_pruning m, Some (gm_mode m)) else settings db h)"
  using save_member_membership[OF assms, of h] by (simp add: settings_def)

lemma save_members_ok:
  assumes "vtp_ok db" "save_members i ms db = (db', good, bad)" "distinct (map gm_host ms)"
  shows "vtp_ok db' \<and> mset good + mset (map fst bad) = mset (map gm_host ms)
    \<and> (\<forall>m \<in> set ms. gm_host m \<in> set good \<longrightarrow> membership db' (gm_host m) = Some (i, gm_pruning m, PendingApply, Some (gm_mode m)))
    \<and> (\<forall>h. h \<notin> set good \<longrightarrow> membership db' h = membership db h)"
  using assms
proof (induction ms arbitrary: db good bad)
  case Nil
  then show ?case by simp
next
  case (Cons m ms)
  have d: "distinct (map gm_host ms)" "gm_host m \<notin> gm_host ` set ms" using Cons.prems(3) by auto
  show ?case
  proof (cases "save_member i m db")
    case (Inl e)
    then obtain bad' where s: "save_members i ms db = (db', good, bad')" "bad = (gm_host m, e) # bad'"
      using Cons.prems(2) by (auto split: prod.splits)
    note IH = Cons.IH[OF Cons.prems(1) s(1) d(1)]
    have "set good \<subseteq> gm_host ` set ms" using IH by (metis list.set_map mset_subset_eq_add_left set_mset_mono set_mset_mset)
    then show ?thesis using IH s(2) d(2) by auto
  next
    case (Inr db1)
    then obtain good' where s: "save_members i ms db1 = (db', good', bad)" "good = gm_host m # good'"
      using Cons.prems(2) by (auto split: prod.splits)
    note IH = Cons.IH[OF save_member_ok[OF Cons.prems(1) Inr] s(1) d(1)]
    have "set good' \<subseteq> gm_host ` set ms" using IH by (metis list.set_map mset_subset_eq_add_left set_mset_mono set_mset_mset)
    then have "gm_host m \<notin> set good'" using d(2) by auto
    then have "membership db' (gm_host m) = Some (i, gm_pruning m, PendingApply, Some (gm_mode m))"
      using IH save_member_membership[OF Cons.prems(1) Inr, of "gm_host m"] by simp
    moreover have "\<forall>ma \<in> set ms. gm_host ma \<noteq> gm_host m" using d(2) by (metis imageI)
    ultimately show ?thesis using IH s(2) save_member_membership[OF Cons.prems(1) Inr] by auto
  qed
qed

lemma normalize_members_distinct:
  "normalize_members seen raws = Inr ms \<Longrightarrow> distinct (map gm_host ms) \<and> set (map gm_host ms) \<inter> set seen = {}
     \<and> length ms = length raws"
proof (induction raws arbitrary: seen ms)
  case (Cons raw raws)
  let ?h = "strip (text_or (get raw ''host'') [])"
  obtain ms' where "?h \<notin> set seen" "normalize_members (?h # seen) raws = Inr ms'"
      "gm_host (hd ms) = ?h" "ms = hd ms # ms'"
    using Cons.prems by (auto simp: Let_def sbind_eq_Inr_conv split: if_splits)
  then show ?case using Cons.IH[of "?h # seen" ms'] by (metis (no_types, lifting) Cons.prems
      Int_insert_right disjoint_iff distinct.simps(2) insertI1 length_Cons list.set(2) list.set_intros(2) list.simps(9))
qed simp

lemma normalize_members_shape:
  "normalize_members seen raws = Inr ms \<Longrightarrow> x \<in> set ms \<Longrightarrow>
     strip (gm_host x) = gm_host x \<and> gm_host x \<noteq> [] \<and> lower (gm_mode x) = gm_mode x"
proof (induction raws arbitrary: seen ms)
  case (Cons raw raws)
  have modes: "mode \<in> set VTP_MODES \<Longrightarrow> lower mode = mode" for mode
    by (auto simp: VTP_MODES_def lower_def lower_char_def code_def)
  show ?case using Cons.prems Cons.IH modes
    by (fastforce simp: Let_def sbind_eq_Inr_conv split: if_splits)
qed simp

lemma save_groupE:
  assumes "save_group g ms db = Inr (db', r)"
  obtains db1 good bad where
    "(if filter (\<lambda>m. gm_host m \<in> set (map fst (connected_switches db))) ms = [] then Inr (db, 0)
      else save_domain g db) = Inr (db1, gr_domain r)"
    "save_members (gr_domain r) (filter (\<lambda>m. gm_host m \<in> set (map fst (connected_switches db))) ms) db1 = (db', good, bad)"
    "gr_successful r = good"
    "gr_failed r = map (\<lambda>m. (gm_host m, ''Host is not a connected switch''))
       (filter (\<lambda>m. gm_host m \<notin> set (map fst (connected_switches db))) ms) @ bad"
    "gr_ok r = (good \<noteq> [] \<and> gr_failed r = [])"
proof -
  let ?e = "filter (\<lambda>m. gm_host m \<in> set (map fst (connected_switches db))) ms"
  obtain db1 i where s1: "(if ?e = [] then Inr (db, 0) else save_domain g db) = Inr (db1, i)"
    using assms unfolding save_group_def Let_def sbind_eq_Inr_conv by auto
  obtain db2 good bad where s2: "save_members i ?e db1 = (db2, good, bad)" by (metis prod_cases3)
  have "db' = db2 \<and> gr_domain r = i \<and> gr_successful r = good \<and> gr_ok r = (good \<noteq> [] \<and> gr_failed r = [])
    \<and> gr_failed r = map (\<lambda>m. (gm_host m, ''Host is not a connected switch''))
       (filter (\<lambda>m. gm_host m \<notin> set (map fst (connected_switches db))) ms) @ bad"
    using assms unfolding save_group_def Let_def s1 sbind_simps prod.case s2 by auto
  then show ?thesis using that s1 s2 by simp
qed

text \<open>What a group save that was not rejected as a whole does.\<close>

lemma save_group_effect:
  assumes "vtp_ok db" "distinct (map gm_host ms)" "save_group g ms db = Inr (db', r)"
  shows "vtp_ok db' \<and> mset (gr_successful r) + mset (map fst (gr_failed r)) = mset (map gm_host ms)
    \<and> (\<forall>m \<in> set ms. gm_host m \<in> set (gr_successful r) \<longrightarrow>
         membership db' (gm_host m) = Some (gr_domain r, gm_pruning m, PendingApply, Some (gm_mode m)))
    \<and> (\<forall>h. h \<notin> set (gr_successful r) \<longrightarrow> settings db' h = settings db h)"
proof -
  let ?hosts = "set (map fst (connected_switches db))"
  let ?e = "filter (\<lambda>m. gm_host m \<in> ?hosts) ms" and ?n = "filter (\<lambda>m. gm_host m \<notin> ?hosts) ms"
  obtain db1 good bad where s: "(if ?e = [] then Inr (db, 0) else save_domain g db) = Inr (db1, gr_domain r)"
    "save_members (gr_domain r) ?e db1 = (db', good, bad)" "gr_successful r = good"
    "gr_failed r = map (\<lambda>m. (gm_host m, ''Host is not a connected switch'')) ?n @ bad"
    using assms(3) by (rule save_groupE)
  have d: "vtp_ok db1 \<and> settings db1 h = settings db h" for h
    using s(1) assms(1) save_domain_ok[OF assms(1), of g db1 "gr_domain r" h] by (auto split: if_splits)
  have dist: "distinct (map gm_host ?e)" using assms(2) by (simp add: distinct_map_filter)
  note m = save_members_ok[OF _ s(2) dist]
  have "mset (map gm_host ms) = mset (map gm_host ?e) + mset (map gm_host ?n)"
    by (induction ms) auto
  then have "mset (gr_successful r) + mset (map fst (gr_failed r)) = mset (map gm_host ms)"
    using m d s(3,4) by (simp add: comp_def ac_simps)
  moreover have "\<forall>m \<in> set ms. gm_host m \<in> set good \<longrightarrow> m \<in> set ?e"
  proof (intro ballI impI)
    fix x assume x: "x \<in> set ms" "gm_host x \<in> set good"
    have "set good \<subseteq> gm_host ` set ?e" using m d by (metis list.set_map mset_subset_eq_add_left set_mset_mono set_mset_mset)
    then have "gm_host x \<in> gm_host ` set ?e" using x(2) by blast
    then obtain y where "y \<in> set ?e" "gm_host y = gm_host x" by (metis imageE)
    moreover from this have "y = x" using assms(2) x(1) by (auto simp: distinct_map dest: inj_onD)
    ultimately show "x \<in> set ?e" by simp
  qed
  ultimately show ?thesis using m d s(3) by (auto simp: settings_def)
qed



section \<open>VLAN ownership\<close>

text \<open>\<open>vlan_vtp_context\<close>: the inner joins over switch, domain and VLAN mode.\<close>

definition vlan_vtp_context :: "vtp_db \<Rightarrow> string \<Rightarrow> (int \<times> string \<times> string) option" where
  "vlan_vtp_context db host =
     (let target = strip host in
      if target = [] then None
      else case find_switch db target of
          None \<Rightarrow> None
        | Some s \<Rightarrow>
            (case find (\<lambda>d. dm_id d = sw_domain s) (vb_domains db) of
               None \<Rightarrow> None
             | Some d \<Rightarrow> map_option (\<lambda>m. (dm_id d, dm_name d, md_mode m)) (find_mode db (sw_id s))))"

definition vlan_role :: "vtp_db \<Rightarrow> string \<Rightarrow> (int \<times> string) option" where
  "vlan_role db host =
     (case find_switch db host of
        None \<Rightarrow> None
      | Some s \<Rightarrow> map_option (\<lambda>m. (sw_domain s, md_mode m)) (find_mode db (sw_id s)))"

definition vlan_vtp_clients :: "vtp_db \<Rightarrow> string \<Rightarrow> string list" where
  "vlan_vtp_clients db server_host =
     (let target = strip server_host in
      if target = [] then []
      else case vlan_role db target of
          None \<Rightarrow> []
        | Some (i, mode) \<Rightarrow>
            if mode \<noteq> ''server'' then []
            else sort_key lower (filter (\<lambda>h. h \<noteq> target \<and> vlan_role db h = Some (i, ''client''))
                   (map sw_host (vb_switches db))))"

definition require_vlan_configuration_owner :: "vtp_db \<Rightarrow> string \<Rightarrow> string + unit" where
  "require_vlan_configuration_owner db host =
     (case vlan_vtp_context db host of
        None \<Rightarrow> Inr ()
      | Some (i, name, mode) \<Rightarrow>
          require (lower mode \<noteq> ''client'') (''VLAN configuration is managed by the VTP server for domain '' @ name
            @ ''; this switch is a VTP client''))"

lemma vlan_context_role:
  assumes "vtp_ok db" "strip h = h" "h \<noteq> []"
  shows "map_option (\<lambda>(i, n, m). (i, m)) (vlan_vtp_context db h) = vlan_role db h"
proof (cases "find_switch db h")
  case (Some s)
  then have "sw_domain s \<in> dm_id ` set (vb_domains db)"
    using assms(1) find_switch_SomeD by (auto simp: vtp_ok_def)
  then obtain d where d: "find (\<lambda>d. dm_id d = sw_domain s) (vb_domains db) = Some d"
    by (cases "find (\<lambda>d. dm_id d = sw_domain s) (vb_domains db)") (auto simp: find_None_iff)
  then have "dm_id d = sw_domain s" using find_SomeD by fastforce
  then show ?thesis using assms Some d by (cases "find_mode db (sw_id s)") (auto simp: vlan_vtp_context_def vlan_role_def)
qed (use assms in \<open>simp add: vlan_vtp_context_def vlan_role_def\<close>)

lemma vlan_role_membership:
  "membership db h = Some (i, p, s, Some m) \<Longrightarrow> vlan_role db h = Some (i, m)"
  by (auto simp: membership_def vlan_role_def split: option.splits)

text \<open>Property C28. In a saved group the VLANs have one owner: once every switch was saved, a member with mode
  client may not change its VLANs, any other member may, and the clients that a server pushes to
  include every client of the request.\<close>

theorem group_vlan_ownership:
  assumes "vtp_ok db" "normalize_group p = Inr (g, ms)" "save_vtp_group p db = (db', r)" "gr_ok r" "m \<in> set ms"
  shows "(require_vlan_configuration_owner db' (gm_host m) = Inr () \<longleftrightarrow> gm_mode m \<noteq> ''client'')
    \<and> (\<forall>s \<in> set ms. gm_mode s = ''server'' \<longrightarrow> gm_mode m = ''client'' \<longrightarrow> gm_host m \<in> set (vlan_vtp_clients db' (gm_host s)))"
proof -
  have nm: "normalize_members [] (gp_members p) = Inr ms"
    using assms(2) by (auto simp: normalize_group_def Let_def sbind_eq_Inr_conv split: if_splits option.splits)
  have g: "save_group g ms db = Inr (db', r)"
    using assms(2-4) by (auto simp: save_vtp_group_def split: sum.splits)
  have eff: "vtp_ok db' \<and> mset (gr_successful r) + mset (map fst (gr_failed r)) = mset (map gm_host ms)
      \<and> (\<forall>m \<in> set ms. gm_host m \<in> set (gr_successful r) \<longrightarrow>
         membership db' (gm_host m) = Some (gr_domain r, gm_pruning m, PendingApply, Some (gm_mode m)))"
    using save_group_effect[OF assms(1) _ g] normalize_members_distinct[OF nm] by blast
  have "gr_failed r = []" by (rule save_groupE[OF g]) (use assms(4) in blast)
  then have "set (gr_successful r) = gm_host ` set ms" using eff by (metis add_0_right list.set_map list.simps(8) mset.simps(1) set_mset_mset)
  then have role: "vlan_role db' (gm_host x) = Some (gr_domain r, gm_mode x)" if "x \<in> set ms" for x
    using eff that by (auto intro!: vlan_role_membership)
  have norm: "strip (gm_host x) = gm_host x \<and> gm_host x \<noteq> [] \<and> lower (gm_mode x) = gm_mode x" if "x \<in> set ms" for x
    using normalize_members_shape[OF nm that] .
  have "map_option (\<lambda>(i, n, m). (i, m)) (vlan_vtp_context db' (gm_host m)) = Some (gr_domain r, gm_mode m)"
    using vlan_context_role[of db' "gm_host m"] eff norm[OF assms(5)] role[OF assms(5)] by simp
  then have "require_vlan_configuration_owner db' (gm_host m) = Inr () \<longleftrightarrow> gm_mode m \<noteq> ''client''"
    using norm[OF assms(5)] by (auto simp: require_vlan_configuration_owner_def split: option.splits)
  moreover have "gm_host m \<in> set (vlan_vtp_clients db' (gm_host s))"
    if "s \<in> set ms" "gm_mode s = ''server''" "gm_mode m = ''client''" for s
  proof -
    have "gm_host m \<noteq> gm_host s"
    proof
      assume "gm_host m = gm_host s"
      then have "gm_mode m = gm_mode s" using role[OF that(1)] role[OF assms(5)] by simp
      then show False using that by simp
    qed
    moreover have "gm_host m \<in> set (map sw_host (vb_switches db'))"
      using role[OF assms(5)] find_switch_None[of db' "gm_host m"] by (auto simp: vlan_role_def split: option.splits)
    ultimately show ?thesis using that(2,3) role[OF that(1)] role[OF assms(5)] norm[OF that(1)]
      by (simp add: vlan_vtp_clients_def)
  qed
  ultimately show ?thesis by blast
qed

section \<open>Examples\<close>

definition sample_switch :: "string \<Rightarrow> string \<Rightarrow> device_row" where
  "sample_switch host role = \<lparr>dv_host = host, dv_name = None, dv_role = Some role, dv_type = None, dv_connection = ''connected''\<rparr>"

text \<open>\<open>S3\<close> owns a version 3 MST row, \<open>R1\<close> is a router.\<close>

definition vtp_sample :: vtp_db where
  "vtp_sample = \<lparr>vb_devices = [sample_switch ''S1'' ''sw3'', sample_switch ''S2'' ''sw2'', sample_switch ''S3'' ''SW2'',
       sample_switch ''R1'' ''rou''],
     vb_domains = [\<lparr>dm_id = 1, dm_name = ''OLD'', dm_version = 3, dm_password_type = ''none'', dm_password = None,
       dm_description = None\<rparr>],
     vb_switches = [\<lparr>sw_id = 1, sw_domain = 1, sw_host = ''S3'', sw_pruning = False, sw_sync = Synchronized, sw_success = Synchronized\<rparr>],
     vb_modes = [\<lparr>md_switch = 1, md_type = ''mst'', md_mode = ''server'', md_primary = True\<rparr>],
     vb_next_domain = 2, vb_next_switch = 2\<rparr>"

definition sample_member :: "string \<Rightarrow> string \<Rightarrow> payload" where
  "sample_member host mode = [''host'' \<mapsto> PStr host, ''mode'' \<mapsto> PStr mode]"

definition group_sample :: "payload list \<Rightarrow> group_payload" where
  "group_sample ms = \<lparr>gp_domain_name = PStr ''CAMPUS'', gp_version = PInt 2, gp_description = PNone, gp_members = ms\<rparr>"

definition three_members :: group_payload where
  "three_members = group_sample [sample_member ''S1'' ''server'', sample_member ''S2'' ''client'', sample_member ''S3'' ''client'']"

definition two_members :: group_payload where
  "two_members = group_sample [sample_member ''S1'' ''server'', sample_member ''S2'' ''client'']"

definition campus :: group_domain where
  "campus = \<lparr>gd_name = ''CAMPUS'', gd_version = 2, gd_description = []\<rparr>"

definition member_of :: "string \<Rightarrow> string \<Rightarrow> group_member" where
  "member_of h m = \<lparr>gm_host = h, gm_mode = m, gm_pruning = False\<rparr>"

lemma vtp_sample_ok: "vtp_ok vtp_sample"
  by (simp add: vtp_ok_def vtp_sample_def needs_version3_def VTP_MODES_def)

lemma normalize_samples:
  "normalize_group three_members = Inr (campus, [member_of ''S1'' ''server'', member_of ''S2'' ''client'', member_of ''S3'' ''client''])"
  "normalize_group two_members = Inr (campus, [member_of ''S1'' ''server'', member_of ''S2'' ''client''])"
  by code_simp+

lemma save_samples:
  "gr_successful (snd (save_vtp_group three_members vtp_sample)) = [''S1'', ''S2'']"
  "gr_ok (snd (save_vtp_group two_members vtp_sample))"
  by code_simp+



lemma group_vlan_ownership_witness:
  "require_vlan_configuration_owner (fst (save_vtp_group two_members vtp_sample)) ''S2'' \<noteq> Inr ()
   \<and> ''S2'' \<in> set (vlan_vtp_clients (fst (save_vtp_group two_members vtp_sample)) ''S1'')"
  using group_vlan_ownership[OF vtp_sample_ok normalize_samples(2) prod.collapse[symmetric] save_samples(2),
      of "member_of ''S2'' ''client''"]
  by (simp add: member_of_def)

text \<open>
  The domain is saved before its members and in its own transaction: a request that fails for every switch
  leaves the domain behind, here a new one that has no member and that no operation of the group removes.
\<close>

definition failing_group :: group_payload where
  "failing_group = group_sample [sample_member ''S3'' ''client'', sample_member ''R1'' ''client'']"

lemma failed_group_leaves_domain:
  "let (db, r) = save_vtp_group failing_group vtp_sample in
     gr_successful r = [] \<and> map dm_name (vb_domains db) = [''OLD'', ''CAMPUS'']
     \<and> \<not> list_ex (\<lambda>s. sw_domain s = gr_domain r) (vb_switches db)"
  by code_simp

end
