(* ===== verification/Switch_Rules.thy ===== *)
theory Switch_Rules
  imports Ipv4 Py_Values
begin

text \<open>
  The rules the switching repositories share: conversion of form values (\<open>features/switching/common.py\<close>),
  integrity rules between entities (\<open>entity_rules.py\<close>), the test whether a row is on the device
  (\<open>lifecycle.py\<close>), the role of a switch (\<open>navigation.py\<close>) and the recognition of rejected commands in
  device output (\<open>cli_validation.py\<close>).

  \<open>ValueError\<close> is the left side of a sum, with its text. The lemmas say which VLANs an expression
  means and that the reference check finds exactly those.
\<close>

section \<open>Form values\<close>

definition form_text :: "pyval \<Rightarrow> string" where
  "form_text v = (if v = PNone then [] else strip (py_str v))"

definition form_integer :: "pyval \<Rightarrow> string \<Rightarrow> int \<Rightarrow> int \<Rightarrow> string + int" where
  "form_integer v field lo hi =
     (case py_int v of
        None \<Rightarrow> Inl (field @ '' must be an integer'')
      | Some i \<Rightarrow>
          if lo \<le> i \<and> i \<le> hi then Inr i
          else Inl (field @ '' must be between '' @ show_int lo @ '' and '' @ show_int hi))"

fun form_boolean :: "pyval \<Rightarrow> bool" where
  "form_boolean (PStr s) = (lower (strip s) \<in> {''1'', ''true'', ''yes'', ''on'', ''enabled'', ''up''})"
| "form_boolean v = truthy v"

definition form_choice :: "pyval \<Rightarrow> string \<Rightarrow> string list \<Rightarrow> string \<Rightarrow> string + string" where
  "form_choice v field allowed dflt =
     (let result = (if lower (form_text v) = [] then dflt else lower (form_text v))
      in if result \<in> set allowed then Inr result else Inl (''Invalid '' @ field @ '': '' @ result))"

definition optional_vlan :: "pyval \<Rightarrow> string \<Rightarrow> string + int option" where
  "optional_vlan v field =
     (if v = PNone \<or> v = PStr [] then Inr None
      else sbind (form_integer v field 1 4094) (\<lambda>i. Inr (Some i)))"

text \<open>\<open>IPv4Network("0.0.0.0/...")\<close> needs no host bits, so any mask is fine.\<close>

definition validate_ipv4_pair :: "pyval \<Rightarrow> pyval \<Rightarrow> string + (string \<times> string) option" where
  "validate_ipv4_pair address netmask =
     (let ip = form_text address; m = form_text netmask in
      if ip = [] \<and> m = [] then Inr None
      else if ip = [] \<or> m = [] then Inl ''IP address and subnet mask must be provided together''
      else if parse_ipv4 ip = None then Inl ''Invalid IPv4 address or subnet mask''
      else let body = (if starts_with m ''/'' then drop 1 m else m) in
        if CHR ''/'' \<in> set body then Inl ''Invalid IPv4 address or subnet mask''
        else case parse_mask body of
            None \<Rightarrow> Inl ''Invalid subnet mask''
          | Some p \<Rightarrow> Inr (Some (ip, show_ipv4 (prefix_mask p))))"

subsection \<open>VLAN expressions\<close>

text \<open>One part of an expression: a VLAN or a range, as the bounds it was read to.\<close>

definition vlan_bounds :: "string \<Rightarrow> string \<Rightarrow> string + int list" where
  "vlan_bounds field part =
     (let bounds = map strip (split_on (CHR ''-'') part) in
      if length bounds \<notin> {1, 2} \<or> [] \<in> set bounds then Inl (field @ '' has an invalid format'')
      else sbind (form_integer (PStr (hd bounds)) field 1 4094) (\<lambda>a.
        if length bounds = 1 then Inr [a]
        else sbind (form_integer (PStr (bounds ! 1)) field 1 4094) (\<lambda>b.
          if a > b then Inl (field @ '' contains a reversed VLAN range'') else Inr [a, b])))"

fun check_parts :: "string \<Rightarrow> string list \<Rightarrow> string + unit" where
  "check_parts field [] = Inr ()"
| "check_parts field (p # ps) = sbind (vlan_bounds field p) (\<lambda>_. check_parts field ps)"

definition validate_vlan_expression :: "pyval \<Rightarrow> string \<Rightarrow> string \<Rightarrow> string + string" where
  "validate_vlan_expression v field dflt =
     (let expression = (if lower (form_text v) = [] then dflt else lower (form_text v)) in
      if expression \<in> {''all'', ''none''} then Inr expression
      else sbind (check_parts field (split_on (CHR '','') expression)) (\<lambda>_. Inr expression))"

section \<open>Integrity rules\<close>

text \<open>
  The rows the rules read. A query's result is its argument: the row with the given \<open>id\<close> and host, the VLAN
  rows of the host, its Layer-2 interfaces.
\<close>

record vlan_row =
  vn_id :: int
  vn_host :: string
  vn_vlan :: int
  vn_name :: string
  vn_state :: string
  vn_success :: sync_status
  vn_present :: bool

definition require_immutable_identity :: "string option \<Rightarrow> string \<Rightarrow> string \<Rightarrow> string + unit" where
  "require_immutable_identity stored current label =
     (case stored of
        None \<Rightarrow> Inl (''The selected '' @ label @ '' no longer exists'')
      | Some s \<Rightarrow> require (lower s = lower current)
          (label @ '' identity cannot be changed; delete it and create a new one''))"

definition selectable_vlan :: "vlan_row \<Rightarrow> bool" where
  "selectable_vlan r = (vn_success r \<noteq> PendingDelete \<and> (vn_present r \<or> vn_success r \<noteq> Synchronized))"

definition require_active_vlan :: "vlan_row list \<Rightarrow> string \<Rightarrow> int \<Rightarrow> string \<Rightarrow> string + unit" where
  "require_active_vlan rows host vlan field =
     require (list_ex (\<lambda>r. vn_host r = host \<and> vn_vlan r = vlan \<and> selectable_vlan r) rows)
       (field @ '' '' @ show_int vlan @ '' does not exist on the switch or is pending deletion'')"

text \<open>The inventory keeps the last of two rows whose names differ in case only.\<close>

definition inventory_mode :: "(string \<times> string) list \<Rightarrow> string \<Rightarrow> string option" where
  "inventory_mode rows name = map_of (rev (map (\<lambda>(n, m). (lower n, m)) rows)) (lower name)"

definition require_etherchannel_members :: "(string \<times> string) list \<Rightarrow> string list \<Rightarrow> string + unit" where
  "require_etherchannel_members rows members =
     (let missing = filter (\<lambda>m. inventory_mode rows m = None) members;
          invalid = filter (\<lambda>m. inventory_mode rows m \<in> {Some ''routed'', Some ''hybrid''}) members
      in if missing \<noteq> [] then Inl (''EtherChannel member interface does not exist on this switch: '' @ join '', '' missing)
         else if invalid \<noteq> [] then Inl (''EtherChannel members must be access or trunk interfaces: '' @ join '', '' invalid)
         else Inr ())"

text \<open>\<open>int\<close> on each segment; a segment that is no number raises.\<close>

fun read_all :: "string list \<Rightarrow> int list option" where
  "read_all [] = Some []"
| "read_all (s # ss) = (case read_int s of None \<Rightarrow> None | Some i \<Rightarrow> map_option ((#) i) (read_all ss))"

definition part_vlans :: "string \<Rightarrow> int list option" where
  "part_vlans part =
     map_option (\<lambda>bounds. if length bounds = 2 then [hd bounds .. last bounds] else bounds)
       (read_all (split_on (CHR ''-'') (strip part)))"

fun referenced_vlans :: "string list \<Rightarrow> int list option" where
  "referenced_vlans [] = Some []"
| "referenced_vlans (p # ps) =
     (case part_vlans p of None \<Rightarrow> None | Some vs \<Rightarrow> map_option ((@) vs) (referenced_vlans ps))"

definition pending_vlans :: "vlan_row list \<Rightarrow> string \<Rightarrow> int list" where
  "pending_vlans rows host =
     map vn_vlan (filter (\<lambda>r. vn_host r = host \<and> vn_success r = PendingDelete) rows)"

definition reject_pending_vlan_references :: "vlan_row list \<Rightarrow> string \<Rightarrow> string \<Rightarrow> string \<Rightarrow> string + unit" where
  "reject_pending_vlan_references rows host expression field =
     (let normalized = lower (strip expression) in
      if normalized \<in> {[], ''all'', ''none''} then Inr ()
      else case referenced_vlans (split_on (CHR '','') normalized) of
          None \<Rightarrow> Inl ''invalid literal for int()''
        | Some vs \<Rightarrow>
            let conflicts = sort (remdups (filter (\<lambda>v. v \<in> set vs) (pending_vlans rows host)))
            in require (conflicts = []) (field @ '' references VLAN(s) pending deletion: '' @ join '', '' (map show_int conflicts)))"

section \<open>Life cycle and role\<close>

definition is_device_backed :: "bool \<Rightarrow> sync_status \<Rightarrow> bool" where
  "is_device_backed present s = (present \<or> s \<in> {Synchronized, PendingDelete})"

definition normalize_switch_role :: "string option \<Rightarrow> string" where
  "normalize_switch_role role =
     (let v = lower (strip (case role of None \<Rightarrow> [] | Some r \<Rightarrow> r)) in if v \<in> {''sw2'', ''sw3''} then v else [])"

text \<open>The pages of the interface: id, label and subfeatures.\<close>

definition navigation_for_role :: "string option \<Rightarrow> (string \<times> string \<times> string list) list" where
  "navigation_for_role role =
     (let r = normalize_switch_role role; l3 = (r = ''sw3'') in
      if r = [] then []
      else [(''interfaces'', ''Interfaces'', [''switchPorts''] @ (if l3 then [''routedPorts'', ''svi''] else [])),
            (''switching'', ''Switching'', [''vlan'', ''etherChannel'', ''stp'', ''vtp''])]
         @ (if l3 then [(''services'', ''Services'', [''dhcpServer'', ''dhcpRelay''])] else [])
         @ [(''security'', ''Security'', [''l2Security'', ''portSecurity''] @ (if l3 then [''acl''] else [])),
            (''monitoring'', ''Monitoring'', [''portCounters'', ''macTable''])])"

section \<open>Rejected commands\<close>

definition ERROR_MARKERS :: "string list" where
  "ERROR_MARKERS = [''% invalid input'', ''% incomplete command'', ''% ambiguous command'',
     ''% authorization failed'', ''command rejected'']"

definition has_marker :: "string \<Rightarrow> bool" where
  "has_marker line = list_ex (contains (lower line)) ERROR_MARKERS"

definition caret_line :: "string \<Rightarrow> bool" where
  "caret_line line = (strip line = [] \<or> list_all (\<lambda>c. is_space c \<or> c = CHR ''^'') line)"

text \<open>\<open>preceding\<close> holds the lines before the error, nearest first; at most four are read.\<close>

fun nearest_command :: "string list \<Rightarrow> string" where
  "nearest_command [] = []"
| "nearest_command (l # ls) =
     (if caret_line l then nearest_command ls else if has_marker (strip l) then [] else lower (strip l))"

fun rejected_after :: "string list \<Rightarrow> string list \<Rightarrow> bool" where
  "rejected_after before [] = False"
| "rejected_after before (l # ls) =
     (if has_marker l
         \<and> \<not> (contains (lower l) ''% invalid input''
              \<and> contains (nearest_command (take 4 before)) ''switchport trunk encapsulation dot1q'')
      then True else rejected_after (l # before) ls)"

definition has_rejected_command :: "string \<Rightarrow> bool" where
  "has_rejected_command output = rejected_after [] (split_lines output)"

section \<open>What a VLAN expression means\<close>

text \<open>The reference meaning: a VLAN is mentioned by a part that is its number or a range around it.\<close>

definition mentions :: "string \<Rightarrow> int \<Rightarrow> bool" where
  "mentions e v \<longleftrightarrow> e \<notin> {''all'', ''none''} \<and>
     (\<exists>p \<in> set (split_on (CHR '','') e).
        case vlan_bounds [] p of Inl _ \<Rightarrow> False | Inr bs \<Rightarrow> hd bs \<le> v \<and> v \<le> last bs)"

lemma read_int_strip [simp]: "read_int (strip s) = read_int s"
  by (simp add: read_int_def)

lemma read_all_map_strip: "read_all (map strip ss) = read_all ss"
  by (induction ss) (auto split: option.split)

lemma vlan_bounds_field: "vlan_bounds f p = Inr bs \<longleftrightarrow> vlan_bounds g p = Inr bs"
  by (auto simp: vlan_bounds_def form_integer_def Let_def sbind_def split: option.splits sum.splits)

lemma vlan_bounds_parts:
  assumes "vlan_bounds f p = Inr bs"
  shows "part_vlans p = Some [hd bs .. last bs] \<and> 1 \<le> hd bs \<and> last bs \<le> 4094 \<and> hd bs \<le> last bs"
proof -
  have dash: "\<not> is_space (CHR ''-'')" by code_simp
  have "read_all (split_on (CHR ''-'') (strip p)) = read_all (map strip (split_on (CHR ''-'') p))"
    by (metis strip_split[OF dash] read_all_map_strip)
  then have r: "read_all (split_on (CHR ''-'') (strip p)) = read_all (map strip (split_on (CHR ''-'') p))" .
  consider a where "map strip (split_on (CHR ''-'') p) = [a]"
    | a b where "map strip (split_on (CHR ''-'') p) = [a, b]"
  proof -
    have "length (map strip (split_on (CHR ''-'') p)) = 1 \<or> length (map strip (split_on (CHR ''-'') p)) = 2"
      using assms by (auto simp: vlan_bounds_def Let_def split: if_splits)
    then show ?thesis using that
      by (cases "map strip (split_on (CHR ''-'') p)" rule: remdups_adj.cases) auto
  qed
  then show ?thesis
  proof cases
    case (1 a)
    then show ?thesis using assms r
      by (auto simp: vlan_bounds_def form_integer_def part_vlans_def Let_def split: option.splits if_splits)
  next
    case (2 a b)
    then show ?thesis using assms r
      by (auto simp: vlan_bounds_def form_integer_def part_vlans_def Let_def sbind_eq_Inr_conv
          split: option.splits if_splits)
  qed
qed

lemma check_parts_referenced:
  "check_parts f ps = Inr () \<Longrightarrow> \<exists>vs. referenced_vlans ps = Some vs
    \<and> (\<forall>v. v \<in> set vs \<longleftrightarrow> (\<exists>p \<in> set ps. case vlan_bounds [] p of Inl _ \<Rightarrow> False | Inr bs \<Rightarrow> hd bs \<le> v \<and> v \<le> last bs))
    \<and> (\<forall>v \<in> set vs. 1 \<le> v \<and> v \<le> 4094)"
proof (induction ps)
  case (Cons p ps)
  obtain bs where b: "vlan_bounds f p = Inr bs" "check_parts f ps = Inr ()"
    using Cons.prems by (auto simp: sbind_eq_Inr_conv)
  obtain vs where v: "referenced_vlans ps = Some vs"
    "\<forall>v. v \<in> set vs \<longleftrightarrow> (\<exists>p \<in> set ps. case vlan_bounds [] p of Inl _ \<Rightarrow> False | Inr bs \<Rightarrow> hd bs \<le> v \<and> v \<le> last bs)"
    "\<forall>v \<in> set vs. 1 \<le> v \<and> v \<le> 4094"
    using Cons.IH[OF b(2)] by blast
  have "vlan_bounds [] p = Inr bs" using b(1) vlan_bounds_field by blast
  then show ?case using vlan_bounds_parts[OF b(1)] v by auto
qed simp

lemma is_space_lower_char [simp]: "is_space (lower_char c) = is_space c"
proof (cases "65 \<le> code c \<and> code c \<le> 90")
  case True
  then have "code (lower_char c) = code c + 32" by (simp add: lower_char_def Let_def code_def)
  then show ?thesis using True by (simp add: is_space_def Let_def)
qed (auto simp: lower_char_def Let_def)

lemma lstrip_lower: "lstrip (lower s) = lower (lstrip s)"
  by (induction s) (auto simp: lstrip_def lower_def)

lemma rev_lower: "rev (lower s) = lower (rev s)"
  by (simp add: lower_def rev_map)

lemma strip_lower: "strip (lower s) = lower (strip s)"
  by (simp add: strip_def lstrip_lower rev_lower)

lemma strip_form_text [simp]: "strip (form_text v) = form_text v"
  by (simp add: form_text_def)

lemma validate_vlan_expression_text:
  assumes "validate_vlan_expression v f d = Inr e" "lower (strip d) = d"
  shows "lower (strip e) = e" "e \<noteq> []" "e \<notin> {''all'', ''none''} \<Longrightarrow> check_parts f (split_on (CHR '','') e) = Inr ()"
proof -
  have "e = d \<or> e = lower (form_text v)"
    using assms(1) by (auto simp: validate_vlan_expression_def Let_def sbind_eq_Inr_conv split: if_splits)
  then have e: "e = d \<or> (\<exists>t. strip t = t \<and> e = lower t)" using strip_form_text[of v] by blast
  have c: "e \<in> {''all'', ''none''} \<or> check_parts f (split_on (CHR '','') e) = Inr ()"
    using assms(1) by (auto simp: validate_vlan_expression_def Let_def sbind_eq_Inr_conv split: if_splits)
  show "lower (strip e) = e" using e assms(2) by (auto simp: strip_lower)
  have "check_parts f [[]] \<noteq> Inr ()" by (simp add: vlan_bounds_def)
  then show "e \<noteq> []" using c by auto
  show "e \<notin> {''all'', ''none''} \<Longrightarrow> check_parts f (split_on (CHR '','') e) = Inr ()" using c by blast
qed

text \<open>Trunk expressions: an accepted VLAN expression mentions only VLANs from 1 to 4094, and the
  reference check, which reads the stored text again, rejects it exactly when some VLAN it mentions
  is staged for deletion on the host; it never fails to read an accepted expression.\<close>

theorem pending_vlan_references_exact:
  assumes "validate_vlan_expression v f d = Inr e" "lower (strip d) = d"
  shows "(reject_pending_vlan_references rows host e g = Inr () \<longleftrightarrow>
      \<not> (\<exists>r \<in> set rows. vn_host r = host \<and> vn_success r = PendingDelete \<and> mentions e (vn_vlan r)))
    \<and> (\<forall>x. mentions e x \<longrightarrow> 1 \<le> x \<and> x \<le> 4094)"
proof (cases "e \<in> {''all'', ''none''}")
  case True
  then show ?thesis using validate_vlan_expression_text(1)[OF assms]
    by (auto simp: reject_pending_vlan_references_def mentions_def Let_def)
next
  case False
  note t = validate_vlan_expression_text[OF assms]
  obtain vs where vs: "referenced_vlans (split_on (CHR '','') e) = Some vs" "\<forall>v. v \<in> set vs \<longleftrightarrow> mentions e v"
      "\<forall>v \<in> set vs. 1 \<le> v \<and> v \<le> 4094"
    using check_parts_referenced[OF t(3)[OF False]] False unfolding mentions_def by blast
  have "sort (remdups (filter (\<lambda>v. v \<in> set vs) (pending_vlans rows host))) = []
      \<longleftrightarrow> (\<forall>v \<in> set (pending_vlans rows host). v \<notin> set vs)"
    by (simp flip: set_empty add: filter_empty_conv) (auto simp: filter_empty_conv)
  then show ?thesis using t False vs
    by (auto simp: reject_pending_vlan_references_def pending_vlans_def Let_def)
qed

definition vlan_sample :: "int \<Rightarrow> int \<Rightarrow> sync_status \<Rightarrow> vlan_row" where
  "vlan_sample i v s = \<lparr>vn_id = i, vn_host = ''S1'', vn_vlan = v, vn_name = [], vn_state = ''active'', vn_success = s,
     vn_present = True\<rparr>"

lemma pending_vlan_references_exact_witness:
  "reject_pending_vlan_references [vlan_sample 1 10 Synchronized, vlan_sample 2 25 PendingDelete] ''S1'' ''10,20 - 30'' ''Allowed'' \<noteq> Inr ()
   \<and> mentions ''10,20 - 30'' 25"
proof -
  have v: "validate_vlan_expression (PStr '' 10,20 - 30'') ''Allowed'' ''all'' = Inr ''10,20 - 30''" by code_simp
  have "mentions ''10,20 - 30'' 25" unfolding mentions_def by (intro conjI) code_simp+
  moreover have "lower (strip ''all'') = ''all''" by code_simp
  ultimately show ?thesis
    using pending_vlan_references_exact[OF v, of "[vlan_sample 1 10 Synchronized, vlan_sample 2 25 PendingDelete]" "''S1''" "''Allowed''"]
    by (auto simp: vlan_sample_def)
qed

section \<open>Rejections stay\<close>

lemma rejected_after_append: "rejected_after before xs \<Longrightarrow> rejected_after before (xs @ ys)"
  by (induction xs arbitrary: before) auto

end
