(* ===== verification/Switch_Tables.thy ===== *)
theory Switch_Tables
  imports Vtp_Group Switch_Rules
begin

text \<open>
  The tables of a switch's desired state (\<open>06_l2_switching.sql\<close>, as the switching repositories declare and use them)
  and the transaction every repository method runs in.

  A table is a list of rows with the columns the modelled statements use; \<open>updated_at\<close> and \<open>learned_at\<close> are left
  out. An \<open>AUTOINCREMENT\<close> key is a counter beside its table. The VTP tables and the devices are those of \<open>Vtp_Group\<close>,
  the VLAN rows those of \<open>Switch_Rules\<close>. The columns are \<open>NOT NULL\<close> unless they are options.
\<close>

section \<open>Rows\<close>

record l2_iface =
  li_id :: int
  li_host :: string
  li_name :: string
  li_description :: string
  li_mode :: string
  li_admin :: string
  li_oper :: string
  li_speed :: string
  li_duplex :: string
  li_success :: sync_status

record access_row =
  ac_iface :: int
  ac_vlan :: int
  ac_voice :: "int option"

record trunk_row =
  tu_iface :: int
  tu_allowed :: string
  tu_native :: int
  tu_encap :: string
  tu_pruning :: string

record port_stp_row =
  pq_iface :: int
  pq_portfast :: string
  pq_bpduguard :: string
  pq_bpdufilter :: string
  pq_root_guard :: string
  pq_loop_guard :: string

record port_policy =
  ps_max :: int
  ps_violation :: string
  ps_sticky :: bool
  ps_aging_type :: string
  ps_aging_time :: int

record secure_row = port_policy +
  ps_iface :: int
  ps_enabled :: bool
  ps_sync :: sync_status
  ps_success :: sync_status

record mac_row =
  mr_id :: int
  mr_iface :: int
  mr_addr :: string
  mr_vlan :: int
  mr_type :: string
  mr_success :: sync_status

record channel_row =
  cr_id :: int
  cr_host :: string
  cr_number :: int
  cr_protocol :: string
  cr_mode :: string
  cr_members :: string
  cr_cleanup :: string
  cr_description :: string
  cr_status :: string
  cr_success :: sync_status
  cr_present :: bool

record stp_policy =
  sg_id :: int
  sg_host :: string
  sg_vlan :: int
  sg_mode :: string
  sg_priority :: int
  sg_role :: string
  sg_success :: sync_status

record vlan_security =
  vs_id :: int
  vs_host :: string
  vs_vlan :: int
  vs_snooping :: bool
  vs_dai :: bool
  vs_success :: sync_status

record trust_row =
  tw_id :: int
  tw_host :: string
  tw_name :: string
  tw_success :: sync_status

record svi_row =
  sr_id :: int
  sr_host :: string
  sr_vlan :: int
  sr_ip :: "string option"
  sr_mask :: "string option"
  sr_shutdown :: bool
  sr_sync :: sync_status
  sr_present :: bool

section \<open>The database\<close>

record switch_db =
  ss_vtp :: vtp_db
  ss_vlans :: "vlan_row list"
  ss_next_vlan :: int
  ss_svis :: "svi_row list"
  ss_next_svi :: int
  ss_routing :: "(string \<times> bool \<times> sync_status) list"
  ss_ifaces :: "l2_iface list"
  ss_next_iface :: int
  ss_access :: "access_row list"
  ss_trunks :: "trunk_row list"
  ss_port_stp :: "port_stp_row list"
  ss_secure :: "secure_row list"
  ss_macs :: "mac_row list"
  ss_next_mac :: int
  ss_channels :: "channel_row list"
  ss_next_channel :: int
  ss_stp :: "stp_policy list"
  ss_next_stp :: int
  ss_security :: "vlan_security list"
  ss_next_security :: int
  ss_trust :: "trust_row list"
  ss_next_trust :: int

text \<open>A failed call leaves the database as it was.\<close>

definition transact :: "switch_db \<Rightarrow> string + switch_db \<times> 'r \<Rightarrow> switch_db \<times> (string + 'r)" where
  "transact db m = (case m of Inl e \<Rightarrow> (db, Inl e) | Inr (db', r) \<Rightarrow> (db', Inr r))"

definition require_host :: "pyval \<Rightarrow> string + string" where
  "require_host host = (if form_text host = [] then Inl ''Host is required'' else Inr (form_text host))"

text \<open>\<open>int(payload.get("id") or 0)\<close>\<close>

definition row_id_of :: "pyval \<Rightarrow> string + int" where
  "row_id_of v = (case py_int (py_or v (PInt 0)) of None \<Rightarrow> Inl ''invalid literal for int()'' | Some i \<Rightarrow> Inr i)"

definition known_host :: "switch_db \<Rightarrow> string \<Rightarrow> bool" where
  "known_host db host = list_ex (\<lambda>d. dv_host d = host) (vb_devices (ss_vtp db))"

definition find_device :: "switch_db \<Rightarrow> string \<Rightarrow> device_row option" where
  "find_device db host = find (\<lambda>d. dv_host d = host) (vb_devices (ss_vtp db))"

text \<open>The interface \<open>i\<close>, if it belongs to the host and satisfies the condition of the query.\<close>

definition iface_of :: "switch_db \<Rightarrow> string \<Rightarrow> int \<Rightarrow> (l2_iface \<Rightarrow> bool) \<Rightarrow> bool" where
  "iface_of db host i P = list_ex (\<lambda>r. li_id r = i \<and> li_host r = host \<and> P r) (ss_ifaces db)"

lemma iface_of_iff: "iface_of db h i P \<longleftrightarrow> (\<exists>r \<in> set (ss_ifaces db). li_id r = i \<and> li_host r = h \<and> P r)"
  by (auto simp: iface_of_def list_ex_iff)

section \<open>Constraints\<close>

text \<open>An \<open>AUTOINCREMENT\<close> key column below its counter.\<close>

definition serial :: "int \<Rightarrow> int list \<Rightarrow> bool" where
  "serial n is \<longleftrightarrow> 0 < n \<and> distinct is \<and> (\<forall>i \<in> set is. 0 < i \<and> i < n)"

text \<open>Primary keys, \<open>UNIQUE\<close> constraints and the references to interfaces, for the tables beside VLANs and SVIs.\<close>

definition tables_ok :: "switch_db \<Rightarrow> bool" where
  "tables_ok db \<longleftrightarrow>
     serial (ss_next_iface db) (map li_id (ss_ifaces db)) \<and> distinct (map (\<lambda>i. (li_host i, li_name i)) (ss_ifaces db))
   \<and> distinct (map ac_iface (ss_access db)) \<and> ac_iface ` set (ss_access db) \<subseteq> li_id ` set (ss_ifaces db)
   \<and> distinct (map tu_iface (ss_trunks db)) \<and> tu_iface ` set (ss_trunks db) \<subseteq> li_id ` set (ss_ifaces db)
   \<and> distinct (map pq_iface (ss_port_stp db)) \<and> pq_iface ` set (ss_port_stp db) \<subseteq> li_id ` set (ss_ifaces db)
   \<and> distinct (map ps_iface (ss_secure db)) \<and> ps_iface ` set (ss_secure db) \<subseteq> li_id ` set (ss_ifaces db)
   \<and> serial (ss_next_mac db) (map mr_id (ss_macs db)) \<and> mr_iface ` set (ss_macs db) \<subseteq> li_id ` set (ss_ifaces db)
   \<and> serial (ss_next_channel db) (map cr_id (ss_channels db)) \<and> distinct (map (\<lambda>c. (cr_host c, cr_number c)) (ss_channels db))
   \<and> serial (ss_next_stp db) (map sg_id (ss_stp db)) \<and> distinct (map (\<lambda>s. (sg_host s, sg_vlan s)) (ss_stp db))
   \<and> serial (ss_next_security db) (map vs_id (ss_security db)) \<and> distinct (map (\<lambda>s. (vs_host s, vs_vlan s)) (ss_security db))
   \<and> serial (ss_next_trust db) (map tw_id (ss_trust db)) \<and> distinct (map (\<lambda>t. (tw_host t, tw_name t)) (ss_trust db))
   \<and> distinct (map fst (ss_routing db)) \<and> vtp_ok (ss_vtp db)"

text \<open>A VLAN row that is not staged for removal, and everything that refers to a VLAN of a switch.\<close>

definition live_vlan :: "switch_db \<Rightarrow> string \<Rightarrow> int \<Rightarrow> bool" where
  "live_vlan db h v = list_ex (\<lambda>r. vn_host r = h \<and> vn_vlan r = v \<and> vn_success r \<noteq> PendingDelete) (ss_vlans db)"

definition uses_vlan :: "switch_db \<Rightarrow> string \<Rightarrow> int \<Rightarrow> bool" where
  "uses_vlan db h v =
     (list_ex (\<lambda>a. iface_of db h (ac_iface a) (\<lambda>_. True) \<and> (ac_vlan a = v \<or> ac_voice a = Some v)) (ss_access db)
    \<or> list_ex (\<lambda>t. iface_of db h (tu_iface t) (\<lambda>_. True) \<and> tu_native t = v) (ss_trunks db)
    \<or> list_ex (\<lambda>m. iface_of db h (mr_iface m) (\<lambda>_. True) \<and> mr_type m = ''static'' \<and> mr_vlan m = v) (ss_macs db)
    \<or> list_ex (\<lambda>s. sr_host s = h \<and> sr_vlan s = v) (ss_svis db)
    \<or> list_ex (\<lambda>s. sg_host s = h \<and> sg_vlan s = v) (ss_stp db)
    \<or> list_ex (\<lambda>s. vs_host s = h \<and> vs_vlan s = v) (ss_security db))"

text \<open>No switch uses a VLAN that is missing or staged for removal.\<close>

definition vlans_live :: "switch_db \<Rightarrow> bool" where
  "vlans_live db \<longleftrightarrow> (\<forall>h v. uses_vlan db h v \<longrightarrow> live_vlan db h v)"

end
