(* ===== verification/Fhrp_Model.thy ===== *)
theory Fhrp_Model
  imports Py_Values Ipv4 Iface_Tables Switch_Tables
begin

text \<open>
  Validation of a gateway redundancy group of several devices (HSRP, VRRP, GLBP):
  \<open>features/fhrp/service.py\<close> (\<open>FhrpService._normalize\<close> and its helpers) and the interfaces a virtual gateway
  can live on (\<open>repository.py\<close>: \<open>matching_interfaces\<close>, \<open>connected_hosts\<close>).

  A payload is the record \<open>group_form\<close>: its members as \<open>_as_list\<close> and \<open>_as_dict\<close> deliver them, the list of a
  member's tracked objects beside its other fields. The options of a protocol are a datatype with one
  constructor per protocol. \<open>ValueError\<close> is the left side of a sum, with its text.
\<close>

section \<open>Interfaces that reach a gateway\<close>

record endpoint =
  ep_id :: int
  ep_kind :: string
  ep_host :: string
  ep_name :: string
  ep_ip :: string
  ep_mask :: string
  ep_network :: string

definition opt_text :: "string option \<Rightarrow> string" where
  "opt_text v = (case v of None \<Rightarrow> [] | Some t \<Rightarrow> t)"

definition router_endpoint :: "iface_row \<Rightarrow> endpoint" where
  "router_endpoint r = \<lparr>ep_id = if_id r, ep_kind = ''router'', ep_host = if_host r, ep_name = if_name r,
     ep_ip = opt_text (if_ip r), ep_mask = opt_text (if_mask r), ep_network = []\<rparr>"

definition svi_name :: "svi_row \<Rightarrow> string" where
  "svi_name s = ''Vlan'' @ show_int (sr_vlan s)"

definition svi_endpoint :: "svi_row \<Rightarrow> endpoint" where
  "svi_endpoint s = \<lparr>ep_id = sr_id s, ep_kind = ''svi'', ep_host = sr_host s, ep_name = svi_name s,
     ep_ip = opt_text (sr_ip s), ep_mask = opt_text (sr_mask s), ep_network = []\<rparr>"

definition live_router :: "string list \<Rightarrow> iface_row \<Rightarrow> bool" where
  "live_router hosts r = (if_host r \<in> set hosts \<and> if_sync r = Synchronized
     \<and> (if_shutdown r = None \<or> if_shutdown r = Some 0) \<and> opt_text (if_ip r) \<noteq> [] \<and> opt_text (if_mask r) \<noteq> [])"

definition live_svi :: "string list \<Rightarrow> svi_row \<Rightarrow> bool" where
  "live_svi hosts s = (sr_host s \<in> set hosts \<and> sr_sync s = Synchronized \<and> \<not> sr_shutdown s
     \<and> opt_text (sr_ip s) \<noteq> [] \<and> opt_text (sr_mask s) \<noteq> [])"

text \<open>\<open>network_for_row\<close> is the first address and the prefix length of the interface's subnet. An IPv6 network
  comes with an address that is not an \<open>IPv4Address\<close>, so the row is skipped either way.\<close>

definition network_for_row :: "endpoint \<Rightarrow> (nat \<times> nat) option" where
  "network_for_row e =
     (case parse_interface (strip (ep_ip e) @ CHR ''/'' # strip (ep_mask e)) of
        None \<Rightarrow> None
      | Some (a, p) \<Rightarrow> Some (a - a mod 2 ^ (32 - p), p))"

definition in_network :: "nat \<Rightarrow> nat \<times> nat \<Rightarrow> bool" where
  "in_network a net = (fst net \<le> a \<and> a < fst net + 2 ^ (32 - snd net))"

definition broadcast :: "nat \<times> nat \<Rightarrow> nat" where
  "broadcast net = fst net + 2 ^ (32 - snd net) - 1"

definition show_network :: "nat \<times> nat \<Rightarrow> string" where
  "show_network net = show_ipv4 (fst net) @ CHR ''/'' # show_nat (snd net)"

definition matching_endpoint :: "nat \<Rightarrow> endpoint \<Rightarrow> endpoint option" where
  "matching_endpoint gateway e =
     (case parse_ipv4 (strip (ep_ip e)) of
        None \<Rightarrow> None
      | Some ip \<Rightarrow>
          (case network_for_row e of
             None \<Rightarrow> None
           | Some net \<Rightarrow>
               if \<not> in_network gateway net \<or> gateway = ip \<or> gateway = fst net \<or> gateway = broadcast net then None
               else Some (e\<lparr>ep_network := show_network net\<rparr>)))"

definition matching_interfaces :: "iface_row list \<Rightarrow> svi_row list \<Rightarrow> string list \<Rightarrow> nat \<Rightarrow> endpoint list" where
  "matching_interfaces ifaces svis hosts gateway =
     (if hosts = [] then []
      else List.map_filter (matching_endpoint gateway)
        (sort_key (\<lambda>e. lower (ep_host e)) (sort_key (\<lambda>e. lower (ep_name e))
          (map router_endpoint (filter (live_router hosts) ifaces)
           @ map svi_endpoint (filter (live_svi hosts) svis)))))"

definition fhrp_device :: "device_row \<Rightarrow> bool" where
  "fhrp_device d =
     (dv_connection d = ''connected''
      \<and> (lower (opt_text (dv_role d)) \<in> {''rou'', ''router'', ''sw3''}
         \<or> lower (opt_text (dv_type d)) \<in> {''router'', ''sw3''}))"

definition connected_hosts :: "device_row list \<Rightarrow> (string \<times> string) list" where
  "connected_hosts devices =
     map (\<lambda>d. (dv_host d, opt_text (dv_name d))) (sort_key (\<lambda>d. lower (dv_host d)) (filter fhrp_device devices))"

record interfaces_reply =
  ir_ok :: bool
  ir_message :: string
  ir_interfaces :: "endpoint list"

text \<open>\<open>dict.fromkeys\<close> keeps the first of equal hosts; duplicates do not change what the query selects.\<close>

definition service_matching_interfaces :: "iface_row list \<Rightarrow> svi_row list \<Rightarrow> pyval list \<Rightarrow> string \<Rightarrow> interfaces_reply" where
  "service_matching_interfaces ifaces svis hosts gateway_text =
     (let clean = filter (\<lambda>h. h \<noteq> []) (rev (remdups (rev (map (\<lambda>h. strip (text_or h [])) hosts)))) in
      case parse_ipv4 (strip gateway_text) of
        None \<Rightarrow> \<lparr>ir_ok = False, ir_message = ''Default Gateway must be a valid IPv4 address.'', ir_interfaces = []\<rparr>
      | Some gateway \<Rightarrow>
          let found = matching_interfaces ifaces svis clean gateway
          in \<lparr>ir_ok = True, ir_message = ''Found '' @ show_nat (length found) @ '' matching interface(s).'',
              ir_interfaces = found\<rparr>)"

section \<open>Fields\<close>

definition LIMITS :: "(string \<times> int \<times> int) list" where
  "LIMITS = [(''hsrp'', 0, 4095), (''vrrp'', 1, 255), (''glbp'', 0, 1023)]"

definition given_value :: "pyval \<Rightarrow> bool" where
  "given_value v = (v \<noteq> PNone \<and> v \<noteq> PStr [])"

definition integer_field :: "payload \<Rightarrow> string \<Rightarrow> int \<Rightarrow> int \<Rightarrow> int \<Rightarrow> string \<Rightarrow> string + int" where
  "integer_field raw field d low high host =
     (let value = int_or_none (get raw field) in
      if value = None \<and> given_value (get raw field) then Inl (field @ '' on '' @ host @ '' must be an integer.'')
      else let v = (case value of None \<Rightarrow> d | Some i \<Rightarrow> i) in
        if low \<le> v \<and> v \<le> high then Inr v
        else Inl (field @ '' on '' @ host @ '' must be between '' @ show_int low @ '' and '' @ show_int high @ ''.''))"

definition optional_integer :: "payload \<Rightarrow> string \<Rightarrow> int \<Rightarrow> int \<Rightarrow> string \<Rightarrow> string + int option" where
  "optional_integer raw field low high host =
     (if \<not> given_value (get raw field) then Inr None
      else sbind (integer_field raw field low low high host) (\<lambda>v. Inr (Some v)))"

definition boolean :: "pyval \<Rightarrow> bool \<Rightarrow> bool" where
  "boolean v d = (if v = PNone then d else bool_int v \<noteq> 0)"

section \<open>Options of a protocol\<close>

record hsrp_policy =
  hp_version :: int
  hp_hello :: int
  hp_hold :: int
  hp_delay_min :: int
  hp_delay_reload :: int

record vrrp_policy =
  vp_version :: int
  vp_advertisement :: int
  vp_accept :: bool

record glbp_policy =
  gb_hello :: int
  gb_hold :: int
  gb_balancing :: string
  gb_max :: int
  gb_lower :: "int option"
  gb_upper :: "int option"
  gb_preempt :: bool
  gb_preempt_delay :: int

datatype fhrp_policy = Hsrp hsrp_policy | Vrrp vrrp_policy | Glbp glbp_policy

definition auth_options :: "string \<Rightarrow> payload \<Rightarrow> string \<Rightarrow> string + string \<times> string" where
  "auth_options protocol raw host =
     (let auth = lower (strip (text_or (get raw ''auth_type'') ''none''));
          secret = strip (text_or (get raw ''auth_secret'') []);
          allowed = (if protocol = ''vrrp'' then {''none'', ''plain''}
                     else {''none'', ''plain'', ''md5-key'', ''md5-keychain''});
          limit = (if auth = ''plain'' then 8 else if protocol = ''glbp'' then 100 else 64)
      in if auth \<notin> allowed then Inl (''Unsupported '' @ upper protocol @ '' authentication on '' @ host @ ''.'')
         else if auth \<noteq> ''none'' \<and> secret = [] then Inl (''Authentication secret is required on '' @ host @ ''.'')
         else if auth = ''none'' then Inr (auth, [])
         else if list_ex is_space secret
           then Inl (''Authentication value on '' @ host @ '' cannot contain whitespace.'')
         else if length secret > limit
           then Inl (''Authentication value on '' @ host @ '' exceeds '' @ show_nat limit @ '' characters.'')
         else Inr (auth, secret))"

definition hsrp_options :: "string \<Rightarrow> payload \<Rightarrow> string \<Rightarrow> string + hsrp_policy" where
  "hsrp_options auth raw host =
     sbind (integer_field raw ''version'' 2 1 2 host) (\<lambda>version.
     sbind (require (\<not> (version = 1 \<and> starts_with auth ''md5''))
       (''HSRP MD5 authentication on '' @ host @ '' requires version 2.'')) (\<lambda>_.
     sbind (integer_field raw ''hello_ms'' 3000 1 255000 host) (\<lambda>hello.
     sbind (integer_field raw ''hold_ms'' 10000 2 255000 host) (\<lambda>hold.
     sbind (require (hold > hello) (''HSRP hold timer on '' @ host @ '' must exceed hello timer.'')) (\<lambda>_.
     sbind (integer_field raw ''preempt_delay_min_sec'' 0 0 3600 host) (\<lambda>dm.
     sbind (integer_field raw ''preempt_delay_reload_sec'' 0 0 3600 host) (\<lambda>dr.
     Inr \<lparr>hp_version = version, hp_hello = hello, hp_hold = hold, hp_delay_min = dm, hp_delay_reload = dr\<rparr>)))))))"

definition vrrp_options :: "payload \<Rightarrow> string \<Rightarrow> string + vrrp_policy" where
  "vrrp_options raw host =
     sbind (integer_field raw ''version'' 2 2 3 host) (\<lambda>version.
     sbind (require (version = 2)
       (''This Cisco IOS workflow supports VRRPv2 only; VRRPv3 requires a device-wide mode change.'')) (\<lambda>_.
     sbind (require (\<not> boolean (get raw ''accept_mode'') False)
       (''VRRP accept mode requires VRRPv3 and is not supported.'')) (\<lambda>_.
     sbind (integer_field raw ''advertisement_ms'' 1000 1 60000 host) (\<lambda>a.
     Inr \<lparr>vp_version = 2, vp_advertisement = a, vp_accept = False\<rparr>))))"

definition over :: "int option \<Rightarrow> int \<Rightarrow> bool" where
  "over v maximum = (case v of None \<Rightarrow> False | Some i \<Rightarrow> i > maximum)"

definition glbp_options :: "payload \<Rightarrow> string \<Rightarrow> string + glbp_policy" where
  "glbp_options raw host =
     sbind (integer_field raw ''hello_ms'' 3000 1 255000 host) (\<lambda>hello.
     sbind (integer_field raw ''hold_ms'' 10000 2 255000 host) (\<lambda>hold.
     sbind (require (hold > hello) (''GLBP hold timer on '' @ host @ '' must exceed hello timer.'')) (\<lambda>_.
     let balancing = lower (strip (text_or (get raw ''load_balancing'') ''round-robin'')) in
     sbind (require (balancing \<in> {''round-robin'', ''weighted'', ''host-dependent''})
       (''Unsupported GLBP load-balancing mode on '' @ host @ ''.'')) (\<lambda>_.
     sbind (integer_field raw ''weighting_max'' 100 1 254 host) (\<lambda>maximum.
     sbind (optional_integer raw ''weighting_lower'' 1 254 host) (\<lambda>lower.
     sbind (optional_integer raw ''weighting_upper'' 1 254 host) (\<lambda>upper.
     sbind (require (\<not> over lower maximum) (''GLBP lower weighting on '' @ host @ '' cannot exceed maximum.'')) (\<lambda>_.
     sbind (require (\<not> over upper maximum) (''GLBP upper weighting on '' @ host @ '' cannot exceed maximum.'')) (\<lambda>_.
     sbind (require (case upper of None \<Rightarrow> True | Some u \<Rightarrow> \<not> over lower u)
       (''GLBP lower weighting on '' @ host @ '' cannot exceed upper.'')) (\<lambda>_.
     sbind (integer_field raw ''forwarder_preempt_delay_sec'' 30 0 3600 host) (\<lambda>d.
     Inr \<lparr>gb_hello = hello, gb_hold = hold, gb_balancing = balancing, gb_max = maximum, gb_lower = lower,
          gb_upper = upper, gb_preempt = boolean (get raw ''forwarder_preempt'') True, gb_preempt_delay = d\<rparr>)))))))))))"

definition protocol_options :: "string \<Rightarrow> payload \<Rightarrow> string \<Rightarrow> string + string \<times> string \<times> fhrp_policy" where
  "protocol_options protocol raw host =
     sbind (auth_options protocol raw host) (\<lambda>(auth, secret).
     sbind (if protocol = ''hsrp'' then sbind (hsrp_options auth raw host) (\<lambda>p. Inr (Hsrp p))
            else if protocol = ''vrrp'' then sbind (vrrp_options raw host) (\<lambda>p. Inr (Vrrp p))
            else sbind (glbp_options raw host) (\<lambda>p. Inr (Glbp p))) (\<lambda>policy.
     Inr (auth, secret, policy)))"

section \<open>Tracked objects\<close>

definition track_char :: "char \<Rightarrow> bool" where
  "track_char c = (is_alpha c \<or> is_digit c \<or> c \<in> {CHR ''.'', CHR ''/'', CHR '':'', CHR ''_'', CHR ''-''})"

text \<open>\<open>[1-9][0-9]{0,3}|[A-Za-z][A-Za-z0-9./:_-]*\<close>, matched against the whole text.\<close>

definition track_object_ok :: "string \<Rightarrow> bool" where
  "track_object_ok s =
     (case s of [] \<Rightarrow> False
      | c # cs \<Rightarrow> (is_digit c \<and> c \<noteq> CHR ''0'' \<and> list_all is_digit cs \<and> length cs \<le> 3)
          \<or> (is_alpha c \<and> list_all track_char cs))"

definition track_decrement :: "payload \<Rightarrow> int" where
  "track_decrement row = (case int_or_none (get row ''decrement_value'') of None \<Rightarrow> 10 | Some i \<Rightarrow> if i = 0 then 10 else i)"

fun track_list :: "payload list \<Rightarrow> string + (string \<times> int) list" where
  "track_list [] = Inr []"
| "track_list (row # rows) =
     (let object = strip (text_or (get row ''track_object'') []) in
      if object = [] then track_list rows
      else if \<not> track_object_ok object then Inl ''Track object must be an object ID or a valid interface name.''
      else if \<not> (1 \<le> track_decrement row \<and> track_decrement row \<le> 254)
        then Inl ''Track decrement must be between 1 and 254.''
      else sbind (track_list rows) (\<lambda>ts. Inr ((object, track_decrement row) # ts)))"

definition tracks :: "payload list \<Rightarrow> string + (string \<times> int) list" where
  "tracks rows = sbind (track_list rows) (\<lambda>ts.
     if distinct (map fst ts) then Inr ts else Inl ''Track objects must be unique per FHRP member.'')"

section \<open>The group\<close>

record member_form =
  mf_fields :: payload
  mf_tracks :: "payload list"

record group_form =
  gf_protocol :: pyval
  gf_number :: pyval
  gf_gateway :: pyval
  gf_virtual :: pyval
  gf_description :: pyval
  gf_members :: "member_form list"

record fhrp_member =
  nm_host :: string
  nm_iface :: int
  nm_kind :: string
  nm_name :: string
  nm_network :: string
  nm_priority :: int
  nm_preempt :: bool
  nm_shutdown :: bool
  nm_auth :: string
  nm_secret :: string
  nm_policy :: fhrp_policy
  nm_tracks :: "(string \<times> int) list"

record fhrp_group =
  ng_protocol :: string
  ng_number :: int
  ng_vip :: string
  ng_description :: string
  ng_members :: "fhrp_member list"

definition MAX_FHRP_HOSTS :: nat where "MAX_FHRP_HOSTS = 5"

definition form_host :: "member_form \<Rightarrow> string" where
  "form_host m = strip (text_or (get (mf_fields m) ''host'') [])"

definition priority_limit :: "string \<Rightarrow> int" where
  "priority_limit protocol = (if protocol = ''vrrp'' then 254 else 255)"

definition hsrp1_group :: "fhrp_policy \<Rightarrow> int \<Rightarrow> bool" where
  "hsrp1_group policy number = (case policy of Hsrp p \<Rightarrow> hp_version p = 1 \<and> number > 255 | _ \<Rightarrow> False)"

text \<open>The endpoint a member names, and the member's validated fields.\<close>

definition find_endpoint :: "endpoint list \<Rightarrow> payload \<Rightarrow> string \<Rightarrow> endpoint option" where
  "find_endpoint candidates raw host =
     (case int_or_none (get raw ''iface_id'') of
        None \<Rightarrow> None
      | Some i \<Rightarrow>
          let kind = lower (strip (text_or (get raw ''interface_kind'') []))
          in case filter (\<lambda>e. ep_host e = host \<and> ep_id e = i \<and> (kind = [] \<or> ep_kind e = kind)) candidates of
               [e] \<Rightarrow> Some e
             | _ \<Rightarrow> None)"

definition member_fields :: "string \<Rightarrow> int \<Rightarrow> member_form \<Rightarrow> string \<Rightarrow> endpoint \<Rightarrow> string + fhrp_member" where
  "member_fields protocol number m host e =
     (let raw = mf_fields m;
          priority = (case int_or_none (get raw ''priority'') of None \<Rightarrow> 100 | Some i \<Rightarrow> i) in
      sbind (require (1 \<le> priority \<and> priority \<le> priority_limit protocol)
        (''Priority on '' @ host @ '' must be between 1 and '' @ show_int (priority_limit protocol) @ ''.''
         @ (if protocol = ''vrrp'' then '' Priority 255 is reserved for VRRP address-owner mode, which is not supported by this form.''
            else []))) (\<lambda>_.
      sbind (protocol_options protocol raw host) (\<lambda>(auth, secret, policy).
      sbind (require (\<not> hsrp1_group policy number)
        (''HSRP version 1 group on '' @ host @ '' must be between 0 and 255.'')) (\<lambda>_.
      sbind (tracks (mf_tracks m)) (\<lambda>ts.
      Inr \<lparr>nm_host = host, nm_iface = ep_id e, nm_kind = ep_kind e, nm_name = ep_name e, nm_network = ep_network e,
           nm_priority = priority, nm_preempt = boolean (get raw ''preempt'') False,
           nm_shutdown = boolean (get raw ''shutdown'') False, nm_auth = auth, nm_secret = secret,
           nm_policy = policy, nm_tracks = ts\<rparr>)))))"

fun normalize_fhrp_members :: "endpoint list \<Rightarrow> string \<Rightarrow> int \<Rightarrow> nat \<Rightarrow> string list \<Rightarrow> (string \<times> string \<times> int) list
    \<Rightarrow> member_form list \<Rightarrow> string + fhrp_member list" where
  "normalize_fhrp_members candidates protocol number gateway hosts used [] = Inr []"
| "normalize_fhrp_members candidates protocol number gateway hosts used (m # ms) =
     (let host = form_host m in
      if host = [] \<or> host \<in> set hosts then Inl ''Every FHRP member must use a unique host.''
      else case find_endpoint candidates (mf_fields m) host of
          None \<Rightarrow> Inl (''Selected interface on '' @ host @ '' does not reach '' @ show_ipv4 gateway @ ''.'')
        | Some e \<Rightarrow>
            let key = (host, ep_kind e, ep_id e) in
            if key \<in> set used then Inl ''An interface can only be selected once.''
            else sbind (member_fields protocol number m host e) (\<lambda>n.
                 sbind (normalize_fhrp_members candidates protocol number gateway (host # hosts) (key # used) ms) (\<lambda>ns.
                 Inr (n # ns))))"

text \<open>The fields every member must share.\<close>

fun shared_policy :: "fhrp_policy \<Rightarrow> int list \<times> string" where
  "shared_policy (Hsrp p) = ([hp_version p, hp_hello p, hp_hold p], [])"
| "shared_policy (Vrrp p) = ([vp_version p, vp_advertisement p], [])"
| "shared_policy (Glbp p) = ([gb_hello p, gb_hold p], gb_balancing p)"

definition shared_fields :: "fhrp_member \<Rightarrow> (int list \<times> string) \<times> string \<times> string" where
  "shared_fields m = (shared_policy (nm_policy m), nm_auth m, nm_secret m)"

definition all_same :: "'a list \<Rightarrow> bool" where
  "all_same xs = (case xs of [] \<Rightarrow> True | x # ys \<Rightarrow> list_all ((=) x) ys)"

definition normalize_fhrp :: "iface_row list \<Rightarrow> svi_row list \<Rightarrow> group_form \<Rightarrow> string + fhrp_group" where
  "normalize_fhrp ifaces svis f =
     (let protocol = lower (strip (text_or (gf_protocol f) [])) in
      case map_of LIMITS protocol of
        None \<Rightarrow> Inl ''Protocol must be HSRP, VRRP or GLBP.''
      | Some (low, high) \<Rightarrow>
      (case int_or_none (gf_number f) of
        None \<Rightarrow> Inl (upper protocol @ '' group must be between '' @ show_int low @ '' and '' @ show_int high @ ''.'')
      | Some number \<Rightarrow>
      if \<not> (low \<le> number \<and> number \<le> high)
        then Inl (upper protocol @ '' group must be between '' @ show_int low @ '' and '' @ show_int high @ ''.'')
      else (case parse_ipv4 (strip (text_or (py_or (gf_gateway f) (gf_virtual f)) [])) of
        None \<Rightarrow> Inl ''Default Gateway must be a valid IPv4 address.''
      | Some gateway \<Rightarrow>
      if length (gf_members f) < 2 then Inl ''FHRP requires at least two selected hosts.''
      else if length (gf_members f) > MAX_FHRP_HOSTS then Inl ''FHRP supports at most 5 selected hosts.''
      else
        let candidates = matching_interfaces ifaces svis (map form_host (gf_members f)) gateway in
        sbind (normalize_fhrp_members candidates protocol number gateway [] [] (gf_members f)) (\<lambda>members.
        sbind (require (all_same (map nm_network members))
          ''All FHRP member interfaces must use the same IPv4 subnet and prefix.'') (\<lambda>_.
        sbind (require (all_same (map shared_fields members))
          (''All '' @ upper protocol @ '' members must use the same version, timers, authentication and group-wide policy.'')) (\<lambda>_.
        Inr \<lparr>ng_protocol = protocol, ng_number = number, ng_vip = show_ipv4 gateway,
             ng_description = strip (text_or (gf_description f) []), ng_members = members\<rparr>))))))"

section \<open>What an accepted group satisfies\<close>

definition policy_protocol :: "fhrp_policy \<Rightarrow> string" where
  "policy_protocol p = (case p of Hsrp _ \<Rightarrow> ''hsrp'' | Vrrp _ \<Rightarrow> ''vrrp'' | Glbp _ \<Rightarrow> ''glbp'')"

definition timers_ok :: "int \<Rightarrow> int \<Rightarrow> bool" where
  "timers_ok hello hold = (1 \<le> hello \<and> hello < hold \<and> hold \<le> 255000)"

definition weights_ok :: "int \<Rightarrow> int option \<Rightarrow> int option \<Rightarrow> bool" where
  "weights_ok maximum lo hi = (1 \<le> maximum \<and> maximum \<le> 254
     \<and> (\<forall>l. lo = Some l \<longrightarrow> 1 \<le> l \<and> l \<le> maximum) \<and> (\<forall>u. hi = Some u \<longrightarrow> 1 \<le> u \<and> u \<le> maximum)
     \<and> (\<forall>l u. lo = Some l \<longrightarrow> hi = Some u \<longrightarrow> l \<le> u))"

fun policy_ok :: "fhrp_policy \<Rightarrow> int \<Rightarrow> bool" where
  "policy_ok (Hsrp p) number = (hp_version p \<in> {1, 2} \<and> timers_ok (hp_hello p) (hp_hold p)
     \<and> 0 \<le> hp_delay_min p \<and> hp_delay_min p \<le> 3600 \<and> 0 \<le> hp_delay_reload p \<and> hp_delay_reload p \<le> 3600
     \<and> (hp_version p = 1 \<longrightarrow> number \<le> 255))"
| "policy_ok (Vrrp p) number = (vp_version p = 2 \<and> 1 \<le> vp_advertisement p \<and> vp_advertisement p \<le> 60000 \<and> \<not> vp_accept p)"
| "policy_ok (Glbp p) number = (timers_ok (gb_hello p) (gb_hold p)
     \<and> gb_balancing p \<in> {''round-robin'', ''weighted'', ''host-dependent''}
     \<and> weights_ok (gb_max p) (gb_lower p) (gb_upper p) \<and> 0 \<le> gb_preempt_delay p \<and> gb_preempt_delay p \<le> 3600)"

definition auth_ok :: "string \<Rightarrow> string \<Rightarrow> string \<Rightarrow> bool" where
  "auth_ok protocol auth secret =
     (auth \<in> {''none'', ''plain'', ''md5-key'', ''md5-keychain''}
      \<and> (protocol = ''vrrp'' \<longrightarrow> auth \<in> {''none'', ''plain''})
      \<and> (auth = ''none'') = (secret = []) \<and> (\<forall>c \<in> set secret. \<not> is_space c)
      \<and> length secret \<le> (if auth = ''plain'' then 8 else if protocol = ''glbp'' then 100 else 64))"

definition tracks_ok :: "(string \<times> int) list \<Rightarrow> bool" where
  "tracks_ok ts = (distinct (map fst ts) \<and> (\<forall>(object, d) \<in> set ts. track_object_ok object \<and> 1 \<le> d \<and> d \<le> 254))"

text \<open>The interface of a member, in the tables: the row it names is live and its subnet holds the gateway as a
  host address that is not the interface's own.\<close>

definition reaches :: "iface_row list \<Rightarrow> svi_row list \<Rightarrow> nat \<Rightarrow> fhrp_member \<Rightarrow> bool" where
  "reaches ifaces svis gateway m \<longleftrightarrow>
     (\<exists>e ip net. (e \<in> router_endpoint ` {r \<in> set ifaces. live_router [nm_host m] r}
              \<or> e \<in> svi_endpoint ` {s \<in> set svis. live_svi [nm_host m] s})
        \<and> ep_host e = nm_host m \<and> ep_id e = nm_iface m \<and> ep_kind e = nm_kind m \<and> ep_name e = nm_name m
        \<and> parse_ipv4 (strip (ep_ip e)) = Some ip \<and> network_for_row e = Some net \<and> nm_network m = show_network net
        \<and> in_network gateway net \<and> gateway \<noteq> ip \<and> gateway \<noteq> fst net \<and> gateway \<noteq> broadcast net)"

definition member_ok :: "string \<Rightarrow> int \<Rightarrow> fhrp_member \<Rightarrow> bool" where
  "member_ok protocol number m \<longleftrightarrow> nm_host m \<noteq> [] \<and> 1 \<le> nm_priority m \<and> nm_priority m \<le> priority_limit protocol
     \<and> policy_protocol (nm_policy m) = protocol \<and> policy_ok (nm_policy m) number
     \<and> auth_ok protocol (nm_auth m) (nm_secret m) \<and> tracks_ok (nm_tracks m)"

definition group_ok :: "iface_row list \<Rightarrow> svi_row list \<Rightarrow> fhrp_group \<Rightarrow> bool" where
  "group_ok ifaces svis p \<longleftrightarrow>
     (\<exists>low high gateway. map_of LIMITS (ng_protocol p) = Some (low, high)
        \<and> low \<le> ng_number p \<and> ng_number p \<le> high \<and> gateway < 2 ^ 32 \<and> ng_vip p = show_ipv4 gateway
        \<and> (\<forall>m \<in> set (ng_members p). reaches ifaces svis gateway m))
     \<and> 2 \<le> length (ng_members p) \<and> length (ng_members p) \<le> 5 \<and> distinct (map nm_host (ng_members p))
     \<and> (\<forall>m \<in> set (ng_members p). member_ok (ng_protocol p) (ng_number p) m)
     \<and> (\<forall>m \<in> set (ng_members p). \<forall>n \<in> set (ng_members p).
          nm_network m = nm_network n \<and> shared_fields m = shared_fields n)"

lemma integer_field_range: "integer_field raw f d low high host = Inr v \<Longrightarrow> low \<le> v \<and> v \<le> high"
  by (auto simp: integer_field_def Let_def split: if_splits)

lemma optional_integer_range: "optional_integer raw f low high host = Inr (Some v) \<Longrightarrow> low \<le> v \<and> v \<le> high"
  by (auto simp: optional_integer_def sbind_eq_Inr_conv dest: integer_field_range split: if_splits)

lemma auth_options_ok:
  assumes "auth_options protocol raw host = Inr (auth, secret)"
  shows "auth_ok protocol auth secret"
  using assms
  by (auto simp: auth_options_def auth_ok_def Let_def list_ex_iff split: if_splits)

lemma hsrp_options_ok: "hsrp_options auth raw host = Inr p \<Longrightarrow> \<not> hsrp1_group (Hsrp p) number \<Longrightarrow> policy_ok (Hsrp p) number"
  by (auto simp: hsrp_options_def sbind_eq_Inr_conv timers_ok_def hsrp1_group_def dest!: integer_field_range)

lemma vrrp_options_ok: "vrrp_options raw host = Inr p \<Longrightarrow> policy_ok (Vrrp p) number"
  by (auto simp: vrrp_options_def sbind_eq_Inr_conv dest!: integer_field_range)

lemma glbp_options_ok:
  assumes "glbp_options raw host = Inr p"
  shows "policy_ok (Glbp p) number"
proof -
  obtain hello hold maximum lo hi d where
    t: "integer_field raw ''hello_ms'' 3000 1 255000 host = Inr hello"
       "integer_field raw ''hold_ms'' 10000 2 255000 host = Inr hold" "hold > hello"
    and w: "integer_field raw ''weighting_max'' 100 1 254 host = Inr maximum"
       "optional_integer raw ''weighting_lower'' 1 254 host = Inr lo"
       "optional_integer raw ''weighting_upper'' 1 254 host = Inr hi"
       "\<not> over lo maximum" "\<not> over hi maximum" "case hi of None \<Rightarrow> True | Some u \<Rightarrow> \<not> over lo u"
    and d: "integer_field raw ''forwarder_preempt_delay_sec'' 30 0 3600 host = Inr d"
    and b: "gb_balancing p \<in> {''round-robin'', ''weighted'', ''host-dependent''}"
    and p: "gb_hello p = hello" "gb_hold p = hold" "gb_max p = maximum" "gb_lower p = lo" "gb_upper p = hi"
      "gb_preempt_delay p = d"
    using assms unfolding glbp_options_def sbind_eq_Inr_conv Let_def require_eq_Inr
    by (elim exE conjE) (simp only: sum.inject, auto)
  have "weights_ok maximum lo hi"
    using w integer_field_range[OF w(1)] optional_integer_range
    by (auto simp: weights_ok_def over_def split: option.splits)
  then show ?thesis
    using t(3) integer_field_range[OF t(1)] integer_field_range[OF t(2)] integer_field_range[OF d] b
    by (simp add: p timers_ok_def)
qed

lemma protocol_options_ok:
  assumes "protocol_options protocol raw host = Inr (auth, secret, policy)"
    "protocol \<in> {''hsrp'', ''vrrp'', ''glbp''}" "\<not> hsrp1_group policy number"
  shows "auth_ok protocol auth secret" "policy_ok policy number" "policy_protocol policy = protocol"
  using assms
  by (auto simp: protocol_options_def sbind_eq_Inr_conv policy_protocol_def simp del: policy_ok.simps
      dest: auth_options_ok hsrp_options_ok vrrp_options_ok glbp_options_ok split: if_splits)

lemma track_list_ok: "track_list rows = Inr ts \<Longrightarrow> \<forall>(object, d) \<in> set ts. track_object_ok object \<and> 1 \<le> d \<and> d \<le> 254"
  by (induction rows arbitrary: ts) (auto simp: Let_def sbind_eq_Inr_conv split: if_splits)

lemma tracks_checked: "tracks rows = Inr ts \<Longrightarrow> tracks_ok ts"
  by (auto simp: tracks_def tracks_ok_def sbind_eq_Inr_conv dest: track_list_ok split: if_splits)

lemma member_fields_ok:
  assumes "member_fields protocol number m host e = Inr n" "protocol \<in> {''hsrp'', ''vrrp'', ''glbp''}" "host \<noteq> []"
  shows "member_ok protocol number n" "nm_host n = host" "nm_iface n = ep_id e" "nm_kind n = ep_kind e"
    "nm_name n = ep_name e" "nm_network n = ep_network e"
proof -
  obtain pr auth secret policy ts where
    p: "1 \<le> pr" "pr \<le> priority_limit protocol"
    and o: "protocol_options protocol (mf_fields m) host = Inr (auth, secret, policy)"
    and h: "\<not> hsrp1_group policy number" and t: "tracks (mf_tracks m) = Inr ts"
    and n: "n = \<lparr>nm_host = host, nm_iface = ep_id e, nm_kind = ep_kind e, nm_name = ep_name e, nm_network = ep_network e,
           nm_priority = pr, nm_preempt = boolean (get (mf_fields m) ''preempt'') False,
           nm_shutdown = boolean (get (mf_fields m) ''shutdown'') False, nm_auth = auth, nm_secret = secret,
           nm_policy = policy, nm_tracks = ts\<rparr>"
    using assms(1) by (auto simp: member_fields_def Let_def sbind_eq_Inr_conv)
  show "member_ok protocol number n" "nm_host n = host" "nm_iface n = ep_id e" "nm_kind n = ep_kind e"
    "nm_name n = ep_name e" "nm_network n = ep_network e"
    using p protocol_options_ok[OF o assms(2) h] tracks_checked[OF t] assms(3) by (simp_all add: n member_ok_def)
qed

lemma matching_endpointD:
  assumes "matching_endpoint gateway e = Some e'"
  obtains ip net where "parse_ipv4 (strip (ep_ip e)) = Some ip" "network_for_row e = Some net"
    "e' = e\<lparr>ep_network := show_network net\<rparr>" "in_network gateway net" "gateway \<noteq> ip" "gateway \<noteq> fst net"
    "gateway \<noteq> broadcast net"
  using assms by (auto simp: matching_endpoint_def split: option.splits if_splits)

lemma set_matching_interfaces:
  assumes "e' \<in> set (matching_interfaces ifaces svis hosts gateway)"
  obtains e where "matching_endpoint gateway e = Some e'"
    "e \<in> router_endpoint ` {r \<in> set ifaces. live_router [ep_host e'] r}
     \<or> e \<in> svi_endpoint ` {s \<in> set svis. live_svi [ep_host e'] s}"
proof -
  from assms obtain e where e: "matching_endpoint gateway e = Some e'"
    and m: "e \<in> set (map router_endpoint (filter (live_router hosts) ifaces) @ map svi_endpoint (filter (live_svi hosts) svis))"
    by (auto simp: matching_interfaces_def map_filter_def split: if_splits)
  have "ep_host e' = ep_host e" using e by (elim matching_endpointD) simp
  then have "e \<in> router_endpoint ` {r \<in> set ifaces. live_router [ep_host e'] r}
     \<or> e \<in> svi_endpoint ` {s \<in> set svis. live_svi [ep_host e'] s}"
    using m by (auto simp: live_router_def live_svi_def router_endpoint_def svi_endpoint_def)
  with e show thesis by (rule that)
qed

lemma find_endpointD:
  assumes "find_endpoint candidates raw host = Some e"
  shows "e \<in> set candidates" "ep_host e = host"
proof -
  obtain i kind where "filter (\<lambda>e. ep_host e = host \<and> ep_id e = i \<and> (kind = [] \<or> ep_kind e = kind)) candidates = [e]"
    using assms by (auto simp: find_endpoint_def Let_def split: option.splits list.splits)
  then have "e \<in> set (filter (\<lambda>e. ep_host e = host \<and> ep_id e = i \<and> (kind = [] \<or> ep_kind e = kind)) candidates)" by simp
  then show "e \<in> set candidates" "ep_host e = host" by auto
qed

lemma endpoint_reaches:
  assumes "e' \<in> set (matching_interfaces ifaces svis hosts gateway)" "nm_host m = ep_host e'" "nm_iface m = ep_id e'"
    "nm_kind m = ep_kind e'" "nm_name m = ep_name e'" "nm_network m = ep_network e'"
  shows "reaches ifaces svis gateway m"
proof -
  from set_matching_interfaces[OF assms(1)] obtain e where e: "matching_endpoint gateway e = Some e'"
    and live: "e \<in> router_endpoint ` {r \<in> set ifaces. live_router [ep_host e'] r}
     \<or> e \<in> svi_endpoint ` {s \<in> set svis. live_svi [ep_host e'] s}" by blast
  from e obtain ip net where n: "parse_ipv4 (strip (ep_ip e)) = Some ip" "network_for_row e = Some net"
    "e' = e\<lparr>ep_network := show_network net\<rparr>" "in_network gateway net" "gateway \<noteq> ip" "gateway \<noteq> fst net"
    "gateway \<noteq> broadcast net" by (rule matching_endpointD)
  show ?thesis unfolding reaches_def
    using live n assms(2-) by (intro exI[of _ e] exI[of _ ip] exI[of _ net]) simp
qed

lemma normalize_fhrp_members_ok:
  assumes "normalize_fhrp_members candidates protocol number gateway hosts used ms = Inr ns"
    "protocol \<in> {''hsrp'', ''vrrp'', ''glbp''}" "candidates = matching_interfaces ifaces svis wanted gateway"
  shows "length ns = length ms \<and> distinct (map nm_host ns) \<and> nm_host ` set ns \<inter> set hosts = {}
    \<and> (\<forall>n \<in> set ns. member_ok protocol number n \<and> reaches ifaces svis gateway n)"
  using assms(1)
proof (induction ms arbitrary: hosts used ns)
  case (Cons m ms)
  from Cons.prems obtain e n ns' where
    h: "form_host m \<noteq> []" "form_host m \<notin> set hosts" and e: "find_endpoint candidates (mf_fields m) (form_host m) = Some e"
    and n: "member_fields protocol number m (form_host m) e = Inr n"
    and rest: "normalize_fhrp_members candidates protocol number gateway (form_host m # hosts)
      ((form_host m, ep_kind e, ep_id e) # used) ms = Inr ns'" and ns: "ns = n # ns'"
    by (auto simp: Let_def sbind_eq_Inr_conv split: if_splits option.splits)
  note mf = member_fields_ok[OF n assms(2) h(1)]
  have "reaches ifaces svis gateway n"
    using find_endpointD[OF e] mf assms(3) by (intro endpoint_reaches) auto
  then show ?case using Cons.IH[OF rest] mf h(2) by (auto simp: ns)
qed simp

lemma all_same_eq: "all_same xs \<Longrightarrow> x \<in> set xs \<Longrightarrow> y \<in> set xs \<Longrightarrow> x = y"
  unfolding all_same_def list_all_iff by (cases xs) (simp_all, metis)

lemma limits_protocol: "map_of LIMITS q = Some lh \<Longrightarrow> q \<in> {''hsrp'', ''vrrp'', ''glbp''}"
  by (auto simp: LIMITS_def split: if_splits)

text \<open>What every accepted group satisfies: the number is in the range of its protocol, two to five
  members on distinct hosts, every member on a live interface whose subnet holds the virtual gateway as a host
  address other than the interface's own, priorities, timers, weights, authentication and tracked objects in the
  ranges Cisco IOS accepts, and one subnet and one group-wide policy for all members.\<close>

theorem normalized_group:
  assumes "normalize_fhrp ifaces svis f = Inr p"
  shows "group_ok ifaces svis p"
proof -
  let ?protocol = "lower (strip (text_or (gf_protocol f) []))"
  obtain low high number gateway members where
    lim: "map_of LIMITS ?protocol = Some (low, high)" and bounds: "low \<le> number" "number \<le> high"
    and gw: "parse_ipv4 (strip (text_or (py_or (gf_gateway f) (gf_virtual f)) [])) = Some gateway"
    and len: "\<not> length (gf_members f) < 2" "\<not> length (gf_members f) > MAX_FHRP_HOSTS"
    and ms: "normalize_fhrp_members (matching_interfaces ifaces svis (map form_host (gf_members f)) gateway)
      ?protocol number gateway [] [] (gf_members f) = Inr members"
    and same: "all_same (map nm_network members)" "all_same (map shared_fields members)"
    and p: "ng_protocol p = ?protocol" "ng_number p = number" "ng_vip p = show_ipv4 gateway" "ng_members p = members"
    using assms
    by (auto simp: normalize_fhrp_def Let_def sbind_eq_Inr_conv split: option.splits if_splits)
  have proto: "?protocol \<in> {''hsrp'', ''vrrp'', ''glbp''}"
    using lim by (rule limits_protocol)
  note ok = normalize_fhrp_members_ok[OF ms proto refl]
  have eq: "nm_network m = nm_network n" "shared_fields m = shared_fields n" if "m \<in> set members" "n \<in> set members" for m n
    using all_same_eq[OF same(1)] all_same_eq[OF same(2)] that by auto
  have "\<forall>m \<in> set members. reaches ifaces svis gateway m" using ok by blast
  then have 1: "\<exists>low high gateway. map_of LIMITS ?protocol = Some (low, high) \<and> low \<le> number \<and> number \<le> high
      \<and> gateway < 2 ^ 32 \<and> show_ipv4 gateway' = show_ipv4 gateway \<and> (\<forall>m \<in> set members. reaches ifaces svis gateway m)"
    if "gateway' = gateway" for gateway'
    using lim bounds parse_ipv4_bound[OF gw] that by (intro exI[of _ low] exI[of _ high] exI[of _ gateway]) blast
  have 2: "2 \<le> length members" "length members \<le> 5"
    using ok len by (simp_all only: MAX_FHRP_HOSTS_def linorder_not_less)
  show ?thesis
    unfolding group_ok_def p using 1[OF refl] 2 ok eq by blast
qed

definition sample_ifaces :: "iface_row list" where
  "sample_ifaces =
     [\<lparr>if_id = 7, if_host = ''10.0.0.1'', if_name = ''GigabitEthernet0/0'', if_ip = Some ''192.168.1.2'',
       if_mask = Some ''255.255.255.0'', if_desc = None, if_shutdown = Some 0, if_sync = Synchronized, if_action = []\<rparr>]"

definition sample_svis :: "svi_row list" where
  "sample_svis = [\<lparr>sr_id = 3, sr_host = ''10.0.0.2'', sr_vlan = 10, sr_ip = Some ''192.168.1.3'',
     sr_mask = Some ''255.255.255.0'', sr_shutdown = False, sr_sync = Synchronized, sr_present = True\<rparr>]"

definition sample_form :: group_form where
  "sample_form = \<lparr>gf_protocol = PStr ''HSRP'', gf_number = PInt 10, gf_gateway = PStr ''192.168.1.1'', gf_virtual = PNone,
     gf_description = PNone, gf_members =
     [\<lparr>mf_fields = [''host'' \<mapsto> PStr ''10.0.0.1'', ''iface_id'' \<mapsto> PInt 7, ''priority'' \<mapsto> PInt 110, ''preempt'' \<mapsto> PBool True,
         ''auth_type'' \<mapsto> PStr ''plain'', ''auth_secret'' \<mapsto> PStr ''hidden''],
       mf_tracks = [[''track_object'' \<mapsto> PStr ''5'', ''decrement_value'' \<mapsto> PInt 0]]\<rparr>,
      \<lparr>mf_fields = [''host'' \<mapsto> PStr ''10.0.0.2'', ''iface_id'' \<mapsto> PInt 3,
         ''auth_type'' \<mapsto> PStr ''plain'', ''auth_secret'' \<mapsto> PStr ''hidden''], mf_tracks = []\<rparr>]\<rparr>"

definition sample_policy :: fhrp_policy where
  "sample_policy = Hsrp \<lparr>hp_version = 2, hp_hello = 3000, hp_hold = 10000, hp_delay_min = 0, hp_delay_reload = 0\<rparr>"

definition sample_group :: fhrp_group where
  "sample_group = \<lparr>ng_protocol = ''hsrp'', ng_number = 10, ng_vip = ''192.168.1.1'', ng_description = [], ng_members =
     [\<lparr>nm_host = ''10.0.0.1'', nm_iface = 7, nm_kind = ''router'', nm_name = ''GigabitEthernet0/0'',
       nm_network = ''192.168.1.0/24'', nm_priority = 110, nm_preempt = True, nm_shutdown = False,
       nm_auth = ''plain'', nm_secret = ''hidden'', nm_policy = sample_policy, nm_tracks = [(''5'', 10)]\<rparr>,
      \<lparr>nm_host = ''10.0.0.2'', nm_iface = 3, nm_kind = ''svi'', nm_name = ''Vlan10'',
       nm_network = ''192.168.1.0/24'', nm_priority = 100, nm_preempt = False, nm_shutdown = False,
       nm_auth = ''plain'', nm_secret = ''hidden'', nm_policy = sample_policy, nm_tracks = []\<rparr>]\<rparr>"

lemma sample_normalized: "normalize_fhrp sample_ifaces sample_svis sample_form = Inr sample_group"
  by code_simp

text \<open>A requested decrement of 0 is stored as the default 10, not refused and not honoured.\<close>

lemma zero_decrement_becomes_ten: "get row ''decrement_value'' = PInt 0 \<Longrightarrow> track_decrement row = 10"
  by (simp add: track_decrement_def)

end
