(* ===== verification/Fhrp_Store.thy ===== *)
theory Fhrp_Store
  imports Fhrp_Model
begin

text \<open>
  The desired state of gateway redundancy groups: the tables of \<open>08_fhrp.sql\<close> and the transactions of
  \<open>features/fhrp/repository.py\<close> and \<open>service.py\<close> on them, with the acknowledgement of a pushed member
  (\<open>push_state.py\<close>).

  The interface and SVI rows are those of \<open>Iface_Tables\<close> and \<open>Switch_Tables\<close>. Every group is an IPv4 group, so the
  column \<open>address_family\<close> is left out, as are the time stamps. An \<open>INSERT\<close> checks the constraints and triggers of the
  schema. The lemmas show what an operation does to the abstract state \<open>fhrp_abs\<close>, and that a validated group is never
  refused by the constraints.
\<close>

section \<open>Tables\<close>

record fhrp_group_row =
  fg_id :: int
  fg_protocol :: string
  fg_number :: int
  fg_vip :: string
  fg_description :: "string option"

record fhrp_member_row =
  fm_id :: int
  fm_group :: int
  fm_host :: string
  fm_iface :: int
  fm_kind :: string
  fm_priority :: int
  fm_preempt :: bool
  fm_shutdown :: bool
  fm_sync :: sync_status
  fm_restore :: "sync_status option"

record fhrp_track_row =
  ft_id :: int
  ft_member :: int
  ft_object :: string
  ft_decrement :: int
  ft_sync :: sync_status
  ft_restore :: "sync_status option"

text \<open>A row of one of the three option tables: the policy, \<open>auth_type\<close> and \<open>auth_secret\<close>.\<close>

record 'p option_row =
  op_policy :: 'p
  op_auth :: string
  op_secret :: "string option"

record fhrp_db =
  fh_devices :: "device_row list"
  fh_ifaces :: "iface_row list"
  fh_svis :: "svi_row list"
  fh_groups :: "fhrp_group_row list"
  fh_next_group :: int
  fh_members :: "fhrp_member_row list"
  fh_next_member :: int
  fh_hsrp :: "int \<rightharpoonup> hsrp_policy option_row"
  fh_vrrp :: "int \<rightharpoonup> vrrp_policy option_row"
  fh_glbp :: "int \<rightharpoonup> glbp_policy option_row"
  fh_tracks :: "fhrp_track_row list"
  fh_next_track :: int

section \<open>Constraints\<close>

definition group_check :: "fhrp_group_row \<Rightarrow> bool" where
  "group_check g = (case map_of LIMITS (fg_protocol g) of None \<Rightarrow> False
     | Some (low, high) \<Rightarrow> low \<le> fg_number g \<and> fg_number g \<le> high)"

definition group_key :: "fhrp_group_row \<Rightarrow> string \<times> int \<times> string" where
  "group_key g = (fg_protocol g, fg_number g, fg_vip g)"

definition auth_check :: "string list \<Rightarrow> 'p option_row \<Rightarrow> bool" where
  "auth_check types r = (op_auth r \<in> set types \<and> (op_auth r = ''none'') = (op_secret r = None))"

definition all_auth_types :: "string list" where
  "all_auth_types = [''none'', ''plain'', ''md5-key'', ''md5-keychain'']"

definition hsrp_check :: "hsrp_policy option_row \<Rightarrow> bool" where
  "hsrp_check r = (let p = op_policy r in hp_version p \<in> {1, 2} \<and> hp_hello p > 0 \<and> hp_hold p > hp_hello p
     \<and> hp_delay_min p \<ge> 0 \<and> hp_delay_reload p \<ge> 0 \<and> auth_check all_auth_types r)"

definition vrrp_check :: "vrrp_policy option_row \<Rightarrow> bool" where
  "vrrp_check r = (let p = op_policy r in vp_version p = 2 \<and> vp_advertisement p > 0
     \<and> auth_check [''none'', ''plain''] r)"

definition weight_ok :: "int option \<Rightarrow> bool" where
  "weight_ok v = (case v of None \<Rightarrow> True | Some i \<Rightarrow> 1 \<le> i \<and> i \<le> 254)"

definition glbp_check :: "glbp_policy option_row \<Rightarrow> bool" where
  "glbp_check r = (let p = op_policy r in gb_hello p > 0 \<and> gb_hold p > gb_hello p
     \<and> gb_balancing p \<in> {''round-robin'', ''weighted'', ''host-dependent''}
     \<and> 1 \<le> gb_max p \<and> gb_max p \<le> 254 \<and> weight_ok (gb_lower p) \<and> weight_ok (gb_upper p)
     \<and> \<not> over (gb_lower p) (gb_max p) \<and> \<not> over (gb_upper p) (gb_max p)
     \<and> (case gb_upper p of None \<Rightarrow> True | Some u \<Rightarrow> \<not> over (gb_lower p) u)
     \<and> gb_preempt_delay p \<ge> 0 \<and> auth_check all_auth_types r)"

definition restore_check :: "sync_status option \<Rightarrow> bool" where
  "restore_check v = (v \<noteq> Some PendingDelete)"

definition member_check :: "fhrp_member_row \<Rightarrow> bool" where
  "member_check m = (1 \<le> fm_priority m \<and> fm_priority m \<le> 255 \<and> fm_kind m \<in> {''router'', ''svi''}
     \<and> restore_check (fm_restore m))"

definition track_check :: "fhrp_track_row \<Rightarrow> bool" where
  "track_check t = (1 \<le> ft_decrement t \<and> ft_decrement t \<le> 254 \<and> restore_check (ft_restore t))"

text \<open>The interface of a member exists on the member's host.\<close>

definition endpoint_exists :: "fhrp_db \<Rightarrow> string \<Rightarrow> string \<Rightarrow> int \<Rightarrow> bool" where
  "endpoint_exists db host kind i =
     (if kind = ''router'' then list_ex (\<lambda>r. if_id r = i \<and> if_host r = host) (fh_ifaces db)
      else kind = ''svi'' \<longrightarrow> list_ex (\<lambda>s. sr_id s = i \<and> sr_host s = host) (fh_svis db))"

definition find_group :: "fhrp_db \<Rightarrow> int \<Rightarrow> fhrp_group_row option" where
  "find_group db i = find (\<lambda>g. fg_id g = i) (fh_groups db)"

definition find_member :: "fhrp_db \<Rightarrow> int \<Rightarrow> fhrp_member_row option" where
  "find_member db i = find (\<lambda>m. fm_id m = i) (fh_members db)"

definition group_members :: "fhrp_db \<Rightarrow> int \<Rightarrow> fhrp_member_row list" where
  "group_members db i = filter (\<lambda>m. fm_group m = i) (fh_members db)"

text \<open>\<open>trg_t08_member_endpoint_group_unique\<close>: another group of the same protocol and number on the interface.\<close>

definition endpoint_taken :: "fhrp_db \<Rightarrow> string \<Rightarrow> int \<Rightarrow> string \<Rightarrow> string \<Rightarrow> int \<Rightarrow> fhrp_group_row option" where
  "endpoint_taken db protocol number host kind i =
     find (\<lambda>g. fg_protocol g = protocol \<and> fg_number g = number
         \<and> list_ex (\<lambda>m. fm_group m = fg_id g \<and> fm_host m = host \<and> fm_kind m = kind \<and> fm_iface m = i) (fh_members db))
       (fh_groups db)"

section \<open>Statements\<close>

definition insert_group :: "fhrp_group_row \<Rightarrow> fhrp_db \<Rightarrow> string + fhrp_db \<times> int" where
  "insert_group g db =
     (if \<not> group_check g then Inl ''CHECK constraint failed: t08_fhrp_groups''
      else if list_ex (\<lambda>r. group_key r = group_key g) (fh_groups db)
        then Inl ''UNIQUE constraint failed: t08_fhrp_groups''
      else Inr (db\<lparr>fh_groups := fh_groups db @ [g\<lparr>fg_id := fh_next_group db\<rparr>],
             fh_next_group := fh_next_group db + 1\<rparr>, fh_next_group db))"

definition insert_member :: "fhrp_member_row \<Rightarrow> fhrp_db \<Rightarrow> string + fhrp_db \<times> int" where
  "insert_member m db =
     (if \<not> endpoint_exists db (fm_host m) (fm_kind m) (fm_iface m) then Inl ''FHRP interface does not belong to host''
      else if (case find_group db (fm_group m) of None \<Rightarrow> False
          | Some w \<Rightarrow> list_ex (\<lambda>g. fg_id g \<noteq> fg_id w \<and> fg_protocol g = fg_protocol w \<and> fg_number g = fg_number w
              \<and> list_ex (\<lambda>r. fm_group r = fg_id g \<and> fm_host r = fm_host m \<and> fm_kind r = fm_kind m
                   \<and> fm_iface r = fm_iface m) (fh_members db)) (fh_groups db))
        then Inl ''FHRP protocol/group already exists on interface''
      else if \<not> member_check m then Inl ''CHECK constraint failed: t08_fhrp_members''
      else if list_ex (\<lambda>r. fm_group r = fm_group m \<and> (fm_host r = fm_host m
           \<or> fm_kind r = fm_kind m \<and> fm_iface r = fm_iface m)) (fh_members db)
        then Inl ''UNIQUE constraint failed: t08_fhrp_members''
      else if find_group db (fm_group m) = None \<or> \<not> list_ex (\<lambda>d. dv_host d = fm_host m) (fh_devices db)
        then Inl ''FOREIGN KEY constraint failed''
      else Inr (db\<lparr>fh_members := fh_members db @ [m\<lparr>fm_id := fh_next_member db\<rparr>],
             fh_next_member := fh_next_member db + 1\<rparr>, fh_next_member db))"

text \<open>The triggers \<open>trg_t08_*_protocol_insert\<close>, the key and the checks of an option table.\<close>

definition member_protocol :: "fhrp_db \<Rightarrow> int \<Rightarrow> string option" where
  "member_protocol db i =
     (case find_member db i of None \<Rightarrow> None
      | Some m \<Rightarrow> map_option fg_protocol (find_group db (fm_group m)))"

definition insert_row :: "string \<Rightarrow> ('p option_row \<Rightarrow> bool) \<Rightarrow> (int \<rightharpoonup> 'p option_row) \<Rightarrow> int \<Rightarrow> 'p option_row
    \<Rightarrow> fhrp_db \<Rightarrow> string + (int \<rightharpoonup> 'p option_row)" where
  "insert_row protocol check table i r db =
     (if member_protocol db i \<noteq> Some protocol then Inl (upper protocol @ '' options require a matching group'')
      else if \<not> check r then Inl ''CHECK constraint failed: options''
      else if table i \<noteq> None then Inl ''UNIQUE constraint failed: options''
      else Inr (table(i \<mapsto> r)))"

definition option_stored :: "'p \<Rightarrow> fhrp_member \<Rightarrow> 'p option_row" where
  "option_stored p m = \<lparr>op_policy = p, op_auth = (if nm_auth m = [] then ''none'' else nm_auth m),
     op_secret = (if nm_secret m = [] then None else Some (nm_secret m))\<rparr>"

definition insert_options :: "int \<Rightarrow> fhrp_member \<Rightarrow> fhrp_db \<Rightarrow> string + fhrp_db" where
  "insert_options i m db =
     (case nm_policy m of
        Hsrp p \<Rightarrow> sbind (insert_row ''hsrp'' hsrp_check (fh_hsrp db) i (option_stored p m) db) (\<lambda>t. Inr (db\<lparr>fh_hsrp := t\<rparr>))
      | Vrrp p \<Rightarrow> sbind (insert_row ''vrrp'' vrrp_check (fh_vrrp db) i (option_stored p m) db) (\<lambda>t. Inr (db\<lparr>fh_vrrp := t\<rparr>))
      | Glbp p \<Rightarrow> sbind (insert_row ''glbp'' glbp_check (fh_glbp db) i (option_stored p m) db) (\<lambda>t. Inr (db\<lparr>fh_glbp := t\<rparr>)))"

definition insert_track :: "int \<Rightarrow> string \<times> int \<Rightarrow> fhrp_db \<Rightarrow> string + fhrp_db" where
  "insert_track i t db =
     (let r = \<lparr>ft_id = fh_next_track db, ft_member = i, ft_object = fst t, ft_decrement = snd t,
                ft_sync = PendingApply, ft_restore = None\<rparr> in
      if \<not> track_check r then Inl ''CHECK constraint failed: t08_fhrp_tracks''
      else if list_ex (\<lambda>q. ft_member q = i \<and> ft_object q = fst t) (fh_tracks db)
        then Inl ''UNIQUE constraint failed: t08_fhrp_tracks''
      else if find_member db i = None then Inl ''FOREIGN KEY constraint failed''
      else Inr (db\<lparr>fh_tracks := fh_tracks db @ [r], fh_next_track := fh_next_track db + 1\<rparr>))"

fun insert_tracks :: "int \<Rightarrow> (string \<times> int) list \<Rightarrow> fhrp_db \<Rightarrow> string + fhrp_db" where
  "insert_tracks i [] db = Inr db"
| "insert_tracks i (t # ts) db = sbind (insert_track i t db) (insert_tracks i ts)"

text \<open>Deleting members takes their options and tracks along (\<open>ON DELETE CASCADE\<close>).\<close>

definition delete_members :: "(fhrp_member_row \<Rightarrow> bool) \<Rightarrow> fhrp_db \<Rightarrow> fhrp_db" where
  "delete_members P db =
     (let gone = fm_id ` set (filter P (fh_members db)) in
      db\<lparr>fh_members := filter (\<lambda>m. \<not> P m) (fh_members db),
         fh_hsrp := (fh_hsrp db) |` (- gone), fh_vrrp := (fh_vrrp db) |` (- gone), fh_glbp := (fh_glbp db) |` (- gone),
         fh_tracks := filter (\<lambda>t. ft_member t \<notin> gone) (fh_tracks db)\<rparr>)"

definition delete_group :: "int \<Rightarrow> fhrp_db \<Rightarrow> fhrp_db" where
  "delete_group i db =
     (delete_members (\<lambda>m. fm_group m = i) db)\<lparr>fh_groups := filter (\<lambda>g. fg_id g \<noteq> i) (fh_groups db)\<rparr>"

section \<open>The repository\<close>

definition gateway_conflict :: "fhrp_db \<Rightarrow> fhrp_group \<Rightarrow> (fhrp_group_row \<times> fhrp_member_row) option" where
  "gateway_conflict db p =
     (case concat (map (\<lambda>g. map (\<lambda>m. (g, m)) (filter (\<lambda>m. fm_group m = fg_id g \<and> fm_host m \<in> nm_host ` set (ng_members p))
              (fh_members db)))
            (filter (\<lambda>g. fg_vip g = ng_vip p \<and> \<not> (fg_protocol g = ng_protocol p \<and> fg_number g = ng_number p)) (fh_groups db))) of
        [] \<Rightarrow> None | c # _ \<Rightarrow> Some c)"

definition conflict_text :: "fhrp_group \<Rightarrow> fhrp_group_row \<times> fhrp_member_row \<Rightarrow> string" where
  "conflict_text p c = ''Virtual gateway '' @ ng_vip p @ '' on '' @ fm_host (snd c) @ '' is already managed by ''
     @ upper (fg_protocol (fst c)) @ '' group '' @ show_int (fg_number (fst c))
     @ ''. Remove and push that group before changing FHRP protocol.''"

definition find_key :: "fhrp_db \<Rightarrow> string \<times> int \<times> string \<Rightarrow> fhrp_group_row option" where
  "find_key db k = find (\<lambda>g. group_key g = k) (fh_groups db)"

text \<open>A local draft of the same group is replaced.\<close>

definition replace_draft :: "fhrp_group \<Rightarrow> fhrp_db \<Rightarrow> string + fhrp_db" where
  "replace_draft p db =
     (case find_key db (ng_protocol p, ng_number p, ng_vip p) of
        None \<Rightarrow> Inr db
      | Some g \<Rightarrow>
          if list_ex (\<lambda>m. fm_sync m \<noteq> PendingApply) (group_members db (fg_id g))
            then Inl ''FHRP group already exists in device-synchronized state.''
          else Inr (delete_group (fg_id g) db))"

definition endpoint_text :: "fhrp_group \<Rightarrow> fhrp_member \<Rightarrow> fhrp_group_row \<Rightarrow> string" where
  "endpoint_text p m g = upper (ng_protocol p) @ '' group '' @ show_int (ng_number p) @ '' already exists on ''
     @ nm_host m @ '' interface '' @ nm_name m @ '' with virtual IP '' @ fg_vip g @ ''.''"

fun check_endpoints :: "fhrp_group \<Rightarrow> fhrp_db \<Rightarrow> fhrp_member list \<Rightarrow> string + unit" where
  "check_endpoints p db [] = Inr ()"
| "check_endpoints p db (m # ms) =
     (case endpoint_taken db (ng_protocol p) (ng_number p) (nm_host m) (nm_kind m) (nm_iface m) of
        Some g \<Rightarrow> Inl (endpoint_text p m g)
      | None \<Rightarrow> check_endpoints p db ms)"

definition member_row :: "int \<Rightarrow> fhrp_member \<Rightarrow> fhrp_member_row" where
  "member_row gid m = \<lparr>fm_id = 0, fm_group = gid, fm_host = nm_host m, fm_iface = nm_iface m, fm_kind = nm_kind m,
     fm_priority = nm_priority m, fm_preempt = nm_preempt m, fm_shutdown = nm_shutdown m,
     fm_sync = PendingApply, fm_restore = None\<rparr>"

definition store_member :: "int \<Rightarrow> fhrp_member \<Rightarrow> fhrp_db \<Rightarrow> string + fhrp_db" where
  "store_member gid m db =
     sbind (insert_member (member_row gid m) db) (\<lambda>(db, i).
     sbind (insert_options i m db) (\<lambda>db. insert_tracks i (nm_tracks m) db))"

fun store_members :: "int \<Rightarrow> fhrp_member list \<Rightarrow> fhrp_db \<Rightarrow> string + fhrp_db" where
  "store_members gid [] db = Inr db"
| "store_members gid (m # ms) db = sbind (store_member gid m db) (store_members gid ms)"

definition group_row :: "fhrp_group \<Rightarrow> fhrp_group_row" where
  "group_row p = \<lparr>fg_id = 0, fg_protocol = ng_protocol p, fg_number = ng_number p, fg_vip = ng_vip p,
     fg_description = (if ng_description p = [] then None else Some (ng_description p))\<rparr>"

definition save_fhrp_group :: "fhrp_group \<Rightarrow> fhrp_db \<Rightarrow> string + fhrp_db \<times> int" where
  "save_fhrp_group p db =
     (case gateway_conflict db p of
        Some c \<Rightarrow> Inl (conflict_text p c)
      | None \<Rightarrow>
          sbind (replace_draft p db) (\<lambda>db.
          sbind (check_endpoints p db (ng_members p)) (\<lambda>_.
          sbind (insert_group (group_row p) db) (\<lambda>(db, i).
          sbind (store_members i (ng_members p) db) (\<lambda>db. Inr (db, i))))))"

text \<open>The two \<open>UPDATE\<close>s of \<open>mark_group_for_delete\<close> and of \<open>cancel_group_delete\<close>.\<close>

definition stage_delete :: "sync_status \<Rightarrow> sync_status option \<Rightarrow> sync_status option" where
  "stage_delete status restore = (if status = PendingDelete then restore else Some status)"

definition restored :: "sync_status option \<Rightarrow> sync_status" where
  "restored v = (case v of None \<Rightarrow> PendingApply | Some s \<Rightarrow> s)"

definition by_member_id :: "fhrp_member_row list \<Rightarrow> fhrp_member_row list" where
  "by_member_id ms = sort_key fm_id ms"

definition mark_group_for_delete :: "int \<Rightarrow> fhrp_db \<Rightarrow> fhrp_db \<times> string list" where
  "mark_group_for_delete i db =
     (let members = by_member_id (group_members db i); ids = fm_id ` set members in
      (db\<lparr>fh_members := map (\<lambda>m. if fm_id m \<in> ids
            then m\<lparr>fm_sync := PendingDelete, fm_restore := stage_delete (fm_sync m) (fm_restore m)\<rparr> else m) (fh_members db),
          fh_tracks := map (\<lambda>t. if ft_member t \<in> ids
            then t\<lparr>ft_sync := PendingDelete, ft_restore := stage_delete (ft_sync t) (ft_restore t)\<rparr> else t) (fh_tracks db)\<rparr>,
       map fm_host members))"

definition cancel_group_delete :: "int \<Rightarrow> fhrp_db \<Rightarrow> fhrp_db \<times> string list" where
  "cancel_group_delete i db =
     (let members = by_member_id (filter (\<lambda>m. fm_sync m = PendingDelete) (group_members db i)); ids = fm_id ` set members in
      (db\<lparr>fh_tracks := map (\<lambda>t. if ft_member t \<in> ids \<and> ft_sync t = PendingDelete
            then t\<lparr>ft_sync := restored (ft_restore t), ft_restore := None\<rparr> else t) (fh_tracks db),
          fh_members := map (\<lambda>m. if fm_id m \<in> ids \<and> fm_sync m = PendingDelete
            then m\<lparr>fm_sync := restored (fm_restore m), fm_restore := None\<rparr> else m) (fh_members db)\<rparr>,
       map fm_host members))"

section \<open>The service\<close>

record fhrp_reply =
  fr_ok :: bool
  fr_id :: int
  fr_hosts :: "string list"
  fr_message :: string

definition save_fhrp :: "group_form \<Rightarrow> fhrp_db \<Rightarrow> fhrp_db \<times> fhrp_reply" where
  "save_fhrp f db =
     (case sbind (normalize_fhrp (fh_ifaces db) (fh_svis db) f) (\<lambda>p.
             sbind (save_fhrp_group p db) (\<lambda>(db', i). Inr (p, db', i))) of
        Inl e \<Rightarrow> (db, \<lparr>fr_ok = False, fr_id = 0, fr_hosts = [], fr_message = e\<rparr>)
      | Inr (p, db', i) \<Rightarrow> (db', \<lparr>fr_ok = True, fr_id = i, fr_hosts = map nm_host (ng_members p),
          fr_message = ''Saved '' @ upper (ng_protocol p) @ '' group for '' @ show_nat (length (ng_members p)) @ '' devices.''\<rparr>))"

definition delete_fhrp :: "int \<Rightarrow> fhrp_db \<Rightarrow> fhrp_db \<times> fhrp_reply" where
  "delete_fhrp i db =
     (if i \<le> 0 then (db, \<lparr>fr_ok = False, fr_id = 0, fr_hosts = [], fr_message = ''Invalid FHRP group ID.''\<rparr>)
      else let (db', hosts) = mark_group_for_delete i db in
        (db', \<lparr>fr_ok = hosts \<noteq> [], fr_id = 0, fr_hosts = hosts,
           fr_message = ''Marked FHRP group for removal on '' @ show_nat (length hosts) @ '' devices.''\<rparr>))"

definition cancel_fhrp_delete :: "int \<Rightarrow> fhrp_db \<Rightarrow> fhrp_db \<times> fhrp_reply" where
  "cancel_fhrp_delete i db =
     (if i \<le> 0 then (db, \<lparr>fr_ok = False, fr_id = 0, fr_hosts = [], fr_message = ''Invalid FHRP group ID.''\<rparr>)
      else let (db', hosts) = cancel_group_delete i db in
        (db', \<lparr>fr_ok = hosts \<noteq> [], fr_id = 0, fr_hosts = hosts,
           fr_message = (if hosts \<noteq> [] then ''Cancelled FHRP group removal on '' @ show_nat (length hosts) @ '' devices.''
             else ''FHRP group is not waiting for removal.'')\<rparr>))"

section \<open>Acknowledgement\<close>

definition apply_fhrp_success :: "bool \<Rightarrow> int \<Rightarrow> int \<Rightarrow> fhrp_db \<Rightarrow> fhrp_db" where
  "apply_fhrp_success remove mid gid db =
     (if remove then
        let db1 = delete_members (\<lambda>m. fm_id m = mid) db
        in if group_members db1 gid = [] then delete_group gid db1 else db1
      else db\<lparr>fh_members := map (\<lambda>m. if fm_id m = mid then m\<lparr>fm_sync := Synchronized, fm_restore := None\<rparr> else m) (fh_members db),
              fh_tracks := map (\<lambda>t. if ft_member t = mid \<and> ft_sync t = PendingApply
                then t\<lparr>ft_sync := Synchronized, ft_restore := None\<rparr> else t) (fh_tracks db)\<rparr>)"

section \<open>The invariant\<close>

definition endpoint_of :: "fhrp_member_row \<Rightarrow> string \<times> string \<times> int" where
  "endpoint_of m = (fm_host m, fm_kind m, fm_iface m)"

definition groups_ok :: "fhrp_db \<Rightarrow> bool" where
  "groups_ok db \<longleftrightarrow> distinct (map fg_id (fh_groups db)) \<and> distinct (map group_key (fh_groups db))
     \<and> (\<forall>g \<in> set (fh_groups db). fg_id g < fh_next_group db \<and> group_check g)"

definition members_ok :: "fhrp_db \<Rightarrow> bool" where
  "members_ok db \<longleftrightarrow> distinct (map fm_id (fh_members db))
     \<and> distinct (map (\<lambda>m. (fm_group m, fm_host m)) (fh_members db))
     \<and> distinct (map (\<lambda>m. (fm_group m, fm_kind m, fm_iface m)) (fh_members db))
     \<and> (\<forall>m \<in> set (fh_members db). fm_id m < fh_next_member db \<and> member_check m
          \<and> fm_group m \<in> fg_id ` set (fh_groups db) \<and> endpoint_exists db (fm_host m) (fm_kind m) (fm_iface m)
          \<and> fm_host m \<in> dv_host ` set (fh_devices db) \<and> (fm_restore m \<noteq> None \<longrightarrow> fm_sync m = PendingDelete))"

text \<open>One group per protocol and number on an interface.\<close>

definition endpoints_unique :: "fhrp_db \<Rightarrow> bool" where
  "endpoints_unique db \<longleftrightarrow>
     (\<forall>g \<in> set (fh_groups db). \<forall>h \<in> set (fh_groups db). \<forall>m \<in> set (fh_members db). \<forall>n \<in> set (fh_members db).
        fm_group m = fg_id g \<longrightarrow> fm_group n = fg_id h \<longrightarrow> endpoint_of m = endpoint_of n
        \<longrightarrow> fg_protocol g = fg_protocol h \<longrightarrow> fg_number g = fg_number h \<longrightarrow> fg_id g = fg_id h)"

text \<open>Every member has its option row, in the table of its protocol and in no other.\<close>

definition options_ok :: "fhrp_db \<Rightarrow> bool" where
  "options_ok db \<longleftrightarrow>
     (\<forall>i. (fh_hsrp db i \<noteq> None) = (member_protocol db i = Some ''hsrp'')
        \<and> (fh_vrrp db i \<noteq> None) = (member_protocol db i = Some ''vrrp'')
        \<and> (fh_glbp db i \<noteq> None) = (member_protocol db i = Some ''glbp'')
        \<and> (\<forall>r. fh_hsrp db i = Some r \<longrightarrow> hsrp_check r) \<and> (\<forall>r. fh_vrrp db i = Some r \<longrightarrow> vrrp_check r)
        \<and> (\<forall>r. fh_glbp db i = Some r \<longrightarrow> glbp_check r))"

definition tracks_stored_ok :: "fhrp_db \<Rightarrow> bool" where
  "tracks_stored_ok db \<longleftrightarrow> distinct (map ft_id (fh_tracks db))
     \<and> distinct (map (\<lambda>t. (ft_member t, ft_object t)) (fh_tracks db))
     \<and> (\<forall>t \<in> set (fh_tracks db). ft_id t < fh_next_track db \<and> track_check t \<and> ft_member t \<in> fm_id ` set (fh_members db)
          \<and> (ft_restore t \<noteq> None \<longrightarrow> ft_sync t = PendingDelete))"

definition inventory_ok :: "fhrp_db \<Rightarrow> bool" where
  "inventory_ok db \<longleftrightarrow> distinct (map if_id (fh_ifaces db)) \<and> distinct (map sr_id (fh_svis db))
     \<and> if_host ` set (fh_ifaces db) \<union> sr_host ` set (fh_svis db) \<subseteq> dv_host ` set (fh_devices db)"

definition fhrp_ok :: "fhrp_db \<Rightarrow> bool" where
  "fhrp_ok db \<longleftrightarrow> groups_ok db \<and> members_ok db \<and> endpoints_unique db \<and> options_ok db \<and> tracks_stored_ok db \<and> inventory_ok db"

lemmas fhrp_parts = groups_ok_def members_ok_def endpoints_unique_def options_ok_def tracks_stored_ok_def inventory_ok_def

lemma find_by_key: "distinct (map key xs) \<Longrightarrow> x \<in> set xs \<Longrightarrow> find (\<lambda>y. key y = key x) xs = Some x"
  by (induction xs) (force split: if_splits)+

lemma find_group_eq: "groups_ok db \<Longrightarrow> g \<in> set (fh_groups db) \<Longrightarrow> find_group db (fg_id g) = Some g"
  by (simp add: groups_ok_def find_group_def find_by_key)

lemma find_member_eq: "members_ok db \<Longrightarrow> m \<in> set (fh_members db) \<Longrightarrow> find_member db (fm_id m) = Some m"
  by (simp add: members_ok_def find_member_def find_by_key)

lemma find_group_SomeD: "find_group db i = Some g \<Longrightarrow> g \<in> set (fh_groups db) \<and> fg_id g = i"
  unfolding find_group_def by (drule find_SomeD) simp

lemma find_member_SomeD: "find_member db i = Some m \<Longrightarrow> m \<in> set (fh_members db) \<and> fm_id m = i"
  unfolding find_member_def by (drule find_SomeD) simp

lemma find_member_None: "find_member db i = None \<longleftrightarrow> i \<notin> fm_id ` set (fh_members db)"
  by (auto simp: find_member_def find_None_iff)

lemma find_group_None: "find_group db i = None \<longleftrightarrow> i \<notin> fg_id ` set (fh_groups db)"
  by (auto simp: find_group_def find_None_iff)

lemma member_protocol_iff:
  assumes "groups_ok db" "members_ok db"
  shows "member_protocol db i = Some q \<longleftrightarrow>
    (\<exists>m \<in> set (fh_members db). \<exists>g \<in> set (fh_groups db). fm_id m = i \<and> fg_id g = fm_group m \<and> fg_protocol g = q)"
proof
  assume "member_protocol db i = Some q"
  then show "\<exists>m \<in> set (fh_members db). \<exists>g \<in> set (fh_groups db). fm_id m = i \<and> fg_id g = fm_group m \<and> fg_protocol g = q"
    by (auto simp: member_protocol_def dest!: find_member_SomeD find_group_SomeD split: option.splits)
next
  assume "\<exists>m \<in> set (fh_members db). \<exists>g \<in> set (fh_groups db). fm_id m = i \<and> fg_id g = fm_group m \<and> fg_protocol g = q"
  then show "member_protocol db i = Some q"
    using find_member_eq[OF assms(2)] find_group_eq[OF assms(1)] by (force simp: member_protocol_def)
qed

section \<open>Storing a member\<close>

fun track_rows :: "int \<Rightarrow> int \<Rightarrow> (string \<times> int) list \<Rightarrow> fhrp_track_row list" where
  "track_rows n i [] = []"
| "track_rows n i (t # ts) = \<lparr>ft_id = n, ft_member = i, ft_object = fst t, ft_decrement = snd t,
     ft_sync = PendingApply, ft_restore = None\<rparr> # track_rows (n + 1) i ts"

definition add_tracks :: "int \<Rightarrow> (string \<times> int) list \<Rightarrow> fhrp_db \<Rightarrow> fhrp_db" where
  "add_tracks i ts db = db\<lparr>fh_tracks := fh_tracks db @ track_rows (fh_next_track db) i ts,
     fh_next_track := fh_next_track db + int (length ts)\<rparr>"

lemma insert_tracks_eq:
  assumes "tracks_ok ts" "find_member db i \<noteq> None"
    "\<forall>t \<in> set (fh_tracks db). ft_member t = i \<longrightarrow> ft_object t \<notin> fst ` set ts"
  shows "insert_tracks i ts db = Inr (add_tracks i ts db)"
  using assms
proof (induction ts arbitrary: db)
  case (Cons t ts)
  let ?db = "db\<lparr>fh_tracks := fh_tracks db @ [\<lparr>ft_id = fh_next_track db, ft_member = i, ft_object = fst t,
    ft_decrement = snd t, ft_sync = PendingApply, ft_restore = None\<rparr>], fh_next_track := fh_next_track db + 1\<rparr>"
  have "insert_track i t db = Inr ?db"
    using Cons.prems by (auto simp: insert_track_def Let_def track_check_def restore_check_def tracks_ok_def list_ex_iff)
  moreover have "insert_tracks i ts ?db = Inr (add_tracks i ts ?db)"
    using Cons.prems by (intro Cons.IH) (auto simp: tracks_ok_def find_member_def)
  moreover have "add_tracks i ts ?db = add_tracks i (t # ts) db"
    by (simp add: add_tracks_def add.commute add.left_commute)
  ultimately show ?case by simp
qed (simp add: add_tracks_def)

lemma track_rows_props:
  "map ft_object (track_rows n i ts) = map fst ts" "ft_member ` set (track_rows n i ts) \<subseteq> {i}"
  "map ft_id (track_rows n i ts) = map (\<lambda>k. n + int k) [0..<length ts]"
  by (induction ts arbitrary: n) (auto simp: upt_conv_Cons map_Suc_upt[symmetric] simp del: upt_Suc)

lemma track_rowsD:
  "t \<in> set (track_rows n i ts) \<Longrightarrow> ft_restore t = None \<and> ft_sync t = PendingApply \<and> (ft_object t, ft_decrement t) \<in> set ts"
  by (induction ts arbitrary: n) auto

definition add_options :: "int \<Rightarrow> fhrp_member \<Rightarrow> fhrp_db \<Rightarrow> fhrp_db" where
  "add_options i m db =
     (case nm_policy m of
        Hsrp p \<Rightarrow> db\<lparr>fh_hsrp := (fh_hsrp db)(i \<mapsto> option_stored p m)\<rparr>
      | Vrrp p \<Rightarrow> db\<lparr>fh_vrrp := (fh_vrrp db)(i \<mapsto> option_stored p m)\<rparr>
      | Glbp p \<Rightarrow> db\<lparr>fh_glbp := (fh_glbp db)(i \<mapsto> option_stored p m)\<rparr>)"

definition policy_check :: "fhrp_member \<Rightarrow> bool" where
  "policy_check m = (case nm_policy m of Hsrp p \<Rightarrow> hsrp_check (option_stored p m)
     | Vrrp p \<Rightarrow> vrrp_check (option_stored p m) | Glbp p \<Rightarrow> glbp_check (option_stored p m))"

lemma auth_check_row:
  "auth_ok protocol (nm_auth m) (nm_secret m) \<Longrightarrow> auth_check all_auth_types (option_stored p m)"
  "auth_ok ''vrrp'' (nm_auth m) (nm_secret m) \<Longrightarrow> auth_check [''none'', ''plain''] (option_stored p m)"
  by (auto simp: auth_ok_def auth_check_def option_stored_def all_auth_types_def)

lemma member_ok_policy_check: "member_ok protocol number m \<Longrightarrow> policy_check m"
  by (cases "nm_policy m")
    (auto simp: member_ok_def policy_check_def hsrp_check_def vrrp_check_def glbp_check_def Let_def auth_check_row
       option_stored_def[THEN arg_cong[of _ _ op_policy]] timers_ok_def weights_ok_def weight_ok_def over_def policy_protocol_def
     split: option.splits)


definition add_member :: "int \<Rightarrow> fhrp_member \<Rightarrow> fhrp_db \<Rightarrow> fhrp_db" where
  "add_member gid m db = db\<lparr>fh_members := fh_members db @ [(member_row gid m)\<lparr>fm_id := fh_next_member db\<rparr>],
     fh_next_member := fh_next_member db + 1\<rparr>"

definition stored :: "int \<Rightarrow> fhrp_member \<Rightarrow> fhrp_db \<Rightarrow> fhrp_db" where
  "stored gid m db = add_tracks (fh_next_member db) (nm_tracks m)
     (add_options (fh_next_member db) m (add_member gid m db))"

definition member_fits :: "fhrp_group_row \<Rightarrow> fhrp_member \<Rightarrow> fhrp_db \<Rightarrow> bool" where
  "member_fits g m db \<longleftrightarrow> g \<in> set (fh_groups db) \<and> member_ok (fg_protocol g) (fg_number g) m
     \<and> nm_kind m \<in> {''router'', ''svi''} \<and> endpoint_exists db (nm_host m) (nm_kind m) (nm_iface m)
     \<and> (\<forall>r \<in> set (fh_members db). fm_group r = fg_id g \<longrightarrow> fm_host r \<noteq> nm_host m
          \<and> \<not> (fm_kind r = nm_kind m \<and> fm_iface r = nm_iface m))
     \<and> (\<forall>h \<in> set (fh_groups db). fg_protocol h = fg_protocol g \<longrightarrow> fg_number h = fg_number g \<longrightarrow> fg_id h \<noteq> fg_id g
          \<longrightarrow> (\<forall>r \<in> set (fh_members db). fm_group r = fg_id h \<longrightarrow> endpoint_of r \<noteq> (nm_host m, nm_kind m, nm_iface m)))"

lemma fresh_member: "members_ok db \<Longrightarrow> fh_next_member db \<notin> fm_id ` set (fh_members db)"
  by (force simp: members_ok_def)

lemma track_member: "tracks_stored_ok db \<Longrightarrow> t \<in> set (fh_tracks db) \<Longrightarrow> ft_member t \<in> fm_id ` set (fh_members db)"
  by (auto simp: tracks_stored_ok_def)

lemma endpoint_host:
  "inventory_ok db \<Longrightarrow> endpoint_exists db host kind i \<Longrightarrow> kind \<in> {''router'', ''svi''} \<Longrightarrow> host \<in> dv_host ` set (fh_devices db)"
  by (auto simp: inventory_ok_def endpoint_exists_def list_ex_iff split: if_splits)

lemma priority_limit_le: "priority_limit q \<le> 255"
  by (simp add: priority_limit_def)

lemma insert_member_eq:
  assumes "fhrp_ok db" "member_fits g m db"
  shows "insert_member (member_row (fg_id g) m) db = Inr (add_member (fg_id g) m db, fh_next_member db)"
proof -
  let ?r = "member_row (fg_id g) m"
  have ok: "groups_ok db" "members_ok db" "inventory_ok db" using assms(1) by (simp_all add: fhrp_ok_def)
  have g: "find_group db (fg_id g) = Some g" using find_group_eq[OF ok(1)] assms(2) by (simp add: member_fits_def)
  have check: "member_check ?r"
    using assms(2) priority_limit_le[of "fg_protocol g"]
    by (auto simp: member_fits_def member_ok_def member_check_def member_row_def restore_check_def)
  have d: "list_ex (\<lambda>d. dv_host d = nm_host m) (fh_devices db)"
  proof -
    have "nm_host m \<in> dv_host ` set (fh_devices db)"
      using assms(2) unfolding member_fits_def by (intro endpoint_host[OF ok(3)]) blast+
    then show ?thesis by (auto simp: list_ex_iff)
  qed
  have free: "\<not> list_ex (\<lambda>h. fg_id h \<noteq> fg_id g \<and> fg_protocol h = fg_protocol g \<and> fg_number h = fg_number g
      \<and> list_ex (\<lambda>r. fm_group r = fg_id h \<and> fm_host r = nm_host m \<and> fm_kind r = nm_kind m
           \<and> fm_iface r = nm_iface m) (fh_members db)) (fh_groups db)"
    using assms(2) unfolding member_fits_def list_ex_iff endpoint_of_def by blast
  have uniq: "\<not> list_ex (\<lambda>r. fm_group r = fg_id g \<and> (fm_host r = nm_host m
           \<or> fm_kind r = nm_kind m \<and> fm_iface r = nm_iface m)) (fh_members db)"
    using assms(2) unfolding member_fits_def list_ex_iff by blast
  have row: "fm_host ?r = nm_host m" "fm_kind ?r = nm_kind m" "fm_iface ?r = nm_iface m" "fm_group ?r = fg_id g"
    by (simp_all add: member_row_def)
  have e: "endpoint_exists db (nm_host m) (nm_kind m) (nm_iface m)" using assms(2) by (simp add: member_fits_def)
  show ?thesis
    unfolding insert_member_def row
    using e free uniq g check d by (simp add: add_member_def)
qed

lemma fresh_protocol: "i \<notin> fm_id ` set (fh_members db) \<Longrightarrow> member_protocol db i = None"
  by (auto simp: member_protocol_def split: option.splits dest: find_member_SomeD)

lemma options_absent:
  assumes "fhrp_ok db" "i \<notin> fm_id ` set (fh_members db)"
  shows "fh_hsrp db i = None" "fh_vrrp db i = None" "fh_glbp db i = None"
proof -
  have "member_protocol db i = None" using assms(2) by (rule fresh_protocol)
  then show "fh_hsrp db i = None" "fh_vrrp db i = None" "fh_glbp db i = None"
    using assms(1) unfolding fhrp_ok_def options_ok_def by (metis option.distinct(1))+
qed

lemma insert_options_eq:
  assumes "member_protocol db i = Some (policy_protocol (nm_policy m))" "policy_check m"
    "fh_hsrp db i = None" "fh_vrrp db i = None" "fh_glbp db i = None"
  shows "insert_options i m db = Inr (add_options i m db)"
  using assms
  by (cases "nm_policy m") (simp_all add: insert_options_def insert_row_def add_options_def policy_protocol_def policy_check_def)

lemma add_options_simps [simp]:
  "fh_devices (add_options i m db) = fh_devices db" "fh_ifaces (add_options i m db) = fh_ifaces db"
  "fh_svis (add_options i m db) = fh_svis db" "fh_groups (add_options i m db) = fh_groups db"
  "fh_next_group (add_options i m db) = fh_next_group db" "fh_members (add_options i m db) = fh_members db"
  "fh_next_member (add_options i m db) = fh_next_member db" "fh_tracks (add_options i m db) = fh_tracks db"
  "fh_next_track (add_options i m db) = fh_next_track db"
  by (simp_all add: add_options_def split: fhrp_policy.splits)

lemma stored_simps [simp]:
  "fh_devices (stored gid m db) = fh_devices db" "fh_ifaces (stored gid m db) = fh_ifaces db"
  "fh_svis (stored gid m db) = fh_svis db" "fh_groups (stored gid m db) = fh_groups db"
  "fh_next_group (stored gid m db) = fh_next_group db"
  "fh_members (stored gid m db) = fh_members db @ [(member_row gid m)\<lparr>fm_id := fh_next_member db\<rparr>]"
  "fh_next_member (stored gid m db) = fh_next_member db + 1"
  "fh_tracks (stored gid m db) = fh_tracks db @ track_rows (fh_next_track db) (fh_next_member db) (nm_tracks m)"
  "fh_next_track (stored gid m db) = fh_next_track db + int (length (nm_tracks m))"
  "fh_hsrp (stored gid m db) = fh_hsrp (add_options (fh_next_member db) m db)"
  "fh_vrrp (stored gid m db) = fh_vrrp (add_options (fh_next_member db) m db)"
  "fh_glbp (stored gid m db) = fh_glbp (add_options (fh_next_member db) m db)"
  by (simp_all add: stored_def add_tracks_def add_member_def add_options_def split: fhrp_policy.splits)

lemma member_protocol_added:
  assumes "fhrp_ok db" "g \<in> set (fh_groups db)"
  shows "member_protocol (add_member (fg_id g) m db) j =
    (if j = fh_next_member db then Some (fg_protocol g) else member_protocol db j)"
proof -
  have ok: "groups_ok db" "members_ok db" using assms(1) by (simp_all add: fhrp_ok_def)
  have "find_member db (fh_next_member db) = None" using fresh_member[OF ok(2)] by (simp add: find_member_None)
  then show ?thesis
    using find_group_eq[OF ok(1) assms(2)]
    by (auto simp: member_protocol_def find_member_def find_group_def add_member_def find_append_new member_row_def
        split: option.splits)
qed

lemma store_member_eq:
  assumes "fhrp_ok db" "member_fits g m db"
  shows "store_member (fg_id g) m db = Inr (stored (fg_id g) m db)"
proof -
  let ?i = "fh_next_member db" and ?db = "add_member (fg_id g) m db"
  have ok: "groups_ok db" "members_ok db" "tracks_stored_ok db" using assms(1) by (simp_all add: fhrp_ok_def)
  have g: "g \<in> set (fh_groups db)" and m: "member_ok (fg_protocol g) (fg_number g) m"
    using assms(2) by (simp_all add: member_fits_def)
  note fresh = fresh_member[OF ok(2)]
  have p: "member_protocol ?db ?i = Some (policy_protocol (nm_policy m))"
    using m by (simp add: member_protocol_added[OF assms(1) g] member_ok_def)
  have "insert_options ?i m ?db = Inr (add_options ?i m ?db)"
    using options_absent[OF assms(1) fresh] p member_ok_policy_check[OF m]
    by (intro insert_options_eq) (simp_all add: add_member_def)
  moreover have "insert_tracks ?i (nm_tracks m) (add_options ?i m ?db) = Inr (stored (fg_id g) m db)"
    unfolding stored_def
  proof (rule insert_tracks_eq)
    show "tracks_ok (nm_tracks m)" using m by (simp add: member_ok_def)
    show "find_member (add_options ?i m ?db) ?i \<noteq> None" by (simp add: find_member_None add_member_def)
    show "\<forall>t \<in> set (fh_tracks (add_options ?i m ?db)). ft_member t = ?i \<longrightarrow> ft_object t \<notin> fst ` set (nm_tracks m)"
      using track_member[OF ok(3)] fresh by (simp add: add_member_def) metis
  qed
  ultimately show ?thesis
    by (simp add: store_member_def insert_member_eq[OF assms])
qed

lemma endpoint_exists_stored [simp]: "endpoint_exists (stored gid m db) = endpoint_exists db"
  by (simp add: endpoint_exists_def fun_eq_iff)

lemma member_protocol_stored:
  assumes "fhrp_ok db" "g \<in> set (fh_groups db)"
  shows "member_protocol (stored (fg_id g) m db) j =
    (if j = fh_next_member db then Some (fg_protocol g) else member_protocol db j)"
proof -
  have "member_protocol (stored (fg_id g) m db) j = member_protocol (add_member (fg_id g) m db) j"
  proof -
    have "find_group (stored (fg_id g) m db) = find_group (add_member (fg_id g) m db)"
      "find_member (stored (fg_id g) m db) = find_member (add_member (fg_id g) m db)"
      by (simp_all add: find_group_def find_member_def add_member_def fun_eq_iff)
    then show ?thesis unfolding member_protocol_def by (simp only:)
  qed
  then show ?thesis using member_protocol_added[OF assms] by simp
qed

lemma stored_members_ok:
  assumes "fhrp_ok db" "member_fits g m db"
  shows "members_ok (stored (fg_id g) m db)"
proof -
  let ?r = "(member_row (fg_id g) m)\<lparr>fm_id := fh_next_member db\<rparr>"
  have ok: "members_ok db" "inventory_ok db" using assms(1) by (simp_all add: fhrp_ok_def)
  have host: "nm_host m \<in> dv_host ` set (fh_devices db)"
    using assms(2) unfolding member_fits_def by (intro endpoint_host[OF ok(2)]) blast+
  have check: "member_check ?r"
    using assms(2) priority_limit_le[of "fg_protocol g"]
    by (auto simp: member_fits_def member_ok_def member_check_def member_row_def restore_check_def)
  have new: "fm_id ?r = fh_next_member db" "fm_group ?r = fg_id g" "fm_host ?r = nm_host m" "fm_kind ?r = nm_kind m"
    "fm_iface ?r = nm_iface m" "fm_restore ?r = None" by (simp_all add: member_row_def)
  have d: "distinct (map fm_id (fh_members db @ [?r]))" using ok(1) fresh_member[OF ok(1)] by (simp add: members_ok_def new)
  have dh: "distinct (map (\<lambda>m. (fm_group m, fm_host m)) (fh_members db @ [?r]))"
    using ok(1) assms(2) by (auto simp: members_ok_def member_fits_def new)
  have de: "distinct (map (\<lambda>m. (fm_group m, fm_kind m, fm_iface m)) (fh_members db @ [?r]))"
    using ok(1) assms(2) by (auto simp: members_ok_def member_fits_def new)
  have old: "\<forall>x \<in> set (fh_members db). fm_id x < fh_next_member db + 1 \<and> member_check x
          \<and> fm_group x \<in> fg_id ` set (fh_groups db) \<and> endpoint_exists db (fm_host x) (fm_kind x) (fm_iface x)
          \<and> fm_host x \<in> dv_host ` set (fh_devices db) \<and> (fm_restore x \<noteq> None \<longrightarrow> fm_sync x = PendingDelete)"
    using ok(1) by (auto simp: members_ok_def)
  show ?thesis
    unfolding members_ok_def stored_simps endpoint_exists_stored
    using d dh de old check host assms(2) by (simp add: new member_fits_def)
qed

lemma stored_endpoints_unique:
  assumes "fhrp_ok db" "member_fits g m db"
  shows "endpoints_unique (stored (fg_id g) m db)"
proof -
  let ?r = "(member_row (fg_id g) m)\<lparr>fm_id := fh_next_member db\<rparr>"
  have new: "fm_group ?r = fg_id g" "endpoint_of ?r = (nm_host m, nm_kind m, nm_iface m)"
    by (simp_all add: member_row_def endpoint_of_def)
  have u: "endpoints_unique db" and gok: "groups_ok db" using assms(1) by (simp_all add: fhrp_ok_def)
  have same: "g' = g" if "g' \<in> set (fh_groups db)" "fg_id g' = fg_id g" for g'
    using find_group_eq[OF gok that(1)] find_group_eq[OF gok, of g] that(2) assms(2) by (simp add: member_fits_def)
  have clash: "fg_id h = fg_id g" if "h \<in> set (fh_groups db)" "r \<in> set (fh_members db)" "fm_group r = fg_id h"
    "endpoint_of r = endpoint_of ?r" "fg_protocol h = fg_protocol g" "fg_number h = fg_number g" for h r
    using assms(2) that unfolding member_fits_def new by blast
  have old: "fg_id h = fg_id k" if "h \<in> set (fh_groups db)" "k \<in> set (fh_groups db)" "a \<in> set (fh_members db)"
    "b \<in> set (fh_members db)" "fm_group a = fg_id h" "fm_group b = fg_id k" "endpoint_of a = endpoint_of b"
    "fg_protocol h = fg_protocol k" "fg_number h = fg_number k" for h k a b
    using u that unfolding endpoints_unique_def by blast
  show ?thesis
    unfolding endpoints_unique_def stored_simps
  proof (intro ballI impI)
    fix h k a b
    assume hk: "h \<in> set (fh_groups db)" "k \<in> set (fh_groups db)" "fm_group a = fg_id h" "fm_group b = fg_id k"
      "endpoint_of a = endpoint_of b" "fg_protocol h = fg_protocol k" "fg_number h = fg_number k"
      and ab: "a \<in> set (fh_members db @ [?r])" "b \<in> set (fh_members db @ [?r])"
    have a: "a \<in> set (fh_members db) \<or> a = ?r" and b: "b \<in> set (fh_members db) \<or> b = ?r" using ab by auto
    show "fg_id h = fg_id k"
    proof (cases "a = ?r")
      case True
      then have "h = g" using same[OF hk(1)] hk(3) new(1) by simp
      then show ?thesis using True b clash[of k b] hk new(1) by metis
    next
      case False
      then have a: "a \<in> set (fh_members db)" using a by blast
      show ?thesis
      proof (cases "b = ?r")
        case True
        then have "k = g" using same[OF hk(2)] hk(4) new(1) by simp
        then show ?thesis using True a clash[of h a] hk by metis
      next
        case False
        then show ?thesis using a b old[of h k a b] hk by blast
      qed
    qed
  qed
qed

lemma stored_options_ok:
  assumes "fhrp_ok db" "member_fits g m db"
  shows "options_ok (stored (fg_id g) m db)"
proof -
  have g: "g \<in> set (fh_groups db)" and m: "member_ok (fg_protocol g) (fg_number g) m"
    using assms(2) by (simp_all add: member_fits_def)
  have p: "policy_protocol (nm_policy m) = fg_protocol g" using m by (simp add: member_ok_def)
  note absent = options_absent[OF assms(1) fresh_member[of db]]
  have a: "fh_hsrp db (fh_next_member db) = None" "fh_vrrp db (fh_next_member db) = None" "fh_glbp db (fh_next_member db) = None"
    and n: "member_protocol db (fh_next_member db) = None"
    using absent assms(1) fresh_protocol[OF fresh_member[of db]] by (simp_all add: fhrp_ok_def)
  have o: "options_ok db" using assms(1) by (simp add: fhrp_ok_def)
  show ?thesis
    using o member_ok_policy_check[OF m] a p n
    unfolding options_ok_def member_protocol_stored[OF assms(1) g] stored_simps
    by (cases "nm_policy m") (auto simp: add_options_def policy_protocol_def policy_check_def)
qed

lemma stored_tracks_ok:
  assumes "fhrp_ok db" "member_fits g m db"
  shows "tracks_stored_ok (stored (fg_id g) m db)"
proof -
  let ?new = "track_rows (fh_next_track db) (fh_next_member db) (nm_tracks m)"
  have ok: "tracks_stored_ok db" "members_ok db" using assms(1) by (simp_all add: fhrp_ok_def)
  have ts: "tracks_ok (nm_tracks m)" using assms(2) by (simp add: member_fits_def member_ok_def)
  have mem: "ft_member t = fh_next_member db" if "t \<in> set ?new" for t
    using track_rows_props(2)[of "fh_next_track db" "fh_next_member db" "nm_tracks m"] that by auto
  have id: "fh_next_track db \<le> ft_id t \<and> ft_id t < fh_next_track db + int (length (nm_tracks m))" if "t \<in> set ?new" for t
  proof -
    have "ft_id t \<in> set (map ft_id ?new)" using that by auto
    then show ?thesis unfolding track_rows_props(3) by auto
  qed
  have d1: "distinct (map ft_id ?new)" unfolding track_rows_props(3) by (auto simp: distinct_map inj_on_def)
  have d2: "distinct (map (\<lambda>t. (ft_member t, ft_object t)) ?new)"
  proof -
    have "distinct (map ft_object ?new)" using ts by (simp add: track_rows_props(1) tracks_ok_def)
    then show ?thesis by (auto simp: distinct_map inj_on_def)
  qed
  have fresh: "ft_member t \<noteq> fh_next_member db" if "t \<in> set (fh_tracks db)" for t
    using track_member[OF ok(1) that] fresh_member[OF ok(2)] by metis
  have older: "ft_id t < fh_next_track db" if "t \<in> set (fh_tracks db)" for t
    using ok(1) that by (simp add: tracks_stored_ok_def)
  have c1: "ft_id ` set (fh_tracks db) \<inter> ft_id ` set ?new = {}" using older id by force
  have c2: "(\<lambda>t. (ft_member t, ft_object t)) ` set (fh_tracks db) \<inter> (\<lambda>t. (ft_member t, ft_object t)) ` set ?new = {}"
    using fresh mem by auto
  have new: "ft_id t < fh_next_track db + int (length (nm_tracks m)) \<and> track_check t
      \<and> ft_member t = fh_next_member db \<and> ft_restore t = None" if "t \<in> set ?new" for t
    using id[OF that] mem[OF that] track_rowsD[OF that] ts by (auto simp: tracks_ok_def track_check_def restore_check_def)
  have old: "ft_id t < fh_next_track db + int (length (nm_tracks m)) \<and> track_check t
      \<and> ft_member t \<in> fm_id ` set (fh_members db) \<and> (ft_restore t \<noteq> None \<longrightarrow> ft_sync t = PendingDelete)"
    if "t \<in> set (fh_tracks db)" for t
    using ok(1) that by (auto simp: tracks_stored_ok_def)
  have all: "\<forall>t \<in> set (fh_tracks db @ ?new). ft_id t < fh_next_track db + int (length (nm_tracks m)) \<and> track_check t
      \<and> ft_member t \<in> fm_id ` set (fh_members (stored (fg_id g) m db)) \<and> (ft_restore t \<noteq> None \<longrightarrow> ft_sync t = PendingDelete)"
    using new old by auto
  show ?thesis
    unfolding tracks_stored_ok_def
  proof (intro conjI)
    show "distinct (map ft_id (fh_tracks (stored (fg_id g) m db)))"
      using ok(1) d1 c1 by (simp add: tracks_stored_ok_def)
    show "distinct (map (\<lambda>t. (ft_member t, ft_object t)) (fh_tracks (stored (fg_id g) m db)))"
      using ok(1) d2 c2 by (simp add: tracks_stored_ok_def)
  qed (use all in \<open>simp only: stored_simps\<close>)
qed

lemma stored_ok:
  assumes "fhrp_ok db" "member_fits g m db"
  shows "fhrp_ok (stored (fg_id g) m db)"
  using assms(1) stored_members_ok[OF assms] stored_endpoints_unique[OF assms] stored_options_ok[OF assms] stored_tracks_ok[OF assms]
  by (simp add: fhrp_ok_def groups_ok_def inventory_ok_def)

section \<open>Deleting members and groups\<close>

lemma delete_members_simps [simp]:
  "fh_devices (delete_members P db) = fh_devices db" "fh_ifaces (delete_members P db) = fh_ifaces db"
  "fh_svis (delete_members P db) = fh_svis db" "fh_groups (delete_members P db) = fh_groups db"
  "fh_next_group (delete_members P db) = fh_next_group db" "fh_next_member (delete_members P db) = fh_next_member db"
  "fh_next_track (delete_members P db) = fh_next_track db"
  "fh_members (delete_members P db) = filter (\<lambda>m. \<not> P m) (fh_members db)"
  "fh_tracks (delete_members P db) = filter (\<lambda>t. ft_member t \<notin> fm_id ` {m \<in> set (fh_members db). P m}) (fh_tracks db)"
  by (simp_all add: delete_members_def Let_def)

lemma endpoint_exists_delete [simp]: "endpoint_exists (delete_members P db) = endpoint_exists db"
  by (simp add: endpoint_exists_def fun_eq_iff)

lemma find_group_delete [simp]: "find_group (delete_members P db) = find_group db"
  by (simp add: find_group_def fun_eq_iff)

lemma distinct_map_sub: "distinct (map f xs) \<Longrightarrow> distinct (map f (filter P xs))"
  by (rule distinct_map_filter)

lemma member_unique: "members_ok db \<Longrightarrow> a \<in> set (fh_members db) \<Longrightarrow> b \<in> set (fh_members db) \<Longrightarrow> fm_id a = fm_id b \<Longrightarrow> a = b"
  by (metis find_member_eq option.inject)

lemma group_unique: "groups_ok db \<Longrightarrow> a \<in> set (fh_groups db) \<Longrightarrow> b \<in> set (fh_groups db) \<Longrightarrow> fg_id a = fg_id b \<Longrightarrow> a = b"
  by (metis find_group_eq option.inject)

lemma delete_members_members_ok: "members_ok db \<Longrightarrow> members_ok (delete_members P db)"
  by (auto simp: members_ok_def distinct_map_filter)

lemma member_protocol_delete:
  assumes "groups_ok db" "members_ok db"
  shows "member_protocol (delete_members P db) i =
    (if i \<in> fm_id ` {m \<in> set (fh_members db). P m} then None else member_protocol db i)"
proof -
  have g: "groups_ok (delete_members P db)" using assms(1) by (simp add: groups_ok_def)
  note m = delete_members_members_ok[OF assms(2), of P]
  have "member_protocol (delete_members P db) i = Some q \<longleftrightarrow>
    (if i \<in> fm_id ` {m \<in> set (fh_members db). P m} then None else member_protocol db i) = Some q" for q
    using member_unique[OF assms(2)]
    by (auto simp: member_protocol_iff[OF g m] member_protocol_iff[OF assms])
  then show ?thesis by (metis option.exhaust)
qed

lemma delete_members_ok: "fhrp_ok db \<Longrightarrow> fhrp_ok (delete_members P db)"
proof -
  assume ok: "fhrp_ok db"
  let ?gone = "fm_id ` {m \<in> set (fh_members db). P m}"
  have parts: "groups_ok db" "members_ok db" "endpoints_unique db" "options_ok db" "tracks_stored_ok db" "inventory_ok db"
    using ok by (simp_all add: fhrp_ok_def)
  have opts: "fh_hsrp (delete_members P db) = fh_hsrp db |` (- ?gone)" "fh_vrrp (delete_members P db) = fh_vrrp db |` (- ?gone)"
    "fh_glbp (delete_members P db) = fh_glbp db |` (- ?gone)"
    by (simp_all add: delete_members_def Let_def)
  have "options_ok (delete_members P db)"
    using parts(4) unfolding options_ok_def member_protocol_delete[OF parts(1,2)] opts
    by (auto simp: restrict_map_def)
  moreover have "tracks_stored_ok (delete_members P db)"
  proof -
    have "ft_member t \<in> fm_id ` {x \<in> set (fh_members db). \<not> P x}" if "t \<in> set (fh_tracks db)" "ft_member t \<notin> ?gone" for t
      using track_member[OF parts(5) that(1)] that(2) by blast
    then show ?thesis using parts(5) by (auto simp: tracks_stored_ok_def distinct_map_filter)
  qed
  moreover have "endpoints_unique (delete_members P db)"
    using parts(3) unfolding endpoints_unique_def delete_members_simps set_filter by blast
  ultimately show ?thesis
    using parts delete_members_members_ok[OF parts(2), of P] by (simp add: fhrp_ok_def groups_ok_def inventory_ok_def)
qed

lemma drop_group_ok:
  assumes "fhrp_ok db" "group_members db i = []"
  shows "fhrp_ok (db\<lparr>fh_groups := filter (\<lambda>g. fg_id g \<noteq> i) (fh_groups db)\<rparr>)"
proof -
  let ?db = "db\<lparr>fh_groups := filter (\<lambda>g. fg_id g \<noteq> i) (fh_groups db)\<rparr>"
  have parts: "groups_ok db" "members_ok db" "endpoints_unique db" "options_ok db" "tracks_stored_ok db" "inventory_ok db"
    using assms(1) by (simp_all add: fhrp_ok_def)
  have no: "fm_group m \<noteq> i" if "m \<in> set (fh_members db)" for m
    using assms(2) that by (auto simp: group_members_def filter_empty_conv)
  have g: "groups_ok ?db" using parts(1) by (auto simp: groups_ok_def distinct_map_filter)
  have e: "endpoint_exists ?db = endpoint_exists db" by (simp add: endpoint_exists_def fun_eq_iff)
  have "fm_group m \<in> fg_id ` (set (fh_groups db) \<inter> {g. fg_id g \<noteq> i})" if "m \<in> set (fh_members db)" for m
    using parts(2) no[OF that] that by (force simp: members_ok_def)
  then have m: "members_ok ?db" using parts(2) unfolding members_ok_def e by (simp add: Int_def)
  have p: "member_protocol ?db = member_protocol db"
  proof
    fix j
    have "member_protocol ?db j = Some q \<longleftrightarrow> member_protocol db j = Some q" for q
      unfolding member_protocol_iff[OF g m] member_protocol_iff[OF parts(1,2)] using no by simp metis
    then show "member_protocol ?db j = member_protocol db j" by (metis option.exhaust)
  qed
  have "options_ok ?db" using parts(4) unfolding options_ok_def p by simp
  moreover have "endpoints_unique ?db" using parts(3) by (simp add: endpoints_unique_def)
  ultimately show ?thesis
    using parts g m by (simp add: fhrp_ok_def tracks_stored_ok_def inventory_ok_def)
qed

lemma delete_group_ok: "fhrp_ok db \<Longrightarrow> fhrp_ok (delete_group i db)"
proof -
  assume ok: "fhrp_ok db"
  have "group_members (delete_members (\<lambda>m. fm_group m = i) db) i = []"
    by (simp add: group_members_def filter_empty_conv)
  from drop_group_ok[OF delete_members_ok[OF ok] this] show ?thesis by (simp add: delete_group_def)
qed

section \<open>Saving a group\<close>

definition add_group :: "fhrp_group \<Rightarrow> fhrp_db \<Rightarrow> fhrp_db" where
  "add_group p db = db\<lparr>fh_groups := fh_groups db @ [(group_row p)\<lparr>fg_id := fh_next_group db\<rparr>],
     fh_next_group := fh_next_group db + 1\<rparr>"

lemma add_group_ok:
  assumes "fhrp_ok db" "group_check (group_row p)" "group_key (group_row p) \<notin> group_key ` set (fh_groups db)"
  shows "fhrp_ok (add_group p db)"
proof -
  let ?db = "add_group p db" and ?g = "(group_row p)\<lparr>fg_id := fh_next_group db\<rparr>"
  have parts: "groups_ok db" "members_ok db" "endpoints_unique db" "options_ok db" "tracks_stored_ok db" "inventory_ok db"
    using assms(1) by (simp_all add: fhrp_ok_def)
  have small: "fg_id h < fh_next_group db" if "h \<in> set (fh_groups db)" for h using parts(1) that by (simp add: groups_ok_def)
  have old: "fm_group m < fh_next_group db" if "m \<in> set (fh_members db)" for m
    using parts(2) that small by (auto simp: members_ok_def)
  have fresh: "fh_next_group db \<notin> fg_id ` set (fh_groups db)" using small by force
  have row: "group_check ?g = group_check (group_row p)" "group_key ?g = group_key (group_row p)" "fg_id ?g = fh_next_group db"
    by (simp_all add: group_check_def group_key_def split: option.splits)
  have small': "\<forall>h \<in> set (fh_groups db). fg_id h < fh_next_group db + 1 \<and> group_check h"
    using parts(1) by (auto simp: groups_ok_def)
  have db: "fh_groups ?db = fh_groups db @ [?g]" "fh_next_group ?db = fh_next_group db + 1" by (simp_all add: add_group_def)
  have g: "groups_ok ?db"
    using parts(1) assms(2,3) small' fresh unfolding groups_ok_def db by (simp add: row)
  have e: "endpoint_exists ?db = endpoint_exists db" by (simp add: endpoint_exists_def fun_eq_iff add_group_def)
  have m: "members_ok ?db" using parts(2) unfolding members_ok_def e by (auto simp: add_group_def)
  have p: "member_protocol ?db = member_protocol db"
  proof
    fix j
    have "member_protocol ?db j = Some q \<longleftrightarrow> member_protocol db j = Some q" for q
      unfolding member_protocol_iff[OF g m] member_protocol_iff[OF parts(1,2)] using old by (force simp: add_group_def)
    then show "member_protocol ?db j = member_protocol db j" by (metis option.exhaust)
  qed
  have "options_ok ?db" using parts(4) unfolding options_ok_def p by (simp add: add_group_def)
  moreover have "endpoints_unique ?db"
  proof -
    have "h \<in> set (fh_groups db)" if "h \<in> set (fh_groups ?db)" "m \<in> set (fh_members db)" "fm_group m = fg_id h" for h m
      using that old[OF that(2)] by (auto simp: add_group_def)
    moreover have "fh_members ?db = fh_members db" by (simp add: add_group_def)
    ultimately show ?thesis using parts(3) unfolding endpoints_unique_def by metis
  qed
  ultimately show ?thesis
    using parts g m by (simp add: fhrp_ok_def tracks_stored_ok_def inventory_ok_def add_group_def)
qed

lemma fits_stored:
  assumes "member_fits g n db" "nm_host n \<noteq> nm_host m" "(nm_kind n, nm_iface n) \<noteq> (nm_kind m, nm_iface m)"
  shows "member_fits g n (stored (fg_id g) m db)"
  using assms unfolding member_fits_def stored_simps endpoint_exists_stored
  by (auto simp: member_row_def endpoint_of_def)

lemma remaining_fit:
  assumes "\<forall>x \<in> set (m # ms). member_fits g x db" "distinct (map nm_host (m # ms))"
    "distinct (map (\<lambda>m. (nm_kind m, nm_iface m)) (m # ms))"
  shows "\<forall>n \<in> set ms. member_fits g n (stored (fg_id g) m db)"
proof
  fix n assume n: "n \<in> set ms"
  have "nm_host m \<notin> nm_host ` set ms" "(nm_kind m, nm_iface m) \<notin> (\<lambda>m. (nm_kind m, nm_iface m)) ` set ms"
    using assms(2,3) by simp_all
  then have "nm_host n \<noteq> nm_host m \<and> (nm_kind n, nm_iface n) \<noteq> (nm_kind m, nm_iface m)"
    using n unfolding image_iff by metis
  then show "member_fits g n (stored (fg_id g) m db)" using assms(1) n by (intro fits_stored) simp_all
qed

lemma store_members_eq:
  assumes "fhrp_ok db" "\<forall>m \<in> set ms. member_fits g m db" "distinct (map nm_host ms)"
    "distinct (map (\<lambda>m. (nm_kind m, nm_iface m)) ms)"
  shows "store_members (fg_id g) ms db = Inr (fold (stored (fg_id g)) ms db) \<and> fhrp_ok (fold (stored (fg_id g)) ms db)"
  using assms
proof (induction ms arbitrary: db)
  case (Cons m ms)
  have fit: "member_fits g m db" using Cons.prems by simp
  note rest = remaining_fit[OF Cons.prems(2-4)]
  show ?case
    using Cons.IH[OF stored_ok[OF Cons.prems(1) fit] rest] Cons.prems store_member_eq[OF Cons.prems(1) fit] by simp
qed simp

subsection \<open>What the tables say about a group\<close>

definition stored_policy :: "fhrp_db \<Rightarrow> int \<Rightarrow> (fhrp_policy \<times> string \<times> string option) option" where
  "stored_policy db i =
     (case fh_hsrp db i of Some r \<Rightarrow> Some (Hsrp (op_policy r), op_auth r, op_secret r)
      | None \<Rightarrow> (case fh_vrrp db i of Some r \<Rightarrow> Some (Vrrp (op_policy r), op_auth r, op_secret r)
      | None \<Rightarrow> map_option (\<lambda>r. (Glbp (op_policy r), op_auth r, op_secret r)) (fh_glbp db i)))"

lemma stored_policy_cong:
  "fh_hsrp db' i = fh_hsrp db j \<Longrightarrow> fh_vrrp db' i = fh_vrrp db j \<Longrightarrow> fh_glbp db' i = fh_glbp db j
   \<Longrightarrow> stored_policy db' i = stored_policy db j"
  unfolding stored_policy_def by (simp only:)

record member_view =
  mw_host :: string
  mw_kind :: string
  mw_iface :: int
  mw_priority :: int
  mw_preempt :: bool
  mw_shutdown :: bool
  mw_sync :: sync_status
  mw_policy :: "(fhrp_policy \<times> string \<times> string option) option"
  mw_tracks :: "(string \<times> int \<times> sync_status) list"

definition view_member :: "fhrp_db \<Rightarrow> fhrp_member_row \<Rightarrow> member_view" where
  "view_member db m = \<lparr>mw_host = fm_host m, mw_kind = fm_kind m, mw_iface = fm_iface m, mw_priority = fm_priority m,
     mw_preempt = fm_preempt m, mw_shutdown = fm_shutdown m, mw_sync = fm_sync m,
     mw_policy = stored_policy db (fm_id m),
     mw_tracks = map (\<lambda>t. (ft_object t, ft_decrement t, ft_sync t)) (filter (\<lambda>t. ft_member t = fm_id m) (fh_tracks db))\<rparr>"

text \<open>The abstract state: the groups by their identity, each with its key, its description and its members.\<close>

definition fhrp_abs :: "fhrp_db \<Rightarrow> int \<rightharpoonup> (string \<times> int \<times> string) \<times> string option \<times> member_view list" where
  "fhrp_abs db i = map_option (\<lambda>g. (group_key g, fg_description g, map (view_member db) (group_members db i))) (find_group db i)"

definition wanted_member :: "fhrp_member \<Rightarrow> member_view" where
  "wanted_member m = \<lparr>mw_host = nm_host m, mw_kind = nm_kind m, mw_iface = nm_iface m, mw_priority = nm_priority m,
     mw_preempt = nm_preempt m, mw_shutdown = nm_shutdown m, mw_sync = PendingApply,
     mw_policy = Some (nm_policy m, nm_auth m, if nm_secret m = [] then None else Some (nm_secret m)),
     mw_tracks = map (\<lambda>(object, d). (object, d, PendingApply)) (nm_tracks m)\<rparr>"

definition wanted_group :: "fhrp_group \<Rightarrow> (string \<times> int \<times> string) \<times> string option \<times> member_view list" where
  "wanted_group p = ((ng_protocol p, ng_number p, ng_vip p),
     if ng_description p = [] then None else Some (ng_description p), map wanted_member (ng_members p))"

lemma add_options_other:
  "j \<noteq> i \<Longrightarrow> fh_hsrp (add_options i m db) j = fh_hsrp db j" "j \<noteq> i \<Longrightarrow> fh_vrrp (add_options i m db) j = fh_vrrp db j"
  "j \<noteq> i \<Longrightarrow> fh_glbp (add_options i m db) j = fh_glbp db j"
  by (simp_all add: add_options_def split: fhrp_policy.splits)

lemma filter_track_rows: "filter (\<lambda>t. ft_member t = j) (track_rows n i ts) = (if i = j then track_rows n i ts else [])"
  by (induction ts arbitrary: n) auto

lemma track_rows_view: "map (\<lambda>t. (ft_object t, ft_decrement t, ft_sync t)) (track_rows n i ts)
  = map (\<lambda>(object, d). (object, d, PendingApply)) ts"
  by (induction ts arbitrary: n) auto

lemma view_stored_old:
  assumes "members_ok db" "r \<in> set (fh_members db)"
  shows "view_member (stored gid m db) r = view_member db r"
proof -
  have ne: "fm_id r \<noteq> fh_next_member db" using fresh_member[OF assms(1)] assms(2) by (metis imageI)
  then have "stored_policy (stored gid m db) (fm_id r) = stored_policy db (fm_id r)"
    unfolding stored_policy_def stored_simps by (simp only: add_options_other[OF ne])
  then show ?thesis using ne by (simp add: view_member_def filter_track_rows)
qed

lemma view_stored_new:
  assumes "fhrp_ok db" "auth_ok q (nm_auth m) (nm_secret m)"
  shows "view_member (stored gid m db) ((member_row gid m)\<lparr>fm_id := fh_next_member db\<rparr>) = wanted_member m"
proof -
  have ok: "members_ok db" "tracks_stored_ok db" using assms(1) by (simp_all add: fhrp_ok_def)
  note absent = options_absent[OF assms(1) fresh_member[OF ok(1)]]
  have none: "filter (\<lambda>t. ft_member t = fh_next_member db) (fh_tracks db) = []"
    using track_member[OF ok(2)] fresh_member[OF ok(1)] by (force simp: filter_empty_conv)
  have "nm_auth m \<noteq> []" using assms(2) by (auto simp: auth_ok_def)
  then have "stored_policy (stored gid m db) (fh_next_member db)
    = Some (nm_policy m, nm_auth m, if nm_secret m = [] then None else Some (nm_secret m))"
    using absent by (cases "nm_policy m") (simp_all add: stored_policy_def add_options_def option_stored_def)
  then show ?thesis
    by (simp add: view_member_def wanted_member_def member_row_def none filter_track_rows track_rows_view)
qed

lemma view_delete:
  assumes "members_ok db" "r \<in> set (fh_members db)" "\<not> P r"
  shows "view_member (delete_members P db) r = view_member db r"
proof -
  have keep: "fm_id r \<notin> fm_id ` {m \<in> set (fh_members db). P m}"
    using member_unique[OF assms(1,2)] assms(3) by blast
  then have "stored_policy (delete_members P db) (fm_id r) = stored_policy db (fm_id r)"
    by (intro stored_policy_cong) (simp_all add: delete_members_def Let_def)
  moreover have "filter (\<lambda>t. ft_member t = fm_id r \<and> ft_member t \<notin> fm_id ` {m \<in> set (fh_members db). P m}) (fh_tracks db)
    = filter (\<lambda>t. ft_member t = fm_id r) (fh_tracks db)"
  proof (intro filter_cong refl)
    fix t show "(ft_member t = fm_id r \<and> ft_member t \<notin> fm_id ` {m \<in> set (fh_members db). P m}) = (ft_member t = fm_id r)"
      using keep by metis
  qed
  ultimately show ?thesis by (simp add: view_member_def conj_commute)
qed

lemma view_groups [simp]:
  "view_member (db\<lparr>fh_groups := gs\<rparr>) = view_member db" "view_member (db\<lparr>fh_groups := gs, fh_next_group := n\<rparr>) = view_member db"
  by (auto simp: view_member_def fun_eq_iff intro: stored_policy_cong)

lemma find_filter: "find P (filter Q xs) = find (\<lambda>x. P x \<and> Q x) xs"
  by (induction xs) auto

lemma find_group_delete_group: "find_group (delete_group j db) i = (if i = j then None else find_group db i)"
proof -
  have "find (\<lambda>g. fg_id g = i \<and> fg_id g \<noteq> j) gs = (if i = j then None else find (\<lambda>g. fg_id g = i) gs)"
    for gs :: "fhrp_group_row list"
    by (induction gs) auto
  then show ?thesis by (simp add: find_group_def delete_group_def find_filter)
qed

lemma abs_delete_group:
  assumes "fhrp_ok db"
  shows "fhrp_abs (delete_group j db) = (fhrp_abs db)(j := None)"
proof
  fix i
  have ok: "members_ok db" using assms by (simp add: fhrp_ok_def)
  have "map (view_member (delete_group j db)) (group_members (delete_group j db) i)
    = map (view_member db) (group_members db i)" if "i \<noteq> j"
  proof -
    have "group_members (delete_group j db) i = group_members db i"
      using that by (auto simp: group_members_def delete_group_def intro!: filter_cong)
    then show ?thesis
      using that by (auto simp: delete_group_def group_members_def intro!: view_delete[OF ok])
  qed
  then show "fhrp_abs (delete_group j db) i = ((fhrp_abs db)(j := None)) i"
    by (simp add: fhrp_abs_def find_group_delete_group)
qed

lemma abs_add_group:
  assumes "fhrp_ok db"
  shows "fhrp_abs (add_group p db) = (fhrp_abs db)(fh_next_group db \<mapsto>
    ((ng_protocol p, ng_number p, ng_vip p), if ng_description p = [] then None else Some (ng_description p), []))"
proof
  fix i
  have ok: "members_ok db" "groups_ok db" using assms by (simp_all add: fhrp_ok_def)
  have fresh: "find_group db (fh_next_group db) = None"
    using ok(2) by (force simp: find_group_None groups_ok_def)
  have "group_members db (fh_next_group db) = []"
    using ok by (force simp: group_members_def filter_empty_conv members_ok_def groups_ok_def)
  then show "fhrp_abs (add_group p db) i = ((fhrp_abs db)(fh_next_group db \<mapsto>
    ((ng_protocol p, ng_number p, ng_vip p), if ng_description p = [] then None else Some (ng_description p), []))) i"
    using fresh
    by (auto simp: fhrp_abs_def add_group_def find_group_def find_append_new group_members_def group_row_def group_key_def
        split: option.splits)
qed

lemma abs_stored:
  assumes "fhrp_ok db" "member_fits g m db"
  shows "fhrp_abs (stored (fg_id g) m db) = (fhrp_abs db)(fg_id g :=
    map_option (\<lambda>(k, d, ms). (k, d, ms @ [wanted_member m])) (fhrp_abs db (fg_id g)))"
proof
  fix i
  let ?db = "stored (fg_id g) m db" and ?r = "(member_row (fg_id g) m)\<lparr>fm_id := fh_next_member db\<rparr>"
  have ok: "members_ok db" using assms(1) by (simp add: fhrp_ok_def)
  have f: "find_group ?db i = find_group db i" by (simp add: find_group_def)
  have ms: "group_members ?db i = group_members db i @ (if i = fg_id g then [?r] else [])"
    by (auto simp: group_members_def member_row_def)
  have old: "map (view_member ?db) (group_members db i) = map (view_member db) (group_members db i)"
    by (simp add: group_members_def view_stored_old[OF ok])
  have new: "view_member ?db ?r = wanted_member m"
    using assms(2) by (intro view_stored_new[OF assms(1), of "fg_protocol g"]) (simp add: member_fits_def member_ok_def)
  show "fhrp_abs ?db i = ((fhrp_abs db)(fg_id g :=
    map_option (\<lambda>(k, d, ms). (k, d, ms @ [wanted_member m])) (fhrp_abs db (fg_id g)))) i"
  proof -
    have all: "map (view_member ?db) (group_members ?db i)
      = map (view_member db) (group_members db i) @ (if i = fg_id g then [wanted_member m] else [])"
      by (simp only: ms map_append old) (simp add: new)
    show ?thesis by (cases "find_group db i") (auto simp only: fhrp_abs_def f all option.map fun_upd_apply split: if_splits)
  qed
qed

lemma abs_store_members:
  assumes "fhrp_ok db" "\<forall>m \<in> set ms. member_fits g m db" "distinct (map nm_host ms)"
    "distinct (map (\<lambda>m. (nm_kind m, nm_iface m)) ms)"
  shows "fhrp_abs (fold (stored (fg_id g)) ms db) = (fhrp_abs db)(fg_id g :=
    map_option (\<lambda>(k, d, vs). (k, d, vs @ map wanted_member ms)) (fhrp_abs db (fg_id g)))"
  using assms
proof (induction ms arbitrary: db)
  case Nil
  then show ?case by (auto simp: fun_eq_iff option.map_ident split: option.splits)
next
  case (Cons m ms)
  have fit: "member_fits g m db" using Cons.prems by simp
  note rest = remaining_fit[OF Cons.prems(2-4)]
  show ?case
    using Cons.IH[OF stored_ok[OF Cons.prems(1) fit] rest] Cons.prems(3,4)
    by (simp add: abs_stored[OF Cons.prems(1) fit] option.map_comp o_def case_prod_unfold fun_eq_iff)
qed

subsection \<open>A validated group is stored or conflicts\<close>

lemma replace_draft_cases:
  assumes "fhrp_ok db"
  obtains (free) "find_key db (ng_protocol p, ng_number p, ng_vip p) = None" "replace_draft p db = Inr db"
  | (synced) g where "find_key db (ng_protocol p, ng_number p, ng_vip p) = Some g"
      "\<exists>m \<in> set (group_members db (fg_id g)). fm_sync m \<noteq> PendingApply"
      "replace_draft p db = Inl ''FHRP group already exists in device-synchronized state.''"
  | (draft) g where "find_key db (ng_protocol p, ng_number p, ng_vip p) = Some g"
      "\<forall>m \<in> set (group_members db (fg_id g)). fm_sync m = PendingApply" "replace_draft p db = Inr (delete_group (fg_id g) db)"
proof (cases "find_key db (ng_protocol p, ng_number p, ng_vip p)")
  case None
  then show thesis using free by (simp add: replace_draft_def)
next
  case (Some g)
  then show thesis using synced[of g] draft[of g] by (auto simp: replace_draft_def list_ex_iff)
qed

text \<open>The draft a save replaces.\<close>

definition draft_of :: "fhrp_db \<Rightarrow> fhrp_group \<Rightarrow> int option" where
  "draft_of db p = map_option fg_id (find_key db (ng_protocol p, ng_number p, ng_vip p))"

definition without_draft :: "fhrp_db \<Rightarrow> fhrp_group \<Rightarrow> fhrp_db" where
  "without_draft db p = (case draft_of db p of None \<Rightarrow> db | Some i \<Rightarrow> delete_group i db)"

lemma without_draft_keeps:
  assumes "fhrp_ok db" "replace_draft p db = Inr db1"
  shows "db1 = without_draft db p" "fhrp_ok db1" "(ng_protocol p, ng_number p, ng_vip p) \<notin> group_key ` set (fh_groups db1)"
    "fh_ifaces db1 = fh_ifaces db" "fh_svis db1 = fh_svis db"
    "fhrp_abs db1 = (case draft_of db p of None \<Rightarrow> fhrp_abs db | Some i \<Rightarrow> (fhrp_abs db)(i := None))"
proof -
  have g: "groups_ok db" using assms(1) by (simp add: fhrp_ok_def)
  show eq: "db1 = without_draft db p"
    using assms(2) by (auto simp: replace_draft_def without_draft_def draft_of_def split: option.splits if_splits)
  show "fhrp_ok db1" using assms(1) delete_group_ok by (simp add: eq without_draft_def split: option.splits)
  show "fh_ifaces db1 = fh_ifaces db" "fh_svis db1 = fh_svis db"
    by (simp_all add: eq without_draft_def delete_group_def split: option.splits)
  show "fhrp_abs db1 = (case draft_of db p of None \<Rightarrow> fhrp_abs db | Some i \<Rightarrow> (fhrp_abs db)(i := None))"
    by (simp add: eq without_draft_def abs_delete_group[OF assms(1)] split: option.splits)
  show "(ng_protocol p, ng_number p, ng_vip p) \<notin> group_key ` set (fh_groups db1)"
  proof (cases "find_key db (ng_protocol p, ng_number p, ng_vip p)")
    case None
    then have "db1 = db" by (simp add: eq without_draft_def draft_of_def)
    then show ?thesis using None by (auto simp: find_key_def find_None_iff)
  next
    case (Some h)
    then have h: "h \<in> set (fh_groups db)" "group_key h = (ng_protocol p, ng_number p, ng_vip p)"
      unfolding find_key_def by (auto dest: find_SomeD)
    have "db1 = delete_group (fg_id h) db" using Some by (simp add: eq without_draft_def draft_of_def)
    moreover have "x = h" if "x \<in> set (fh_groups db)" "group_key x = group_key h" for x
      using g that h(1) by (auto simp: groups_ok_def distinct_map dest: inj_onD)
    ultimately show ?thesis using h(2) by (auto simp: delete_group_def)
  qed
qed

lemma reaches_endpoint:
  assumes "reaches (fh_ifaces db) (fh_svis db) gateway m"
  shows "endpoint_exists db (nm_host m) (nm_kind m) (nm_iface m)" "nm_kind m \<in> {''router'', ''svi''}"
  using assms by (auto simp: reaches_def endpoint_exists_def list_ex_iff router_endpoint_def svi_endpoint_def)

lemma endpoint_determines_host:
  assumes "inventory_ok db" "endpoint_exists db h k i" "endpoint_exists db h' k i" "k \<in> {''router'', ''svi''}"
  shows "h = h'"
  using assms by (auto simp: inventory_ok_def endpoint_exists_def list_ex_iff distinct_map split: if_splits dest: inj_onD)

lemma group_ok_distinct_endpoints:
  assumes "group_ok (fh_ifaces db) (fh_svis db) p" "inventory_ok db"
  shows "distinct (map (\<lambda>m. (nm_kind m, nm_iface m)) (ng_members p))"
proof -
  have reach: "endpoint_exists db (nm_host m) (nm_kind m) (nm_iface m) \<and> nm_kind m \<in> {''router'', ''svi''}"
    if "m \<in> set (ng_members p)" for m
    using assms(1) that reaches_endpoint[of db _ m] unfolding group_ok_def by blast
  have host: "nm_host m = nm_host n" if "m \<in> set (ng_members p)" "n \<in> set (ng_members p)"
    "(nm_kind m, nm_iface m) = (nm_kind n, nm_iface n)" for m n
    using endpoint_determines_host[OF assms(2), of "nm_host m" "nm_kind m" "nm_iface m" "nm_host n"] reach[OF that(1)]
      reach[OF that(2)] that(3) by simp
  have d: "distinct (map nm_host (ng_members p))" using assms(1) by (simp add: group_ok_def)
  then have "inj_on (\<lambda>m. (nm_kind m, nm_iface m)) (set (ng_members p))"
    using host by (intro inj_onI) (metis distinct_map inj_onD)
  then show ?thesis using d by (simp add: distinct_map)
qed

lemma check_endpoints_Inr: "check_endpoints p db ms = Inr u \<Longrightarrow> m \<in> set ms
    \<Longrightarrow> endpoint_taken db (ng_protocol p) (ng_number p) (nm_host m) (nm_kind m) (nm_iface m) = None"
  by (induction ms) (auto split: option.splits)

lemma check_endpoints_Inl: "check_endpoints p db ms = Inl e \<Longrightarrow> \<exists>m \<in> set ms. \<exists>g.
    endpoint_taken db (ng_protocol p) (ng_number p) (nm_host m) (nm_kind m) (nm_iface m) = Some g \<and> e = endpoint_text p m g"
  by (induction ms) (auto split: option.splits)

lemma save_steps:
  assumes "fhrp_ok db" "group_ok (fh_ifaces db) (fh_svis db) p"
    "check_endpoints p db (ng_members p) = Inr ()" "(ng_protocol p, ng_number p, ng_vip p) \<notin> group_key ` set (fh_groups db)"
  obtains db' where "insert_group (group_row p) db = Inr (add_group p db, fh_next_group db)"
    "store_members (fh_next_group db) (ng_members p) (add_group p db) = Inr db'" "fhrp_ok db'"
    "fhrp_abs db' = (fhrp_abs db)(fh_next_group db \<mapsto> wanted_group p)"
proof -
  let ?g = "(group_row p)\<lparr>fg_id := fh_next_group db\<rparr>" and ?db = "add_group p db"
  have parts: "groups_ok db" "members_ok db" "inventory_ok db" using assms(1) by (simp_all add: fhrp_ok_def)
  have key: "group_key (group_row p) = (ng_protocol p, ng_number p, ng_vip p)" by (simp add: group_key_def group_row_def)
  obtain low high where "map_of LIMITS (ng_protocol p) = Some (low, high)" "low \<le> ng_number p" "ng_number p \<le> high"
    using assms(2) unfolding group_ok_def by blast
  then have check: "group_check (group_row p)" by (simp add: group_check_def group_row_def)
  have ins: "insert_group (group_row p) db = Inr (?db, fh_next_group db)"
  proof -
    have "\<not> list_ex (\<lambda>r. group_key r = group_key (group_row p)) (fh_groups db)"
      unfolding list_ex_iff key using assms(4) by (metis imageI)
    then show ?thesis using check by (simp add: insert_group_def add_group_def)
  qed
  have ok: "fhrp_ok ?db" using assms(1,4) check by (intro add_group_ok) (simp_all add: key)
  have g: "fg_id ?g = fh_next_group db" "fg_protocol ?g = ng_protocol p" "fg_number ?g = ng_number p" by (simp_all add: group_row_def)
  have ge: "?g \<in> set (fh_groups ?db)" by (simp add: add_group_def)
  have old: "fm_group r < fh_next_group db" if "r \<in> set (fh_members db)" for r
    using parts(1,2) that by (force simp: members_ok_def groups_ok_def)
  have fits: "member_fits ?g m ?db" if m: "m \<in> set (ng_members p)" for m
  proof -
    obtain gateway where "reaches (fh_ifaces db) (fh_svis db) gateway m" using assms(2) m unfolding group_ok_def by blast
    note e = reaches_endpoint[OF this]
    have "endpoint_exists ?db = endpoint_exists db" by (simp add: endpoint_exists_def fun_eq_iff add_group_def)
    moreover have "member_ok (ng_protocol p) (ng_number p) m" using assms(2) m by (simp add: group_ok_def)
    moreover have "\<not> (fm_group r = fg_id h \<and> endpoint_of r = (nm_host m, nm_kind m, nm_iface m))"
      if "h \<in> set (fh_groups db)" "fg_protocol h = ng_protocol p" "fg_number h = ng_number p" "r \<in> set (fh_members db)" for h r
      using check_endpoints_Inr[OF assms(3) m] that
      by (auto simp: endpoint_taken_def find_None_iff list_ex_iff endpoint_of_def)
    moreover have "fh_members ?db = fh_members db" "fh_groups ?db = fh_groups db @ [?g]" by (simp_all add: add_group_def)
    ultimately show ?thesis
      using e ge old unfolding member_fits_def g by (auto dest!: old)
  qed
  have d: "distinct (map nm_host (ng_members p))" using assms(2) by (simp add: group_ok_def)
  note de = group_ok_distinct_endpoints[OF assms(2) parts(3)]
  have fits': "\<forall>m \<in> set (ng_members p). member_fits ?g m ?db" using fits by blast
  let ?db' = "fold (stored (fg_id ?g)) (ng_members p) ?db"
  have "fhrp_abs ?db' = (fhrp_abs db)(fh_next_group db \<mapsto> wanted_group p)"
    using abs_store_members[OF ok fits' d de] by (simp add: g abs_add_group[OF assms(1)] wanted_group_def)
  then show thesis
    using that[OF ins, of ?db'] store_members_eq[OF ok fits' d de] by (simp add: g)
qed

definition refused_by_conflict :: "fhrp_db \<Rightarrow> fhrp_group \<Rightarrow> string \<Rightarrow> bool" where
  "refused_by_conflict db p e \<longleftrightarrow>
     (\<exists>c. gateway_conflict db p = Some c \<and> e = conflict_text p c)
   \<or> (\<exists>g m. find_key db (ng_protocol p, ng_number p, ng_vip p) = Some g \<and> m \<in> set (group_members db (fg_id g))
        \<and> fm_sync m \<noteq> PendingApply \<and> e = ''FHRP group already exists in device-synchronized state.'')
   \<or> (\<exists>m \<in> set (ng_members p). \<exists>g. endpoint_taken (without_draft db p) (ng_protocol p) (ng_number p)
        (nm_host m) (nm_kind m) (nm_iface m) = Some g \<and> e = endpoint_text p m g)"

text \<open>Saving a validated group either stores exactly the requested group under a fresh identity, replacing
  nothing but a local draft of the same group, or refuses with one of three conflicts: the virtual gateway is
  managed by another group on one of the hosts, the group is already on the devices, or the protocol and number are
  taken on an interface. The schema's checks, keys, references and triggers never refuse it.\<close>

theorem save_group_outcome:
  assumes "fhrp_ok db" "group_ok (fh_ifaces db) (fh_svis db) p"
  shows "case save_fhrp_group p db of
      Inr (db', i) \<Rightarrow> i \<notin> dom (fhrp_abs db) \<and> fhrp_ok db'
        \<and> fhrp_abs db' = (case draft_of db p of None \<Rightarrow> fhrp_abs db | Some j \<Rightarrow> (fhrp_abs db)(j := None))(i \<mapsto> wanted_group p)
        \<and> (\<forall>j k d ms. draft_of db p = Some j \<longrightarrow> fhrp_abs db j = Some (k, d, ms) \<longrightarrow> (\<forall>m \<in> set ms. mw_sync m = PendingApply))
    | Inl e \<Rightarrow> refused_by_conflict db p e"
proof (cases "gateway_conflict db p")
  case (Some c)
  then show ?thesis by (simp add: save_fhrp_group_def refused_by_conflict_def)
next
  case None
  then have save: "save_fhrp_group p db = sbind (replace_draft p db) (\<lambda>db.
          sbind (check_endpoints p db (ng_members p)) (\<lambda>_.
          sbind (insert_group (group_row p) db) (\<lambda>(db, i).
          sbind (store_members i (ng_members p) db) (\<lambda>db. Inr (db, i)))))" by (simp add: save_fhrp_group_def)
  show ?thesis
  proof (cases "replace_draft p db")
    case (Inl e)
    then obtain g where "find_key db (ng_protocol p, ng_number p, ng_vip p) = Some g"
      "\<exists>m \<in> set (group_members db (fg_id g)). fm_sync m \<noteq> PendingApply"
      "e = ''FHRP group already exists in device-synchronized state.''"
      by (cases rule: replace_draft_cases[OF assms(1), of p]) simp_all
    then show ?thesis using save Inl by (simp add: refused_by_conflict_def, blast)
  next
    case (Inr db1)
    note w = without_draft_keeps[OF assms(1) Inr]
    show ?thesis
    proof (cases "check_endpoints p db1 (ng_members p)")
      case (Inl e)
      then show ?thesis using save \<open>replace_draft p db = Inr db1\<close> check_endpoints_Inl[OF Inl] w(1) by (simp add: refused_by_conflict_def)
    next
      case (Inr u)
      have g: "group_ok (fh_ifaces db1) (fh_svis db1) p" using assms(2) w(4,5) by simp
      from Inr have c: "check_endpoints p db1 (ng_members p) = Inr ()" by simp
      obtain db' where s: "insert_group (group_row p) db1 = Inr (add_group p db1, fh_next_group db1)"
        "store_members (fh_next_group db1) (ng_members p) (add_group p db1) = Inr db'" "fhrp_ok db'"
        "fhrp_abs db' = (fhrp_abs db1)(fh_next_group db1 \<mapsto> wanted_group p)"
        by (rule save_steps[OF w(2) g c w(3)])
      have "fh_next_group db1 = fh_next_group db"
        by (simp add: w(1) without_draft_def delete_group_def split: option.splits)
      moreover have "find_group db (fh_next_group db) = None"
        using assms(1) by (force simp: find_group_None fhrp_ok_def groups_ok_def)
      ultimately have "fh_next_group db1 \<notin> dom (fhrp_abs db)" by (auto simp: fhrp_abs_def)
      moreover have "mw_sync v = PendingApply" if "draft_of db p = Some j" "fhrp_abs db j = Some (k, d, vs)" "v \<in> set vs" for j k d vs v
        using that \<open>replace_draft p db = Inr db1\<close>
        by (auto simp: draft_of_def replace_draft_def fhrp_abs_def view_member_def list_ex_iff split: if_splits)
      ultimately show ?thesis
        using save \<open>replace_draft p db = Inr db1\<close> c s w(6) by (simp split: option.splits)
    qed
  qed
qed

text \<open>Property C36. What a save does, from the form to the tables. A success means that the form describes a sound group
  (numbers, timers, priorities and weights in range, one subnet, one policy, every member on a live interface whose
  subnet holds the gateway) and that exactly this group is stored under a fresh identity, replacing nothing but a
  local draft of it. A failure changes nothing, and its message is that of the validation or of one of the three
  conflicts: no check, key, reference or trigger of the schema is ever what refuses a group.\<close>

theorem save_fhrp_outcome:
  assumes "fhrp_ok db" "save_fhrp f db = (db', r)"
  shows "if fr_ok r then
      \<exists>p. normalize_fhrp (fh_ifaces db) (fh_svis db) f = Inr p \<and> group_ok (fh_ifaces db) (fh_svis db) p
        \<and> fr_hosts r = map nm_host (ng_members p) \<and> fr_id r \<notin> dom (fhrp_abs db)
        \<and> fhrp_abs db' = (case draft_of db p of None \<Rightarrow> fhrp_abs db | Some j \<Rightarrow> (fhrp_abs db)(j := None))(fr_id r \<mapsto> wanted_group p)
        \<and> (\<forall>j k d ms. draft_of db p = Some j \<longrightarrow> fhrp_abs db j = Some (k, d, ms) \<longrightarrow> (\<forall>m \<in> set ms. mw_sync m = PendingApply))
    else db' = db \<and> (normalize_fhrp (fh_ifaces db) (fh_svis db) f = Inl (fr_message r)
      \<or> (\<exists>p. normalize_fhrp (fh_ifaces db) (fh_svis db) f = Inr p \<and> refused_by_conflict db p (fr_message r)))"
proof (cases "normalize_fhrp (fh_ifaces db) (fh_svis db) f")
  case (Inl e)
  then show ?thesis using assms(2) by (auto simp: save_fhrp_def)
next
  case (Inr p)
  note out = save_group_outcome[OF assms(1) normalized_group[OF Inr]]
  show ?thesis
  proof (cases "save_fhrp_group p db")
    case (Inl e)
    then show ?thesis using out Inr assms(2) by (auto simp: save_fhrp_def)
  next
    case (Inr s)
    obtain db1 i where s: "s = (db1, i)" by (cases s)
    show ?thesis
      using out Inr \<open>normalize_fhrp (fh_ifaces db) (fh_svis db) f = Inr p\<close> normalized_group assms(2)
      by (auto simp: save_fhrp_def s)
  qed
qed

end
