(* ===== verification/Fhrp_Staging.thy ===== *)
theory Fhrp_Staging
  imports Fhrp_Store
begin

text \<open>
  What happens to a stored gateway redundancy group: staging its removal, cancelling it, and the acknowledgement of
  pushed members (\<open>features/fhrp/repository.py\<close>, \<open>push_state.py\<close>; the definitions are in \<open>Fhrp_Store\<close>).

  The lemmas treat the operations on the status columns uniformly (\<open>update_rows\<close>); the theorems say that cancelling
  restores the group and that the invariant holds after any sequence of operations.
\<close>

section \<open>Staging and acknowledging\<close>

definition update_rows :: "(fhrp_member_row \<Rightarrow> fhrp_member_row) \<Rightarrow> (fhrp_track_row \<Rightarrow> fhrp_track_row) \<Rightarrow> fhrp_db \<Rightarrow> fhrp_db" where
  "update_rows f h db = db\<lparr>fh_members := map f (fh_members db), fh_tracks := map h (fh_tracks db)\<rparr>"

text \<open>An update of the two status columns only.\<close>

definition status_update :: "(fhrp_member_row \<Rightarrow> fhrp_member_row) \<Rightarrow> (fhrp_track_row \<Rightarrow> fhrp_track_row) \<Rightarrow> bool" where
  "status_update f h \<longleftrightarrow>
     (\<forall>m. \<exists>s r. f m = m\<lparr>fm_sync := s, fm_restore := r\<rparr>) \<and> (\<forall>t. \<exists>s r. h t = t\<lparr>ft_sync := s, ft_restore := r\<rparr>)"

lemma status_update_member:
  assumes "status_update f h"
  shows "fm_id (f m) = fm_id m" "fm_group (f m) = fm_group m" "fm_host (f m) = fm_host m" "fm_kind (f m) = fm_kind m"
    "fm_iface (f m) = fm_iface m" "fm_priority (f m) = fm_priority m" "endpoint_of (f m) = endpoint_of m"
proof -
  obtain s r where "f m = m\<lparr>fm_sync := s, fm_restore := r\<rparr>" using assms unfolding status_update_def by blast
  then show "fm_id (f m) = fm_id m" "fm_group (f m) = fm_group m" "fm_host (f m) = fm_host m" "fm_kind (f m) = fm_kind m"
    "fm_iface (f m) = fm_iface m" "fm_priority (f m) = fm_priority m" "endpoint_of (f m) = endpoint_of m"
    by (simp_all add: endpoint_of_def)
qed

lemma status_update_track:
  assumes "status_update f h"
  shows "ft_id (h t) = ft_id t" "ft_member (h t) = ft_member t" "ft_object (h t) = ft_object t" "ft_decrement (h t) = ft_decrement t"
proof -
  obtain s r where "h t = t\<lparr>ft_sync := s, ft_restore := r\<rparr>" using assms unfolding status_update_def by blast
  then show "ft_id (h t) = ft_id t" "ft_member (h t) = ft_member t" "ft_object (h t) = ft_object t" "ft_decrement (h t) = ft_decrement t"
    by simp_all
qed

lemma update_rows_simps [simp]:
  "fh_devices (update_rows f h db) = fh_devices db" "fh_ifaces (update_rows f h db) = fh_ifaces db"
  "fh_svis (update_rows f h db) = fh_svis db" "fh_groups (update_rows f h db) = fh_groups db"
  "fh_next_group (update_rows f h db) = fh_next_group db" "fh_next_member (update_rows f h db) = fh_next_member db"
  "fh_next_track (update_rows f h db) = fh_next_track db" "fh_hsrp (update_rows f h db) = fh_hsrp db"
  "fh_vrrp (update_rows f h db) = fh_vrrp db" "fh_glbp (update_rows f h db) = fh_glbp db"
  "fh_members (update_rows f h db) = map f (fh_members db)" "fh_tracks (update_rows f h db) = map h (fh_tracks db)"
  by (simp_all add: update_rows_def)

lemma update_rows_ok:
  assumes "fhrp_ok db" "status_update f h"
    "\<And>m. m \<in> set (fh_members db) \<Longrightarrow> fm_restore (f m) \<noteq> Some PendingDelete \<and> (fm_restore (f m) \<noteq> None \<longrightarrow> fm_sync (f m) = PendingDelete)"
    "\<And>t. t \<in> set (fh_tracks db) \<Longrightarrow> ft_restore (h t) \<noteq> Some PendingDelete \<and> (ft_restore (h t) \<noteq> None \<longrightarrow> ft_sync (h t) = PendingDelete)"
  shows "fhrp_ok (update_rows f h db)"
proof -
  note u = status_update_member[OF assms(2)] and v = status_update_track[OF assms(2)]
  have parts: "groups_ok db" "members_ok db" "endpoints_unique db" "options_ok db" "tracks_stored_ok db" "inventory_ok db"
    using assms(1) by (simp_all add: fhrp_ok_def)
  have g: "groups_ok (update_rows f h db)" using parts(1) by (simp add: groups_ok_def)
  have e: "endpoint_exists (update_rows f h db) = endpoint_exists db" by (simp add: endpoint_exists_def fun_eq_iff)
  have m: "members_ok (update_rows f h db)"
    using parts(2) assms(3) unfolding members_ok_def e
    by (auto simp: u o_def member_check_def restore_check_def)
  have t: "tracks_stored_ok (update_rows f h db)"
    using parts(5) assms(4) unfolding tracks_stored_ok_def
    by (auto simp: u v o_def track_check_def restore_check_def image_image)
  have q: "endpoints_unique (update_rows f h db)"
    using parts(3) unfolding endpoints_unique_def by (auto simp: u)
  have p: "member_protocol (update_rows f h db) = member_protocol db"
  proof
    fix j
    have "member_protocol (update_rows f h db) j = Some x \<longleftrightarrow> member_protocol db j = Some x" for x
      unfolding member_protocol_iff[OF g m] member_protocol_iff[OF parts(1,2)] by (auto simp: u)
    then show "member_protocol (update_rows f h db) j = member_protocol db j" by (metis option.exhaust)
  qed
  have "options_ok (update_rows f h db)" using parts(4) unfolding options_ok_def p by simp
  then show ?thesis using parts(6) g m t q by (simp add: fhrp_ok_def inventory_ok_def)
qed

definition stage_member :: "int set \<Rightarrow> fhrp_member_row \<Rightarrow> fhrp_member_row" where
  "stage_member ids m = (if fm_id m \<in> ids
     then m\<lparr>fm_sync := PendingDelete, fm_restore := stage_delete (fm_sync m) (fm_restore m)\<rparr> else m)"

definition stage_track :: "int set \<Rightarrow> fhrp_track_row \<Rightarrow> fhrp_track_row" where
  "stage_track ids t = (if ft_member t \<in> ids
     then t\<lparr>ft_sync := PendingDelete, ft_restore := stage_delete (ft_sync t) (ft_restore t)\<rparr> else t)"

definition unstage_member :: "int set \<Rightarrow> fhrp_member_row \<Rightarrow> fhrp_member_row" where
  "unstage_member ids m = (if fm_id m \<in> ids \<and> fm_sync m = PendingDelete
     then m\<lparr>fm_sync := restored (fm_restore m), fm_restore := None\<rparr> else m)"

definition unstage_track :: "int set \<Rightarrow> fhrp_track_row \<Rightarrow> fhrp_track_row" where
  "unstage_track ids t = (if ft_member t \<in> ids \<and> ft_sync t = PendingDelete
     then t\<lparr>ft_sync := restored (ft_restore t), ft_restore := None\<rparr> else t)"

definition ids_of :: "fhrp_db \<Rightarrow> int \<Rightarrow> int set" where
  "ids_of db i = fm_id ` set (group_members db i)"

definition staged_ids :: "fhrp_db \<Rightarrow> int \<Rightarrow> int set" where
  "staged_ids db i = fm_id ` {m \<in> set (group_members db i). fm_sync m = PendingDelete}"

lemma status_update_same: "m = m\<lparr>fm_sync := fm_sync m, fm_restore := fm_restore m\<rparr>" "t = t\<lparr>ft_sync := ft_sync t, ft_restore := ft_restore t\<rparr>"
  for m :: fhrp_member_row and t :: fhrp_track_row
  by simp_all

lemma stage_is_status_update:
  "status_update (stage_member ids) (stage_track ids)" "status_update (unstage_member ids) (unstage_track ids)"
  unfolding status_update_def
  by (auto simp: stage_member_def stage_track_def unstage_member_def unstage_track_def intro: status_update_same)

lemma mark_group_eq: "mark_group_for_delete i db =
    (update_rows (stage_member (ids_of db i)) (stage_track (ids_of db i)) db, map fm_host (by_member_id (group_members db i)))"
  by (simp add: mark_group_for_delete_def update_rows_def stage_member_def stage_track_def ids_of_def by_member_id_def Let_def cong: if_cong)

lemma cancel_group_eq: "cancel_group_delete i db =
    (update_rows (unstage_member (staged_ids db i)) (unstage_track (staged_ids db i)) db,
     map fm_host (by_member_id (filter (\<lambda>m. fm_sync m = PendingDelete) (group_members db i))))"
  by (simp add: cancel_group_delete_def update_rows_def unstage_member_def unstage_track_def staged_ids_def by_member_id_def Let_def)

lemma mark_group_ok: "fhrp_ok db \<Longrightarrow> fhrp_ok (fst (mark_group_for_delete i db))"
  unfolding mark_group_eq fst_conv
  by (intro update_rows_ok stage_is_status_update)
    (auto simp: stage_member_def stage_track_def stage_delete_def fhrp_ok_def members_ok_def tracks_stored_ok_def
       member_check_def track_check_def restore_check_def split: if_splits)

lemma cancel_group_ok: "fhrp_ok db \<Longrightarrow> fhrp_ok (fst (cancel_group_delete i db))"
  unfolding cancel_group_eq fst_conv
  by (intro update_rows_ok stage_is_status_update)
    (auto simp: unstage_member_def unstage_track_def fhrp_ok_def members_ok_def tracks_stored_ok_def
       member_check_def track_check_def restore_check_def split: if_splits)

lemma apply_success_ok: "fhrp_ok db \<Longrightarrow> fhrp_ok (apply_fhrp_success remove mid gid db)"
proof -
  assume ok: "fhrp_ok db"
  let ?f = "\<lambda>m. if fm_id m = mid then m\<lparr>fm_sync := Synchronized, fm_restore := None\<rparr> else m"
  let ?h = "\<lambda>t. if ft_member t = mid \<and> ft_sync t = PendingApply then t\<lparr>ft_sync := Synchronized, ft_restore := None\<rparr> else t"
  have "status_update ?f ?h" unfolding status_update_def by (auto intro: status_update_same)
  then have "fhrp_ok (update_rows ?f ?h db)"
    using ok by (intro update_rows_ok)
      (auto simp: fhrp_ok_def members_ok_def tracks_stored_ok_def member_check_def track_check_def restore_check_def split: if_splits)
  then show ?thesis
    using delete_members_ok[OF ok, of "\<lambda>m. fm_id m = mid"] delete_group_ok
    by (simp add: apply_fhrp_success_def update_rows_def Let_def)
qed

subsection \<open>Cancelling a removal\<close>

lemma filter_map_same: "(\<And>x. x \<in> set xs \<Longrightarrow> P (f x) = P x) \<Longrightarrow> filter P (map f xs) = map f (filter P xs)"
  by (induction xs) auto

lemma delete_update:
  assumes "status_update f h" "\<And>m. P (f m) = P m"
  shows "delete_members P (update_rows f h db) = update_rows f h (delete_members P db)"
proof -
  have s: "set (filter P (map f (fh_members db))) = f ` set (filter P (fh_members db))"
    by (auto simp: assms(2))
  have i: "fm_id ` f ` X = fm_id ` X" for X by (simp add: image_image status_update_member(1)[OF assms(1)])
  have m: "filter (\<lambda>m. \<not> P m) (map f xs) = map f (filter (\<lambda>m. \<not> P m) xs)" for xs
    by (rule filter_map_same) (simp add: assms(2))
  have t: "filter (\<lambda>t. ft_member t \<notin> X) (map h ts) = map h (filter (\<lambda>t. ft_member t \<notin> X) ts)" for X ts
    by (rule filter_map_same) (simp add: status_update_track[OF assms(1)])
  show ?thesis
    unfolding delete_members_def Let_def update_rows_simps s i m t
    by (simp add: update_rows_def)
qed

lemma group_members_update: "status_update f h \<Longrightarrow> group_members (update_rows f h db) i = map f (group_members db i)"
  unfolding group_members_def update_rows_simps by (rule filter_map_same) (simp add: status_update_member)

lemma delete_group_update:
  assumes "status_update f h"
  shows "delete_group i (update_rows f h db) = update_rows f h (delete_group i db)"
proof -
  have "delete_members (\<lambda>m. fm_group m = i) (update_rows f h db) = update_rows f h (delete_members (\<lambda>m. fm_group m = i) db)"
    using status_update_member[OF assms] by (intro delete_update[OF assms]) simp
  then show ?thesis by (simp add: delete_group_def update_rows_def)
qed

lemma removal_update:
  assumes "status_update f h"
  shows "apply_fhrp_success True mid gid (update_rows f h db) = update_rows f h (apply_fhrp_success True mid gid db)"
proof -
  have d: "delete_members (\<lambda>m. fm_id m = mid) (update_rows f h db) = update_rows f h (delete_members (\<lambda>m. fm_id m = mid) db)"
    using status_update_member[OF assms] by (intro delete_update[OF assms]) simp
  show ?thesis
    by (simp add: apply_fhrp_success_def d Let_def group_members_update[OF assms] delete_group_update[OF assms])
qed

text \<open>The removals of members \<open>mids\<close> of group \<open>i\<close> that were pushed and verified.\<close>

definition removals :: "int \<Rightarrow> int list \<Rightarrow> fhrp_db \<Rightarrow> fhrp_db" where
  "removals i mids db = fold (\<lambda>mid. apply_fhrp_success True mid i) mids db"

lemma removals_update: "status_update f h \<Longrightarrow> removals i mids (update_rows f h db) = update_rows f h (removals i mids db)"
  unfolding removals_def by (induction mids arbitrary: db) (simp_all add: removal_update)

lemma removals_ok: "fhrp_ok db \<Longrightarrow> fhrp_ok (removals i mids db)"
  unfolding removals_def by (induction mids arbitrary: db) (simp_all add: apply_success_ok)

lemma removal_sub: "set (fh_members (apply_fhrp_success True mid i db)) \<subseteq> set (fh_members db)"
  "set (fh_tracks (apply_fhrp_success True mid i db)) \<subseteq> set (fh_tracks db)"
  by (auto simp: apply_fhrp_success_def Let_def delete_group_def)

lemma removals_sub: "set (fh_members (removals i mids db)) \<subseteq> set (fh_members db)"
  "set (fh_tracks (removals i mids db)) \<subseteq> set (fh_tracks db)"
proof (induction mids arbitrary: db)
  case (Cons x xs)
  {
    case 1
    show ?case using Cons(1)[of "apply_fhrp_success True x i db"] removal_sub(1)[of x i db] by (auto simp: removals_def)
  next
    case 2
    show ?case using Cons(2)[of "apply_fhrp_success True x i db"] removal_sub(2)[of x i db] by (auto simp: removals_def)
  }
qed (simp_all add: removals_def)

lemma update_rows_id:
  assumes "\<And>m. m \<in> set (fh_members db) \<Longrightarrow> f m = m" "\<And>t. t \<in> set (fh_tracks db) \<Longrightarrow> h t = t"
  shows "update_rows f h db = db"
proof -
  have "map f (fh_members db) = fh_members db" "map h (fh_tracks db) = fh_tracks db"
    using assms by (auto intro: map_idI)
  then show ?thesis by (simp add: update_rows_def)
qed

lemma update_rows_comp: "update_rows f h (update_rows f' h' db) = update_rows (f \<circ> f') (h \<circ> h') db"
  by (simp add: update_rows_def)

text \<open>Property C37. Cancelling the removal of a group restores exactly what was there: for a group none of whose rows was
  already staged, staging the removal, pushing it to any part of the members and cancelling it has the effect of the
  pushed removals alone, on every table. Staging it twice is staging it once.\<close>

theorem cancel_restores_group:
  assumes "fhrp_ok db" "\<forall>m \<in> set (group_members db i). fm_sync m \<noteq> PendingDelete"
    "\<forall>t \<in> set (fh_tracks db). ft_member t \<in> ids_of db i \<longrightarrow> ft_sync t \<noteq> PendingDelete"
  shows "fst (cancel_group_delete i (removals i mids (fst (mark_group_for_delete i db)))) = removals i mids db
    \<and> fst (mark_group_for_delete i (fst (mark_group_for_delete i db))) = fst (mark_group_for_delete i db)"
proof -
  let ?S = "ids_of db i" and ?db = "removals i mids db"
  let ?f = "stage_member ?S" and ?h = "stage_track ?S"
  have su: "status_update ?f ?h" by (rule stage_is_status_update)
  have mark: "fst (mark_group_for_delete i db) = update_rows ?f ?h db" by (simp add: mark_group_eq)
  have ok: "members_ok db" "members_ok ?db" "tracks_stored_ok ?db"
    using assms(1) removals_ok[OF assms(1), of i mids] by (simp_all add: fhrp_ok_def)
  have inS: "fm_id m \<in> ?S \<longleftrightarrow> fm_group m = i" if "m \<in> set (fh_members db)" for m
    using member_unique[OF ok(1) _ that] that by (auto simp: ids_of_def group_members_def)
  have sub: "set (fh_members ?db) \<subseteq> set (fh_members db)" "set (fh_tracks ?db) \<subseteq> set (fh_tracks db)" by (rule removals_sub)+
  have staged: "staged_ids (update_rows ?f ?h ?db) i = fm_id ` set (group_members ?db i)"
  proof -
    have g: "group_members (update_rows ?f ?h ?db) i = map ?f (group_members ?db i)" by (rule group_members_update[OF su])
    have b: "fm_sync (?f m) = PendingDelete \<and> fm_id (?f m) = fm_id m" if "m \<in> set (group_members ?db i)" for m
      using that sub inS by (auto simp: group_members_def stage_member_def)
    have "{m \<in> ?f ` set (group_members ?db i). fm_sync m = PendingDelete} = ?f ` set (group_members ?db i)" using b by blast
    moreover have "fm_id ` ?f ` set (group_members ?db i) = fm_id ` set (group_members ?db i)"
      unfolding image_image using b by (intro image_cong) auto
    ultimately show ?thesis by (simp add: staged_ids_def g)
  qed
  let ?T = "fm_id ` set (group_members ?db i)"
  have m: "(unstage_member ?T \<circ> ?f) m = m" if "m \<in> set (fh_members ?db)" for m
  proof (cases "fm_group m = i")
    case True
    have "m \<in> set (fh_members db)" using sub(1) that by blast
    then have "fm_sync m \<noteq> PendingDelete" using assms(2) True by (simp add: group_members_def)
    moreover from this have "fm_restore m = None" using ok(2) that by (auto simp: members_ok_def)
    ultimately show ?thesis
      using True inS \<open>m \<in> set (fh_members db)\<close> that
      by (simp add: unstage_member_def stage_member_def stage_delete_def restored_def group_members_def)
  next
    case False
    then have "fm_id m \<notin> ?S" using inS sub(1) that by blast
    moreover have "fm_id m \<notin> ?T" using member_unique[OF ok(2) _ that] False by (auto simp: group_members_def)
    ultimately show ?thesis by (simp add: unstage_member_def stage_member_def)
  qed
  have t: "(unstage_track ?T \<circ> ?h) t = t" if tm: "t \<in> set (fh_tracks ?db)" for t
  proof -
    obtain r where r: "r \<in> set (fh_members ?db)" "ft_member t = fm_id r" using track_member[OF ok(3) tm] by blast
    have "(fm_id r \<in> ?T) = (fm_group r = i)"
      using member_unique[OF ok(2) _ r(1)] r(1) by (auto simp: group_members_def)
    then have same: "ft_member t \<in> ?T \<longleftrightarrow> ft_member t \<in> ?S" using inS[of r] sub(1) r by auto
    show ?thesis
    proof (cases "ft_member t \<in> ?S")
      case True
      then have "ft_sync t \<noteq> PendingDelete" using assms(3) sub(2) tm by blast
      moreover from this have "ft_restore t = None" using ok(3) tm by (auto simp: tracks_stored_ok_def)
      ultimately show ?thesis
        using True same by (simp add: unstage_track_def stage_track_def stage_delete_def restored_def)
    next
      case False
      then show ?thesis using same by (simp add: unstage_track_def stage_track_def)
    qed
  qed
  have "fst (cancel_group_delete i (removals i mids (fst (mark_group_for_delete i db)))) = ?db"
    unfolding mark removals_update[OF su] cancel_group_eq fst_conv staged update_rows_comp
    using m t by (intro update_rows_id)
  moreover have "fst (mark_group_for_delete i (update_rows ?f ?h db)) = update_rows ?f ?h db"
  proof -
    have "ids_of (update_rows ?f ?h db) i = ?S"
      unfolding ids_of_def[of "update_rows ?f ?h db"] group_members_update[OF su] set_map image_image
        status_update_member[OF su] by (simp add: ids_of_def)
    moreover have "?f (?f m) = ?f m" "?h (?h t) = ?h t" for m t
      by (simp_all add: stage_member_def stage_track_def stage_delete_def)
    ultimately show ?thesis by (simp add: mark_group_eq update_rows_comp o_def)
  qed
  ultimately show ?thesis by (simp add: mark)
qed

text \<open>The acknowledgement of a configured member does not look at what happened to its row since the task was
  collected: a removal staged in between is lost, and the member's tracks stay staged.\<close>

lemma setup_acknowledgement_loses_removal:
  assumes "m \<in> set (fh_members db)" "fm_id m = mid" "fm_sync m = PendingDelete"
  shows "\<exists>m' \<in> set (fh_members (apply_fhrp_success False mid gid db)). fm_id m' = mid \<and> fm_sync m' = Synchronized"
    and "filter (\<lambda>t. ft_sync t = PendingDelete) (fh_tracks (apply_fhrp_success False mid gid db))
      = filter (\<lambda>t. ft_sync t = PendingDelete) (fh_tracks db)"
proof -
  show "\<exists>m' \<in> set (fh_members (apply_fhrp_success False mid gid db)). fm_id m' = mid \<and> fm_sync m' = Synchronized"
  proof -
    have "m\<lparr>fm_sync := Synchronized, fm_restore := None\<rparr> \<in> set (fh_members (apply_fhrp_success False mid gid db))"
      using assms by (force simp: apply_fhrp_success_def image_iff)
    then show ?thesis using assms(2) by (intro bexI) simp_all
  qed
  show "filter (\<lambda>t. ft_sync t = PendingDelete) (fh_tracks (apply_fhrp_success False mid gid db))
      = filter (\<lambda>t. ft_sync t = PendingDelete) (fh_tracks db)"
  proof -
    have "filter (\<lambda>t. ft_sync t = PendingDelete) (map (\<lambda>t. if ft_member t = mid \<and> ft_sync t = PendingApply
        then t\<lparr>ft_sync := Synchronized, ft_restore := None\<rparr> else t) ts) = filter (\<lambda>t. ft_sync t = PendingDelete) ts" for ts
      by (induction ts) auto
    then show ?thesis by (simp add: apply_fhrp_success_def)
  qed
qed

section \<open>Any sequence of operations\<close>

text \<open>The operations on the desired state, and the changes other features make to the interface tables, which the
  triggers \<open>trg_t08_*_endpoint_delete_guard\<close> and the foreign key on the devices restrict.\<close>

inductive fhrp_step :: "fhrp_db \<Rightarrow> fhrp_db \<Rightarrow> bool" where
  saved: "fhrp_step db (fst (save_fhrp f db))"
| deleted: "fhrp_step db (fst (delete_fhrp i db))"
| cancelled: "fhrp_step db (fst (cancel_fhrp_delete i db))"
| acknowledged: "fhrp_step db (apply_fhrp_success remove mid gid db)"
| interfaces: "inventory_ok db' \<Longrightarrow> db' = db\<lparr>fh_devices := ds, fh_ifaces := ifs, fh_svis := ss\<rparr>
    \<Longrightarrow> \<forall>m \<in> set (fh_members db). endpoint_exists db' (fm_host m) (fm_kind m) (fm_iface m)
    \<Longrightarrow> fhrp_step db db'"

lemma save_fhrp_ok:
  assumes "fhrp_ok db"
  shows "fhrp_ok (fst (save_fhrp f db))"
proof (cases "sbind (normalize_fhrp (fh_ifaces db) (fh_svis db) f) (\<lambda>p. sbind (save_fhrp_group p db) (\<lambda>(db', i). Inr (p, db', i)))")
  case (Inl e)
  then show ?thesis using assms by (simp add: save_fhrp_def)
next
  case (Inr r)
  then obtain p db' i where "normalize_fhrp (fh_ifaces db) (fh_svis db) f = Inr p" "save_fhrp_group p db = Inr (db', i)" "r = (p, db', i)"
    by (auto simp: sbind_eq_Inr_conv)
  then show ?thesis
    using save_group_outcome[OF assms normalized_group, of f p] Inr by (simp add: save_fhrp_def)
qed

lemma interfaces_ok:
  assumes "fhrp_ok db" "inventory_ok db'" "db' = db\<lparr>fh_devices := ds, fh_ifaces := ifs, fh_svis := ss\<rparr>"
    "\<forall>m \<in> set (fh_members db). endpoint_exists db' (fm_host m) (fm_kind m) (fm_iface m)"
  shows "fhrp_ok db'"
proof -
  have parts: "groups_ok db" "members_ok db" "endpoints_unique db" "options_ok db" "tracks_stored_ok db"
    using assms(1) by (simp_all add: fhrp_ok_def)
  have same: "fh_groups db' = fh_groups db" "fh_members db' = fh_members db" "fh_tracks db' = fh_tracks db"
    "fh_hsrp db' = fh_hsrp db" "fh_vrrp db' = fh_vrrp db" "fh_glbp db' = fh_glbp db" "fh_next_group db' = fh_next_group db"
    "fh_next_member db' = fh_next_member db" "fh_next_track db' = fh_next_track db"
    using assms(3) by simp_all
  have host: "fm_host m \<in> dv_host ` set (fh_devices db')" if "m \<in> set (fh_members db)" for m
  proof -
    have "member_check m" using parts(2) that by (simp add: members_ok_def)
    then show ?thesis
      using assms(4) that by (intro endpoint_host[OF assms(2), of _ "fm_kind m" "fm_iface m"]) (simp_all add: member_check_def)
  qed
  have "member_protocol db' = member_protocol db"
    using assms(3) by (auto simp: member_protocol_def find_member_def find_group_def fun_eq_iff split: option.splits)
  then show ?thesis
    using parts assms(2,4) host
    by (simp add: fhrp_ok_def groups_ok_def members_ok_def endpoints_unique_def options_ok_def tracks_stored_ok_def same)
qed

lemma delete_fhrp_fst: "fst (delete_fhrp i db) = (if i \<le> 0 then db else fst (mark_group_for_delete i db))"
  and cancel_fhrp_fst: "fst (cancel_fhrp_delete i db) = (if i \<le> 0 then db else fst (cancel_group_delete i db))"
  by (simp_all add: delete_fhrp_def cancel_fhrp_delete_def Let_def case_prod_unfold)

lemma fhrp_step_ok: "fhrp_step db db' \<Longrightarrow> fhrp_ok db \<Longrightarrow> fhrp_ok db'"
  by (induction rule: fhrp_step.induct)
    (simp_all add: save_fhrp_ok delete_fhrp_fst cancel_fhrp_fst apply_success_ok mark_group_ok cancel_group_ok interfaces_ok)

text \<open>Property C38. The constraints of the schema, one option row per member in the table of its protocol, one group per
  protocol and number on an interface, and a restore state on staged rows only: all hold after any sequence of
  saves, staged removals, cancellations, acknowledgements and permitted changes of the interface tables.\<close>

theorem fhrp_reachable_ok: "fhrp_step\<^sup>*\<^sup>* db db' \<Longrightarrow> fhrp_ok db \<Longrightarrow> fhrp_ok db'"
  by (induction rule: rtranclp_induct) (simp_all add: fhrp_step_ok)

section \<open>A sample\<close>

definition sample_fhrp_db :: fhrp_db where
  "sample_fhrp_db = \<lparr>fh_devices =
     [\<lparr>dv_host = ''10.0.0.1'', dv_name = None, dv_role = Some ''rou'', dv_type = None, dv_connection = ''connected''\<rparr>,
      \<lparr>dv_host = ''10.0.0.2'', dv_name = None, dv_role = Some ''sw3'', dv_type = None, dv_connection = ''connected''\<rparr>],
     fh_ifaces = sample_ifaces, fh_svis = sample_svis, fh_groups = [], fh_next_group = 1, fh_members = [], fh_next_member = 1,
     fh_hsrp = Map.empty, fh_vrrp = Map.empty, fh_glbp = Map.empty, fh_tracks = [], fh_next_track = 1\<rparr>"

lemma sample_fhrp_ok: "fhrp_ok sample_fhrp_db"
  by (simp add: fhrp_ok_def fhrp_parts sample_fhrp_db_def sample_ifaces_def sample_svis_def member_protocol_def find_member_def)

definition saved_fhrp_db :: fhrp_db where
  "saved_fhrp_db = fst (save_fhrp sample_form sample_fhrp_db)"

lemma sample_saved: "fr_ok (snd (save_fhrp sample_form sample_fhrp_db)) \<and> fr_id (snd (save_fhrp sample_form sample_fhrp_db)) = 1"
  by code_simp

theorem save_fhrp_outcome_witness: "fhrp_abs saved_fhrp_db 1 = Some (wanted_group sample_group)"
proof -
  obtain r where r: "save_fhrp sample_form sample_fhrp_db = (saved_fhrp_db, r)" unfolding saved_fhrp_db_def by (metis prod.collapse)
  have "fr_ok r" "fr_id r = 1" using sample_saved r by simp_all
  moreover have "normalize_fhrp (fh_ifaces sample_fhrp_db) (fh_svis sample_fhrp_db) sample_form = Inr sample_group"
    using sample_normalized by (simp add: sample_fhrp_db_def)
  ultimately show ?thesis
    using save_fhrp_outcome[OF sample_fhrp_ok r] by auto
qed

theorem fhrp_reachable_ok_witness: "fhrp_ok (fst (delete_fhrp 1 saved_fhrp_db))"
proof (rule fhrp_reachable_ok[OF _ sample_fhrp_ok])
  have "fhrp_step sample_fhrp_db saved_fhrp_db" unfolding saved_fhrp_db_def by (rule fhrp_step.saved)
  moreover have "fhrp_step saved_fhrp_db (fst (delete_fhrp 1 saved_fhrp_db))" by (rule fhrp_step.deleted)
  ultimately show "fhrp_step\<^sup>*\<^sup>* sample_fhrp_db (fst (delete_fhrp 1 saved_fhrp_db))" by auto
qed

lemma saved_fhrp_ok: "fhrp_ok saved_fhrp_db"
  unfolding saved_fhrp_db_def by (rule save_fhrp_ok[OF sample_fhrp_ok])

theorem cancel_restores_group_witness:
  "fst (cancel_group_delete 1 (removals 1 [2] (fst (mark_group_for_delete 1 saved_fhrp_db)))) = removals 1 [2] saved_fhrp_db
   \<and> map fm_sync (fh_members (removals 1 [2] saved_fhrp_db)) = [PendingApply]"
proof (rule conjI)
  have "list_all (\<lambda>m. fm_sync m \<noteq> PendingDelete) (group_members saved_fhrp_db 1)"
    "list_all (\<lambda>t. ft_sync t \<noteq> PendingDelete) (fh_tracks saved_fhrp_db)"
    by code_simp+
  then show "fst (cancel_group_delete 1 (removals 1 [2] (fst (mark_group_for_delete 1 saved_fhrp_db)))) = removals 1 [2] saved_fhrp_db"
    using cancel_restores_group[OF saved_fhrp_ok, of 1 "[2]"] by (simp add: list_all_iff)
  show "map fm_sync (fh_members (removals 1 [2] saved_fhrp_db)) = [PendingApply]" by code_simp
qed

end
