(* ===== verification/Fhrp_Push.thy ===== *)
theory Fhrp_Push
  imports Fhrp_Staging Iface_Push
begin

text \<open>
  Pushing gateway redundancy groups: the tasks of a host (\<open>features/fhrp/collector.py\<close>), the commands of a task
  (\<open>commands.py\<close> with its template \<open>templates/cisco_ios/fhrp.j2\<close>), the push (\<open>worker.py\<close>, \<open>view_push.py\<close>) and the
  deferred verification on the device (\<open>verification.py\<close>).

  The template is a list of lines; Jinja's \<open>StrictUndefined\<close> raises where a task has no options, the left side here.
  The device is the arguments \<open>send\<close> and \<open>show\<close>: what \<open>send_config_set\<close> and \<open>send_command\<close> answer. The lemmas show
  that a push never shows a secret, and that the deferred verification leaves exactly the unverified tasks pending.
\<close>

section \<open>Tasks\<close>

record fhrp_task =
  kt_host :: string
  kt_remove :: bool
  kt_member :: int
  kt_group :: int
  kt_interface :: "string option"
  kt_protocol :: string
  kt_number :: int
  kt_vip :: string
  kt_priority :: int
  kt_preempt :: bool
  kt_shutdown :: bool
  kt_options :: "(fhrp_policy \<times> string \<times> string option) option"
  kt_tracks :: "(string \<times> int) list"

definition pending_status :: "sync_status \<Rightarrow> bool" where
  "pending_status s = (s = PendingApply \<or> s = PendingDelete)"

text \<open>\<open>COALESCE(i.interface_name, 'Vlan' || s.vlan_id)\<close> of the two outer joins.\<close>

definition member_interface :: "fhrp_db \<Rightarrow> fhrp_member_row \<Rightarrow> string option" where
  "member_interface db m =
     (if fm_kind m = ''router'' then map_option if_name (find (\<lambda>r. if_id r = fm_iface m) (fh_ifaces db))
      else map_option svi_name (find (\<lambda>s. sr_id s = fm_iface m) (fh_svis db)))"

definition member_options :: "fhrp_db \<Rightarrow> string \<Rightarrow> int \<Rightarrow> (fhrp_policy \<times> string \<times> string option) option" where
  "member_options db protocol i =
     (if protocol = ''hsrp'' then map_option (\<lambda>r. (Hsrp (op_policy r), op_auth r, op_secret r)) (fh_hsrp db i)
      else if protocol = ''vrrp'' then map_option (\<lambda>r. (Vrrp (op_policy r), op_auth r, op_secret r)) (fh_vrrp db i)
      else map_option (\<lambda>r. (Glbp (op_policy r), op_auth r, op_secret r)) (fh_glbp db i))"

definition member_tracks :: "fhrp_db \<Rightarrow> int \<Rightarrow> (string \<times> int) list" where
  "member_tracks db i = map (\<lambda>t. (ft_object t, ft_decrement t))
     (sort_key ft_id (filter (\<lambda>t. ft_member t = i \<and> pending_status (ft_sync t)) (fh_tracks db)))"

definition member_task :: "fhrp_db \<Rightarrow> fhrp_group_row \<Rightarrow> fhrp_member_row \<Rightarrow> fhrp_task" where
  "member_task db g m = \<lparr>kt_host = fm_host m, kt_remove = (fm_sync m = PendingDelete), kt_member = fm_id m,
     kt_group = fm_group m, kt_interface = member_interface db m, kt_protocol = fg_protocol g, kt_number = fg_number g,
     kt_vip = fg_vip g, kt_priority = fm_priority m, kt_preempt = fm_preempt m, kt_shutdown = fm_shutdown m,
     kt_options = member_options db (fg_protocol g) (fm_id m), kt_tracks = member_tracks db (fm_id m)\<rparr>"

definition collect_fhrp_tasks :: "fhrp_db \<Rightarrow> string \<Rightarrow> fhrp_task list" where
  "collect_fhrp_tasks db host =
     (let target = strip host in
      if target = [] then []
      else List.map_filter (\<lambda>m. map_option (\<lambda>g. member_task db g m) (find_group db (fm_group m)))
             (sort_key fm_id (filter (\<lambda>m. fm_host m = target \<and> pending_status (fm_sync m)) (fh_members db))))"

section \<open>Commands\<close>

definition lines_when :: "bool \<Rightarrow> string list \<Rightarrow> string list" where
  "lines_when c ls = (if c then ls else [])"

definition secret_text :: "string option \<Rightarrow> string" where
  "secret_text s = (case s of None \<Rightarrow> ''None'' | Some t \<Rightarrow> t)"

definition default_timers :: "int \<Rightarrow> int \<Rightarrow> bool" where
  "default_timers hello hold = (hello = 3000 \<and> hold = 10000)"

definition timer_line :: "string \<Rightarrow> int \<Rightarrow> int \<Rightarrow> string list" where
  "timer_line head hello hold =
     lines_when (\<not> default_timers hello hold)
       [head @ (if hello mod 1000 = 0 \<and> hold mod 1000 = 0
          then '' timers '' @ show_int (hello div 1000) @ '' '' @ show_int (hold div 1000)
          else '' timers msec '' @ show_int hello @ '' msec '' @ show_int hold)]"

definition auth_line :: "string \<Rightarrow> string \<Rightarrow> string \<Rightarrow> string option \<Rightarrow> string list" where
  "auth_line head plain auth secret =
     (if auth = ''plain'' then [head @ '' authentication '' @ plain @ secret_text secret]
      else if auth = ''md5-key'' then [head @ '' authentication md5 key-string '' @ secret_text secret]
      else if auth = ''md5-keychain'' then [head @ '' authentication md5 key-chain '' @ secret_text secret]
      else [])"

definition preempt_line :: "string \<Rightarrow> hsrp_policy \<Rightarrow> string" where
  "preempt_line head p = head @ '' preempt''
     @ (if hp_delay_min p \<noteq> 0 \<or> hp_delay_reload p \<noteq> 0 then '' delay''
          @ (if hp_delay_min p \<noteq> 0 then '' minimum '' @ show_int (hp_delay_min p) else [])
          @ (if hp_delay_reload p \<noteq> 0 then '' reload '' @ show_int (hp_delay_reload p) else []) else [])"

definition activation :: "string \<Rightarrow> int \<Rightarrow> string \<Rightarrow> string" where
  "activation keyword number vip = keyword @ '' '' @ show_int number @ '' ip '' @ vip"

fun setup_lines :: "fhrp_task \<Rightarrow> fhrp_policy \<times> string \<times> string option \<Rightarrow> string list" where
  "setup_lines t (Hsrp p, auth, secret) =
     (let head = ''standby '' @ show_int (kt_number t) in
      [''standby version '' @ show_int (hp_version p), activation ''standby'' (kt_number t) (kt_vip t),
       head @ '' priority '' @ show_int (kt_priority t),
       (if kt_preempt t then preempt_line head p else ''no '' @ head @ '' preempt'')]
      @ timer_line head (hp_hello p) (hp_hold p)
      @ auth_line head [] auth secret
      @ lines_when (kt_shutdown t) [head @ '' shutdown'']
      @ map (\<lambda>(object, d). head @ '' track '' @ object @ '' '' @ show_int d) (kt_tracks t))"
| "setup_lines t (Vrrp p, auth, secret) =
     (let head = ''vrrp '' @ show_int (kt_number t) in
      [activation ''vrrp'' (kt_number t) (kt_vip t), head @ '' priority '' @ show_int (kt_priority t),
       (if kt_preempt t then head @ '' preempt'' else ''no '' @ head @ '' preempt'')]
      @ lines_when (vp_advertisement p \<noteq> 1000) [head @ '' timers advertise msec '' @ show_int (vp_advertisement p)]
      @ lines_when (auth \<noteq> ''none'') [head @ '' authentication text '' @ secret_text secret]
      @ lines_when (kt_shutdown t) [head @ '' shutdown'']
      @ map (\<lambda>(object, d). head @ '' track '' @ object @ '' decrement '' @ show_int d) (kt_tracks t))"
| "setup_lines t (Glbp p, auth, secret) =
     (let head = ''glbp '' @ show_int (kt_number t);
          weight = (\<lambda>name v. case v of None \<Rightarrow> [] | Some i \<Rightarrow> if i = 0 then [] else '' '' @ name @ '' '' @ show_int i) in
      [activation ''glbp'' (kt_number t) (kt_vip t), head @ '' priority '' @ show_int (kt_priority t),
       (if kt_preempt t then head @ '' preempt'' else ''no '' @ head @ '' preempt'')]
      @ timer_line head (gb_hello p) (gb_hold p)
      @ [head @ '' load-balancing '' @ gb_balancing p,
         head @ '' weighting '' @ show_int (gb_max p) @ weight ''lower'' (gb_lower p) @ weight ''upper'' (gb_upper p)]
      @ (if gb_preempt p then
           [head @ '' forwarder preempt'']
           @ lines_when (gb_preempt_delay p \<noteq> 0) [head @ '' forwarder preempt delay minimum '' @ show_int (gb_preempt_delay p)]
         else [''no '' @ head @ '' forwarder preempt''])
      @ auth_line head ''text '' auth secret
      @ map (\<lambda>(object, d). head @ '' weighting track '' @ object @ '' decrement '' @ show_int d) (kt_tracks t)
      @ lines_when (kt_shutdown t) [head @ '' shutdown''])"

fun remove_lines :: "fhrp_task \<Rightarrow> fhrp_policy \<times> string \<times> string option \<Rightarrow> string list" where
  "remove_lines t (Hsrp p, auth, secret) =
     (let head = ''no standby '' @ show_int (kt_number t) in
      [head @ '' ip '' @ kt_vip t] @ map (\<lambda>(object, d). head @ '' track '' @ object) (kt_tracks t)
      @ lines_when (kt_shutdown t) [head @ '' shutdown''] @ lines_when (auth \<noteq> ''none'') [head @ '' authentication'']
      @ lines_when (\<not> default_timers (hp_hello p) (hp_hold p)) [head @ '' timers''] @ [head @ '' priority'']
      @ lines_when (kt_preempt t) [head @ '' preempt''] @ [head])"
| "remove_lines t (Vrrp p, auth, secret) =
     (let head = ''no vrrp '' @ show_int (kt_number t) in
      [head @ '' ip '' @ kt_vip t] @ map (\<lambda>(object, d). head @ '' track '' @ object) (kt_tracks t)
      @ lines_when (kt_shutdown t) [head @ '' shutdown''] @ lines_when (auth \<noteq> ''none'') [head @ '' authentication'']
      @ lines_when (vp_advertisement p \<noteq> 1000) [head @ '' timers advertise''] @ [head @ '' priority'']
      @ lines_when (kt_preempt t) [head @ '' preempt''] @ [head])"
| "remove_lines t (Glbp p, auth, secret) =
     (let head = ''no glbp '' @ show_int (kt_number t) in
      [head @ '' ip '' @ kt_vip t] @ map (\<lambda>(object, d). head @ '' weighting track '' @ object) (kt_tracks t)
      @ lines_when (kt_shutdown t) [head @ '' shutdown''] @ lines_when (auth \<noteq> ''none'') [head @ '' authentication'']
      @ [head @ '' forwarder preempt'', head @ '' weighting'', head @ '' load-balancing'']
      @ lines_when (\<not> default_timers (gb_hello p) (gb_hold p)) [head @ '' timers'']
      @ [head @ '' priority'', head @ '' preempt'', head])"

definition interface_text :: "string option \<Rightarrow> string" where
  "interface_text i = (case i of None \<Rightarrow> ''None'' | Some n \<Rightarrow> n)"

definition template_folder_of :: "string \<Rightarrow> string" where
  "template_folder_of folder = (if folder \<in> {''cisco'', ''cisco_ios_telnet''} then ''cisco_ios'' else folder)"

text \<open>\<open>cisco_ios\<close> is the only platform with a template. The rendered text is split into lines again, which are
  stripped; blank lines and comments are dropped.\<close>

definition render_fhrp_commands :: "fhrp_task \<Rightarrow> string \<Rightarrow> string + string list" where
  "render_fhrp_commands t folder =
     (if template_folder_of folder \<noteq> ''cisco_ios'' then Inl (''FHRP template is not available for '' @ folder)
      else case kt_options t of
          None \<Rightarrow> Inl ''object has no attribute''
        | Some options \<Rightarrow>
            Inr (filter (\<lambda>l. l \<noteq> [] \<and> \<not> starts_with l ''!'') (map strip (split_lines (join [CHR ''\<newline>'']
              ([''interface '' @ interface_text (kt_interface t)]
               @ (if kt_remove t then remove_lines t options else setup_lines t options) @ [''exit'']))))))"

section \<open>Redaction\<close>

definition redact_fhrp_command :: "string \<Rightarrow> string" where
  "redact_fhrp_command line =
     (if contains ('' '' @ lower line @ '' '') '' authentication '' \<and> words line \<noteq> []
      then join '' '' (butlast (words line) @ [''<redacted>'']) else line)"

definition redact_fhrp_commands :: "string list \<Rightarrow> string list" where
  "redact_fhrp_commands lines = map redact_fhrp_command lines"

text \<open>\<open>str.replace\<close> with a nonempty pattern.\<close>

function (sequential) replace_text :: "string \<Rightarrow> string \<Rightarrow> string \<Rightarrow> string" where
  "replace_text p r [] = []"
| "replace_text p r (c # cs) =
     (if p \<noteq> [] \<and> starts_with (c # cs) p then r @ replace_text p r (drop (length p) (c # cs))
      else c # replace_text p r cs)"
  by pat_completeness auto
termination by (relation "measure (\<lambda>(p, r, s). length s)") (auto simp: neq_Nil_conv)

definition task_secret :: "fhrp_task \<Rightarrow> string" where
  "task_secret t = (case kt_options t of Some (_, _, Some s) \<Rightarrow> s | _ \<Rightarrow> [])"

definition redact_fhrp_output :: "string \<Rightarrow> fhrp_task \<Rightarrow> string" where
  "redact_fhrp_output out t = (if task_secret t = [] then out else replace_text (task_secret t) ''<redacted>'' out)"

section \<open>Verification\<close>

definition fhrp_error_markers :: "string list" where
  "fhrp_error_markers = [''% invalid input'', ''% incomplete command'', ''% ambiguous command'', ''% unknown command'', ''% error'']"

definition checked_output :: "string \<Rightarrow> string \<Rightarrow> string + string" where
  "checked_output d out =
     (if list_ex (contains (lower out)) fhrp_error_markers then Inl (text_default (strip out) d) else Inr out)"

definition SHOW_COMMANDS :: "(string \<times> string) list" where
  "SHOW_COMMANDS = [(''hsrp'', ''show standby brief''), (''vrrp'', ''show vrrp brief''), (''glbp'', ''show glbp brief'')]"

definition keyword_of :: "string \<Rightarrow> string" where
  "keyword_of protocol = (if protocol = ''hsrp'' then ''standby'' else protocol)"

text \<open>The fields of a task the verification uses (\<open>post_push_context\<close>).\<close>

record fhrp_check =
  kc_remove :: bool
  kc_member :: int
  kc_group :: int
  kc_interface :: "string option"
  kc_protocol :: string
  kc_number :: int
  kc_vip :: string

definition check_of :: "fhrp_task \<Rightarrow> fhrp_check" where
  "check_of t = \<lparr>kc_remove = kt_remove t, kc_member = kt_member t, kc_group = kt_group t, kc_interface = kt_interface t,
     kc_protocol = kt_protocol t, kc_number = kt_number t, kc_vip = kt_vip t\<rparr>"

text \<open>A show command, answered from the cache of the host's verification when it was already run.\<close>

definition cached_show :: "(string \<Rightarrow> ('w, string) act) \<Rightarrow> string \<Rightarrow> ((string \<rightharpoonup> string) \<times> 'w, string) act" where
  "cached_show show_cmd command cw =
     (case fst cw command of
        Some out \<Rightarrow> (Inr out, cw)
      | None \<Rightarrow>
          (case show_cmd command (snd cw) of
             (Inl e, w) \<Rightarrow> (Inl e, (fst cw, w))
           | (Inr out, w) \<Rightarrow>
               (case checked_output (''Cisco IOS rejected '' @ command) out of
                  Inl e \<Rightarrow> (Inl e, (fst cw, w))
                | Inr out \<Rightarrow> (Inr out, ((fst cw)(command \<mapsto> out), w)))))"

definition normalized_config :: "string \<Rightarrow> string list" where
  "normalized_config running = map (\<lambda>line. join '' '' (words (lower (strip line)))) (split_lines running)"

definition residual_policy :: "string \<Rightarrow> int \<Rightarrow> string list \<Rightarrow> bool" where
  "residual_policy protocol number lines =
     list_ex (\<lambda>line. starts_with line (keyword_of protocol @ '' '' @ show_int number @ '' '')) lines"

definition verify_fhrp_task :: "(string \<Rightarrow> ('w, string) act) \<Rightarrow> fhrp_check \<Rightarrow> ((string \<rightharpoonup> string) \<times> 'w, string) act" where
  "verify_fhrp_task show_cmd c =
     (let name = strip (opt_text (kc_interface c)); protocol = lower (strip (kc_protocol c)) in
      case map_of SHOW_COMMANDS protocol of
        None \<Rightarrow> (\<lambda>cw. (Inl ''FHRP task is missing interface or protocol identity'', cw))
      | Some show_command \<Rightarrow>
          if name = [] then (\<lambda>cw. (Inl ''FHRP task is missing interface or protocol identity'', cw))
          else abind (cached_show show_cmd (''show running-config interface '' @ name)) (\<lambda>running.
            if kc_remove c then
              (if residual_policy protocol (kc_number c) (normalized_config running)
               then (\<lambda>cw. (Inl (''FHRP removal verification failed on '' @ name @ '': group policy remains in running-config''), cw))
               else areturn ''Running-config confirms the complete FHRP group policy was removed.'')
            else if lower (activation (keyword_of (kc_protocol c)) (kc_number c) (kc_vip c)) \<notin> set (normalized_config running)
              then (\<lambda>cw. (Inl (''FHRP verification failed on '' @ name @ '': activation line is missing''), cw))
            else abind (cached_show show_cmd show_command) (\<lambda>operational.
              if contains operational (kc_vip c)
              then areturn (''Running-config and '' @ upper protocol @ '' operational state verified.'')
              else (\<lambda>cw. (Inl (upper protocol @ '' operational verification did not find '' @ kc_vip c), cw)))))"

section \<open>The push\<close>

record ('k, 'n) fhrp_env =
  fe_sessions :: "('k, 'n \<times> fhrp_db) session_env"
  fe_context :: "string \<Rightarrow> string + device_context"
  fe_send :: "'k \<Rightarrow> string list \<Rightarrow> ('n, string) act"
  fe_show :: "'k \<Rightarrow> string \<Rightarrow> ('n, string) act"
  fe_dev_host :: "string \<Rightarrow> bool"
  fe_reconcile :: "(string \<Rightarrow> string \<Rightarrow> 'k \<Rightarrow> (('k, 'n \<times> fhrp_db) registry, sync_note) act) option"

record fhrp_item =
  fi_host :: string
  fi_member :: int
  fi_ok :: bool
  fi_commands :: "string list"
  fi_log :: string

definition fhrp_report_item :: "string \<Rightarrow> fhrp_task \<times> string list \<Rightarrow> bool \<Rightarrow> string \<Rightarrow> fhrp_item" where
  "fhrp_report_item host tc ok log = \<lparr>fi_host = host, fi_member = kt_member (fst tc), fi_ok = ok,
     fi_commands = redact_fhrp_commands (snd tc), fi_log = log\<rparr>"

fun render_tasks :: "fhrp_task list \<Rightarrow> string \<Rightarrow> string + (fhrp_task \<times> string list) list" where
  "render_tasks [] folder = Inr []"
| "render_tasks (t # ts) folder =
     sbind (render_fhrp_commands t folder) (\<lambda>commands.
     sbind (render_tasks ts folder) (\<lambda>rest. Inr ((t, commands) # rest)))"

definition net_show :: "('k, 'n) fhrp_env \<Rightarrow> 'k \<Rightarrow> string \<Rightarrow> (('k, 'n \<times> fhrp_db) registry, string) act" where
  "net_show fe k command g =
     (case fe_show fe k command (fst (rg_net g)) of (r, n) \<Rightarrow> (r, g\<lparr>rg_net := (n, snd (rg_net g))\<rparr>))"

definition joined_log :: "string list \<Rightarrow> string" where
  "joined_log parts = join [CHR ''\<newline>''] (filter (\<lambda>p. p \<noteq> []) parts)"

text \<open>The reports of one host after its commands were accepted; a failed verification is a report of its own.\<close>

fun report_tasks :: "('k, 'n) fhrp_env \<Rightarrow> bool \<Rightarrow> 'k \<Rightarrow> string \<Rightarrow> string \<Rightarrow> (fhrp_task \<times> string list) list
    \<Rightarrow> (string \<rightharpoonup> string) \<times> ('k, 'n \<times> fhrp_db) registry \<Rightarrow> fhrp_item list \<times> (string \<rightharpoonup> string) \<times> ('k, 'n \<times> fhrp_db) registry" where
  "report_tasks fe verify k host out [] cw = ([], cw)"
| "report_tasks fe verify k host out (tc # tcs) cw =
     (case (if verify then verify_fhrp_task (net_show fe k) (check_of (fst tc)) else areturn []) cw of
        (r, cw) \<Rightarrow>
          let item = (case r of
                Inr detail \<Rightarrow> fhrp_report_item host tc True (joined_log [redact_fhrp_output out (fst tc), detail])
              | Inl e \<Rightarrow> fhrp_report_item host tc False (redact_fhrp_output e (fst tc)));
              (items, cw) = report_tasks fe verify k host out tcs cw
          in (item # items, cw))"

definition push_host :: "('k, 'n) fhrp_env \<Rightarrow> bool \<Rightarrow> string \<Rightarrow> string \<Rightarrow> (fhrp_task \<times> string list) list
    \<Rightarrow> ('k, 'n \<times> fhrp_db) registry \<Rightarrow> fhrp_item list \<times> ('k, 'n \<times> fhrp_db) registry" where
  "push_host fe verify method host rendered g =
     (let failed = \<lambda>e. map (\<lambda>tc. fhrp_report_item host tc False (redact_fhrp_output e (fst tc))) rendered in
      case session_provider (fe_sessions fe) method host g of
        (Inl e, g) \<Rightarrow> (failed e, g)
      | (Inr None, g) \<Rightarrow> (failed ''No active device session is available'', g)
      | (Inr (Some k), g) \<Rightarrow>
          (case fe_send fe k (concat (map snd rendered)) (fst (rg_net g)) of
             (r, n) \<Rightarrow>
               let g = g\<lparr>rg_net := (n, snd (rg_net g))\<rparr> in
               (case sbind r (checked_output ''Cisco IOS rejected the FHRP command'') of
                  Inl e \<Rightarrow> (failed e, g)
                | Inr out \<Rightarrow>
                    let (items, cw) = report_tasks fe verify k host out rendered (Map.empty, g) in (items, snd cw))))"

definition tasks_by_host :: "fhrp_task list \<Rightarrow> (string \<times> fhrp_task list) list" where
  "tasks_by_host ts = map (\<lambda>h. (h, filter (\<lambda>t. kt_host t = h) ts)) (rev (remdups (rev (map kt_host ts))))"

fun push_hosts :: "('k, 'n) fhrp_env \<Rightarrow> bool \<Rightarrow> string \<Rightarrow> string \<Rightarrow> (string \<times> fhrp_task list) list
    \<Rightarrow> (('k, 'n \<times> fhrp_db) registry, fhrp_item list) act" where
  "push_hosts fe verify folder method [] g = (Inr [], g)"
| "push_hosts fe verify folder method ((host, ts) # rest) g =
     (case render_tasks ts folder of
        Inl e \<Rightarrow> (Inl e, g)
      | Inr rendered \<Rightarrow>
          (case push_host fe verify method host rendered g of
             (items, g) \<Rightarrow>
               (case push_hosts fe verify folder method rest g of
                  (Inl e, g) \<Rightarrow> (Inl e, g)
                | (Inr others, g) \<Rightarrow> (Inr (items @ others), g))))"

definition push_fhrp_tasks :: "('k, 'n) fhrp_env \<Rightarrow> bool \<Rightarrow> string \<Rightarrow> string \<Rightarrow> fhrp_task list
    \<Rightarrow> (('k, 'n \<times> fhrp_db) registry, fhrp_item list) act" where
  "push_fhrp_tasks fe verify folder method ts = push_hosts fe verify folder method (tasks_by_host ts)"

section \<open>The controller\<close>

definition fhrp_collect :: "string \<Rightarrow> string \<Rightarrow> ('k, 'n \<times> fhrp_db) registry \<Rightarrow> string + fhrp_task list" where
  "fhrp_collect host module_name g =
     (let ts = collect_fhrp_tasks (snd (rg_net g)) (strip host);
          protocol = lower (strip (text_default module_name ''all''))
      in Inr (if protocol \<in> {''hsrp'', ''vrrp'', ''glbp''} then filter (\<lambda>t. kt_protocol t = protocol) ts else ts))"

definition fhrp_task_preview :: "('k, 'n) fhrp_env \<Rightarrow> fhrp_task \<Rightarrow> string \<Rightarrow> string + string list" where
  "fhrp_task_preview fe t module_name =
     sbind (fe_context fe (kt_host t)) (\<lambda>ctx.
     sbind (render_fhrp_commands t (dc_template ctx)) (\<lambda>commands.
     Inr ((''# '' @ kt_host t @ '' / '' @ upper (kt_protocol t) @ '' / '' @ (if kt_remove t then ''REMOVE'' else ''SETUP''))
          # redact_fhrp_commands commands)))"

definition fhrp_push_reply :: "fhrp_item list \<Rightarrow> (fhrp_item, fhrp_check list) reply" where
  "fhrp_push_reply items =
     (let ok = (items \<noteq> [] \<and> list_all fi_ok items);
          detail = (case find (\<lambda>i. \<not> fi_ok i) items of None \<Rightarrow> [] | Some i \<Rightarrow> fi_log i)
      in (reply_of ok (if ok then ''FHRP push completed.'' else ''FHRP push finished with errors: '' @ detail))
           \<lparr>rp_report := items\<rparr>)"

definition fhrp_push_tasks :: "('k, 'n) fhrp_env \<Rightarrow> string \<Rightarrow> string \<Rightarrow> fhrp_task list
    \<Rightarrow> (('k, 'n \<times> fhrp_db) registry, (fhrp_item, fhrp_check list) reply) act" where
  "fhrp_push_tasks fe host module_name ts g =
     (case fe_context fe host of
        Inl e \<Rightarrow> (Inl e, g)
      | Inr ctx \<Rightarrow>
          let m = upper (text_default (dc_method ctx) ''SSH'') in
          if dc_template ctx \<noteq> ''cisco_ios''
            then (Inr (reply_of False ''FHRP push currently supports Cisco IOS only.''), g)
          else if m = ''RESTCONF'' then (Inr (reply_of False ''FHRP RESTCONF push is not integrated.''), g)
          else if m \<noteq> ''SSH'' \<and> m \<noteq> ''TELNET''
            then (Inl (''persistent tab session is not supported for '' @ m), g)
          else abind (push_fhrp_tasks fe False (dc_template ctx) (dc_method ctx) ts) (\<lambda>items. areturn (fhrp_push_reply items)) g)"

definition fhrp_context :: "fhrp_task list \<Rightarrow> (fhrp_item, fhrp_check list) reply \<Rightarrow> fhrp_check list option" where
  "fhrp_context ts r = Some (map check_of ts)"

text \<open>The loop of \<open>verify_after_push\<close>: what the verification accepted is committed at once.\<close>

fun verify_checks :: "('k, 'n) fhrp_env \<Rightarrow> 'k \<Rightarrow> fhrp_check list \<Rightarrow> (string \<rightharpoonup> string) \<times> ('k, 'n \<times> fhrp_db) registry
    \<Rightarrow> (bool \<times> string) list \<times> (string \<rightharpoonup> string) \<times> ('k, 'n \<times> fhrp_db) registry" where
  "verify_checks fe k [] cw = ([], cw)"
| "verify_checks fe k (c # cs) cw =
     (case verify_fhrp_task (net_show fe k) c cw of
        (Inl e, cw) \<Rightarrow> (case verify_checks fe k cs cw of (rs, cw) \<Rightarrow> ((False, e) # rs, cw))
      | (Inr detail, (cache, g)) \<Rightarrow>
          let db = apply_fhrp_success (kc_remove c) (kc_member c) (kc_group c) (snd (rg_net g)) in
          (case verify_checks fe k cs (cache, g\<lparr>rg_net := (fst (rg_net g), db)\<rparr>) of
             (rs, cw) \<Rightarrow> ((True, detail) # rs, cw)))"

definition fhrp_verify_after_push :: "('k, 'n) fhrp_env \<Rightarrow> string \<Rightarrow> string \<Rightarrow> 'k \<Rightarrow> fhrp_check list option
    \<Rightarrow> (('k, 'n \<times> fhrp_db) registry, sync_note) act" where
  "fhrp_verify_after_push fe host module_name k ctx g =
     (let checks = (case ctx of None \<Rightarrow> [] | Some cs \<Rightarrow> cs) in
      if checks = [] then (Inr \<lparr>nt_ok = Some True, nt_message = ''No deferred FHRP verification was required.''\<rparr>, g)
      else
        let (report, cw) = verify_checks fe k checks (Map.empty, g);
            succeeded = length (filter fst report); failed = length report - succeeded
        in (Inr \<lparr>nt_ok = Some (failed = 0),
                 nt_message = ''Deferred FHRP verification completed: '' @ show_nat succeeded @ '' succeeded, ''
                   @ show_nat failed @ '' failed.''\<rparr>, snd cw))"

definition fhrp_controller :: "('k, 'n) fhrp_env
    \<Rightarrow> (('k, 'n \<times> fhrp_db) registry, fhrp_task, fhrp_item, 'k, fhrp_check list) controller" where
  "fhrp_controller fe = \<lparr>ct_label = ''FHRP'', ct_collect = fhrp_collect, ct_preview = fhrp_task_preview fe,
     ct_push = fhrp_push_tasks fe, ct_dev_host = fe_dev_host fe, ct_managed = True,
     ct_execute = registry_execute (fe_sessions fe),
     ct_connector = (\<lambda>host g. case fe_context fe host of Inl e \<Rightarrow> (Inl e, g)
        | Inr ctx \<Rightarrow> session_provider (fe_sessions fe) (dc_method ctx) host g),
     ct_reconcile = fe_reconcile fe, ct_verify = fhrp_verify_after_push fe, ct_context = fhrp_context\<rparr>"

section \<open>What the verification decides\<close>

text \<open>A show command whose answer is neither an error nor rejected by the device.\<close>

definition shown :: "(string \<Rightarrow> string + string) \<Rightarrow> string \<Rightarrow> string option" where
  "shown answer command = (case sbind (answer command) (checked_output (''Cisco IOS rejected '' @ command)) of
     Inl _ \<Rightarrow> None | Inr out \<Rightarrow> Some out)"

definition has_line :: "string option \<Rightarrow> (string \<Rightarrow> bool) \<Rightarrow> bool" where
  "has_line out P = (case out of None \<Rightarrow> False | Some text \<Rightarrow> list_ex P (normalized_config text))"

text \<open>What a device that answers show commands by \<open>answer\<close> confirms: a removal when the running configuration of the
  interface has no line of the group, a setup when it has the activation line and the group is listed with its
  virtual address.\<close>

definition device_confirms :: "(string \<Rightarrow> string + string) \<Rightarrow> fhrp_check \<Rightarrow> bool" where
  "device_confirms answer c \<longleftrightarrow>
     (let name = strip (opt_text (kc_interface c)); protocol = lower (strip (kc_protocol c));
          running = shown answer (''show running-config interface '' @ name) in
      case map_of SHOW_COMMANDS protocol of
        None \<Rightarrow> False
      | Some brief \<Rightarrow> name \<noteq> [] \<and> running \<noteq> None \<and>
          (if kc_remove c
           then \<not> has_line running (\<lambda>line. starts_with line (keyword_of protocol @ '' '' @ show_int (kc_number c) @ '' ''))
           else has_line running (\<lambda>line. line = lower (activation (keyword_of (kc_protocol c)) (kc_number c) (kc_vip c)))
              \<and> (case shown answer brief of None \<Rightarrow> False | Some out \<Rightarrow> contains out (kc_vip c))))"

definition cache_ok :: "(string \<Rightarrow> string + string) \<Rightarrow> (string \<rightharpoonup> string) \<Rightarrow> bool" where
  "cache_ok answer cache \<longleftrightarrow> (\<forall>command out. cache command = Some out \<longrightarrow> shown answer command = Some out)"

lemma cached_show_steady:
  assumes "\<And>command w. show_cmd command w = (answer command, w)" "cache_ok answer (fst cw)"
  shows "\<exists>cache r. cached_show show_cmd command cw = (r, (cache, snd cw)) \<and> cache_ok answer cache
    \<and> (case r of Inl _ \<Rightarrow> shown answer command = None | Inr out \<Rightarrow> shown answer command = Some out)"
proof (cases "fst cw command")
  case (Some out)
  have "cached_show show_cmd command cw = (Inr out, (fst cw, snd cw))" by (simp add: cached_show_def Some)
  moreover have "shown answer command = Some out" using assms(2) Some by (simp add: cache_ok_def)
  ultimately show ?thesis using assms(2) by (intro exI[of _ "fst cw"] exI[of _ "Inr out"]) simp
next
  case None
  let ?m = "''Cisco IOS rejected '' @ command"
  have run: "cached_show show_cmd command cw = (case sbind (answer command) (checked_output ?m) of
      Inl e \<Rightarrow> (Inl e, (fst cw, snd cw)) | Inr out \<Rightarrow> (Inr out, ((fst cw)(command \<mapsto> out), snd cw)))"
    by (cases "answer command") (simp_all only: cached_show_def None assms(1) sbind_simps option.case sum.case prod.case)
  show ?thesis
  proof (cases "sbind (answer command) (checked_output ?m)")
    case (Inl e)
    then have "shown answer command = None" by (simp add: shown_def)
    then show ?thesis using assms(2) run Inl by (intro exI[of _ "fst cw"] exI[of _ "Inl e"]) (simp del: prod.collapse)
  next
    case (Inr out)
    then have "shown answer command = Some out" by (simp add: shown_def)
    moreover from this have "cache_ok answer ((fst cw)(command \<mapsto> out))" using assms(2) by (simp add: cache_ok_def)
    ultimately show ?thesis using run Inr by simp
  qed
qed

lemma verify_steady:
  assumes "\<And>command w. show_cmd command w = (answer command, w)" "cache_ok answer (fst cw)"
  shows "\<exists>cache r. verify_fhrp_task show_cmd c cw = (r, (cache, snd cw)) \<and> cache_ok answer cache
    \<and> ((\<exists>detail. r = Inr detail) \<longleftrightarrow> device_confirms answer c)"
proof -
  let ?name = "strip (opt_text (kc_interface c))" and ?protocol = "lower (strip (kc_protocol c))"
  show ?thesis
  proof (cases "map_of SHOW_COMMANDS ?protocol = None \<or> ?name = []")
    case True
    then have "\<exists>e. verify_fhrp_task show_cmd c cw = (Inl e, (fst cw, snd cw))"
      by (auto simp: verify_fhrp_task_def Let_def split: option.splits)
    moreover have "\<not> device_confirms answer c" using True by (auto simp: device_confirms_def Let_def split: option.splits)
    ultimately show ?thesis using assms(2) by blast
  next
    case False
    then obtain brief where brief: "map_of SHOW_COMMANDS ?protocol = Some brief" and name: "?name \<noteq> []" by auto
    obtain cache r where run: "cached_show show_cmd (''show running-config interface '' @ ?name) cw = (r, (cache, snd cw))"
      "cache_ok answer cache" "case r of Inl _ \<Rightarrow> shown answer (''show running-config interface '' @ ?name) = None
        | Inr out \<Rightarrow> shown answer (''show running-config interface '' @ ?name) = Some out"
      using cached_show_steady[OF assms, where command = "''show running-config interface '' @ ?name"] by blast
    obtain cache2 r2 where op: "cached_show show_cmd brief (cache, snd cw) = (r2, (cache2, snd cw))" "cache_ok answer cache2"
      "case r2 of Inl _ \<Rightarrow> shown answer brief = None | Inr out \<Rightarrow> shown answer brief = Some out"
      using cached_show_steady[where show_cmd = show_cmd and answer = answer, OF assms(1), of "(cache, snd cw)" brief] run(2)
      unfolding fst_conv snd_conv by blast
    show ?thesis
    proof (cases r)
      case (Inl e)
      then have "verify_fhrp_task show_cmd c cw = (Inl e, (cache, snd cw))" "\<not> device_confirms answer c"
        using run brief name by (simp_all add: verify_fhrp_task_def device_confirms_def Let_def)
      then show ?thesis using run(2) by blast
    next
      case (Inr running)
      have eq: "list_ex (\<lambda>l. l = x) ls \<longleftrightarrow> x \<in> set ls" for x :: string and ls by (auto simp: list_ex_iff)
      have rs: "shown answer (''show running-config interface '' @ ?name) = Some running" using Inr run(3) by simp
      show ?thesis
      proof (cases r2)
        case (Inl e)
        then have "shown answer brief = None" using op(3) by simp
        then show ?thesis
          using Inr Inl run(1,2) rs op(1,2) brief name
          by (cases "kc_remove c") (auto simp: verify_fhrp_task_def device_confirms_def Let_def has_line_def residual_policy_def eq)
      next
        case (Inr out)
        then have "shown answer brief = Some out" using op(3) by simp
        then show ?thesis
          using \<open>r = Inr running\<close> Inr run(1,2) rs op(1,2) brief name
          by (cases "kc_remove c") (auto simp: verify_fhrp_task_def device_confirms_def Let_def has_line_def residual_policy_def eq)
      qed
    qed
  qed
qed

section \<open>What the deferred verification leaves pending\<close>

definition settle_check :: "fhrp_check \<Rightarrow> fhrp_db \<Rightarrow> fhrp_db" where
  "settle_check c db = apply_fhrp_success (kc_remove c) (kc_member c) (kc_group c) db"

definition steady :: "('k, 'n) fhrp_env \<Rightarrow> 'k \<Rightarrow> (string \<Rightarrow> string + string) \<Rightarrow> bool" where
  "steady fe k answer \<longleftrightarrow> (\<forall>command n. fe_show fe k command n = (answer command, n))"

lemma net_show_steady: "steady fe k answer \<Longrightarrow> net_show fe k command g = (answer command, g)"
  by (simp add: net_show_def steady_def)

lemma verify_checks_steady:
  assumes "steady fe k answer" "cache_ok answer (fst cw)"
  shows "\<exists>rs cache. verify_checks fe k cs cw = (rs, (cache, (snd cw)\<lparr>rg_net := (fst (rg_net (snd cw)),
      fold settle_check (filter (device_confirms answer) cs) (snd (rg_net (snd cw))))\<rparr>))
    \<and> map fst rs = map (device_confirms answer) cs"
  using assms(2)
proof (induction cs arbitrary: cw)
  case Nil
  then show ?case by (cases cw) simp
next
  case (Cons c cs)
  obtain cache r where v: "verify_fhrp_task (net_show fe k) c cw = (r, (cache, snd cw))" "cache_ok answer cache"
    "(\<exists>detail. r = Inr detail) \<longleftrightarrow> device_confirms answer c"
    using verify_steady[of "net_show fe k" answer cw c] net_show_steady[OF assms(1)] Cons.prems by blast
  show ?case
  proof (cases r)
    case (Inl e)
    then show ?thesis using Cons.IH[of "(cache, snd cw)"] v by auto
  next
    case (Inr detail)
    let ?g = "(snd cw)\<lparr>rg_net := (fst (rg_net (snd cw)), settle_check c (snd (rg_net (snd cw))))\<rparr>"
    show ?thesis
      using Cons.IH[of "(cache, ?g)"] v Inr by (auto simp: settle_check_def Let_def)
  qed
qed

definition pending_rows :: "fhrp_db \<Rightarrow> string \<Rightarrow> fhrp_member_row list" where
  "pending_rows db host = sort_key fm_id (filter (\<lambda>m. fm_host m = host \<and> pending_status (fm_sync m)) (fh_members db))"

lemma collect_eq:
  assumes "fhrp_ok db" "strip host = host" "host \<noteq> []"
  shows "collect_fhrp_tasks db host = map (\<lambda>m. member_task db (the (find_group db (fm_group m))) m) (pending_rows db host)"
proof -
  have g: "\<exists>g. find_group db (fm_group m) = Some g" if "m \<in> set (fh_members db)" for m
  proof -
    have "find_group db (fm_group m) \<noteq> None"
      using assms(1) that by (auto simp: find_group_None fhrp_ok_def members_ok_def)
    then show ?thesis by blast
  qed
  have "List.map_filter (\<lambda>m. map_option (\<lambda>g. member_task db g m) (find_group db (fm_group m))) ms
    = map (\<lambda>m. member_task db (the (find_group db (fm_group m))) m) ms" if "set ms \<subseteq> set (fh_members db)" for ms
    using that
  proof (induction ms)
    case (Cons a ms)
    then show ?case using g[of a] by (auto simp: List.map_filter_simps)
  qed (simp add: List.map_filter_simps)
  then show ?thesis using assms(2,3) by (simp add: collect_fhrp_tasks_def pending_rows_def Let_def)
qed

lemma delete_group_empty:
  assumes "group_members db i = []"
  shows "delete_group i db = db\<lparr>fh_groups := filter (\<lambda>g. fg_id g \<noteq> i) (fh_groups db)\<rparr>"
proof -
  have no: "\<forall>m \<in> set (fh_members db). fm_group m \<noteq> i" using assms by (simp add: group_members_def filter_empty_conv)
  then have "{m \<in> set (fh_members db). fm_group m = i} = {}" "filter (\<lambda>m. fm_group m \<noteq> i) (fh_members db) = fh_members db"
    by auto

  then have "delete_members (\<lambda>m. fm_group m = i) db = db" by (simp add: delete_members_def Let_def restrict_map_def)
  then show ?thesis by (simp add: delete_group_def)
qed

text \<open>The rows and the groups one acknowledgement leaves.\<close>

definition settled_row :: "int \<Rightarrow> fhrp_member_row \<Rightarrow> fhrp_member_row" where
  "settled_row mid m = (if fm_id m = mid then m\<lparr>fm_sync := Synchronized, fm_restore := None\<rparr> else m)"

lemma settle_members: "fh_members (settle_check c db) =
    (if kc_remove c then filter (\<lambda>m. fm_id m \<noteq> kc_member c) (fh_members db) else map (settled_row (kc_member c)) (fh_members db))"
  by (auto simp: settle_check_def apply_fhrp_success_def Let_def delete_group_def group_members_def filter_empty_conv
      settled_row_def intro!: filter_cong)

lemma settle_group: "find_group (settle_check c db) i =
    (if kc_remove c \<and> i = kc_group c \<and> group_members (settle_check c db) i = [] then None else find_group db i)"
proof (cases "kc_remove c")
  case False
  then show ?thesis by (simp add: settle_check_def apply_fhrp_success_def find_group_def)
next
  case True
  let ?db = "delete_members (\<lambda>m. fm_id m = kc_member c) db"
  have "group_members (settle_check c db) i = group_members ?db i"
    unfolding group_members_def settle_members using True by simp
  moreover have "find_group (settle_check c db) i =
      (if i = kc_group c \<and> group_members ?db (kc_group c) = [] then None else find_group db i)"
    using True by (auto simp: settle_check_def apply_fhrp_success_def Let_def find_group_delete_group)
  ultimately show ?thesis using True by auto
qed

lemma settle_other_member:
  assumes "fhrp_ok db" "m \<in> set (fh_members db)" "fm_id m \<noteq> kc_member c"
  shows "member_task (settle_check c db) g m = member_task db g m"
proof -
  let ?i = "fm_id m"
  have tr: "filter (\<lambda>t. ft_member t = ?i \<and> pending_status (ft_sync t)) (fh_tracks (settle_check c db))
      = filter (\<lambda>t. ft_member t = ?i \<and> pending_status (ft_sync t)) (fh_tracks db)"
    and op: "fh_hsrp (settle_check c db) ?i = fh_hsrp db ?i" "fh_vrrp (settle_check c db) ?i = fh_vrrp db ?i"
      "fh_glbp (settle_check c db) ?i = fh_glbp db ?i"
  proof -
    let ?P = "\<lambda>m. fm_id m = kc_member c" and ?db = "delete_members (\<lambda>m. fm_id m = kc_member c) db"
    have keep: "?i \<notin> fm_id ` {m \<in> set (fh_members db). ?P m}" using assms(3) by auto
    have d: "filter (\<lambda>t. ft_member t = ?i \<and> pending_status (ft_sync t)) (fh_tracks ?db)
        = filter (\<lambda>t. ft_member t = ?i \<and> pending_status (ft_sync t)) (fh_tracks db)"
      using assms(3) by (auto intro!: filter_cong)
    have o: "fh_hsrp ?db ?i = fh_hsrp db ?i" "fh_vrrp ?db ?i = fh_vrrp db ?i" "fh_glbp ?db ?i = fh_glbp db ?i"
      using keep by (simp_all add: delete_members_def Let_def)
    have s: "filter (\<lambda>t. ft_member t = ?i \<and> pending_status (ft_sync t)) (map (\<lambda>t. if ft_member t = kc_member c \<and> ft_sync t = PendingApply
        then t\<lparr>ft_sync := Synchronized, ft_restore := None\<rparr> else t) ts)
      = filter (\<lambda>t. ft_member t = ?i \<and> pending_status (ft_sync t)) ts" for ts :: "fhrp_track_row list"
      using assms(3) by (induction ts) auto
    show "filter (\<lambda>t. ft_member t = ?i \<and> pending_status (ft_sync t)) (fh_tracks (settle_check c db))
      = filter (\<lambda>t. ft_member t = ?i \<and> pending_status (ft_sync t)) (fh_tracks db)"
      "fh_hsrp (settle_check c db) ?i = fh_hsrp db ?i" "fh_vrrp (settle_check c db) ?i = fh_vrrp db ?i"
      "fh_glbp (settle_check c db) ?i = fh_glbp db ?i"
      using d o s by (simp_all add: settle_check_def apply_fhrp_success_def Let_def delete_group_empty)
  qed
  have inv: "fh_ifaces (settle_check c db) = fh_ifaces db" "fh_svis (settle_check c db) = fh_svis db"
    by (simp_all add: settle_check_def apply_fhrp_success_def Let_def delete_group_def)
  have "member_interface (settle_check c db) m = member_interface db m"
    unfolding member_interface_def inv ..
  moreover have "member_options (settle_check c db) p ?i = member_options db p ?i" for p
    unfolding member_options_def op ..
  moreover have "member_tracks (settle_check c db) ?i = member_tracks db ?i" unfolding member_tracks_def tr ..
  ultimately show ?thesis unfolding member_task_def by (simp only:)
qed

lemma settle_ok: "fhrp_ok db \<Longrightarrow> fhrp_ok (settle_check c db)"
  unfolding settle_check_def by (rule apply_success_ok)

lemma pending_rows_settle: "pending_rows (settle_check c db) host = filter (\<lambda>m. fm_id m \<noteq> kc_member c) (pending_rows db host)"
proof -
  have "filter (\<lambda>m. fm_host m = host \<and> pending_status (fm_sync m)) (map (settled_row (kc_member c)) ms)
    = filter (\<lambda>m. fm_id m \<noteq> kc_member c \<and> fm_host m = host \<and> pending_status (fm_sync m)) ms" for ms :: "fhrp_member_row list"
    by (induction ms) (auto simp: settled_row_def pending_status_def)
  then show ?thesis
    by (simp add: pending_rows_def settle_members filter_sort conj_commute conj_left_commute)
qed

lemma find_group_settled:
  assumes "fhrp_ok db" "m \<in> set (fh_members (settle_check c db))"
  shows "find_group (settle_check c db) (fm_group m) = find_group db (fm_group m)"
  using assms(2) by (auto simp: settle_group group_members_def filter_empty_conv)

lemma kt_member_task: "kt_member (member_task db g m) = fm_id m"
  by (simp add: member_task_def)

lemma collect_settle:
  assumes "fhrp_ok db" "strip host = host" "host \<noteq> []"
  shows "collect_fhrp_tasks (settle_check c db) host = filter (\<lambda>t. kt_member t \<noteq> kc_member c) (collect_fhrp_tasks db host)"
proof -
  have "member_task (settle_check c db) (the (find_group (settle_check c db) (fm_group m))) m
      = member_task db (the (find_group db (fm_group m))) m"
    if "m \<in> set (pending_rows db host)" "fm_id m \<noteq> kc_member c" for m
  proof -
    have m: "m \<in> set (fh_members db)" using that(1) by (simp add: pending_rows_def)
    then have "m \<in> set (fh_members (settle_check c db))" using that(2) by (force simp: settle_members settled_row_def)
    then show ?thesis
      using find_group_settled[OF assms(1)] settle_other_member[OF assms(1) m that(2)] by simp
  qed
  then show ?thesis
    unfolding collect_eq[OF settle_ok[OF assms(1)] assms(2,3)] collect_eq[OF assms] pending_rows_settle filter_map
    by (auto simp: kt_member_task comp_def intro!: map_cong)
qed

lemma fold_settle_ok: "fhrp_ok db \<Longrightarrow> fhrp_ok (fold settle_check cs db)"
  by (induction cs arbitrary: db) (simp_all add: settle_ok)

lemma collect_fold_settle:
  assumes "fhrp_ok db" "strip host = host" "host \<noteq> []"
  shows "collect_fhrp_tasks (fold settle_check cs db) host
    = filter (\<lambda>t. kt_member t \<notin> kc_member ` set cs) (collect_fhrp_tasks db host)"
  using assms(1)
proof (induction cs arbitrary: db)
  case (Cons c cs)
  show ?case
    using Cons.IH[OF settle_ok[OF Cons.prems]] by (auto simp: collect_settle[OF Cons.prems assms(2,3)] intro!: filter_cong)
qed simp

lemma collected_members:
  assumes "fhrp_ok db" "strip host = host" "host \<noteq> []"
  shows "distinct (map kt_member (collect_fhrp_tasks db host))"
    "t \<in> set (collect_fhrp_tasks db host) \<Longrightarrow> \<exists>m \<in> set (fh_members db). fm_id m = kt_member t \<and> fm_group m = kt_group t
       \<and> fm_host m = host \<and> kt_remove t = (fm_sync m = PendingDelete) \<and> pending_status (fm_sync m)"
proof -
  have "map kt_member (collect_fhrp_tasks db host) = map fm_id (pending_rows db host)"
    by (simp add: collect_eq[OF assms] member_task_def)
  moreover have "distinct (map fm_id (pending_rows db host))"
    using assms(1) by (simp add: pending_rows_def distinct_map fhrp_ok_def members_ok_def inj_on_def)
  ultimately show "distinct (map kt_member (collect_fhrp_tasks db host))" by simp
  show "t \<in> set (collect_fhrp_tasks db host) \<Longrightarrow> \<exists>m \<in> set (fh_members db). fm_id m = kt_member t \<and> fm_group m = kt_group t
       \<and> fm_host m = host \<and> kt_remove t = (fm_sync m = PendingDelete) \<and> pending_status (fm_sync m)"
    by (auto simp: collect_eq[OF assms] member_task_def pending_rows_def)
qed

text \<open>A group goes with its last member.\<close>

lemma fold_settle_groups:
  assumes "fhrp_ok db" "\<forall>c \<in> set cs. \<forall>m \<in> set (fh_members db). fm_id m = kc_member c \<longrightarrow> fm_group m = kc_group c"
  shows "find_group (fold settle_check cs db) i =
    (if (\<exists>c \<in> set cs. kc_remove c \<and> kc_group c = i) \<and> group_members (fold settle_check cs db) i = [] then None else find_group db i)"
  using assms(2)
proof (induction cs rule: rev_induct)
  case (snoc c cs)
  let ?db = "fold settle_check cs db"
  have sub: "\<exists>m' \<in> set (fh_members db). fm_id m' = fm_id m \<and> fm_group m' = fm_group m" if "m \<in> set (fh_members ?db)" for m
    using that
  proof (induction cs arbitrary: m rule: rev_induct)
    case (snoc d ds)
    then obtain m1 where "m1 \<in> set (fh_members (fold settle_check ds db))" "fm_id m1 = fm_id m" "fm_group m1 = fm_group m"
      by (auto simp: settle_members settled_row_def split: if_splits)
    then show ?case using snoc.IH by metis
  qed auto
  have g: "group_members (settle_check c ?db) i = [] \<longleftrightarrow> group_members ?db i = []" if "\<not> (kc_remove c \<and> kc_group c = i)"
  proof (cases "kc_remove c")
    case True
    then have ne: "kc_group c \<noteq> i" using that by simp
    have "fm_id m \<noteq> kc_member c" if "m \<in> set (fh_members ?db)" "fm_group m = i" for m
      using sub[OF that(1)] snoc.prems that(2) ne by force
    then show ?thesis using True by (auto simp: group_members_def settle_members filter_empty_conv)
  next
    case False
    have "filter (\<lambda>m. fm_group m = i) (map (settled_row j) ms) = map (settled_row j) (filter (\<lambda>m. fm_group m = i) ms)" for j ms
      by (rule filter_map_same) (simp add: settled_row_def)
    then show ?thesis using False by (simp add: group_members_def settle_members)
  qed
  have "group_members (settle_check c ?db) i = []" if "group_members ?db i = []"
    using that by (auto simp: group_members_def settle_members filter_empty_conv settled_row_def)
  then show ?case using snoc g by (auto simp: settle_group)
qed simp

text \<open>The queues and the groups after the checks of \<open>ts\<close>, tasks of one host, that \<open>ok\<close> accepts.\<close>

definition settled_by :: "(fhrp_check \<Rightarrow> bool) \<Rightarrow> fhrp_task list \<Rightarrow> fhrp_db \<Rightarrow> fhrp_db" where
  "settled_by ok ts db = fold settle_check (filter ok (map check_of ts)) db"

lemma settled_ids: "kc_member ` set (filter ok (map check_of ts)) = kt_member ` {t \<in> set ts. ok (check_of t)}"
  by (force simp: check_of_def)

lemma settled_queue_same:
  assumes "fhrp_ok db" "set ts \<subseteq> set (collect_fhrp_tasks db host)" "strip host = host" "host \<noteq> []"
  shows "collect_fhrp_tasks (settled_by ok ts db) host
    = filter (\<lambda>t. t \<notin> set ts \<or> \<not> ok (check_of t)) (collect_fhrp_tasks db host)"
proof -
  let ?all = "collect_fhrp_tasks db host"
  have inj: "t = s" if "t \<in> set ?all" "s \<in> set ?all" "kt_member t = kt_member s" for t s
    using collected_members(1)[OF assms(1,3,4)] that by (auto simp: distinct_map dest: inj_onD)
  have "kt_member t \<notin> kt_member ` {t \<in> set ts. ok (check_of t)} \<longleftrightarrow> t \<notin> set ts \<or> \<not> ok (check_of t)"
    if "t \<in> set ?all" for t
    using inj[OF that] assms(2) by blast
  then show ?thesis
    unfolding settled_by_def collect_fold_settle[OF assms(1,3,4)] settled_ids by (intro filter_cong refl)
qed

lemma settled_queue_other:
  assumes "fhrp_ok db" "set ts \<subseteq> set (collect_fhrp_tasks db host)" "strip host = host" "host \<noteq> []"
    "strip h = h" "h \<noteq> []" "h \<noteq> host"
  shows "collect_fhrp_tasks (settled_by ok ts db) h = collect_fhrp_tasks db h"
proof -
  have "kt_member t \<noteq> kt_member s" if "t \<in> set (collect_fhrp_tasks db h)" "s \<in> set (collect_fhrp_tasks db host)" for t s
    using collected_members(2)[OF assms(1,3,4) that(2)] collected_members(2)[OF assms(1,5,6) that(1)] assms(1,7) member_unique
    by (metis fhrp_ok_def)
  then have "kt_member t \<notin> kt_member ` {t \<in> set ts. ok (check_of t)}" if "t \<in> set (collect_fhrp_tasks db h)" for t
    using assms(2) that by blast
  then show ?thesis
    unfolding settled_by_def collect_fold_settle[OF assms(1,5,6)] settled_ids by (intro filter_True) blast
qed

lemma settled_groups:
  assumes "fhrp_ok db" "set ts \<subseteq> set (collect_fhrp_tasks db host)" "strip host = host" "host \<noteq> []"
  shows "find_group (settled_by ok ts db) i =
    (if (\<exists>t \<in> set ts. kt_remove t \<and> kt_group t = i \<and> ok (check_of t)) \<and> group_members (settled_by ok ts db) i = []
     then None else find_group db i)"
proof -
  let ?cs = "filter ok (map check_of ts)"
  have "fm_group x = kc_group c" if c: "c \<in> set ?cs" and x: "x \<in> set (fh_members db)" "fm_id x = kc_member c" for c x
  proof -
    obtain t where t: "t \<in> set (collect_fhrp_tasks db host)" "c = check_of t" using assms(2) c by auto
    obtain y where y: "y \<in> set (fh_members db)" "fm_id y = kt_member t" "fm_group y = kt_group t"
      using collected_members(2)[OF assms(1,3,4) t(1)] by blast
    have "x = y" using member_unique[of db x y] assms(1) x y t(2) by (simp add: check_of_def fhrp_ok_def)
    then show ?thesis using y(3) t(2) by (simp add: check_of_def)
  qed
  then have consistent: "\<forall>c \<in> set ?cs. \<forall>x \<in> set (fh_members db). fm_id x = kc_member c \<longrightarrow> fm_group x = kc_group c"
    by blast
  have "(\<exists>c \<in> set ?cs. kc_remove c \<and> kc_group c = i) \<longleftrightarrow> (\<exists>t \<in> set ts. kt_remove t \<and> kt_group t = i \<and> ok (check_of t))"
    by (auto simp: check_of_def)
  then show ?thesis using fold_settle_groups[OF assms(1) consistent, of i] by (simp add: settled_by_def)
qed

text \<open>The note of a verification counts the confirmed checks.\<close>

lemma verify_note:
  assumes "map fst rs = map P cs"
  shows "length rs - length (filter fst rs) = 0 \<longleftrightarrow> (\<forall>c \<in> set cs. P c)"
proof -
  have "length (filter fst rs) = length (filter id (map fst rs))" by (simp add: filter_map comp_def)
  then have "length (filter fst rs) = length (filter P cs)" by (simp add: assms filter_map comp_def)
  moreover have "length rs = length cs" using arg_cong[OF assms, of length] by simp
  moreover have "length (filter P cs) = length cs \<longleftrightarrow> (\<forall>c \<in> set cs. P c)"
    by (metis filter_id_conv length_filter_less less_irrefl)
  ultimately show ?thesis using length_filter_le[of P cs] by linarith
qed

text \<open>Property C39. What the deferred verification of a push achieves. For a device whose answers do not change during the
  verification, exactly the tasks it confirms are settled: the pending work of the host is what was not confirmed, the
  pending work of every other host is unchanged, a group disappears exactly when its last member was confirmed as
  removed, the schema's constraints hold, and the note says whether everything was confirmed.\<close>

theorem fhrp_verification_settles:
  assumes "fhrp_ok (snd (rg_net g))" "fhrp_collect host m g = Inr ts" "ts \<noteq> []" "steady fe k answer"
  shows "\<exists>n g'. fhrp_verify_after_push fe host m k (fhrp_context ts r) g = (Inr n, g') \<and> fhrp_ok (snd (rg_net g'))
    \<and> nt_ok n = Some (\<forall>t \<in> set ts. device_confirms answer (check_of t))
    \<and> (\<forall>h. strip h = h \<longrightarrow> h \<noteq> [] \<longrightarrow> collect_fhrp_tasks (snd (rg_net g')) h =
         (if h = strip host then filter (\<lambda>t. t \<notin> set ts \<or> \<not> device_confirms answer (check_of t)) (collect_fhrp_tasks (snd (rg_net g)) h)
          else collect_fhrp_tasks (snd (rg_net g)) h))
    \<and> (\<forall>i. find_group (snd (rg_net g')) i =
         (if (\<exists>t \<in> set ts. kt_remove t \<and> kt_group t = i \<and> device_confirms answer (check_of t)) \<and> group_members (snd (rg_net g')) i = []
          then None else find_group (snd (rg_net g)) i))"
proof -
  let ?db = "snd (rg_net g)" and ?cs = "map check_of ts" and ?P = "device_confirms answer"
  let ?g = "g\<lparr>rg_net := (fst (rg_net g), settled_by ?P ts ?db)\<rparr>"
  obtain rs cache where v: "verify_checks fe k ?cs (Map.empty, g) = (rs, (cache, ?g))" "map fst rs = map ?P ?cs"
    using verify_checks_steady[OF assms(4), of "(Map.empty, g)" ?cs] by (auto simp: cache_ok_def settled_by_def)
  have sub: "set ts \<subseteq> set (collect_fhrp_tasks ?db (strip host))"
    using assms(2) by (auto simp: fhrp_collect_def Let_def split: if_splits)
  have host: "strip (strip host) = strip host" "strip host \<noteq> []"
    using sub assms(3) by (auto simp: collect_fhrp_tasks_def Let_def split: if_splits)
  let ?note = "\<lparr>nt_ok = Some (length rs - length (filter fst rs) = 0), nt_message = ''Deferred FHRP verification completed: ''
      @ show_nat (length (filter fst rs)) @ '' succeeded, '' @ show_nat (length rs - length (filter fst rs)) @ '' failed.''\<rparr>"
  have run: "fhrp_verify_after_push fe host m k (fhrp_context ts r) g = (Inr ?note, ?g)"
    using assms(3) v(1) by (simp add: fhrp_verify_after_push_def fhrp_context_def Let_def)
  have said: "nt_ok ?note = Some (\<forall>t \<in> set ts. ?P (check_of t))" using verify_note[OF v(2)] by simp
  have "fhrp_ok (settled_by ?P ts ?db)" unfolding settled_by_def by (rule fold_settle_ok[OF assms(1)])
  then show ?thesis
    using run said settled_queue_same[OF assms(1) sub host] settled_queue_other[OF assms(1) sub host]
      settled_groups[OF assms(1) sub host]
    by (intro exI[of _ ?note] exI[of _ ?g]) simp
qed

section \<open>A sample\<close>

definition sample_answer :: "string \<Rightarrow> string + string" where
  "sample_answer command =
     (if command = ''show running-config interface GigabitEthernet0/0'' then Inr (''interface GigabitEthernet0/0'' @ [CHR ''\<newline>'']
        @ '' standby version 2'' @ [CHR ''\<newline>''] @ '' standby 10 ip 192.168.1.1'' @ [CHR ''\<newline>''])
      else Inr ''Gi0/0 10 110 P Active local unknown 192.168.1.1'')"

definition sample_fhrp_env :: "(nat, nat) fhrp_env" where
  "sample_fhrp_env = \<lparr>fe_sessions = \<lparr>se_device = (\<lambda>h w. None), se_create = (\<lambda>d w. (Inl ''offline'', w)),
       se_connect = (\<lambda>k w. (Inr False, w)), se_reason = (\<lambda>k w. ''offline''), se_prepare = (\<lambda>k w. (Inr (), w)),
       se_alive = (\<lambda>k w. True), se_connection = (\<lambda>k w. True), se_disconnect = (\<lambda>k w. w), se_time = (\<lambda>w. 0)\<rparr>,
     fe_context = (\<lambda>h. Inr \<lparr>dc_template = ''cisco_ios'', dc_platform = ''Cisco IOS'', dc_method = ''ssh''\<rparr>),
     fe_send = (\<lambda>k cs n. (Inr [], n)), fe_show = (\<lambda>k command n. (sample_answer command, n)),
     fe_dev_host = (\<lambda>h. False), fe_reconcile = None\<rparr>"

definition sample_fhrp_world :: "(nat, nat \<times> fhrp_db) registry" where
  "sample_fhrp_world = \<lparr>rg_hosts = [''10.0.0.1'' \<mapsto> 0],
     rg_entries = (\<lambda>i. (new_entry ''10.0.0.1'')\<lparr>en_connector := Some 0, en_state := Connected\<rparr>),
     rg_next = 1, rg_net = (0, saved_fhrp_db)\<rparr>"

definition sample_fhrp_tasks :: "fhrp_task list" where
  "sample_fhrp_tasks = collect_fhrp_tasks saved_fhrp_db ''10.0.0.1''"

lemma sample_fhrp_collected: "fhrp_collect ''10.0.0.1'' ''all'' sample_fhrp_world = Inr sample_fhrp_tasks"
proof -
  have "strip ''10.0.0.1'' = ''10.0.0.1''" "lower (strip (text_default ''all'' ''all'')) \<notin> {''hsrp'', ''vrrp'', ''glbp''}"
    by code_simp+
  then show ?thesis by (simp add: fhrp_collect_def sample_fhrp_tasks_def sample_fhrp_world_def Let_def)
qed

lemma sample_fhrp_confirmed:
  "map kt_member sample_fhrp_tasks = [1] \<and> list_all (\<lambda>t. device_confirms sample_answer (check_of t)) sample_fhrp_tasks"
  by code_simp

theorem fhrp_verification_settles_witness:
  "\<exists>n g'. fhrp_verify_after_push sample_fhrp_env ''10.0.0.1'' ''all'' 0
       (fhrp_context sample_fhrp_tasks (fhrp_push_reply [])) sample_fhrp_world = (Inr n, g')
     \<and> nt_ok n = Some True \<and> collect_fhrp_tasks (snd (rg_net g')) ''10.0.0.1'' = []"
proof -
  have ok: "fhrp_ok (snd (rg_net sample_fhrp_world))" using saved_fhrp_ok by (simp add: sample_fhrp_world_def)
  have ne: "sample_fhrp_tasks \<noteq> []" using sample_fhrp_confirmed by force
  have st: "steady sample_fhrp_env 0 sample_answer" by (simp add: steady_def sample_fhrp_env_def)
  have host: "strip ''10.0.0.1'' = ''10.0.0.1''" by code_simp
  have all: "\<forall>t \<in> set sample_fhrp_tasks. device_confirms sample_answer (check_of t)"
    using sample_fhrp_confirmed by (simp add: list_all_iff)
  have own: "collect_fhrp_tasks (snd (rg_net sample_fhrp_world)) ''10.0.0.1'' = sample_fhrp_tasks"
    by (simp add: sample_fhrp_world_def sample_fhrp_tasks_def)
  obtain n g' where v: "fhrp_verify_after_push sample_fhrp_env ''10.0.0.1'' ''all'' 0
       (fhrp_context sample_fhrp_tasks (fhrp_push_reply [])) sample_fhrp_world = (Inr n, g')"
    "nt_ok n = Some (\<forall>t \<in> set sample_fhrp_tasks. device_confirms sample_answer (check_of t))"
    "\<forall>h. strip h = h \<longrightarrow> h \<noteq> [] \<longrightarrow> collect_fhrp_tasks (snd (rg_net g')) h =
         (if h = strip ''10.0.0.1'' then filter (\<lambda>t. t \<notin> set sample_fhrp_tasks \<or> \<not> device_confirms sample_answer (check_of t))
            (collect_fhrp_tasks (snd (rg_net sample_fhrp_world)) h)
          else collect_fhrp_tasks (snd (rg_net sample_fhrp_world)) h)"
    using fhrp_verification_settles[OF ok sample_fhrp_collected ne st, of "fhrp_push_reply []"] by (elim exE conjE) (rule that)
  have "collect_fhrp_tasks (snd (rg_net g')) ''10.0.0.1'' = []"
    using v(3)[rule_format, OF host] host own all by (simp add: filter_empty_conv)
  then show ?thesis using v(1,2) all by (intro exI conjI) simp_all
qed

end
