(* ===== verification/Fhrp_Preview.thy ===== *)
theory Fhrp_Preview
  imports Fhrp_Push
begin

text \<open>
  What a preview of a gateway redundancy task shows (\<open>preview_task\<close> of \<open>features/fhrp/view_push.py\<close> over
  \<open>redact_commands\<close> of \<open>commands.py\<close>): the rendered lines of a task contain its secret in one line at most, as the last
  word of an authentication line, and the redaction removes that word.
\<close>

section \<open>Lines and words of a rendered text\<close>

lemma newline_code: "code (CHR ''\<newline>'') = 10"
  by code_simp

lemma lines_from_append: "lines_from w (a @ CHR ''\<newline>'' # b) = lines_from w (a @ [CHR ''\<newline>'']) @ lines_from [] b"
  by (induction a arbitrary: w) (auto simp: newline_code)

lemma join_crlf_append: "join_crlf (a @ CHR ''\<newline>'' # b) = join_crlf (a @ [CHR ''\<newline>'']) @ join_crlf b"
  by (induction a rule: join_crlf.induct; cases b) (auto simp: newline_code)

lemma join_crlf_end: "\<exists>x. join_crlf (a @ [CHR ''\<newline>'']) = x @ [CHR ''\<newline>'']"
  by (induction a rule: join_crlf.induct) (auto simp: newline_code)

lemma split_lines_append: "split_lines (a @ CHR ''\<newline>'' # b) = split_lines (a @ [CHR ''\<newline>'']) @ split_lines b"
proof -
  obtain x where "join_crlf (a @ [CHR ''\<newline>'']) = x @ [CHR ''\<newline>'']" using join_crlf_end by blast
  then show ?thesis
    using lines_from_append[of "[]" x "join_crlf b"] by (simp add: split_lines_def join_crlf_append[of a b])
qed

lemma join_Cons: "ys \<noteq> [] \<Longrightarrow> join sep (x # ys) = x @ sep @ join sep ys"
  by (cases ys) simp_all

lemma join_append: "xs \<noteq> [] \<Longrightarrow> ys \<noteq> [] \<Longrightarrow> join sep (xs @ ys) = join sep xs @ sep @ join sep ys"
proof (induction xs)
  case (Cons x xs)
  then show ?case by (cases "xs = []") (simp_all add: join_Cons)
qed simp

lemma split_join_append: "xs \<noteq> [] \<Longrightarrow> ys \<noteq> [] \<Longrightarrow>
    split_lines (join [CHR ''\<newline>''] (xs @ ys)) = split_lines (join [CHR ''\<newline>''] xs @ [CHR ''\<newline>'']) @ split_lines (join [CHR ''\<newline>''] ys)"
  using split_lines_append[of "join [CHR ''\<newline>''] xs" "join [CHR ''\<newline>''] ys"] by (simp add: join_append)

text \<open>Words without blanks.\<close>

lemma words_from_word: "list_all (\<lambda>c. \<not> is_space c) s \<Longrightarrow> words_from w (s @ r) = words_from (w @ s) r"
  by (induction s arbitrary: w) auto

lemma words_from_prefix:
  "is_space c \<Longrightarrow> words_from w (a @ c # b) = words_from w (a @ [c]) @ words_from [] b"
  by (induction a arbitrary: w) auto

lemma words_prefix: "is_space c \<Longrightarrow> list_all (\<lambda>c. \<not> is_space c) s \<Longrightarrow> s \<noteq> [] \<Longrightarrow> words (a @ [c] @ s) = words (a @ [c]) @ [s]"
  using words_from_prefix[of c "[]" a s] words_from_word[of s "[]" "[]"] by (simp add: words_def)

definition plain_text :: "string \<Rightarrow> bool" where
  "plain_text s = list_all (\<lambda>c. code c \<notin> {10, 11, 12, 13, 28, 29, 30}) s"

lemma plain_text_append [simp]: "plain_text (a @ b) \<longleftrightarrow> plain_text a \<and> plain_text b"
  by (simp add: plain_text_def)

lemma split_plain: "plain_text x \<Longrightarrow> split_lines (x @ [CHR ''\<newline>'']) = [x]"
proof -
  assume "plain_text x"
  then have a: "list_all (\<lambda>c. code c \<notin> {10, 11, 12, 13, 28, 29, 30}) x" by (simp add: plain_text_def)
  then have "join_crlf (x @ [CHR ''\<newline>'']) = x @ [CHR ''\<newline>'']"
    by (induction x rule: join_crlf.induct) auto
  moreover have "lines_from w (x @ [CHR ''\<newline>'']) = [w @ x]" for w
    using a by (induction x arbitrary: w) (auto simp: newline_code)
  ultimately show ?thesis by (simp add: split_lines_def)
qed

lemma contains_middle: "contains (a @ p @ b) p"
proof (induction a)
  case Nil
  have "starts_with (p @ b) p" by (induction p) auto
  then show ?case by (cases "p @ b") auto
qed auto

text \<open>What a preview shows of a rendered text, line by line.\<close>

definition shown_lines :: "string \<Rightarrow> string list" where
  "shown_lines x = redact_fhrp_commands (filter (\<lambda>l. l \<noteq> [] \<and> \<not> starts_with l ''!'') (map strip (split_lines x)))"

lemma shown_append: "xs \<noteq> [] \<Longrightarrow> ys \<noteq> [] \<Longrightarrow> shown_lines (join [CHR ''\<newline>''] (xs @ ys))
    = shown_lines (join [CHR ''\<newline>''] xs @ [CHR ''\<newline>'']) @ shown_lines (join [CHR ''\<newline>''] ys)"
  by (simp add: shown_lines_def redact_fhrp_commands_def split_join_append)

text \<open>The beginning of a line that ends with a secret.\<close>

definition secret_head :: "string \<Rightarrow> bool" where
  "secret_head p \<longleftrightarrow> (\<exists>keyword n mid. keyword \<in> {''standby '', ''vrrp '', ''glbp ''} \<and> p = keyword @ show_int n @ '' authentication '' @ mid
     \<and> mid \<in> {[], ''text '', ''md5 key-string '', ''md5 key-chain ''})"

definition secret_ok :: "string \<Rightarrow> bool" where
  "secret_ok s \<longleftrightarrow> s \<noteq> [] \<and> list_all (\<lambda>c. \<not> is_space c) s"

lemma not_space_not_break: "\<not> is_space c \<Longrightarrow> code c \<notin> {10, 11, 12, 13, 28, 29, 30}"
  by (auto simp: is_space_def Let_def)

lemma spaceless_plain: "list_all (\<lambda>c. \<not> is_space c) s \<Longrightarrow> plain_text s"
  unfolding plain_text_def using not_space_not_break by (auto simp only: list_all_iff)

lemma show_int_plain: "plain_text (show_int n)"
proof -
  have "\<not> is_space (CHR ''-'')" by code_simp
  then have "list_all (\<lambda>c. \<not> is_space c) (show_int n)"
    using show_nat_digits digit_not_space by (auto simp: show_int_def list_all_iff)
  then show ?thesis by (rule spaceless_plain)
qed

lemma space_blank: "is_space (CHR '' '')"
  by code_simp

lemma heads_plain: "list_all plain_text [''standby '', ''vrrp '', ''glbp '', [], ''text '', ''md5 key-string '', ''md5 key-chain '', '' authentication '']"
  by code_simp

lemma heads_shown: "list_all (\<lambda>k. k \<noteq> [] \<and> \<not> is_space (hd k) \<and> hd k \<noteq> CHR ''!'') [''standby '', ''vrrp '', ''glbp '']"
  by code_simp

lemma secret_line_hidden:
  assumes "secret_head p" "secret_ok s" "secret_ok s'"
  shows "shown_lines ((p @ s) @ [CHR ''\<newline>'']) = shown_lines ((p @ s') @ [CHR ''\<newline>''])"
proof -
  obtain keyword n mid where p: "keyword \<in> {''standby '', ''vrrp '', ''glbp ''}" "p = keyword @ show_int n @ '' authentication '' @ mid"
     "mid \<in> {[], ''text '', ''md5 key-string '', ''md5 key-chain ''}"
    using assms(1) by (auto simp: secret_head_def)
  have plain: "plain_text p"
    unfolding p(2) plain_text_append using p(1,3) show_int_plain[of n] heads_plain by auto
  have ends: "\<exists>q. p = q @ '' ''"
  proof -
    have "\<exists>r. '' authentication '' @ mid = r @ '' ''" using p(3)
      by (elim insertE) (rule exI[of _ "butlast ('' authentication '' @ mid)"]; simp)+
    then show ?thesis unfolding p(2) by (metis append_assoc)
  qed
  then obtain q where q: "p = q @ '' ''" ..
  have hd: "p \<noteq> []" "\<not> is_space (hd p)" "\<not> starts_with (p @ x) ''!''" for x
  proof -
    have k: "keyword \<noteq> []" "\<not> is_space (hd keyword)" "hd keyword \<noteq> CHR ''!''" using p(1) heads_shown by auto
    then have h: "hd p = hd keyword" "p \<noteq> []" by (simp_all add: p(2))
    then show "p \<noteq> []" "\<not> is_space (hd p)" "\<not> starts_with (p @ x) ''!''" using k by (simp_all, cases p) auto
  qed
  have "shown_lines ((p @ s) @ [CHR ''\<newline>'']) = [join '' '' (words p @ [''<redacted>''])]" if "secret_ok s" for s
  proof -
    have s: "s \<noteq> []" "list_all (\<lambda>c. \<not> is_space c) s" using that by (simp_all add: secret_ok_def)
    have "split_lines ((p @ s) @ [CHR ''\<newline>'']) = [p @ s]" using plain spaceless_plain[OF s(2)] by (intro split_plain) simp
    moreover have "strip (p @ s) = p @ s"
      using s hd(1,2) by (intro strip_id) (auto simp: list_all_iff)
    moreover have "words (p @ s) = words p @ [s]"
      using words_prefix[of "CHR '' ''" s q] s space_blank unfolding q by simp
    moreover have "contains ('' '' @ lower (p @ s) @ '' '') '' authentication ''"
    proof -
      have low: "lower '' authentication '' = '' authentication ''" by code_simp
      have "'' '' @ lower (p @ s) @ '' '' = ('' '' @ lower (keyword @ show_int n)) @ '' authentication '' @ lower (mid @ s) @ '' ''"
        unfolding p(2) using low by (simp only: lower_def map_append append_assoc)
      then show ?thesis by (metis contains_middle)
    qed
    ultimately show ?thesis
      using hd s by (simp add: shown_lines_def redact_fhrp_commands_def redact_fhrp_command_def)
  qed
  then show ?thesis using assms(2,3) by simp
qed

lemma secret_text_hidden:
  assumes "secret_head p" "secret_ok s" "secret_ok s'" "as \<noteq> []" "bs \<noteq> []"
  shows "shown_lines (join [CHR ''\<newline>''] (as @ [p @ s] @ bs)) = shown_lines (join [CHR ''\<newline>''] (as @ [p @ s'] @ bs))"
  using assms(4,5) secret_line_hidden[OF assms(1-3)] by (simp add: shown_append[of as] shown_append[of "[_]"] del: append_Cons append.simps)

text \<open>Lines that do not depend on the secret, or of which one line ends with it.\<close>

definition one_secret_line :: "(string \<Rightarrow> string list) \<Rightarrow> bool" where
  "one_secret_line f \<longleftrightarrow> (\<exists>p as bs. secret_head p \<and> (\<forall>s. f s = as @ [p @ s] @ bs)) \<or> (\<forall>s s'. f s = f s')"

lemma one_secret_before: "one_secret_line f \<Longrightarrow> one_secret_line (\<lambda>s. xs @ f s)"
  unfolding one_secret_line_def by (metis append_assoc)

lemma one_secret_after: "one_secret_line f \<Longrightarrow> one_secret_line (\<lambda>s. f s @ xs)"
  unfolding one_secret_line_def by (metis append_assoc)

lemma one_secret_const: "one_secret_line (\<lambda>s. xs)"
  by (simp add: one_secret_line_def)

lemma one_secret_single: "secret_head p \<Longrightarrow> one_secret_line (\<lambda>s. [p @ s])"
  unfolding one_secret_line_def by (metis append_Nil append_Nil2)

lemma secret_headI:
  "keyword \<in> {''standby '', ''vrrp '', ''glbp ''} \<Longrightarrow> mid \<in> {[], ''text '', ''md5 key-string '', ''md5 key-chain ''}
     \<Longrightarrow> secret_head (keyword @ show_int n @ '' authentication '' @ mid)"
  unfolding secret_head_def by blast

lemma auth_line_secret:
  assumes "keyword \<in> {''standby '', ''vrrp '', ''glbp ''}" "plain \<in> {[], ''text ''}"
  shows "one_secret_line (\<lambda>s. auth_line (keyword @ show_int n) plain auth (Some s))"
proof -
  have one: "one_secret_line (\<lambda>s. [keyword @ show_int n @ '' authentication '' @ mid @ s])"
    if "mid \<in> {[], ''text '', ''md5 key-string '', ''md5 key-chain ''}" for mid
    using one_secret_single[OF secret_headI[OF assms(1) that, of n]] by simp
  have "plain \<in> {[], ''text '', ''md5 key-string '', ''md5 key-chain ''}" using assms(2) by blast
  then show ?thesis
    using one[of plain] one[of "''md5 key-string ''"] one[of "''md5 key-chain ''"] one_secret_const[of "[]"]
    by (cases "auth = ''plain''"; cases "auth = ''md5-key''"; cases "auth = ''md5-keychain''") (simp_all add: auth_line_def secret_text_def)
qed

lemma vrrp_auth_secret:
  "one_secret_line (\<lambda>s. lines_when c [(''vrrp '' @ show_int n) @ '' authentication text '' @ secret_text (Some s)])"
proof (cases c)
  case True
  then show ?thesis
    using one_secret_single[OF secret_headI[of "''vrrp ''" "''text ''" n]] by (simp add: lines_when_def secret_text_def)
qed (simp add: lines_when_def one_secret_const)

lemma setup_lines_secret: "one_secret_line (\<lambda>s. setup_lines t (policy, auth, Some s))"
proof (cases policy)
  case (Hsrp p)
  show ?thesis unfolding Hsrp setup_lines.simps Let_def
    by (intro one_secret_before one_secret_after auth_line_secret) simp_all
next
  case (Vrrp p)
  show ?thesis unfolding Vrrp setup_lines.simps Let_def
    by (intro one_secret_before one_secret_after vrrp_auth_secret)
next
  case (Glbp p)
  show ?thesis unfolding Glbp setup_lines.simps Let_def
    by (intro one_secret_before one_secret_after auth_line_secret) simp_all
qed

lemma remove_lines_secret: "remove_lines t (policy, auth, Some s) = remove_lines t (policy, auth, Some s')"
  by (cases policy) simp_all

lemma redact_render:
  "map_sum id redact_fhrp_commands (render_fhrp_commands t folder) =
    (if template_folder_of folder \<noteq> ''cisco_ios'' then Inl (''FHRP template is not available for '' @ folder)
     else case kt_options t of None \<Rightarrow> Inl ''object has no attribute''
       | Some options \<Rightarrow> Inr (shown_lines (join [CHR ''\<newline>''] ([''interface '' @ interface_text (kt_interface t)]
           @ (if kt_remove t then remove_lines t options else setup_lines t options) @ [''exit'']))))"
  by (simp add: render_fhrp_commands_def shown_lines_def redact_fhrp_commands_def split: option.split)

lemma one_secret_hidden:
  assumes "one_secret_line f" "secret_ok s" "secret_ok s'"
  shows "shown_lines (join [CHR ''\<newline>''] ([x] @ f s @ [y])) = shown_lines (join [CHR ''\<newline>''] ([x] @ f s' @ [y]))"
  using assms(1) unfolding one_secret_line_def
proof (elim disjE exE conjE)
  fix p as bs assume "secret_head p" and f: "\<forall>s. f s = as @ [p @ s] @ bs"
  then show ?thesis using secret_text_hidden[OF _ assms(2,3), of p "[x] @ as" "bs @ [y]"] by simp
next
  assume "\<forall>s s'. f s = f s'"
  then show ?thesis by metis
qed

text \<open>Property C40. A preview shows nothing of an authentication secret: two tasks that differ only in their secrets, of
  any protocol, any authentication type, staged for setup or removal, have the same preview. The secrets are nonempty
  words, which is what the redaction by the last word of a line is made for.\<close>

theorem fhrp_preview_hides_secret:
  assumes "s \<noteq> []" "s' \<noteq> []" "list_all (\<lambda>c. \<not> is_space c) (s @ s')"
  shows "fhrp_task_preview fe (t\<lparr>kt_options := Some (policy, auth, Some s)\<rparr>) m
    = fhrp_task_preview fe (t\<lparr>kt_options := Some (policy, auth, Some s')\<rparr>) m"
proof -
  let ?t = "\<lambda>s. t\<lparr>kt_options := Some (policy, auth, Some s)\<rparr>"
  have ok: "secret_ok s" "secret_ok s'" using assms by (simp_all add: secret_ok_def)
  have lines: "setup_lines (?t x) o' = setup_lines t o'" "remove_lines (?t x) o' = remove_lines t o'" for x o'
    by (cases o', cases "fst o'", simp_all)+
  have "map_sum id redact_fhrp_commands (render_fhrp_commands (?t s) folder)
    = map_sum id redact_fhrp_commands (render_fhrp_commands (?t s') folder)" for folder
    unfolding redact_render using one_secret_hidden[OF setup_lines_secret ok] remove_lines_secret[of t policy auth s s']
    by (simp add: lines del: append.simps)
  moreover have "fhrp_task_preview fe u m = sbind (fe_context fe (kt_host u)) (\<lambda>ctx.
     sbind (map_sum id redact_fhrp_commands (render_fhrp_commands u (dc_template ctx))) (\<lambda>shown.
     Inr ((''# '' @ kt_host u @ '' / '' @ upper (kt_protocol u) @ '' / '' @ (if kt_remove u then ''REMOVE'' else ''SETUP'')) # shown)))" for u
  proof -
    have "sbind r (\<lambda>c. Inr (h # redact_fhrp_commands c)) = sbind (map_sum id redact_fhrp_commands r) (\<lambda>c. Inr (h # c))"
      for r :: "string + string list" and h by (cases r) simp_all
    then show ?thesis unfolding fhrp_task_preview_def by metis
  qed
  ultimately show ?thesis by simp
qed

theorem fhrp_preview_hides_secret_witness:
  "fhrp_task_preview sample_fhrp_env ((hd sample_fhrp_tasks)\<lparr>kt_options := Some (sample_policy, ''md5-key'', Some ''alpha'')\<rparr>) ''all''
    = fhrp_task_preview sample_fhrp_env ((hd sample_fhrp_tasks)\<lparr>kt_options := Some (sample_policy, ''md5-key'', Some ''beta'')\<rparr>) ''all''"
proof (rule fhrp_preview_hides_secret)
  show "list_all (\<lambda>c. \<not> is_space c) (''alpha'' @ ''beta'')" by code_simp
qed simp_all

end
