(* ===== verification/Batch.thy ===== *)
theory Batch
  imports View_Push Py_Values "HOL-Library.Multiset"
begin

text \<open>
  Operations on many hosts: \<open>BatchExecutor\<close> (\<open>infrastructure/network/batch_executor.py\<close>) and
  \<open>ViewPushBatchService\<close> (\<open>core/view_push_batch.py\<close>).

  The pool's scheduling is the argument \<open>finish\<close>, the hosts in the order in which their futures
  complete, and \<open>stopped\<close>, whether the cancel event was set when the pool started a host. The worker
  is a function of the host. The calling thread's callbacks are the returned events; the \<open>running\<close>
  event of a host comes from the pool's thread and is the first component of \<open>invoke\<close>.
\<close>

section \<open>The executor\<close>

record worker_reply =
  wr_ok :: bool
  wr_severity :: "string option"
  wr_message :: "string option"

record host_result =
  hr_host :: string
  hr_ok :: bool
  hr_severity :: string
  hr_message :: string
  hr_state :: string

datatype batch_event = HostEvent string string string nat | Progress nat nat nat nat

definition pool_size :: "int \<Rightarrow> int" where
  "pool_size n = min 20 (max 1 n)"

definition finish_result :: "string \<Rightarrow> worker_reply \<Rightarrow> host_result" where
  "finish_result host r =
     (let severity = (case wr_severity r of Some s \<Rightarrow> s | None \<Rightarrow> if wr_ok r then ''success'' else ''error'')
      in \<lparr>hr_host = host, hr_ok = wr_ok r, hr_severity = severity,
          hr_message = (case wr_message r of Some m \<Rightarrow> m | None \<Rightarrow> ''Operation finished for '' @ host @ ''.''),
          hr_state = (if severity = ''cancelled'' then ''cancelled''
                      else if wr_ok r then ''success'' else ''error'')\<rparr>)"

definition invoke :: "(string \<Rightarrow> string + worker_reply) \<Rightarrow> (string \<Rightarrow> bool) \<Rightarrow> string \<Rightarrow> batch_event list \<times> host_result" where
  "invoke worker stopped host =
     (if stopped host then
        ([], \<lparr>hr_host = host, hr_ok = False, hr_severity = ''cancelled'', hr_message = ''Cancelled before start.'',
              hr_state = ''cancelled''\<rparr>)
      else
        ([HostEvent host ''running'' (''Running operation for '' @ host @ ''.'') 10],
         finish_result host (case worker host of
             Inr r \<Rightarrow> r
           | Inl e \<Rightarrow> \<lparr>wr_ok = False, wr_severity = Some ''error'',
               wr_message = Some (''Operation failed for '' @ host @ '': '' @ e)\<rparr>)))"

text \<open>The loop over \<open>as_completed\<close> with its counters \<open>(completed, success, failed)\<close>.\<close>

fun collect_results :: "nat \<Rightarrow> nat \<times> nat \<times> nat \<Rightarrow> host_result list \<Rightarrow> batch_event list" where
  "collect_results tot c [] = []"
| "collect_results tot (d, succ, fail) (r # rs) =
     (let d = Suc d;
          succ = (if hr_ok r then Suc succ else succ);
          fail = (if \<not> hr_ok r \<and> hr_state r \<noteq> ''cancelled'' then Suc fail else fail)
      in HostEvent (hr_host r) (hr_state r) (hr_message r) (if hr_state r \<noteq> ''cancelled'' then 100 else 0)
         # Progress d succ fail tot # collect_results tot (d, succ, fail) rs)"

definition position :: "string list \<Rightarrow> string \<Rightarrow> nat" where
  "position hosts h = (case map_of (rev (zip hosts [0..<length hosts])) h of None \<Rightarrow> 0 | Some i \<Rightarrow> i)"

definition run_batch :: "(string \<Rightarrow> string + worker_reply) \<Rightarrow> (string \<Rightarrow> bool) \<Rightarrow> string list \<Rightarrow> string list
    \<Rightarrow> host_result list \<times> batch_event list" where
  "run_batch worker stopped finish hosts =
     (let results = map (\<lambda>h. snd (invoke worker stopped h)) finish
      in (sort_key (\<lambda>r. position hosts (hr_host r)) results,
          map (\<lambda>h. HostEvent h ''queued'' (''Queued '' @ h @ ''.'') 0) hosts
          @ Progress 0 0 0 (length hosts) # collect_results (length hosts) (0, 0, 0) results))"

section \<open>The push service\<close>

definition push_concurrency :: "int \<Rightarrow> int" where
  "push_concurrency n = pool_size (min 5 (max 1 n))"

text \<open>\<open>dict.fromkeys\<close>: the first occurrence of each key, in order.\<close>

definition unique :: "'a list \<Rightarrow> 'a list" where
  "unique xs = rev (remdups (rev xs))"

definition normalize_hosts :: "pyval list \<Rightarrow> string list" where
  "normalize_hosts hosts =
     unique (filter (\<lambda>h. h \<noteq> []) (map (\<lambda>h. strip (text_or h '''')) hosts))"

record batch_summary =
  bs_ok :: bool
  bs_partial :: bool
  bs_total :: int
  bs_success :: int
  bs_failed :: int
  bs_cancelled :: int
  bs_results :: "host_result list"
  bs_message :: string

definition invalid_batch :: "string \<Rightarrow> batch_summary" where
  "invalid_batch msg = \<lparr>bs_ok = False, bs_partial = False, bs_total = 0, bs_success = 0, bs_failed = 0,
     bs_cancelled = 0, bs_results = [], bs_message = msg\<rparr>"

definition summarize :: "string \<Rightarrow> host_result list \<Rightarrow> batch_summary" where
  "summarize prefix results =
     (let succeeded = int (length (filter hr_ok results));
          cancelled = int (length (filter (\<lambda>r. hr_state r = ''cancelled'') results));
          failed = int (length results) - succeeded - cancelled
      in \<lparr>bs_ok = (failed = 0 \<and> cancelled = 0),
          bs_partial = (succeeded > 0 \<and> (failed > 0 \<or> cancelled > 0)),
          bs_total = int (length results), bs_success = succeeded, bs_failed = failed,
          bs_cancelled = cancelled, bs_results = results,
          bs_message = prefix @ '': '' @ show_int succeeded @ '' succeeded, '' @ show_int failed @ '' failed''
            @ (if cancelled \<noteq> 0 then '', '' @ show_int cancelled @ '' cancelled'' else '''') @ ''.''\<rparr>)"

definition batch_module :: "string \<Rightarrow> string" where
  "batch_module m = text_default (lower (strip (text_default m ''all''))) ''all''"

text \<open>\<open>run\<close>: the worker pushes one host with the controller found for the key.\<close>

definition run_push :: "(string \<Rightarrow> string \<Rightarrow> string \<Rightarrow> string + worker_reply) \<Rightarrow> (string \<Rightarrow> bool)
    \<Rightarrow> (string list \<Rightarrow> string list) \<Rightarrow> string \<Rightarrow> string \<Rightarrow> pyval list \<Rightarrow> batch_summary" where
  "run_push worker stopped schedule controller_name modname hosts =
     (let key = lower (strip controller_name); targets = normalize_hosts hosts in
      if key = [] then invalid_batch ''View & Push controller is required.''
      else if targets = [] then invalid_batch ''Select at least one target device.''
      else summarize ''Push completed''
        (fst (run_batch (worker key (batch_module modname)) stopped (schedule targets) targets)))"

definition reconcile_batch :: "(string \<Rightarrow> string \<Rightarrow> string \<Rightarrow> 'x option \<Rightarrow> string + worker_reply) \<Rightarrow> (string \<Rightarrow> bool)
    \<Rightarrow> (string list \<Rightarrow> string list) \<Rightarrow> string \<Rightarrow> string \<Rightarrow> pyval list \<Rightarrow> (string \<rightharpoonup> 'x) \<Rightarrow> batch_summary" where
  "reconcile_batch worker stopped schedule controller_name modname hosts contexts =
     (let key = lower (strip controller_name); targets = normalize_hosts hosts in
      if key = [] \<or> targets = [] then invalid_batch ''No devices require background synchronization.''
      else summarize ''Background device synchronization completed''
        (fst (run_batch (\<lambda>h. worker key (batch_module modname) h (contexts h)) stopped
          (schedule targets) targets)))"

section \<open>Results do not depend on the schedule\<close>

lemma hr_host_invoke [simp]: "hr_host (snd (invoke worker stopped h)) = h"
  by (simp add: invoke_def finish_result_def Let_def)

lemma position_nth:
  assumes "distinct hosts" "i < length hosts"
  shows "position hosts (hosts ! i) = i"
proof -
  let ?z = "zip hosts [0..<length hosts]"
  have "distinct (map fst (rev ?z))" using assms(1) by (simp flip: rev_map)
  moreover have "(hosts ! i, i) \<in> set (rev ?z)" using assms(2) by (auto simp: set_zip)
  ultimately have "map_of (rev ?z) (hosts ! i) = Some i" by (simp add: map_of_is_SomeI)
  then show ?thesis by (simp add: position_def)
qed

lemma map_position: "distinct hosts \<Longrightarrow> map (position hosts) hosts = [0..<length hosts]"
  by (rule nth_equalityI) (simp_all add: position_nth)

lemma filter_single: "distinct zs \<Longrightarrow> k \<in> set zs \<Longrightarrow> filter (\<lambda>x. x = k) zs = [k]"
  by (induction zs) (auto simp: filter_empty_conv)

lemma sort_key_permutation:
  fixes f :: "'a \<Rightarrow> 'b :: linorder"
  assumes "mset xs = mset ys" "distinct (map f ys)" "sorted (map f ys)"
  shows "sort_key f xs = ys"
proof (rule properties_for_sort_key)
  show "mset ys = mset xs" using assms(1) by simp
  show "sorted (map f ys)" by (rule assms(3))
  fix k assume k: "k \<in> set ys"
  have d: "distinct ys" "inj_on f (set ys)" using assms(2) by (auto simp: distinct_map)
  have xs: "set xs = set ys" "distinct xs"
    using assms(1) d(1) by (metis mset_eq_setD, metis mset_eq_imp_distinct_iff)
  have one: "filter (\<lambda>x. f k = f x) zs = [k]" if "distinct zs" "set zs = set ys" for zs
  proof -
    have "filter (\<lambda>x. f k = f x) zs = filter (\<lambda>x. x = k) zs"
      using d(2) k that(2) by (intro filter_cong) (auto dest: inj_onD)
    also have "\<dots> = [k]" using that k by (intro filter_single) simp_all
    finally show ?thesis .
  qed
  show "filter (\<lambda>x. f k = f x) ys = filter (\<lambda>x. f k = f x) xs"
    using one[OF d(1) refl] one[OF xs(2,1)] by simp
qed

lemma run_batch_results:
  assumes "distinct hosts" "mset finish = mset hosts"
  shows "fst (run_batch worker stopped finish hosts) = map (\<lambda>h. snd (invoke worker stopped h)) hosts"
proof -
  let ?r = "\<lambda>h. snd (invoke worker stopped h)"
  have "mset (map ?r finish) = mset (map ?r hosts)" using assms(2) by simp
  moreover have keys: "map (\<lambda>r. position hosts (hr_host r)) (map ?r hosts) = [0..<length hosts]"
    using map_position[OF assms(1)] by (simp add: comp_def)
  ultimately show ?thesis
    unfolding run_batch_def Let_def fst_conv by (intro sort_key_permutation) (simp_all only: keys distinct_upt sorted_upt)
qed

lemma collect_last_progress:
  "last (Progress d s f tot # collect_results tot (d, s, f) rs)
   = Progress (d + length rs) (s + length (filter hr_ok rs))
     (f + length (filter (\<lambda>r. \<not> hr_ok r \<and> hr_state r \<noteq> ''cancelled'') rs)) tot"
proof (induction rs arbitrary: d s f)
  case (Cons r rs)
  show ?case using Cons.IH[of "Suc d" "if hr_ok r then Suc s else s"
      "if \<not> hr_ok r \<and> hr_state r \<noteq> ''cancelled'' then Suc f else f"]
    by (auto simp: Let_def)
qed simp

text \<open>Property C16. The outcome of a batch does not depend on how the pool schedules it: for distinct
  hosts and any completion order there is one result per host, in the order the hosts were given,
  each the outcome of that host alone -- an exception in one host's worker is that host's error --
  and the last progress event counts them all.\<close>

theorem batch_schedule_independent:
  assumes "distinct hosts" "mset finish = mset hosts"
  shows "fst (run_batch worker stopped finish hosts) = map (\<lambda>h. snd (invoke worker stopped h)) hosts
    \<and> (let results = fst (run_batch worker stopped finish hosts) in
       last (snd (run_batch worker stopped finish hosts)) = Progress (length hosts)
         (length (filter hr_ok results))
         (length (filter (\<lambda>r. \<not> hr_ok r \<and> hr_state r \<noteq> ''cancelled'') results)) (length hosts))"
proof -
  let ?r = "\<lambda>h. snd (invoke worker stopped h)"
  have len: "length finish = length hosts" using assms(2) by (metis size_mset)
  have count: "length (filter P (map ?r finish)) = length (filter P (map ?r hosts))" for P
    using assms(2) by (metis mset_filter mset_map size_mset)
  have "last (Progress 0 0 0 (length hosts) # collect_results (length hosts) (0, 0, 0) (map ?r finish))
      = Progress (length hosts) (length (filter hr_ok (map ?r finish)))
         (length (filter (\<lambda>r. \<not> hr_ok r \<and> hr_state r \<noteq> ''cancelled'') (map ?r finish))) (length hosts)"
    unfolding collect_last_progress using len by simp
  then show ?thesis unfolding Let_def run_batch_results[OF assms] count
    by (simp add: run_batch_def Let_def)
qed

lemma batch_schedule_independent_witness:
  "map hr_host (fst (run_batch (\<lambda>h. Inl ''timeout'') (\<lambda>h. False) [''R2'', ''R1''] [''R1'', ''R2''])) = [''R1'', ''R2'']"
  using batch_schedule_independent[of "[''R1'', ''R2'']" "[''R2'', ''R1'']" "\<lambda>h. Inl ''timeout''" "\<lambda>h. False"]
  by simp
section \<open>The summary\<close>

lemma distinct_unique [simp]: "distinct (unique xs)"
  by (simp add: unique_def)

lemma distinct_normalize [simp]: "distinct (normalize_hosts hosts)"
  by (simp add: normalize_hosts_def)

lemma set_normalize: "set (normalize_hosts hosts) = {h. h \<noteq> [] \<and> (\<exists>v \<in> set hosts. h = strip (text_or v ''''))}"
  by (auto simp: normalize_hosts_def unique_def)

lemma summarize_ok:
  "bs_ok (summarize prefix rs) \<longleftrightarrow> (\<forall>r \<in> set rs. hr_ok r \<and> hr_state r \<noteq> ''cancelled'')"
proof -
  have c: "length (filter (\<lambda>r. hr_state r = ''cancelled'') rs) = 0 \<longleftrightarrow> (\<forall>r \<in> set rs. hr_state r \<noteq> ''cancelled'')"
    by (simp add: filter_empty_conv)
  have s: "length (filter hr_ok rs) = length rs \<longleftrightarrow> (\<forall>r \<in> set rs. hr_ok r)"
  proof
    assume "length (filter hr_ok rs) = length rs"
    then show "\<forall>r \<in> set rs. hr_ok r" by (metis (no_types, lifting) length_filter_less less_irrefl)
  qed (simp add: filter_True)
  have "bs_ok (summarize prefix rs) \<longleftrightarrow> length (filter hr_ok rs) = length rs
      \<and> length (filter (\<lambda>r. hr_state r = ''cancelled'') rs) = 0"
    by (auto simp: summarize_def Let_def)
  then show ?thesis using c s by blast
qed



end
