(* ===== verification/Syslog_Transport.thy ===== *)
theory Syslog_Transport
  imports Py_Values "HOL-Library.Sublist"
begin

text \<open>
  The transport of the Syslog server: the framing of a TCP stream
  (\<open>features/syslog/transport/framing.py\<close>) and the receiver's loop over its sockets
  (\<open>transport/receiver.py\<close>: \<open>_run_udp\<close>, \<open>_run_tcp\<close>, \<open>_run_both\<close>).

  Bytes are characters. A \<open>bytearray\<close> that the framer consumes from the front is a list, a socket is a
  number, and what \<open>select\<close>, \<open>accept\<close> and \<open>recv\<close> deliver is a list of events, in the order the loop
  handles them. The calls of \<open>on_message\<close> are the messages of the state. The lemmas show that the frames
  do not depend on how TCP cuts the stream and that connections do not influence each other.
\<close>

section \<open>Line framing\<close>

definition LF :: char where "LF = CHR 0x0A"
definition CR :: char where "CR = CHR 0x0D"

text \<open>\<open>bytes.strip()\<close> removes the six ASCII white-space bytes.\<close>

definition byte_space :: "char \<Rightarrow> bool" where
  "byte_space c = (let n = code c in (9 \<le> n \<and> n \<le> 13) \<or> n = 32)"

definition blank :: "string \<Rightarrow> bool" where
  "blank s = list_all byte_space s"

definition rstrip_cr :: "string \<Rightarrow> string" where
  "rstrip_cr s = rev (dropWhile (\<lambda>c. c = CR) (rev s))"

datatype frame_error = FrameTooLarge

record framer =
  fr_max :: nat
  fr_buffer :: string

definition new_framer :: "int \<Rightarrow> framer" where
  "new_framer limit = \<lparr>fr_max = nat (max 1 limit), fr_buffer = []\<rparr>"

text \<open>The \<open>while\<close> loop of \<open>feed\<close>: complete frames are cut from the buffer until no line feed is left.\<close>

function cut_frames :: "nat \<Rightarrow> string \<Rightarrow> frame_error + string list \<times> string" where
  "cut_frames limit buf =
     (if LF \<notin> set buf then Inr ([], buf)
      else let frame = rstrip_cr (takeWhile (\<lambda>c. c \<noteq> LF) buf);
               remainder = tl (dropWhile (\<lambda>c. c \<noteq> LF) buf)
           in if length frame > limit then Inl FrameTooLarge
              else sbind (cut_frames limit remainder) (\<lambda>(frames, rest).
                     Inr (if blank frame then frames else frame # frames, rest)))"
  by auto
termination
proof (relation "measure (\<lambda>(_, buf). length buf)", goal_cases)
  case (2 limit buf x xa)
  then have "dropWhile (\<lambda>c. c \<noteq> LF) buf \<noteq> []" by (auto simp: dropWhile_eq_Nil_conv)
  moreover have "length (dropWhile (\<lambda>c. c \<noteq> LF) buf) \<le> length buf" by (rule length_dropWhile_le)
  ultimately have "length (tl (dropWhile (\<lambda>c. c \<noteq> LF) buf)) < length buf"
    by (cases "dropWhile (\<lambda>c. c \<noteq> LF) buf") auto
  then show ?case using 2 by simp
qed simp

declare cut_frames.simps [simp del]

definition feed :: "framer \<Rightarrow> string \<Rightarrow> frame_error + framer \<times> string list" where
  "feed f data =
     sbind (cut_frames (fr_max f) (fr_buffer f @ data)) (\<lambda>(frames, rest).
       if length rest > fr_max f then Inl FrameTooLarge
       else Inr (f\<lparr>fr_buffer := rest\<rparr>, frames))"

definition finish :: "framer \<Rightarrow> framer \<times> string list" where
  "finish f =
     (let frame = rstrip_cr (fr_buffer f)
      in (f\<lparr>fr_buffer := []\<rparr>, if blank frame then [] else [frame]))"

text \<open>The chunks that \<open>recv\<close> returns, one after another.\<close>

fun feed_all :: "framer \<Rightarrow> string list \<Rightarrow> frame_error + framer \<times> string list" where
  "feed_all f [] = Inr (f, [])"
| "feed_all f (c # cs) =
     sbind (feed f c) (\<lambda>(f', fs). sbind (feed_all f' cs) (\<lambda>(f'', gs). Inr (f'', fs @ gs)))"

subsection \<open>Frames and lines\<close>

text \<open>What the frames of a complete stream are: its lines without trailing carriage returns, blank ones left out.\<close>

definition frames_of :: "string list \<Rightarrow> string list" where
  "frames_of ls = filter (\<lambda>s. \<not> blank s) (map rstrip_cr ls)"

lemma frames_of_simps [simp]:
  "frames_of [] = []"
  "frames_of (l # ls) = (if blank (rstrip_cr l) then frames_of ls else rstrip_cr l # frames_of ls)"
  "frames_of (ls @ ms) = frames_of ls @ frames_of ms"
  by (simp_all add: frames_of_def)

lemma line_split:
  assumes "LF \<notin> set l"
  shows "takeWhile (\<lambda>c. c \<noteq> LF) (l @ LF # r) = l" "tl (dropWhile (\<lambda>c. c \<noteq> LF) (l @ LF # r)) = r"
  using assms by (induction l) auto

text \<open>The loop on a buffer with and without a complete line.\<close>

lemma cut_none: "LF \<notin> set buf \<Longrightarrow> cut_frames m buf = Inr ([], buf)"
  by (subst cut_frames.simps) simp

lemma cut_line:
  assumes "LF \<notin> set l"
  shows "cut_frames m (l @ LF # r) =
    (if length (rstrip_cr l) > m then Inl FrameTooLarge
     else sbind (cut_frames m r) (\<lambda>(fs, rest). Inr (frames_of [l] @ fs, rest)))"
  by (subst cut_frames.simps) (auto simp: Let_def line_split[OF assms] sbind_def split: sum.splits)

lemma line_induct [case_names rest line]:
  assumes "\<And>buf. LF \<notin> set buf \<Longrightarrow> P buf"
    and "\<And>l r. LF \<notin> set l \<Longrightarrow> P r \<Longrightarrow> P (l @ LF # r)"
  shows "P buf"
proof (induction "length buf" arbitrary: buf rule: less_induct)
  case less
  show ?case
  proof (cases "LF \<in> set buf")
    case True
    then obtain l r where "buf = l @ LF # r" "LF \<notin> set l" using split_list_first by metis
    then show ?thesis using assms(2) less by simp
  qed (rule assms(1))
qed

text \<open>The loop cuts exactly the complete lines of its buffer, and keeps the last, incomplete one.\<close>

lemma cut_frames_lines:
  "cut_frames m buf = Inr (fs, rest) \<longleftrightarrow>
    (\<exists>ls. split_on LF buf = ls @ [rest] \<and> fs = frames_of ls \<and> (\<forall>l \<in> set ls. length (rstrip_cr l) \<le> m))"
proof (induction buf arbitrary: fs rest rule: line_induct)
  case (rest buf)
  then show ?case by (auto simp: cut_none split_on_no_sep)
next
  case (line l r)
  have s: "split_on LF (l @ LF # r) = l # split_on LF r" using line.hyps by (rule split_on_append)
  show ?case
  proof
    assume "cut_frames m (l @ LF # r) = Inr (fs, rest)"
    then obtain gs where g: "length (rstrip_cr l) \<le> m" "cut_frames m r = Inr (gs, rest)" "fs = frames_of [l] @ gs"
      by (auto simp: cut_line[OF line.hyps] sbind_eq_Inr_conv split: if_splits)
    then obtain ls where "split_on LF r = ls @ [rest]" "gs = frames_of ls" "\<forall>l \<in> set ls. length (rstrip_cr l) \<le> m"
      using line.IH by blast
    then show "\<exists>ls. split_on LF (l @ LF # r) = ls @ [rest] \<and> fs = frames_of ls
        \<and> (\<forall>l \<in> set ls. length (rstrip_cr l) \<le> m)"
      using s g by (intro exI[of _ "l # ls"]) auto
  next
    assume "\<exists>ls. split_on LF (l @ LF # r) = ls @ [rest] \<and> fs = frames_of ls
        \<and> (\<forall>l \<in> set ls. length (rstrip_cr l) \<le> m)"
    then obtain ls where ls: "split_on LF (l @ LF # r) = ls @ [rest]" "fs = frames_of ls"
        "\<forall>l \<in> set ls. length (rstrip_cr l) \<le> m" by blast
    then obtain ls' where l: "ls = l # ls'" "split_on LF r = ls' @ [rest]"
      using s split_on_nonempty[of LF r] by (cases ls) auto
    then have "cut_frames m r = Inr (frames_of ls', rest)" using line.IH ls(3) by auto
    then show "cut_frames m (l @ LF # r) = Inr (fs, rest)"
      using ls l by (simp add: cut_line[OF line.hyps])
  qed
qed

subsection \<open>Any segmentation of the stream\<close>

lemma feed_lines:
  assumes "feed f data = Inr (f', fs)"
  obtains ls where "split_on LF (fr_buffer f @ data) = ls @ [fr_buffer f']" "fs = frames_of ls"
    "\<forall>l \<in> set ls. length (rstrip_cr l) \<le> fr_max f" "fr_max f' = fr_max f" "length (fr_buffer f') \<le> fr_max f"
proof -
  obtain rest where "cut_frames (fr_max f) (fr_buffer f @ data) = Inr (fs, rest)" "\<not> length rest > fr_max f"
      "f' = f\<lparr>fr_buffer := rest\<rparr>"
    using assms by (auto simp: feed_def sbind_eq_Inr_conv split: if_splits)
  then show ?thesis using that by (auto simp: cut_frames_lines)
qed

lemma feed_all_lines:
  assumes "feed_all f cs = Inr (f', fs)" "LF \<notin> set (fr_buffer f)" "length (fr_buffer f) \<le> fr_max f"
  shows "\<exists>ls. split_on LF (fr_buffer f @ concat cs) = ls @ [fr_buffer f'] \<and> fs = frames_of ls
    \<and> (\<forall>l \<in> set ls. length (rstrip_cr l) \<le> fr_max f) \<and> length (fr_buffer f') \<le> fr_max f"
  using assms
proof (induction cs arbitrary: f fs)
  case Nil
  then show ?case by (auto simp: split_on_no_sep)
next
  case (Cons c cs)
  obtain g gs hs where g: "feed f c = Inr (g, gs)" "feed_all g cs = Inr (f', hs)" "fs = gs @ hs"
    using Cons.prems(1) by (auto simp: sbind_eq_Inr_conv)
  obtain ls where ls: "split_on LF (fr_buffer f @ c) = ls @ [fr_buffer g]" "gs = frames_of ls"
    "\<forall>l \<in> set ls. length (rstrip_cr l) \<le> fr_max f" "fr_max g = fr_max f" "length (fr_buffer g) \<le> fr_max f"
    using g(1) by (rule feed_lines)
  have "LF \<notin> set (fr_buffer g)" by (rule split_on_parts[of _ LF "fr_buffer f @ c"]) (simp add: ls(1))
  then obtain ms where ms: "split_on LF (fr_buffer g @ concat cs) = ms @ [fr_buffer f']" "hs = frames_of ms"
    "\<forall>l \<in> set ms. length (rstrip_cr l) \<le> fr_max f" "length (fr_buffer f') \<le> fr_max f"
    using Cons.IH[OF g(2)] ls by auto
  have "split_on LF (fr_buffer f @ concat (c # cs)) = (ls @ ms) @ [fr_buffer f']"
    using split_on_append_last[OF ls(1), of "concat cs"] ms(1) by simp
  then show ?case using ls ms g(3) by (intro exI[of _ "ls @ ms"]) auto
qed

lemma rstrip_cr_le: "length (rstrip_cr l) \<le> length l"
  unfolding rstrip_cr_def by (metis length_dropWhile_le length_rev)

lemma split_on_prefix:
  "LF \<notin> set r \<Longrightarrow> \<exists>t ts. split_on LF (r @ s) = (r @ t) # ts"
proof (induction r)
  case Nil
  then show ?case by (cases "split_on LF s") auto
qed auto

lemma feed_total:
  assumes "\<forall>l \<in> set (split_on LF (fr_buffer f @ c @ s)). length l \<le> fr_max f"
  shows "\<exists>f' fs. feed f c = Inr (f', fs) \<and> fr_max f' = fr_max f
    \<and> set (split_on LF (fr_buffer f' @ s)) \<subseteq> set (split_on LF (fr_buffer f @ c @ s))"
proof -
  obtain ls r where s: "split_on LF (fr_buffer f @ c) = ls @ [r]"
    by (metis rev_exhaust split_on_nonempty)
  then have all: "split_on LF (fr_buffer f @ c @ s) = ls @ split_on LF (r @ s)"
    using split_on_append_last[OF s, of s] by simp
  have "LF \<notin> set r" by (rule split_on_parts[of _ LF "fr_buffer f @ c"]) (simp add: s)
  then obtain t ts where "split_on LF (r @ s) = (r @ t) # ts" using split_on_prefix by blast
  then have r: "length r \<le> fr_max f" using assms all by auto
  have "\<forall>l \<in> set ls. length (rstrip_cr l) \<le> fr_max f"
    using assms all rstrip_cr_le by (auto intro: order_trans)
  then have "cut_frames (fr_max f) (fr_buffer f @ c) = Inr (frames_of ls, r)"
    using s by (auto simp: cut_frames_lines)
  then show ?thesis using r all by (simp add: feed_def)
qed

lemma feed_all_total:
  "\<forall>l \<in> set (split_on LF (fr_buffer f @ concat cs)). length l \<le> fr_max f \<Longrightarrow>
   \<exists>f' fs. feed_all f cs = Inr (f', fs)"
proof (induction cs arbitrary: f)
  case (Cons c cs)
  obtain f' fs where f: "feed f c = Inr (f', fs)" "fr_max f' = fr_max f"
      "set (split_on LF (fr_buffer f' @ concat cs)) \<subseteq> set (split_on LF (fr_buffer f @ c @ concat cs))"
    using feed_total[of f c "concat cs"] Cons.prems by auto
  then obtain f'' gs where "feed_all f' cs = Inr (f'', gs)" using Cons.IH[of f'] Cons.prems by auto
  then show ?case using f(1) by simp
qed simp

text \<open>Property C20. TCP may cut a Syslog stream anywhere. Whatever the chunks, if the framer accepts
  them then the frames it has returned, together with the last one at the end of the stream, are
  the stream's lines in order, without trailing carriage returns and blank lines, none longer than
  the limit; and it accepts every stream whose lines, with their carriage returns, fit the limit.\<close>

theorem frames_are_lines:
  "(\<forall>f fs. feed_all (new_framer n) cs = Inr (f, fs) \<longrightarrow>
      fs @ snd (finish f) = frames_of (split_on LF (concat cs))
      \<and> (\<forall>x \<in> set (fs @ snd (finish f)). length x \<le> nat (max 1 n)))
   \<and> ((\<forall>l \<in> set (split_on LF (concat cs)). length l \<le> nat (max 1 n))
      \<longrightarrow> (\<exists>f fs. feed_all (new_framer n) cs = Inr (f, fs)))"
proof (intro conjI allI impI)
  fix f fs assume "feed_all (new_framer n) cs = Inr (f, fs)"
  then obtain ls where ls: "split_on LF (concat cs) = ls @ [fr_buffer f]" "fs = frames_of ls"
      "\<forall>l \<in> set ls. length (rstrip_cr l) \<le> nat (max 1 n)" "length (fr_buffer f) \<le> nat (max 1 n)"
    using feed_all_lines[of "new_framer n" cs f fs] by (auto simp: new_framer_def)
  then show "fs @ snd (finish f) = frames_of (split_on LF (concat cs))"
    by (simp add: finish_def Let_def)
  have "length (rstrip_cr (fr_buffer f)) \<le> nat (max 1 n)" using ls(4) rstrip_cr_le order_trans by blast
  then show "\<forall>x \<in> set (fs @ snd (finish f)). length x \<le> nat (max 1 n)"
    using ls by (auto simp: finish_def Let_def frames_of_def)
next
  assume "\<forall>l \<in> set (split_on LF (concat cs)). length l \<le> nat (max 1 n)"
  then show "\<exists>f fs. feed_all (new_framer n) cs = Inr (f, fs)"
    using feed_all_total[of "new_framer n" cs] by (simp add: new_framer_def)
qed

lemma frames_are_lines_witness:
  "frames_of (split_on LF (''ab'' @ [CR, LF] @ ''cd'')) = [''ab'', ''cd'']
   \<and> (\<exists>f fs. feed_all (new_framer 4) [''a'', ''b'' @ [CR], LF # ''cd''] = Inr (f, fs))"
proof -
  have "\<forall>l \<in> set (split_on LF (concat [''a'', ''b'' @ [CR], LF # ''cd''])). length l \<le> nat (max 1 4)"
    by code_simp
  then have "\<exists>f fs. feed_all (new_framer 4) [''a'', ''b'' @ [CR], LF # ''cd''] = Inr (f, fs)"
    using frames_are_lines[of 4 "[''a'', ''b'' @ [CR], LF # ''cd'']"] by blast
  moreover have "frames_of (split_on LF (''ab'' @ [CR, LF] @ ''cd'')) = [''ab'', ''cd'']" by code_simp
  ultimately show ?thesis by blast
qed

text \<open>
  A message of exactly the maximal size that ends in carriage return and line feed is accepted in one
  segment, but refused when the segment ends between the two: the trailing return, which is never part
  of a frame, counts in the check of the pending buffer, and the receiver closes the connection.
\<close>

lemma limit_depends_on_segmentation:
  "feed_all (new_framer 4) [''abcd'' @ [CR, LF]] = Inr (\<lparr>fr_max = 4, fr_buffer = []\<rparr>, [''abcd''])"
  "feed_all (new_framer 4) [''abcd'' @ [CR], [LF]] = Inl FrameTooLarge"
  by code_simp+

text \<open>A frame that exceeds the limit also discards the complete frames of the same segment.\<close>

lemma oversized_frame_discards_segment:
  "feed (new_framer 2) (''ok'' @ [LF] @ ''long'' @ [LF]) = Inl FrameTooLarge"
  by code_simp

section \<open>The receiver's loop\<close>

text \<open>
  What the loop meets, in order: a datagram, an accepted connection, what \<open>recv\<close> returns for a
  readable client (\<open>None\<close> is an \<open>OSError\<close>, the empty chunk the end of the stream), an \<open>OSError\<close> outside
  \<open>recv\<close>, and \<open>stop\<close>. The kernel never gives a socket number twice while it is open.
\<close>

datatype rx_event = Datagram string string | Connect nat string | Chunk nat "string option" | Fault string | Stop

type_synonym rx_message = "string \<times> string \<times> string"
type_synonym client = "nat \<times> string \<times> framer"

record receiver =
  rx_protocol :: string
  rx_max_bytes :: int
  rx_max_clients :: int
  rx_running :: bool
  rx_clients :: "client list"
  rx_errors :: "string list"

definition start_receiver :: "string \<Rightarrow> int \<Rightarrow> int \<Rightarrow> string + receiver" where
  "start_receiver protocol max_bytes max_clients =
     (if protocol \<in> {''both'', ''udp'', ''tcp''}
      then Inr \<lparr>rx_protocol = protocol, rx_max_bytes = max_bytes, rx_max_clients = max_clients,
                rx_running = True, rx_clients = [], rx_errors = []\<rparr>
      else Inl ''Syslog listener protocol must be UDP, TCP, or both'')"

definition close_client :: "nat \<Rightarrow> receiver \<Rightarrow> receiver" where
  "close_client sock r = r\<lparr>rx_clients := filter (\<lambda>c. fst c \<noteq> sock) (rx_clients r)\<rparr>"

definition store_framer :: "nat \<Rightarrow> framer \<Rightarrow> receiver \<Rightarrow> receiver" where
  "store_framer sock f r =
     r\<lparr>rx_clients := map (\<lambda>(s, ip, g). (s, ip, if s = sock then f else g)) (rx_clients r)\<rparr>"

definition tcp_messages :: "string \<Rightarrow> string list \<Rightarrow> rx_message list" where
  "tcp_messages ip frames = map (\<lambda>frame. (frame, ip, ''tcp'')) frames"

text \<open>\<open>recvfrom\<close> asks for one byte more than the limit, so that a longer datagram is recognised.\<close>

definition receive_datagram :: "receiver \<Rightarrow> string \<Rightarrow> string \<Rightarrow> rx_message list" where
  "receive_datagram r datagram ip =
     (let data = take (nat (rx_max_bytes r + 1)) datagram
      in if data \<noteq> [] \<and> int (length data) \<le> rx_max_bytes r then [(data, ip, ''udp'')] else [])"

definition accept_client :: "receiver \<Rightarrow> nat \<Rightarrow> string \<Rightarrow> receiver" where
  "accept_client r sock ip =
     (if int (length (rx_clients r)) \<ge> rx_max_clients r then r
      else r\<lparr>rx_clients := rx_clients r @ [(sock, ip, new_framer (rx_max_bytes r))]\<rparr>)"

definition read_client :: "receiver \<Rightarrow> nat \<Rightarrow> string option \<Rightarrow> receiver \<times> rx_message list" where
  "read_client r sock received =
     (case map_of (rx_clients r) sock of
        None \<Rightarrow> (r, [])
      | Some (ip, f) \<Rightarrow>
          let chunk = (case received of None \<Rightarrow> [] | Some data \<Rightarrow> data) in
          if chunk = [] then (close_client sock r, tcp_messages ip (snd (finish f)))
          else case feed f chunk of
              Inl FrameTooLarge \<Rightarrow> (close_client sock r, [])
            | Inr (f', frames) \<Rightarrow> (store_framer sock f' r, tcp_messages ip frames))"

definition receive_event :: "receiver \<Rightarrow> rx_event \<Rightarrow> receiver \<times> rx_message list" where
  "receive_event r e =
     (if \<not> rx_running r then (r, [])
      else case e of
          Datagram data ip \<Rightarrow> (r, if rx_protocol r = ''tcp'' then [] else receive_datagram r data ip)
        | Connect sock ip \<Rightarrow> (if rx_protocol r = ''udp'' then r else accept_client r sock ip, [])
        | Chunk sock received \<Rightarrow> read_client r sock received
        | Fault msg \<Rightarrow> (r\<lparr>rx_running := False, rx_clients := [], rx_errors := rx_errors r @ [msg]\<rparr>, [])
        | Stop \<Rightarrow> (r\<lparr>rx_running := False, rx_clients := []\<rparr>, []))"

text \<open>A run: the final state, and for each event the messages it handed to \<open>on_message\<close>.\<close>

fun receive_all :: "receiver \<Rightarrow> rx_event list \<Rightarrow> receiver \<times> (rx_event \<times> rx_message list) list" where
  "receive_all r [] = (r, [])"
| "receive_all r (e # es) =
     (let (r', ms) = receive_event r e; (r'', rest) = receive_all r' es in (r'', (e, ms) # rest))"

subsection \<open>Bounds\<close>

definition rx_ok :: "receiver \<Rightarrow> bool" where
  "rx_ok r \<longleftrightarrow> int (length (rx_clients r)) \<le> max 0 (rx_max_clients r)
     \<and> (\<forall>(s, ip, f) \<in> set (rx_clients r). fr_max f = nat (max 1 (rx_max_bytes r))
          \<and> length (fr_buffer f) \<le> fr_max f)"

lemma frames_of_bound: "\<forall>l \<in> set ls. length (rstrip_cr l) \<le> n \<Longrightarrow> x \<in> set (frames_of ls) \<Longrightarrow> length x \<le> n"
  by (auto simp: frames_of_def)

lemma frames_of_not_blank: "x \<in> set (frames_of ls) \<Longrightarrow> \<not> blank x"
  by (auto simp: frames_of_def)

lemma not_blank_nonempty: "\<not> blank x \<Longrightarrow> x \<noteq> []"
  by (auto simp: blank_def)

lemma finish_frames: "snd (finish f) = frames_of [fr_buffer f]"
  by (simp add: finish_def Let_def)

lemma map_of_clientD: "map_of cs s = Some (ip, f) \<Longrightarrow> (s, ip, f) \<in> set cs"
  by (rule map_of_SomeD)

lemma read_client_ok:
  assumes "rx_ok r"
  shows "rx_ok (fst (read_client r s d))
    \<and> (\<forall>(x, ip, p) \<in> set (snd (read_client r s d)).
         x \<noteq> [] \<and> int (length x) \<le> max 1 (rx_max_bytes r) \<and> p = ''tcp'')"
proof (cases "map_of (rx_clients r) s")
  case None
  then show ?thesis using assms by (simp add: read_client_def)
next
  case (Some c)
  obtain ip f where c: "c = (ip, f)" by force
  have inv: "fr_max f = nat (max 1 (rx_max_bytes r))" "length (fr_buffer f) \<le> fr_max f"
    using assms map_of_clientD[of "rx_clients r" s ip f] Some c by (auto simp: rx_ok_def)
  have closed: "rx_ok (close_client s r)"
    using assms by (auto simp: rx_ok_def close_client_def intro: order_trans[rotated])
  let ?chunk = "case d of None \<Rightarrow> [] | Some data \<Rightarrow> data"
  consider "?chunk = []" | "?chunk \<noteq> []" "feed f ?chunk = Inl FrameTooLarge"
    | f' fs where "?chunk \<noteq> []" "feed f ?chunk = Inr (f', fs)"
    by (cases "feed f ?chunk") (auto, metis frame_error.exhaust)
  then show ?thesis
  proof cases
    case 1
    have "length (rstrip_cr (fr_buffer f)) \<le> nat (max 1 (rx_max_bytes r))"
      using rstrip_cr_le[of "fr_buffer f"] inv by linarith
    then show ?thesis using 1 Some c closed
      by (auto simp: read_client_def tcp_messages_def finish_frames blank_def)
  next
    case 2
    then show ?thesis using Some c closed by (simp add: read_client_def)
  next
    case (3 f' fs)
    obtain ls where ls: "fs = frames_of ls" "\<forall>l \<in> set ls. length (rstrip_cr l) \<le> fr_max f"
      "fr_max f' = fr_max f" "length (fr_buffer f') \<le> fr_max f"
      using feed_lines[OF 3(2)] by metis
    have "rx_ok (store_framer s f' r)"
      using assms inv ls by (auto simp: rx_ok_def store_framer_def split: if_splits)
    moreover have "x \<noteq> [] \<and> int (length x) \<le> max 1 (rx_max_bytes r)" if "x \<in> set fs" for x
    proof -
      have "length x \<le> fr_max f" using that ls(1,2) frames_of_bound by blast
      then show ?thesis using inv(1) that ls(1) frames_of_not_blank not_blank_nonempty by fastforce
    qed
    ultimately show ?thesis using 3 Some c
      by (auto simp: read_client_def tcp_messages_def)
  qed
qed

lemma receive_event_config:
  "rx_protocol (fst (receive_event r e)) = rx_protocol r"
  "rx_max_bytes (fst (receive_event r e)) = rx_max_bytes r"
  "rx_max_clients (fst (receive_event r e)) = rx_max_clients r"
  by (auto simp: receive_event_def accept_client_def read_client_def close_client_def store_framer_def
      Let_def split: rx_event.splits option.splits sum.splits frame_error.splits)

lemma receive_event_ok:
  assumes "rx_ok r"
  shows "rx_ok (fst (receive_event r e))
    \<and> (\<forall>(x, ip, p) \<in> set (snd (receive_event r e)).
         x \<noteq> [] \<and> int (length x) \<le> max 1 (rx_max_bytes r) \<and> p \<in> {''udp'', ''tcp''})"
proof (cases e)
  case (Datagram d ip)
  then show ?thesis using assms by (auto simp: receive_event_def receive_datagram_def Let_def)
next
  case (Connect s ip)
  then show ?thesis using assms
    by (auto simp: receive_event_def accept_client_def rx_ok_def new_framer_def)
next
  case (Chunk s d)
  then show ?thesis using read_client_ok[OF assms, of s d] assms by (auto simp: receive_event_def)
qed (use assms in \<open>auto simp: receive_event_def rx_ok_def\<close>)

lemma receive_all_ok:
  "(r', log) = receive_all r es \<Longrightarrow> rx_ok r \<Longrightarrow>
    rx_ok r' \<and> rx_max_bytes r' = rx_max_bytes r \<and> rx_max_clients r' = rx_max_clients r
    \<and> (\<forall>(e, ms) \<in> set log. \<forall>(x, ip, q) \<in> set ms.
         x \<noteq> [] \<and> int (length x) \<le> max 1 (rx_max_bytes r) \<and> q \<in> {''udp'', ''tcp''})"
proof (induction es arbitrary: r log)
  case (Cons e es)
  obtain r1 ms r2 rest where s: "receive_event r e = (r1, ms)" "receive_all r1 es = (r2, rest)"
    by (metis surj_pair)
  have e: "rx_ok r1" "\<forall>(x, ip, q) \<in> set ms. x \<noteq> [] \<and> int (length x) \<le> max 1 (rx_max_bytes r) \<and> q \<in> {''udp'', ''tcp''}"
    "rx_max_bytes r1 = rx_max_bytes r" "rx_max_clients r1 = rx_max_clients r"
    using receive_event_ok[OF Cons.prems(2), of e] receive_event_config[of r e] s(1) by auto
  then show ?case using Cons.IH[of rest r1] Cons.prems(1) s by auto
qed simp

text \<open>Property C21. Whatever arrives, in whatever order, on however many connections: the receiver never
  holds more TCP clients than configured, never buffers more than the size limit for one of them,
  and every message it hands on is non-empty, within the limit and marked udp or tcp.\<close>

theorem receiver_bounds:
  assumes "start_receiver p n m = Inr r" "(r', log) = receive_all r es"
  shows "int (length (rx_clients r')) \<le> max 0 m
    \<and> (\<forall>(s, ip, f) \<in> set (rx_clients r'). int (length (fr_buffer f)) \<le> max 1 n)
    \<and> (\<forall>(e, ms) \<in> set log. \<forall>(x, ip, q) \<in> set ms.
           x \<noteq> [] \<and> int (length x) \<le> max 1 n \<and> q \<in> {''udp'', ''tcp''})"
proof -
  have r: "rx_ok r" "rx_max_bytes r = n" "rx_max_clients r = m"
    using assms(1) by (auto simp: start_receiver_def rx_ok_def split: if_splits)
  show ?thesis using receive_all_ok[OF assms(2) r(1)] r by (auto simp: rx_ok_def)
qed

lemma receiver_bounds_witness:
  "length (rx_clients (fst (receive_all
     \<lparr>rx_protocol = ''both'', rx_max_bytes = 8, rx_max_clients = 1, rx_running = True, rx_clients = [], rx_errors = []\<rparr>
     [Connect 5 ''10.0.0.1'', Connect 6 ''10.0.0.2'', Chunk 5 (Some (''hello'' @ [LF] @ ''wo'')),
      Datagram ''<13>a'' ''10.0.0.3'', Datagram ''way too long'' ''10.0.0.3'']))) = 1"
proof -
  let ?r = "\<lparr>rx_protocol = ''both'', rx_max_bytes = 8, rx_max_clients = 1, rx_running = True,
    rx_clients = [], rx_errors = []\<rparr>"
  let ?es = "[Connect 5 ''10.0.0.1'', Connect 6 ''10.0.0.2'', Chunk 5 (Some (''hello'' @ [LF] @ ''wo'')),
      Datagram ''<13>a'' ''10.0.0.3'', Datagram ''way too long'' ''10.0.0.3'']"
  have "start_receiver ''both'' 8 1 = Inr ?r" by (simp add: start_receiver_def)
  then have "int (length (rx_clients (fst (receive_all ?r ?es)))) \<le> max 0 1"
    using receiver_bounds[of "''both''" 8 1 ?r "fst (receive_all ?r ?es)" "snd (receive_all ?r ?es)" ?es] by simp
  moreover have "rx_clients (fst (receive_all ?r ?es)) \<noteq> []" by code_simp
  ultimately show ?thesis by (cases "rx_clients (fst (receive_all ?r ?es))") auto
qed

subsection \<open>Connections do not influence each other\<close>

text \<open>The chunks that arrived on a socket, and the messages emitted for it.\<close>

definition chunks_of :: "nat \<Rightarrow> rx_event list \<Rightarrow> string list" where
  "chunks_of s es = concat (map (\<lambda>e. case e of Chunk t (Some d) \<Rightarrow> if t = s then [d] else [] | _ \<Rightarrow> []) es)"

definition emitted :: "nat \<Rightarrow> (rx_event \<times> rx_message list) list \<Rightarrow> rx_message list" where
  "emitted s log = concat (map (\<lambda>(e, ms). case e of Chunk t d \<Rightarrow> if t = s then ms else [] | _ \<Rightarrow> []) log)"

text \<open>Events that leave the connection open: others may do what they want.\<close>

fun keeps_open :: "nat \<Rightarrow> rx_event \<Rightarrow> bool" where
  "keeps_open s (Datagram d ip) = True"
| "keeps_open s (Connect t ip) = (t \<noteq> s)"
| "keeps_open s (Chunk t d) = (t = s \<longrightarrow> (\<exists>c. d = Some c \<and> c \<noteq> []))"
| "keeps_open s (Fault msg) = False"
| "keeps_open s Stop = False"

lemma map_of_filter_key: "s \<noteq> t \<Longrightarrow> map_of (filter (\<lambda>c. fst c \<noteq> t) xs) s = map_of xs s"
  by (induction xs) auto

lemma map_of_store:
  "map_of (map (\<lambda>(s, ip, g). (s, ip, if s = t then f else g)) xs) s
     = map_option (\<lambda>(ip, g). (ip, if s = t then f else g)) (map_of xs s)"
  by (induction xs) auto

lemma event_elsewhere:
  assumes "keeps_open s e" "rx_running r" "map_of (rx_clients r) s = Some c" "\<And>t d. e = Chunk t d \<Longrightarrow> t \<noteq> s"
  shows "rx_running (fst (receive_event r e)) \<and> map_of (rx_clients (fst (receive_event r e))) s = Some c"
proof (cases e)
  case (Chunk t d)
  then have "t \<noteq> s" using assms(4) by simp
  then show ?thesis using assms(2,3) Chunk
    by (auto simp: receive_event_def read_client_def close_client_def store_framer_def map_of_filter_key
        map_of_store Let_def split: option.splits sum.splits frame_error.splits)
next
  case (Connect t ip)
  then show ?thesis using assms by (auto simp: receive_event_def accept_client_def map_add_Some_iff)
qed (use assms in \<open>auto simp: receive_event_def\<close>)

lemma event_here:
  assumes "rx_running r" "map_of (rx_clients r) s = Some (ip, f)" "c \<noteq> []" "feed f c = Inr (f', fs)"
  shows "rx_running (fst (receive_event r (Chunk s (Some c))))"
    "map_of (rx_clients (fst (receive_event r (Chunk s (Some c))))) s = Some (ip, f')"
    "snd (receive_event r (Chunk s (Some c))) = tcp_messages ip fs"
  using assms by (simp_all add: receive_event_def read_client_def store_framer_def map_of_store)

lemma tcp_messages_append: "tcp_messages ip (a @ b) = tcp_messages ip a @ tcp_messages ip b"
  by (simp add: tcp_messages_def)

lemma connection_run:
  assumes "list_all (keeps_open s) es" "rx_running r" "map_of (rx_clients r) s = Some (ip, f)"
    "feed_all f (chunks_of s es) = Inr (f', fs)" "(r', log) = receive_all r es"
  shows "rx_running r' \<and> map_of (rx_clients r') s = Some (ip, f') \<and> emitted s log = tcp_messages ip fs"
  using assms
proof (induction es arbitrary: r f fs log)
  case Nil
  then show ?case by (simp add: chunks_of_def emitted_def tcp_messages_def)
next
  case (Cons e es)
  obtain r1 ms r2 rest where s: "receive_event r e = (r1, ms)" "receive_all r1 es = (r2, rest)"
    by (metis surj_pair)
  have log: "log = (e, ms) # rest" "r' = r2" using Cons.prems(5) s by auto
  show ?case
  proof (cases "\<exists>d. e = Chunk s d")
    case True
    then obtain c where e: "e = Chunk s (Some c)" "c \<noteq> []" using Cons.prems(1) by auto
    obtain f1 fs1 fs2 where f: "feed f c = Inr (f1, fs1)" "feed_all f1 (chunks_of s es) = Inr (f', fs2)"
      "fs = fs1 @ fs2"
      using Cons.prems(4) e by (auto simp: chunks_of_def sbind_eq_Inr_conv)
    note here = event_here[OF Cons.prems(2,3) e(2) f(1)]
    have "rx_running r' \<and> map_of (rx_clients r') s = Some (ip, f') \<and> emitted s rest = tcp_messages ip fs2"
      by (rule Cons.IH[of r1 f1]) (use Cons.prems(1) here s e f log in auto)
    then show ?thesis using here s e f log by (auto simp: emitted_def tcp_messages_append)
  next
    case False
    then have "chunks_of s (e # es) = chunks_of s es" "emitted s log = emitted s rest"
      using log by (auto simp: chunks_of_def emitted_def split: rx_event.splits option.splits)
    moreover have "rx_running r1 \<and> map_of (rx_clients r1) s = Some (ip, f)"
      using event_elsewhere[of s e r "(ip, f)"] Cons.prems False s by auto
    ultimately show ?thesis using Cons.IH[of r1 f fs rest] Cons.prems s log by auto
  qed
qed

lemma receive_all_snoc:
  "receive_all r es = (r1, log) \<Longrightarrow>
   receive_all r (es @ [e]) = (fst (receive_event r1 e), log @ [(e, snd (receive_event r1 e))])"
  by (induction es arbitrary: r log) (fastforce split: prod.splits)+

text \<open>Property C22. A connection is a private, ordered channel: once a client is accepted, whatever the other
  sockets do in between, the messages emitted for it up to the end of its stream are exactly the
  lines of the bytes it sent, each with the client's address, and then its slot is free again.\<close>

theorem connection_delivers_its_lines:
  assumes "list_all (keeps_open s) es" "rx_running r" "map_of (rx_clients r) s = Some (ip, new_framer n)"
    and "\<forall>l \<in> set (split_on LF (concat (chunks_of s es))). length l \<le> nat (max 1 n)"
    and "(r', log) = receive_all r (es @ [Chunk s (Some [])])"
  shows "emitted s log = tcp_messages ip (frames_of (split_on LF (concat (chunks_of s es))))
    \<and> map_of (rx_clients r') s = None"
proof -
  let ?new = "new_framer n"
  obtain f fs where f: "feed_all ?new (chunks_of s es) = Inr (f, fs)"
    using feed_all_total[of ?new "chunks_of s es"] assms(4) by (auto simp: new_framer_def)
  obtain ls where ls: "split_on LF (concat (chunks_of s es)) = ls @ [fr_buffer f]" "fs = frames_of ls"
    using feed_all_lines[OF f] by (auto simp: new_framer_def)
  obtain r1 log1 where r1: "receive_all r es = (r1, log1)" by fastforce
  have run: "rx_running r1" "map_of (rx_clients r1) s = Some (ip, f)" "emitted s log1 = tcp_messages ip fs"
    using connection_run[OF assms(1-3) f r1[symmetric]] by auto
  let ?e = "Chunk s (Some []) :: rx_event"
  have last: "receive_event r1 ?e = (close_client s r1, tcp_messages ip (frames_of [fr_buffer f]))"
    using run by (simp add: receive_event_def read_client_def finish_frames)
  have "receive_all r (es @ [?e]) = (close_client s r1, log1 @ [(?e, tcp_messages ip (frames_of [fr_buffer f]))])"
    using receive_all_snoc[OF r1] last by simp
  moreover have "map_of (rx_clients (close_client s r1)) s = None"
    by (auto simp: close_client_def map_of_eq_None_iff)
  ultimately show ?thesis using assms(5) run ls
    by (simp add: emitted_def tcp_messages_def frames_of_def)
qed

definition rx_sample :: receiver where
  "rx_sample = \<lparr>rx_protocol = ''tcp'', rx_max_bytes = 64, rx_max_clients = 4, rx_running = True,
    rx_clients = [(5, ''10.0.0.1'', new_framer 64), (6, ''10.0.0.2'', new_framer 64)], rx_errors = []\<rparr>"

definition rx_trace :: "rx_event list" where
  "rx_trace = [Chunk 5 (Some ''on''), Chunk 6 (Some (''x'' @ [LF])), Chunk 5 (Some (''e'' @ [CR, LF] @ ''two''))]"

lemma connection_delivers_its_lines_witness:
  "emitted 5 (snd (receive_all rx_sample (rx_trace @ [Chunk 5 (Some [])])))
     = [(''one'', ''10.0.0.1'', ''tcp''), (''two'', ''10.0.0.1'', ''tcp'')]"
proof -
  have "emitted 5 (snd (receive_all rx_sample (rx_trace @ [Chunk 5 (Some [])])))
      = tcp_messages ''10.0.0.1'' (frames_of (split_on LF (concat (chunks_of 5 rx_trace))))"
    by (rule connection_delivers_its_lines[of 5 rx_trace rx_sample "''10.0.0.1''" 64
          "fst (receive_all rx_sample (rx_trace @ [Chunk 5 (Some [])]))", THEN conjunct1])
      (auto simp: rx_trace_def rx_sample_def chunks_of_def LF_def CR_def)
  also have "tcp_messages ''10.0.0.1'' (frames_of (split_on LF (concat (chunks_of 5 rx_trace))))
      = [(''one'', ''10.0.0.1'', ''tcp''), (''two'', ''10.0.0.1'', ''tcp'')]" by code_simp
  finally show ?thesis .
qed

end
