(* ===== verification/Syslog_Writer.thy ===== *)
theory Syslog_Writer
  imports Py_Values "HOL-Library.Sublist"
begin

text \<open>
  The bounded queue and batch writer of the Syslog server
  (\<open>features/syslog/application/writer.py\<close>: \<open>SyslogWriter\<close>).

  The writer thread and the threads that submit interleave between the calls of \<open>Queue\<close>, which are
  atomic; a step is one call of \<open>submit\<close>, \<open>stop\<close> or \<open>start\<close>, or one iteration of the thread's \<open>while\<close> loop.
  What the processor, the repository, the publication callback and the clock do in an iteration are
  arguments of the step, so that they may fail at any time. \<open>wr_stored\<close> records the messages the
  repository has accepted. The lemmas show that no message disappears without being counted.
\<close>

type_synonym raw_event = "string \<times> string \<times> string"

record ('m, 'r) writer =
  wr_max_queue :: int
  wr_batch_size :: nat
  wr_queue :: "raw_event list"
  wr_batch :: "'m list"
  wr_dropped :: nat
  wr_stop :: bool
  wr_alive :: bool
  wr_stored :: "'m list"
  wr_published :: "'r list"
  wr_errors :: "string list"

definition new_writer :: "int \<Rightarrow> int \<Rightarrow> ('m, 'r) writer" where
  "new_writer max_queue batch_size =
     \<lparr>wr_max_queue = max_queue, wr_batch_size = nat (max 1 batch_size), wr_queue = [], wr_batch = [],
      wr_dropped = 0, wr_stop = False, wr_alive = False, wr_stored = [], wr_published = [], wr_errors = []\<rparr>"

text \<open>\<open>queue.Queue\<close>: a size below one means no bound.\<close>

definition queue_full :: "('m, 'r) writer \<Rightarrow> bool" where
  "queue_full w = (wr_max_queue w > 0 \<and> int (length (wr_queue w)) \<ge> wr_max_queue w)"

definition add_dropped :: "nat \<Rightarrow> ('m, 'r) writer \<Rightarrow> ('m, 'r) writer" where
  "add_dropped n w = w\<lparr>wr_dropped := wr_dropped w + n\<rparr>"

definition report_error :: "string \<Rightarrow> ('m, 'r) writer \<Rightarrow> ('m, 'r) writer" where
  "report_error e w = w\<lparr>wr_errors := wr_errors w @ [e]\<rparr>"

definition submit :: "raw_event \<Rightarrow> ('m, 'r) writer \<Rightarrow> ('m, 'r) writer" where
  "submit ev w = (if queue_full w then add_dropped 1 w else w\<lparr>wr_queue := wr_queue w @ [ev]\<rparr>)"

definition start_writer :: "('m, 'r) writer \<Rightarrow> ('m, 'r) writer" where
  "start_writer w = (if wr_alive w then w else w\<lparr>wr_stop := False, wr_alive := True\<rparr>)"

definition stop_writer :: "('m, 'r) writer \<Rightarrow> ('m, 'r) writer" where
  "stop_writer w = w\<lparr>wr_stop := True\<rparr>"

definition flush_batch :: "('m list \<Rightarrow> string + 'r list) \<Rightarrow> ('r list \<Rightarrow> string option)
    \<Rightarrow> ('m, 'r) writer \<Rightarrow> ('m, 'r) writer" where
  "flush_batch insert_messages on_inserted w =
     (case insert_messages (wr_batch w) of
        Inl e \<Rightarrow> report_error (''Could not store syslog messages: '' @ e) (add_dropped (length (wr_batch w)) w)
      | Inr inserted \<Rightarrow>
          let w' = w\<lparr>wr_stored := wr_stored w @ wr_batch w\<rparr> in
          case on_inserted inserted of
            None \<Rightarrow> w'\<lparr>wr_published := wr_published w' @ inserted\<rparr>
          | Some e \<Rightarrow> report_error (''Could not publish stored syslog messages: '' @ e) w')\<lparr>wr_batch := []\<rparr>"

definition take_event :: "(raw_event \<Rightarrow> string + 'm) \<Rightarrow> ('m, 'r) writer \<Rightarrow> ('m, 'r) writer" where
  "take_event process_event w =
     (case wr_queue w of
        [] \<Rightarrow> w
      | ev # rest \<Rightarrow>
          let w' = w\<lparr>wr_queue := rest\<rparr> in
          case process_event ev of
            Inl e \<Rightarrow> report_error (''Could not process a syslog message: '' @ e) (add_dropped 1 w')
          | Inr m \<Rightarrow> w'\<lparr>wr_batch := wr_batch w' @ [m]\<rparr>)"

definition flush_due :: "bool \<Rightarrow> ('m, 'r) writer \<Rightarrow> bool" where
  "flush_due expired w = (length (wr_batch w) \<ge> wr_batch_size w \<or> (wr_batch w \<noteq> [] \<and> expired))"

definition loop_iteration :: "bool \<Rightarrow> (raw_event \<Rightarrow> string + 'm) \<Rightarrow> ('m list \<Rightarrow> string + 'r list)
    \<Rightarrow> ('r list \<Rightarrow> string option) \<Rightarrow> ('m, 'r) writer \<Rightarrow> ('m, 'r) writer" where
  "loop_iteration expired process_event insert_messages on_inserted w =
     (if \<not> wr_alive w then w
      else if wr_stop w \<and> wr_queue w = [] \<and> wr_batch w = [] then w\<lparr>wr_alive := False\<rparr>
      else let w' = take_event process_event w
           in if flush_due expired w' then flush_batch insert_messages on_inserted w' else w')"

datatype ('m, 'r) writer_event =
  Submit raw_event
| Iterate bool "raw_event \<Rightarrow> string + 'm" "'m list \<Rightarrow> string + 'r list" "'r list \<Rightarrow> string option"
| StartWriter
| StopWriter

fun writer_step :: "('m, 'r) writer \<Rightarrow> ('m, 'r) writer_event \<Rightarrow> ('m, 'r) writer" where
  "writer_step w (Submit ev) = submit ev w"
| "writer_step w (Iterate expired p i n) = loop_iteration expired p i n w"
| "writer_step w StartWriter = start_writer w"
| "writer_step w StopWriter = stop_writer w"

abbreviation writer_run :: "('m, 'r) writer \<Rightarrow> ('m, 'r) writer_event list \<Rightarrow> ('m, 'r) writer" where
  "writer_run \<equiv> foldl writer_step"

section \<open>Accounting\<close>

lemmas writer_defs = submit_def queue_full_def add_dropped_def report_error_def start_writer_def stop_writer_def
  flush_batch_def take_event_def flush_due_def loop_iteration_def

text \<open>Where the submitted messages are.\<close>

definition accounted :: "('m, 'r) writer \<Rightarrow> nat" where
  "accounted w = length (wr_stored w) + wr_dropped w + length (wr_queue w) + length (wr_batch w)"

definition writer_ok :: "('m, 'r) writer \<Rightarrow> bool" where
  "writer_ok w \<longleftrightarrow> wr_batch_size w > 0 \<and> length (wr_batch w) < wr_batch_size w
     \<and> (wr_max_queue w > 0 \<longrightarrow> int (length (wr_queue w)) \<le> wr_max_queue w)
     \<and> (\<not> wr_alive w \<longrightarrow> wr_batch w = [])"

fun submissions :: "('m, 'r) writer_event list \<Rightarrow> raw_event list" where
  "submissions [] = []"
| "submissions (Submit ev # es) = ev # submissions es"
| "submissions (_ # es) = submissions es"

lemma submissions_append [simp]: "submissions (xs @ ys) = submissions xs @ submissions ys"
  by (induction xs rule: submissions.induct) auto

lemma accounted_submit [simp]: "accounted (submit ev w) = Suc (accounted w)"
  by (simp add: accounted_def writer_defs)

lemma accounted_flush [simp]: "accounted (flush_batch i n w) = accounted w"
  by (auto simp: accounted_def flush_batch_def add_dropped_def report_error_def Let_def split: sum.split option.split)

lemma accounted_take [simp]: "accounted (take_event p w) = accounted w"
  by (auto simp: accounted_def take_event_def add_dropped_def report_error_def Let_def split: sum.split list.split)

lemma accounted_iteration [simp]: "accounted (loop_iteration x p i n w) = accounted w"
proof -
  have "accounted (w\<lparr>wr_alive := False\<rparr>) = accounted w" by (simp add: accounted_def)
  then show ?thesis by (simp add: loop_iteration_def Let_def)
qed

lemma accounted_step: "accounted (writer_step w e) = accounted w + length (submissions [e])"
  by (cases e) (simp_all, simp_all add: accounted_def start_writer_def stop_writer_def)

lemma flush_fields [simp]:
  "wr_batch (flush_batch i n w) = []" "wr_queue (flush_batch i n w) = wr_queue w"
  "wr_max_queue (flush_batch i n w) = wr_max_queue w" "wr_batch_size (flush_batch i n w) = wr_batch_size w"
  "wr_alive (flush_batch i n w) = wr_alive w" "wr_stop (flush_batch i n w) = wr_stop w"
  by (simp_all add: flush_batch_def add_dropped_def report_error_def Let_def split: sum.split option.split)

lemma take_fields [simp]:
  "wr_queue (take_event p w) = tl (wr_queue w)"
  "wr_max_queue (take_event p w) = wr_max_queue w" "wr_batch_size (take_event p w) = wr_batch_size w"
  "wr_alive (take_event p w) = wr_alive w" "wr_stop (take_event p w) = wr_stop w"
  "wr_stored (take_event p w) = wr_stored w"
  by (simp_all add: take_event_def add_dropped_def report_error_def Let_def split: sum.split list.split)

lemma writer_ok_iteration: "writer_ok w \<Longrightarrow> writer_ok (loop_iteration x p i n w)"
  by (auto simp: writer_ok_def loop_iteration_def flush_due_def Let_def)

lemma writer_ok_step: "writer_ok w \<Longrightarrow> writer_ok (writer_step w e)"
proof (cases e)
  case (Iterate x p i n)
  then show "writer_ok w \<Longrightarrow> ?thesis" by (simp add: writer_ok_iteration)
qed (auto simp: writer_ok_def writer_defs)

lemma run_accounted: "accounted (writer_run w es) = accounted w + length (submissions es)"
proof (induction es arbitrary: w)
  case (Cons e es)
  then show ?case using accounted_step[of w e] submissions_append[of "[e]" es] by simp
qed simp

lemma writer_run_ok: "writer_ok w \<Longrightarrow> writer_ok (writer_run w es) \<and>
    accounted (writer_run w es) = accounted w + length (submissions es)"
proof (induction es arbitrary: w)
  case (Cons e es)
  then show ?case
    using writer_ok_step[of w e] accounted_step[of w e] submissions_append[of "[e]" es] by simp
qed simp

text \<open>Property C23. No message disappears silently: after any interleaving of submissions, iterations of the
  writer thread (whatever fails in them), stops and restarts, every submitted message is stored,
  counted as dropped, in the queue or in the current batch, exactly once; the queue never exceeds its bound
  and the batch stays below the batch size.\<close>

theorem no_silent_loss:
  fixes w :: "('m, 'r) writer"
  assumes "w = writer_run (new_writer q b) es"
  shows "length (submissions es) = length (wr_stored w) + wr_dropped w + length (wr_queue w) + length (wr_batch w)
    \<and> (0 < q \<longrightarrow> int (length (wr_queue w)) \<le> q) \<and> length (wr_batch w) < nat (max 1 b)"
proof -
  have max_queue: "wr_max_queue (writer_step v e) = wr_max_queue v \<and> wr_batch_size (writer_step v e) = wr_batch_size v"
    for v :: "('m, 'r) writer" and e
    by (cases e) (auto simp: submit_def add_dropped_def start_writer_def stop_writer_def loop_iteration_def Let_def)
  have "wr_max_queue (writer_run v es) = wr_max_queue v \<and> wr_batch_size (writer_run v es) = wr_batch_size v"
    for v :: "('m, 'r) writer"
    by (induction es arbitrary: v) (auto simp: max_queue)
  moreover have "writer_ok (new_writer q b)" "accounted (new_writer q b) = 0"
    by (auto simp: writer_ok_def new_writer_def accounted_def)
  ultimately show ?thesis
    using writer_run_ok[of "new_writer q b :: ('m, 'r) writer" es] assms
    by (simp add: writer_ok_def accounted_def new_writer_def)
qed

definition raw_sample :: raw_event where
  "raw_sample = (''<13>hi'', ''10.0.0.1'', ''udp'')"

definition writer_sample :: "(nat, nat) writer_event list" where
  "writer_sample = [StartWriter, Submit raw_sample, Submit raw_sample, Submit raw_sample,
     Iterate True (\<lambda>_. Inr 7) Inr (\<lambda>_. None), Submit raw_sample]"

lemma no_silent_loss_witness:
  "length (submissions writer_sample) = 4
   \<and> 4 = length (wr_stored (writer_run (new_writer 2 10) writer_sample))
       + wr_dropped (writer_run (new_writer 2 10) writer_sample)
       + length (wr_queue (writer_run (new_writer 2 10) writer_sample))
       + length (wr_batch (writer_run (new_writer 2 10) writer_sample))"
  using no_silent_loss[where q = 2 and b = 10 and es = writer_sample, OF refl] by (simp add: writer_sample_def)

section \<open>Order\<close>

text \<open>The messages of those events that a processor accepts, and a trace whose iterations all use it.\<close>

definition processed :: "(raw_event \<Rightarrow> string + 'm) \<Rightarrow> raw_event list \<Rightarrow> 'm list" where
  "processed p evs = List.map_filter (\<lambda>ev. case p ev of Inl _ \<Rightarrow> None | Inr m \<Rightarrow> Some m) evs"

fun uses :: "(raw_event \<Rightarrow> string + 'm) \<Rightarrow> ('m, 'r) writer_event \<Rightarrow> bool" where
  "uses p (Iterate x q i n) = (q = p)"
| "uses p _ = True"

lemma processed_simps [simp]:
  "processed p [] = []"
  "processed p (ev # evs) = (case p ev of Inl _ \<Rightarrow> processed p evs | Inr m \<Rightarrow> m # processed p evs)"
  "processed p (xs @ ys) = processed p xs @ processed p ys"
  by (auto simp: processed_def map_filter_simps split: sum.split) (simp add: List.map_filter_def)

definition pipeline_of :: "(raw_event \<Rightarrow> string + 'm) \<Rightarrow> ('m, 'r) writer \<Rightarrow> 'm list" where
  "pipeline_of p w = wr_stored w @ wr_batch w @ processed p (wr_queue w)"

lemma flush_pipeline: "subseq (pipeline_of p (flush_batch i n w)) (pipeline_of p w)"
  by (auto simp: pipeline_of_def flush_batch_def add_dropped_def report_error_def Let_def subseq_append'
      intro: list_emb_append2 split: sum.split option.split)

lemma take_pipeline: "pipeline_of p (take_event p w) = pipeline_of p w"
  by (auto simp: pipeline_of_def take_event_def add_dropped_def report_error_def Let_def
      split: list.split sum.split)

lemma step_pipeline:
  assumes "uses p e"
  shows "subseq (pipeline_of p (writer_step w e)) (pipeline_of p w @ processed p (submissions [e]))"
proof (cases e)
  case (Iterate x q i n)
  have "pipeline_of p (w\<lparr>wr_alive := False\<rparr>) = pipeline_of p w" by (simp add: pipeline_of_def)
  then show ?thesis using Iterate assms flush_pipeline[of p i n "take_event p w"]
    by (auto simp: loop_iteration_def Let_def take_pipeline)
qed (auto simp: pipeline_of_def submit_def add_dropped_def start_writer_def stop_writer_def
    intro: list_emb_append2 split: sum.split)

text \<open>Property C24. The repository receives the messages in the order of their submission and each at most
  once: what has been stored is a subsequence of what was submitted and could be processed.\<close>

theorem stored_in_order:
  assumes "list_all (uses p) es"
  shows "subseq (wr_stored (writer_run (new_writer q b) es)) (processed p (submissions es))"
proof -
  have "subseq (pipeline_of p (writer_run w es)) (pipeline_of p w @ processed p (submissions es))"
    if "list_all (uses p) es" for w :: "('a, 'b) writer" and es
    using that
  proof (induction es arbitrary: w)
    case (Cons e es)
    then have "subseq (pipeline_of p (writer_run (writer_step w e) es))
        (pipeline_of p (writer_step w e) @ processed p (submissions es))" by simp
    also have "subseq \<dots> ((pipeline_of p w @ processed p (submissions [e])) @ processed p (submissions es))"
      using step_pipeline[of p e w] Cons.prems by (simp only: subseq_append list.pred_inject)
    finally show ?case using submissions_append[of "[e]" es] by (simp flip: processed_simps(3))
  qed simp
  from this[OF assms, of "new_writer q b"]
  have "subseq (pipeline_of p (writer_run (new_writer q b) es)) (processed p (submissions es))"
    by (simp add: pipeline_of_def new_writer_def)
  moreover have "subseq (wr_stored (writer_run (new_writer q b) es)) (pipeline_of p (writer_run (new_writer q b) es))"
    unfolding pipeline_of_def by (rule prefix_imp_subseq) simp
  ultimately show ?thesis by (rule subseq_order.trans[rotated])
qed

lemma stored_in_order_witness:
  "subseq (wr_stored (writer_run (new_writer 2 10) writer_sample)) [7, 7, 7, 7]"
  using stored_in_order[where p = "\<lambda>_. Inr 7" and es = writer_sample and q = 2 and b = 10]
  by (simp add: writer_sample_def)

section \<open>Stopping\<close>

text \<open>The iterations that follow a stop, with what their environment does.\<close>

fun is_iteration :: "('m, 'r) writer_event \<Rightarrow> bool" where
  "is_iteration (Iterate x p i n) = True"
| "is_iteration _ = False"

lemma iteration_drains:
  assumes "wr_alive w" "wr_stop w" "is_iteration e"
  shows "let w' = writer_step w e in
    wr_stop w' \<and> wr_queue w' = tl (wr_queue w) \<and> (wr_queue w \<noteq> [] \<longrightarrow> wr_alive w')"
  using assms by (cases e) (auto simp: loop_iteration_def Let_def)

lemma iterations_drain:
  assumes "wr_alive w" "wr_stop w" "list_all is_iteration es" "length es = length (wr_queue w)"
  shows "wr_alive (writer_run w es) \<and> wr_stop (writer_run w es) \<and> wr_queue (writer_run w es) = []"
  using assms
proof (induction es arbitrary: w)
  case (Cons e es)
  then have "wr_queue w \<noteq> []" by auto
  then show ?case using Cons.IH[of "writer_step w e"] iteration_drains[of w e] Cons.prems
    by (simp add: Let_def)
qed simp

text \<open>Property C25. \<open>stop\<close> drains: when the thread runs and \<open>stop\<close> is called, then without further
  submissions it takes one iteration per queued message, one after the flush deadline and
  one more to end, whatever fails in them; then queue and batch are empty, so that every message submitted
  so far has been stored or counted as dropped.\<close>

theorem stop_drains:
  fixes w :: "('m, 'r) writer"
  assumes "wr_alive w" "length (wr_batch w) < wr_batch_size w" "list_all is_iteration es" "length es = length (wr_queue w)"
    "w' = writer_run w (StopWriter # es @ [Iterate True p i n, Iterate x p' i' n'])"
  shows "\<not> wr_alive w' \<and> wr_queue w' = [] \<and> wr_batch w' = []
    \<and> length (wr_stored w') + wr_dropped w' = length (wr_stored w) + wr_dropped w + length (wr_queue w) + length (wr_batch w)"
proof -
  let ?w1 = "stop_writer w"
  let ?w2 = "writer_run ?w1 es"
  have "wr_alive ?w2 \<and> wr_stop ?w2 \<and> wr_queue ?w2 = []"
    by (rule iterations_drain) (use assms in \<open>auto simp: stop_writer_def\<close>)
  then have w': "\<not> wr_alive w' \<and> wr_queue w' = [] \<and> wr_batch w' = []"
    by (auto simp: assms(5) loop_iteration_def flush_due_def take_event_def Let_def)
  have nosub: "submissions es = []" using assms(3) by (induction es rule: submissions.induct) auto
  have "accounted w' = accounted w" unfolding assms(5) using nosub
    by (simp add: run_accounted) (simp add: accounted_def stop_writer_def)
  then show ?thesis using w' by (simp add: accounted_def)
qed

definition busy_writer :: "(nat, nat) writer" where
  "busy_writer = writer_run (new_writer 2 10) writer_sample"

lemma stop_drains_witness:
  "wr_queue (writer_run busy_writer (StopWriter # [Iterate False (\<lambda>_. Inl ''bad'') Inr (\<lambda>_. None), Iterate False (\<lambda>_. Inr 3) Inr (\<lambda>_. None)]
      @ [Iterate True (\<lambda>_. Inr 1) (\<lambda>_. Inl ''disk full'') (\<lambda>_. None), Iterate False (\<lambda>_. Inr 1) Inr (\<lambda>_. None)])) = []"
  using stop_drains[of busy_writer "[Iterate False (\<lambda>_. Inl ''bad'') Inr (\<lambda>_. None), Iterate False (\<lambda>_. Inr 3) Inr (\<lambda>_. None)]"
      _ "\<lambda>_. Inr 1" "\<lambda>_. Inl ''disk full''" "\<lambda>_. None" False "\<lambda>_. Inr 1" Inr "\<lambda>_. None", OF _ _ _ _ refl]
  by (simp add: busy_writer_def writer_sample_def new_writer_def writer_defs raw_sample_def)

text \<open>
  \<open>start\<close> right after a \<open>stop\<close> whose \<open>join\<close> timed out: the thread is still alive, so \<open>start\<close> returns without
  clearing the stop flag; the thread drains and ends, and from then on submissions are queued for nobody.
\<close>

lemma restart_after_slow_stop:
  "let w = writer_run (new_writer 2 10 :: (nat, nat) writer)
     [StartWriter, Submit raw_sample, StopWriter, StartWriter, Iterate True (\<lambda>_. Inr 1) Inr (\<lambda>_. None),
      Iterate True (\<lambda>_. Inr 1) Inr (\<lambda>_. None)]
   in \<not> wr_alive w \<and> wr_queue (writer_step w (Submit raw_sample)) = [raw_sample]"
  by (simp add: new_writer_def writer_defs Let_def)

end
