(* ===== verification/Syslog_Parsing.thy ===== *)
theory Syslog_Parsing
  imports Py_Values Ipv4
begin

text \<open>
  The parser of the Syslog server: \<open>features/syslog/parsing/pri.py\<close>, \<open>timestamp.py\<close>, \<open>cisco.py\<close>, \<open>parser.py\<close>
  and the message they produce (\<open>features/syslog/domain/models.py\<close>: \<open>SyslogMessage\<close>).

  A regular expression is a recogniser written out for its pattern; where the pattern can match in one way only the
  recogniser is deterministic. Text is ASCII, as everywhere in the development. Parameters are the decoding of the
  received bytes (\<open>bytes.decode\<close> with replacement), \<open>datetime.fromisoformat\<close> followed by \<open>isoformat\<close>, the current
  year and the time of reception. The reading of RFC 3164 stamps by \<open>datetime.strptime\<close> is written out.
\<close>

section \<open>Priority\<close>

record pri_result =
  pr_pri :: "nat option"
  pr_facility :: "nat option"
  pr_severity :: "nat option"
  pr_remainder :: string

definition digits_value :: "string \<Rightarrow> nat" where
  "digits_value s = foldl (\<lambda>a c. 10 * a + digit_val c) 0 s"

text \<open>\<open>PRI_RE\<close>: the digits between the angle brackets and the text behind them.\<close>

definition match_pri :: "string \<Rightarrow> (string \<times> string) option" where
  "match_pri t =
     (case t of [] \<Rightarrow> None | c # cs \<Rightarrow>
        let ds = takeWhile is_digit cs; rest = dropWhile is_digit cs in
        if c = CHR ''<'' \<and> 1 \<le> length ds \<and> length ds \<le> 3 \<and> rest \<noteq> [] \<and> hd rest = CHR ''>''
        then Some (ds, tl rest) else None)"

definition no_pri :: "string \<Rightarrow> pri_result" where
  "no_pri t = \<lparr>pr_pri = None, pr_facility = None, pr_severity = None, pr_remainder = t\<rparr>"

definition parse_pri :: "string \<Rightarrow> pri_result" where
  "parse_pri t =
     (case match_pri t of
        None \<Rightarrow> no_pri t
      | Some (ds, rest) \<Rightarrow>
          let pri = digits_value ds in
          if pri > 191 then no_pri t
          else \<lparr>pr_pri = Some pri, pr_facility = Some (pri div 8), pr_severity = Some (pri mod 8), pr_remainder = lstrip rest\<rparr>)"

section \<open>Sequence number and time stamp\<close>

record timestamp_result =
  tr_sequence :: "nat option"
  tr_time :: "string option"
  tr_unsynced :: bool
  tr_remainder :: string

text \<open>\<open>SEQUENCE_RE\<close>\<close>

definition match_sequence :: "string \<Rightarrow> (string \<times> string) option" where
  "match_sequence t =
     (let ds = takeWhile is_digit t; rest = dropWhile is_digit t in
      if ds \<noteq> [] \<and> rest \<noteq> [] \<and> hd rest = CHR '':'' then Some (ds, lstrip (tl rest)) else None)"

text \<open>\<open>int\<close> refuses more than 4300 digits.\<close>

definition int_digit_limit :: nat where
  "int_digit_limit = 4300"

definition read_sequence :: "string \<Rightarrow> string + nat" where
  "read_sequence ds =
     (if length ds > int_digit_limit
      then Inl (''Exceeds the limit (4300 digits) for integer string conversion: value has '' @ show_nat (length ds)
             @ '' digits; use sys.set_int_max_str_digits() to increase the limit'')
      else Inr (digits_value ds))"

definition take_star :: "string \<Rightarrow> bool \<times> string" where
  "take_star t = (if t \<noteq> [] \<and> hd t = CHR ''*'' then (True, tl t) else (False, t))"

text \<open>A prefix of the text that matches a list of character classes.\<close>

fun match_classes :: "(char \<Rightarrow> bool) list \<Rightarrow> string \<Rightarrow> (string \<times> string) option" where
  "match_classes [] t = Some ([], t)"
| "match_classes (p # ps) [] = None"
| "match_classes (p # ps) (c # cs) =
     (if p c then map_option (\<lambda>(m, rest). (c # m, rest)) (match_classes ps cs) else None)"

text \<open>\<open>ISO_RE\<close>: the lazy \<open>\S+?\<close> runs to the first white space, which the pattern requires.\<close>

definition iso_date_classes :: "(char \<Rightarrow> bool) list" where
  "iso_date_classes = replicate 4 is_digit @ [(=) CHR ''-''] @ replicate 2 is_digit @ [(=) CHR ''-''] @ replicate 2 is_digit @ [(=) CHR ''T'']"

definition match_iso :: "string \<Rightarrow> (bool \<times> string \<times> string) option" where
  "match_iso t =
     (let (star, u) = take_star t in
      case match_classes iso_date_classes u of
        None \<Rightarrow> None
      | Some (date, rest) \<Rightarrow>
          let clock = takeWhile (\<lambda>c. \<not> is_space c) rest; rest' = dropWhile (\<lambda>c. \<not> is_space c) rest in
          if clock \<noteq> [] \<and> rest' \<noteq> [] then Some (star, date @ clock, lstrip rest') else None)"

text \<open>\<open>stamp.replace("Z", "+00:00")\<close>\<close>

definition replace_zulu :: "string \<Rightarrow> string" where
  "replace_zulu s = concat (map (\<lambda>c. if c = CHR ''Z'' then ''+00:00'' else [c]) s)"

text \<open>The parts of an RFC 3164 stamp: month name, day, hour, minute, second and fraction.\<close>

record rfc_stamp =
  rs_month :: string
  rs_day :: string
  rs_hour :: string
  rs_minute :: string
  rs_second :: string
  rs_fraction :: "string option"

definition is_upper :: "char \<Rightarrow> bool" where
  "is_upper c = (let n = code c in 65 \<le> n \<and> n \<le> 90)"

definition is_lower :: "char \<Rightarrow> bool" where
  "is_lower c = (let n = code c in 97 \<le> n \<and> n \<le> 122)"

text \<open>\<open>(?:\s+[A-Z][A-Z0-9+-]*)?\<close>\<close>

definition skip_zone :: "string \<Rightarrow> string" where
  "skip_zone t =
     (let u = lstrip t in
      if t \<noteq> [] \<and> is_space (hd t) \<and> u \<noteq> [] \<and> is_upper (hd u)
      then dropWhile (\<lambda>c. is_upper c \<or> is_digit c \<or> c = CHR ''+'' \<or> c = CHR ''-'') (tl u) else t)"

text \<open>\<open>\s*:?\s*\<close>\<close>

definition skip_colon :: "string \<Rightarrow> string" where
  "skip_colon t = (let u = lstrip t in if u \<noteq> [] \<and> hd u = CHR '':'' then lstrip (tl u) else u)"

definition skip_spaces :: "string \<Rightarrow> string option" where
  "skip_spaces t = (if t \<noteq> [] \<and> is_space (hd t) then Some (lstrip t) else None)"

text \<open>\<open>(?:\.\d{1,6})?\<close>\<close>

definition take_fraction :: "string \<Rightarrow> string option \<times> string" where
  "take_fraction t =
     (let ds = take 6 (takeWhile is_digit (tl t)) in
      if t \<noteq> [] \<and> hd t = CHR ''.'' \<and> ds \<noteq> [] then (Some ds, drop (length ds) (tl t)) else (None, t))"

definition clock_classes :: "(char \<Rightarrow> bool) list" where
  "clock_classes = [is_digit, is_digit, (=) CHR '':'', is_digit, is_digit, (=) CHR '':'', is_digit, is_digit]"

text \<open>\<open>RFC3164_RE\<close>\<close>

definition match_rfc :: "string \<Rightarrow> (bool \<times> rfc_stamp \<times> string) option" where
  "match_rfc t =
     (let (star, u) = take_star t in
      Option.bind (match_classes [is_upper, is_lower, is_lower] u) (\<lambda>(month, t1).
      Option.bind (skip_spaces t1) (\<lambda>t2.
      let day = take 2 (takeWhile is_digit t2) in
      if day = [] then None else
      Option.bind (skip_spaces (drop (length day) t2)) (\<lambda>t3.
      Option.bind (match_classes clock_classes t3) (\<lambda>(clock, t4).
      let (fraction, t5) = take_fraction t4 in
      Some (star, \<lparr>rs_month = month, rs_day = day, rs_hour = take 2 clock, rs_minute = take 2 (drop 3 clock),
                   rs_second = drop 6 clock, rs_fraction = fraction\<rparr>, skip_colon (skip_zone t5)))))))"

definition MONTHS :: "string list" where
  "MONTHS = [''Jan'', ''Feb'', ''Mar'', ''Apr'', ''May'', ''Jun'', ''Jul'', ''Aug'', ''Sep'', ''Oct'', ''Nov'', ''Dec'']"

definition days_in_month :: "nat \<Rightarrow> nat \<Rightarrow> nat" where
  "days_in_month year month =
     (if month = 2 then (if 4 dvd year \<and> (\<not> 100 dvd year \<or> 400 dvd year) then 29 else 28)
      else if month \<in> {4, 6, 9, 11} then 30 else 31)"

definition two_digits :: "nat \<Rightarrow> string" where
  "two_digits n = [digit_char (n div 10 mod 10), digit_char (n mod 10)]"

text \<open>
  \<open>datetime.strptime(f"{year} {stamp}", fmt).isoformat()\<close>, with the format that has a fraction or the one without:
  \<open>None\<close> stands for the \<open>ValueError\<close> of both. The year has four digits.
\<close>

definition rfc_time :: "nat \<Rightarrow> rfc_stamp \<Rightarrow> string option" where
  "rfc_time year st =
     (let month = length (takeWhile (\<lambda>m. m \<noteq> rs_month st) MONTHS) + 1; day = digits_value (rs_day st);
          hour = digits_value (rs_hour st); minute = digits_value (rs_minute st); second = digits_value (rs_second st) in
      if month > 12 \<or> day < 1 \<or> day > days_in_month year month \<or> hour > 23 \<or> minute > 59 \<or> second > 59
         \<or> year < 1000 \<or> year > 9999
      then None
      else Some (show_nat year @ ''-'' @ two_digits month @ ''-'' @ two_digits day @ ''T''
             @ two_digits hour @ '':'' @ two_digits minute @ '':'' @ two_digits second
             @ (case rs_fraction st of
                  None \<Rightarrow> []
                | Some ds \<Rightarrow> let us = ds @ replicate (6 - length ds) CHR ''0'' in
                    if digits_value us = 0 then [] else CHR ''.'' # us)))"

definition parse_timestamp :: "(string \<Rightarrow> string option) \<Rightarrow> nat \<Rightarrow> string \<Rightarrow> string + timestamp_result" where
  "parse_timestamp from_iso year text =
     (let (seq, t) = (case match_sequence text of
                        None \<Rightarrow> (Inr None, text)
                      | Some (ds, rest) \<Rightarrow> (map_sum id Some (read_sequence ds), rest)) in
      sbind seq (\<lambda>s.
      Inr (case match_iso t of
             Some (star, stamp, body) \<Rightarrow>
               (case from_iso (replace_zulu stamp) of
                  None \<Rightarrow> \<lparr>tr_sequence = s, tr_time = None, tr_unsynced = star, tr_remainder = t\<rparr>
                | Some time \<Rightarrow> \<lparr>tr_sequence = s, tr_time = Some time, tr_unsynced = star, tr_remainder = body\<rparr>)
           | None \<Rightarrow>
               (case match_rfc t of
                  None \<Rightarrow> \<lparr>tr_sequence = s, tr_time = None, tr_unsynced = False, tr_remainder = t\<rparr>
                | Some (star, st, body) \<Rightarrow>
                    (case rfc_time year st of
                       None \<Rightarrow> \<lparr>tr_sequence = s, tr_time = None, tr_unsynced = star, tr_remainder = t\<rparr>
                     | Some time \<Rightarrow> \<lparr>tr_sequence = s, tr_time = Some time, tr_unsynced = star, tr_remainder = body\<rparr>)))))"

section \<open>Cisco tag\<close>

record cisco_result =
  cs_facility :: string
  cs_subfacility :: "string option"
  cs_severity :: nat
  cs_mnemonic :: string
  cs_message :: string

definition is_tag_char :: "char \<Rightarrow> bool" where
  "is_tag_char c = (is_upper c \<or> is_digit c \<or> c = CHR ''_'')"

definition is_severity :: "string \<Rightarrow> bool" where
  "is_severity s = (length s = 1 \<and> is_digit (hd s) \<and> digit_val (hd s) \<le> 7)"

text \<open>
  \<open>CISCO_RE\<close> behind a percent sign. The colon is in no class, so the tag is the longest run of class characters and
  hyphens, and it has to be followed by the colon; its parts between hyphens are the prefix, the severity and the mnemonic.
\<close>

definition match_tag :: "string \<Rightarrow> (string list \<times> string \<times> string \<times> string) option" where
  "match_tag t =
     (let run = takeWhile (\<lambda>c. is_tag_char c \<or> c = CHR ''-'') t; rest = drop (length run) t;
          parts = split_on CHR ''-'' run; n = length parts in
      if rest \<noteq> [] \<and> hd rest = CHR '':'' \<and> 3 \<le> n \<and> [] \<notin> set parts \<and> is_severity (parts ! (n - 2))
      then Some (take (n - 2) parts, parts ! (n - 2), parts ! (n - 1), lstrip (tl rest)) else None)"

text \<open>\<open>CISCO_RE.search\<close>: the first position at which the pattern matches.\<close>

fun search_tag :: "string \<Rightarrow> (string list \<times> string \<times> string \<times> string) option" where
  "search_tag [] = None"
| "search_tag (c # cs) =
     (case (if c = CHR ''%'' then match_tag cs else None) of Some m \<Rightarrow> Some m | None \<Rightarrow> search_tag cs)"

definition none_if_empty :: "string \<Rightarrow> string option" where
  "none_if_empty s = (if s = [] then None else Some s)"

definition parse_cisco :: "string \<Rightarrow> cisco_result option" where
  "parse_cisco t =
     map_option (\<lambda>(prefix, severity, mnemonic, message).
       \<lparr>cs_facility = hd prefix, cs_subfacility = none_if_empty (join ''-'' (tl prefix)),
        cs_severity = digits_value severity, cs_mnemonic = mnemonic, cs_message = strip message\<rparr>)
     (search_tag t)"

section \<open>Messages\<close>

record syslog_message =
  sm_source_ip :: string
  sm_severity :: int
  sm_message :: string
  sm_raw :: string
  sm_protocol :: string
  sm_device_host :: string
  sm_received_at :: string
  sm_device_time :: "string option"
  sm_sequence :: "nat option"
  sm_unsynced :: bool
  sm_pri :: "nat option"
  sm_syslog_facility :: "nat option"
  sm_cisco_facility :: "string option"
  sm_subfacility :: "string option"
  sm_mnemonic :: "string option"
  sm_status :: string
  sm_facility :: "string option"

definition SEVERITY_NAMES :: "string list" where
  "SEVERITY_NAMES = [''emergency'', ''alert'', ''critical'', ''error'', ''warning'', ''notice'', ''informational'', ''debug'']"

definition all_digits :: "string \<Rightarrow> bool" where
  "all_digits s = (s \<noteq> [] \<and> list_all is_digit s)"

text \<open>\<open>__post_init__\<close>; \<open>now\<close> is the current time in ISO format. A number in the old \<open>facility\<close> field is short.\<close>

definition init_severity :: "syslog_message \<Rightarrow> syslog_message" where
  "init_severity m = (if 0 \<le> sm_severity m \<and> sm_severity m \<le> 7 then m else m\<lparr>sm_severity := 6\<rparr>)"

definition init_received :: "string \<Rightarrow> syslog_message \<Rightarrow> syslog_message" where
  "init_received now m = (if sm_received_at m = [] then m\<lparr>sm_received_at := now\<rparr> else m)"

definition init_pri_facility :: "syslog_message \<Rightarrow> syslog_message" where
  "init_pri_facility m =
     (case sm_pri m of
        None \<Rightarrow> m
      | Some p \<Rightarrow> if p \<le> 191 \<and> sm_syslog_facility m = None then m\<lparr>sm_syslog_facility := Some (p div 8)\<rparr> else m)"

definition init_legacy_facility :: "syslog_message \<Rightarrow> syslog_message" where
  "init_legacy_facility m =
     (case sm_facility m of
        None \<Rightarrow> m
      | Some f \<Rightarrow>
          let m' = (if sm_cisco_facility m = None \<and> f \<noteq> [] \<and> \<not> all_digits f then m\<lparr>sm_cisco_facility := Some f\<rparr> else m)
          in if sm_syslog_facility m' = None \<and> all_digits f \<and> digits_value f \<le> 23
             then m'\<lparr>sm_syslog_facility := Some (digits_value f)\<rparr> else m')"

definition init_facility :: "syslog_message \<Rightarrow> syslog_message" where
  "init_facility m =
     (if sm_facility m \<noteq> None then m
      else case sm_cisco_facility m of
             Some (c # cs) \<Rightarrow> m\<lparr>sm_facility := Some (c # cs)\<rparr>
           | _ \<Rightarrow> (case sm_syslog_facility m of None \<Rightarrow> m | Some n \<Rightarrow> m\<lparr>sm_facility := Some (show_nat n)\<rparr>))"

definition post_init :: "string \<Rightarrow> syslog_message \<Rightarrow> syslog_message" where
  "post_init now m =
     (let m' = init_received now (init_severity m)
      in init_facility (init_legacy_facility (init_pri_facility (m'\<lparr>sm_protocol := lower (sm_protocol m')\<rparr>))))"

text \<open>\<open>SEVERITY_NAMES[self.severity]\<close> in \<open>to_dict\<close>; \<open>None\<close> is the \<open>IndexError\<close>. A negative index counts from the end.\<close>

definition severity_name :: "syslog_message \<Rightarrow> string option" where
  "severity_name m =
     (let s = sm_severity m; i = (if s < 0 then s + 8 else s) in
      if 0 \<le> i \<and> i < 8 then Some (SEVERITY_NAMES ! nat i) else None)"

text \<open>\<open>strip("\r\n ")\<close>\<close>

definition is_line_end :: "char \<Rightarrow> bool" where
  "is_line_end c = (c = CHR 0x0D \<or> c = CHR 0x0A \<or> c = CHR '' '')"

definition strip_line :: "string \<Rightarrow> string" where
  "strip_line s = rev (dropWhile is_line_end (rev (dropWhile is_line_end s)))"

definition raw_text :: "string \<Rightarrow> string" where
  "raw_text t = strip_line (filter (\<lambda>c. c \<noteq> CHR 0x00) t)"

record parse_env =
  pe_decode :: "string \<Rightarrow> string"
  pe_iso :: "string \<Rightarrow> string option"
  pe_year :: nat
  pe_now :: string

text \<open>The message before \<open>__post_init__\<close>.\<close>

definition draft_message :: "string \<Rightarrow> string \<Rightarrow> string \<Rightarrow> pri_result \<Rightarrow> timestamp_result \<Rightarrow> cisco_result option \<Rightarrow> syslog_message" where
  "draft_message raw source_ip protocol pri ts cisco =
     (let fallback = (if tr_remainder ts = [] then raw else tr_remainder ts);
          severity = (case pr_severity pri of None \<Rightarrow> 6 | Some s \<Rightarrow> int s);
          status = (if pr_pri pri \<noteq> None \<or> (tr_time ts \<noteq> None \<and> tr_time ts \<noteq> Some []) then ''partial'' else ''raw'') in
     \<lparr>sm_source_ip = source_ip,
         sm_severity = (case cisco of None \<Rightarrow> severity | Some c \<Rightarrow> int (cs_severity c)),
         sm_message = (case cisco of None \<Rightarrow> fallback | Some c \<Rightarrow> if cs_message c = [] then raw else cs_message c),
         sm_raw = raw, sm_protocol = protocol, sm_device_host = [], sm_received_at = [],
         sm_device_time = tr_time ts, sm_sequence = tr_sequence ts, sm_unsynced = tr_unsynced ts,
         sm_pri = pr_pri pri, sm_syslog_facility = pr_facility pri,
         sm_cisco_facility = map_option cs_facility cisco,
         sm_subfacility = Option.bind cisco cs_subfacility,
         sm_mnemonic = map_option cs_mnemonic cisco,
         sm_status = (if cisco = None then status else ''parsed''),
         sm_facility = None\<rparr>)"

definition parse_message :: "parse_env \<Rightarrow> string \<Rightarrow> string \<Rightarrow> string \<Rightarrow> string + syslog_message" where
  "parse_message env data source_ip protocol =
     (let raw = raw_text (pe_decode env data); pri = parse_pri raw in
      sbind (parse_timestamp (pe_iso env) (pe_year env) (pr_remainder pri)) (\<lambda>ts.
      Inr (post_init (pe_now env) (draft_message raw source_ip protocol pri ts (parse_cisco (tr_remainder ts))))))"

section \<open>The tag\<close>

lemma split_on_join:
  "xs \<noteq> [] \<Longrightarrow> \<forall>x \<in> set xs. c \<notin> set x \<Longrightarrow> split_on c (join [c] xs) = xs"
proof (induction "[c]" xs rule: join.induct)
  case (3 x y ys)
  then show ?case by (simp add: split_on_append)
qed (simp_all add: split_on_no_sep)

lemma join_split_on: "join [c] (split_on c s) = s"
proof (induction s)
  case (Cons x s)
  obtain y ys where "split_on c s = y # ys" using split_on_nonempty[of c s] by (cases "split_on c s") auto
  then show ?case using Cons by (cases ys) auto
qed simp

lemma set_join: "set (join [c] xs) \<subseteq> insert c (\<Union>x \<in> set xs. set x)"
  by (induction "[c]" xs rule: join.induct) auto

lemma split_on_chars: "p \<in> set (split_on c s) \<Longrightarrow> set p \<subseteq> set s"
  by (induction s arbitrary: p) (fastforce split: if_splits list.splits)+

lemma takeWhile_stop: "list_all P xs \<Longrightarrow> \<not> P y \<Longrightarrow> takeWhile P (xs @ y # ys) = xs"
  by (induction xs) auto

lemma dropWhile_stop: "list_all P xs \<Longrightarrow> \<not> P y \<Longrightarrow> dropWhile P (xs @ y # ys) = y # ys"
  by (induction xs) auto

text \<open>A Cisco tag at the beginning of a text, as IOS documents it: \<open>%FACILITY-...-SEVERITY-MNEMONIC: message\<close>.\<close>

definition tag_word :: "string \<Rightarrow> bool" where
  "tag_word w \<longleftrightarrow> w \<noteq> [] \<and> list_all is_tag_char w"

definition cisco_tag :: "string list \<Rightarrow> nat \<Rightarrow> string \<Rightarrow> string \<Rightarrow> string" where
  "cisco_tag prefix severity mnemonic message =
     ''%'' @ join ''-'' (prefix @ [show_nat severity, mnemonic]) @ '':'' @ message"

definition valid_tag :: "string list \<Rightarrow> nat \<Rightarrow> string \<Rightarrow> bool" where
  "valid_tag prefix severity mnemonic \<longleftrightarrow> prefix \<noteq> [] \<and> list_all tag_word prefix \<and> severity \<le> 7 \<and> tag_word mnemonic"

lemma tag_char_cases [simp]: "\<not> is_tag_char CHR '':''" "\<not> is_tag_char CHR ''-''"
  by code_simp+

lemma digit_tag_char: "is_digit c \<Longrightarrow> is_tag_char c"
  by (simp add: is_tag_char_def)

lemma show_small: "n < 10 \<Longrightarrow> show_nat n = [digit_char n]"
  by (subst show_nat.simps) simp

lemma is_severity_iff: "is_severity s \<longleftrightarrow> (\<exists>n \<le> 7. s = show_nat n)"
proof
  assume s: "is_severity s"
  then obtain c where c: "s = [c]" by (cases s) (auto simp: is_severity_def)
  then have d: "is_digit c" "digit_val c \<le> 7" using s by (simp_all add: is_severity_def)
  have "c = digit_char (digit_val c)" using d(1) by (simp add: digit_char_def digit_val_def is_digit_def code_def Let_def)
  then show "\<exists>n \<le> 7. s = show_nat n" using c d(2) by (intro exI[of _ "digit_val c"]) (simp add: show_small)
next
  assume "\<exists>n \<le> 7. s = show_nat n"
  then obtain n where "n \<le> 7" "s = show_nat n" by blast
  then show "is_severity s" by (simp add: is_severity_def show_small)
qed

lemma digits_value_show [simp]: "digits_value (show_nat n) = n"
  by (simp add: digits_value_def foldl_show_nat)

lemma match_tag_complete:
  assumes "valid_tag prefix sev mn"
  shows "match_tag (join ''-'' (prefix @ [show_nat sev, mn]) @ CHR '':'' # message) = Some (prefix, show_nat sev, mn, lstrip message)"
proof -
  let ?parts = "prefix @ [show_nat sev, mn]" and ?P = "\<lambda>c. is_tag_char c \<or> c = CHR ''-''"
  have words: "\<forall>w \<in> set ?parts. tag_word w"
    using assms digit_tag_char show_nat_digits[of _ sev] by (auto simp: valid_tag_def tag_word_def list_all_iff)
  then have "list_all ?P (join ''-'' ?parts)"
    using set_join[of "CHR ''-''" ?parts] by (fastforce simp: tag_word_def list_all_iff)
  then have run: "takeWhile ?P (join ''-'' ?parts @ CHR '':'' # message) = join ''-'' ?parts" by (rule takeWhile_stop) simp
  have parts: "split_on CHR ''-'' (join ''-'' ?parts) = ?parts"
    using words tag_char_cases(2) unfolding tag_word_def list_all_iff by (intro split_on_join) (simp, blast)
  have "prefix \<noteq> []" "is_severity (show_nat sev)" using assms by (auto simp: valid_tag_def is_severity_iff)
  moreover have "[] \<notin> set ?parts" using words unfolding tag_word_def by blast
  ultimately show ?thesis
    unfolding match_tag_def Let_def run parts by (cases prefix) (simp_all add: nth_append)
qed

lemma match_tag_sound:
  assumes "match_tag t = Some (prefix, s, mn, msg)"
  shows "\<exists>sev rest. t = join ''-'' (prefix @ [show_nat sev, mn]) @ CHR '':'' # rest \<and> s = show_nat sev \<and> msg = lstrip rest
    \<and> valid_tag prefix sev mn"
proof -
  let ?P = "\<lambda>c. is_tag_char c \<or> c = CHR ''-''"
  define run where "run = takeWhile ?P t"
  define rest where "rest = drop (length run) t"
  define parts where "parts = split_on CHR ''-'' run"
  define n where "n = length parts"
  have m: "match_tag t =
     (if rest \<noteq> [] \<and> hd rest = CHR '':'' \<and> 3 \<le> n \<and> [] \<notin> set parts \<and> is_severity (parts ! (n - 2))
      then Some (take (n - 2) parts, parts ! (n - 2), parts ! (n - 1), lstrip (tl rest)) else None)"
    by (simp only: match_tag_def Let_def run_def rest_def parts_def n_def)
  have g: "rest \<noteq> []" "hd rest = CHR '':''" "3 \<le> n" "[] \<notin> set parts" "is_severity (parts ! (n - 2))"
    "prefix = take (n - 2) parts" "s = parts ! (n - 2)" "mn = parts ! (n - 1)" "msg = lstrip (tl rest)"
    using assms unfolding m by (auto split: if_splits)
  obtain sev where sev: "sev \<le> 7" "s = show_nat sev" using g(5,7) by (auto simp: is_severity_iff)
  have "parts = take (n - 2) parts @ [parts ! (n - 2), parts ! (n - 1)]"
  proof -
    have "drop (n - 2) parts = [parts ! (n - 2), parts ! (n - 1)]"
      using g(3) by (simp add: n_def Cons_nth_drop_Suc[symmetric] Suc_diff_Suc numeral_2_eq_2 numeral_3_eq_3)
    then show ?thesis by (metis append_take_drop_id)
  qed
  then have p: "parts = prefix @ [s, mn]" using g(6-8) by simp
  have words: "\<forall>w \<in> set parts. tag_word w"
  proof
    fix w
    assume w: "w \<in> set parts"
    then have "CHR ''-'' \<notin> set w" "set w \<subseteq> set run" by (auto simp: parts_def dest: split_on_parts split_on_chars)
    moreover have "\<forall>c \<in> set run. ?P c" by (auto simp: run_def dest: set_takeWhileD)
    ultimately show "tag_word w" using w g(4) by (auto simp: tag_word_def list_all_iff)
  qed
  have "t = run @ rest" unfolding rest_def run_def by (metis append_take_drop_id takeWhile_eq_take)
  moreover have "run = join ''-'' parts" by (simp add: parts_def join_split_on)
  moreover have "rest = CHR '':'' # tl rest" using g(1,2) by (cases rest) auto
  ultimately have "t = join ''-'' (prefix @ [show_nat sev, mn]) @ CHR '':'' # tl rest" using p sev(2) by simp
  moreover have "valid_tag prefix sev mn" using words sev(1) g(3) p by (auto simp: valid_tag_def list_all_iff n_def)
  ultimately show ?thesis using g(9) sev(2) by blast
qed

definition tag_at :: "string \<Rightarrow> nat \<Rightarrow> bool" where
  "tag_at t n \<longleftrightarrow> (\<exists>prefix sev mn message. valid_tag prefix sev mn \<and> drop n t = cisco_tag prefix sev mn message)"

lemma tag_at_0: "tag_at (c # cs) 0 \<longleftrightarrow> c = CHR ''%'' \<and> match_tag cs \<noteq> None"
proof
  assume "tag_at (c # cs) 0"
  then show "c = CHR ''%'' \<and> match_tag cs \<noteq> None"
    by (auto simp: tag_at_def cisco_tag_def match_tag_complete)
next
  assume a: "c = CHR ''%'' \<and> match_tag cs \<noteq> None"
  then obtain prefix s mn msg where "match_tag cs = Some (prefix, s, mn, msg)" by (cases "match_tag cs") auto
  from match_tag_sound[OF this] a show "tag_at (c # cs) 0" by (fastforce simp: tag_at_def cisco_tag_def)
qed

lemma tag_at_Suc [simp]: "tag_at (c # cs) (Suc n) \<longleftrightarrow> tag_at cs n"
  by (simp add: tag_at_def)

lemma tag_at_Nil [simp]: "\<not> tag_at [] n"
  by (simp add: tag_at_def cisco_tag_def)

lemma tag_at_drop: "tag_at t k \<longleftrightarrow> (case drop k t of [] \<Rightarrow> False | c # cs \<Rightarrow> c = CHR ''%'' \<and> match_tag cs \<noteq> None)"
proof -
  have "tag_at t k \<longleftrightarrow> tag_at (drop k t) 0" by (simp add: tag_at_def)
  then show ?thesis by (cases "drop k t") (simp_all add: tag_at_0)
qed

lemma search_tag_None: "search_tag t = None \<longleftrightarrow> (\<nexists>n. tag_at t n)"
proof (induction t)
  case (Cons c cs)
  have "(\<exists>n. tag_at (c # cs) n) \<longleftrightarrow> tag_at (c # cs) 0 \<or> (\<exists>n. tag_at cs n)"
    by (metis not0_implies_Suc tag_at_Suc)
  then show ?case using Cons by (auto simp: tag_at_0 split: option.splits)
qed simp

lemma search_tag_first:
  assumes "valid_tag prefix sev mn" "drop n t = cisco_tag prefix sev mn message" "\<forall>k < n. \<not> tag_at t k"
  shows "search_tag t = Some (prefix, show_nat sev, mn, lstrip message)"
  using assms(2,3)
proof (induction n arbitrary: t)
  case 0
  then show ?case using match_tag_complete[OF assms(1)] by (simp add: cisco_tag_def)
next
  case (Suc n)
  obtain c cs where t: "t = c # cs" using Suc.prems(1) by (cases t) (auto simp: cisco_tag_def)
  have "\<forall>k < n. \<not> tag_at cs k"
  proof (intro allI impI)
    fix k assume "k < n"
    then show "\<not> tag_at cs k" using Suc.prems(2) unfolding t by (auto dest: spec[of _ "Suc k"])
  qed
  then have "search_tag cs = Some (prefix, show_nat sev, mn, lstrip message)" using Suc.IH Suc.prems(1) t by simp
  moreover have "\<not> tag_at (c # cs) 0" using Suc.prems(2) t by blast
  ultimately show ?case by (cases "match_tag cs") (auto simp: t tag_at_0)
qed

lemma tag_at_split:
  assumes "\<exists>n. tag_at t n"
  obtains n prefix sev mn message where "valid_tag prefix sev mn" "drop n t = cisco_tag prefix sev mn message" "\<forall>k < n. \<not> tag_at t k"
proof -
  obtain n where "tag_at t n" "\<forall>k < n. \<not> tag_at t k" using assms exists_least_iff[of "tag_at t"] by blast
  then show ?thesis using that by (auto simp: tag_at_def)
qed


lemma strip_lstrip [simp]: "strip (lstrip s) = strip s"
  by (simp add: strip_def)

text \<open>The recognition of Cisco system messages is exact: \<open>parse_cisco\<close> finds a tag
  \<open>%FACILITY-SUBFACILITY-SEVERITY-MNEMONIC:\<close> exactly when the text contains one at some position, and then returns
  the parts of the first, with the text behind its colon as the message.
\<close>

theorem parse_cisco_exact:
  "parse_cisco t = Some r \<longleftrightarrow>
     (\<exists>n prefix sev mn message. valid_tag prefix sev mn \<and> drop n t = cisco_tag prefix sev mn message \<and> (\<forall>k < n. \<not> tag_at t k)
       \<and> r = \<lparr>cs_facility = hd prefix, cs_subfacility = none_if_empty (join ''-'' (tl prefix)), cs_severity = sev,
              cs_mnemonic = mn, cs_message = strip message\<rparr>)"
proof
  assume some: "parse_cisco t = Some r"
  then have "search_tag t \<noteq> None" by (auto simp: parse_cisco_def)
  then have "\<exists>n. tag_at t n" by (simp add: search_tag_None)
  then obtain n prefix sev mn message where v: "valid_tag prefix sev mn" "drop n t = cisco_tag prefix sev mn message" "\<forall>k < n. \<not> tag_at t k"
    by (rule tag_at_split)
  then show "\<exists>n prefix sev mn message. valid_tag prefix sev mn \<and> drop n t = cisco_tag prefix sev mn message \<and> (\<forall>k < n. \<not> tag_at t k)
       \<and> r = \<lparr>cs_facility = hd prefix, cs_subfacility = none_if_empty (join ''-'' (tl prefix)), cs_severity = sev,
              cs_mnemonic = mn, cs_message = strip message\<rparr>"
    using some search_tag_first[OF v] by (intro exI[of _ n] exI[of _ prefix] exI[of _ sev] exI[of _ mn] exI[of _ message]) (simp add: parse_cisco_def)
next
  assume "\<exists>n prefix sev mn message. valid_tag prefix sev mn \<and> drop n t = cisco_tag prefix sev mn message \<and> (\<forall>k < n. \<not> tag_at t k)
       \<and> r = \<lparr>cs_facility = hd prefix, cs_subfacility = none_if_empty (join ''-'' (tl prefix)), cs_severity = sev,
              cs_mnemonic = mn, cs_message = strip message\<rparr>"
  then show "parse_cisco t = Some r" by (auto simp: parse_cisco_def search_tag_first)
qed

section \<open>Every parsed message\<close>

lemma parse_pri_range:
  "pr_pri (parse_pri t) = Some p \<Longrightarrow> p \<le> 191 \<and> pr_facility (parse_pri t) = Some (p div 8) \<and> pr_severity (parse_pri t) = Some (p mod 8)"
  "pr_pri (parse_pri t) = None \<Longrightarrow> pr_facility (parse_pri t) = None \<and> pr_severity (parse_pri t) = None"
  by (auto simp: parse_pri_def no_pri_def Let_def split: option.splits if_splits)

lemma parse_cisco_tag:
  assumes "parse_cisco t = Some r"
  shows "cs_severity r \<le> 7" "tag_word (cs_facility r)" "tag_word (cs_mnemonic r)"
proof -
  have "search_tag t \<noteq> None" using assms by (auto simp: parse_cisco_def)
  then have "\<exists>n. tag_at t n" by (simp add: search_tag_None)
  then obtain n prefix sev mn message where v: "valid_tag prefix sev mn" "drop n t = cisco_tag prefix sev mn message" "\<forall>k < n. \<not> tag_at t k"
    by (rule tag_at_split)
  then have "r = \<lparr>cs_facility = hd prefix, cs_subfacility = none_if_empty (join ''-'' (tl prefix)), cs_severity = sev,
      cs_mnemonic = mn, cs_message = strip message\<rparr>"
    using assms search_tag_first[OF v] by (simp add: parse_cisco_def)
  then show "cs_severity r \<le> 7" "tag_word (cs_facility r)" "tag_word (cs_mnemonic r)"
    using v(1) by (cases prefix; auto simp: valid_tag_def)+
qed

text \<open>\<open>__post_init__\<close> on the messages the parser builds, which leave the old facility field empty.\<close>

lemma post_init_parsed:
  assumes "sm_facility m = None" "0 \<le> sm_severity m" "sm_severity m \<le> 7" "sm_received_at m = []"
    "sm_pri m = None \<or> sm_syslog_facility m \<noteq> None"
  shows "post_init now m = init_facility (m\<lparr>sm_received_at := now, sm_protocol := lower (sm_protocol m)\<rparr>)"
proof -
  let ?m = "m\<lparr>sm_received_at := now, sm_protocol := lower (sm_protocol m)\<rparr>"
  have "init_received now (init_severity m) = m\<lparr>sm_received_at := now\<rparr>"
    using assms(2-4) by (simp add: init_severity_def init_received_def)
  moreover have "init_pri_facility ?m = ?m" using assms(5) by (auto simp: init_pri_facility_def split: option.split)
  moreover have "init_legacy_facility ?m = ?m" using assms(1) by (simp add: init_legacy_facility_def)
  ultimately show ?thesis by (simp add: post_init_def)
qed


lemma init_facility_fields [simp]:
  "sm_source_ip (init_facility m) = sm_source_ip m" "sm_severity (init_facility m) = sm_severity m"
  "sm_message (init_facility m) = sm_message m" "sm_raw (init_facility m) = sm_raw m"
  "sm_protocol (init_facility m) = sm_protocol m" "sm_pri (init_facility m) = sm_pri m"
  "sm_syslog_facility (init_facility m) = sm_syslog_facility m" "sm_cisco_facility (init_facility m) = sm_cisco_facility m"
  "sm_mnemonic (init_facility m) = sm_mnemonic m" "sm_status (init_facility m) = sm_status m"
  by (simp_all add: init_facility_def split: option.split list.split)

lemma init_facility_label:
  assumes "sm_facility m = None" "sm_cisco_facility m \<noteq> Some []"
  shows "sm_facility (init_facility m) = (case sm_cisco_facility m of Some f \<Rightarrow> Some f | None \<Rightarrow> map_option show_nat (sm_syslog_facility m))"
  using assms by (auto simp: init_facility_def split: option.split list.split)

lemma draft_message_ok:
  assumes "cisco = parse_cisco t" "pri = parse_pri u"
  shows "post_init now (draft_message raw ip proto pri ts cisco)
    = init_facility (draft_message raw ip proto pri ts cisco\<lparr>sm_received_at := now, sm_protocol := lower proto\<rparr>)"
proof -
  have "pr_severity pri = Some s \<Longrightarrow> s \<le> 7" for s
    using parse_pri_range[of u] unfolding assms(2) by (cases "pr_pri (parse_pri u)") auto
  then have "0 \<le> sm_severity (draft_message raw ip proto pri ts cisco)" "sm_severity (draft_message raw ip proto pri ts cisco) \<le> 7"
    using parse_cisco_tag(1)[of t] unfolding assms(1) draft_message_def by (auto simp: Let_def split: option.split)
  moreover have "pr_pri pri = None \<or> pr_facility pri \<noteq> None"
    using parse_pri_range(1)[of u] unfolding assms(2) by (cases "pr_pri (parse_pri u)") auto
  ultimately show ?thesis by (subst post_init_parsed) (simp_all add: draft_message_def Let_def)
qed

text \<open>The type of the parser's results.\<close>

definition message_ok :: "syslog_message \<Rightarrow> bool" where
  "message_ok m \<longleftrightarrow>
     0 \<le> sm_severity m \<and> sm_severity m \<le> 7 \<and> lower (sm_protocol m) = sm_protocol m
   \<and> (case sm_pri m of None \<Rightarrow> sm_syslog_facility m = None | Some p \<Rightarrow> p \<le> 191 \<and> sm_syslog_facility m = Some (p div 8))
   \<and> (case (sm_cisco_facility m, sm_mnemonic m) of
        (None, None) \<Rightarrow> sm_status m \<in> {''partial'', ''raw''}
      | (Some f, Some n) \<Rightarrow> sm_status m = ''parsed'' \<and> tag_word f \<and> tag_word n
      | _ \<Rightarrow> False)
   \<and> sm_facility m = (case sm_cisco_facility m of Some f \<Rightarrow> Some f | None \<Rightarrow> map_option show_nat (sm_syslog_facility m))
   \<and> (sm_message m = [] \<longrightarrow> sm_raw m = []) \<and> CHR 0x00 \<notin> set (sm_raw m)"

lemma set_strip_line: "set (strip_line s) \<subseteq> set s"
  unfolding strip_line_def by (auto dest!: set_dropWhileD)

text \<open>Property C34. Every message the parser produces is well formed: its severity is one of the eight the server names, its
  facility is the one of its priority, which is at most 191, it counts as parsed exactly when it has a Cisco facility
  and mnemonic, which are non-empty words, and it has a text whenever anything was received. The parser fails on a
  datagram only when its sequence number has more digits than \<open>int\<close> accepts.
\<close>

theorem parsed_message_well_formed:
  "case parse_message env data ip protocol of
     Inr m \<Rightarrow> message_ok m \<and> severity_name m \<noteq> None \<and> sm_source_ip m = ip \<and> sm_raw m = raw_text (pe_decode env data)
   | Inl e \<Rightarrow> int_digit_limit < length (takeWhile is_digit (pr_remainder (parse_pri (raw_text (pe_decode env data)))))"
proof -
  define raw where "raw = raw_text (pe_decode env data)"
  define ts where "ts = parse_timestamp (pe_iso env) (pe_year env) (pr_remainder (parse_pri raw))"
  have parse: "parse_message env data ip protocol = sbind ts (\<lambda>ts.
      Inr (init_facility (draft_message raw ip protocol (parse_pri raw) ts (parse_cisco (tr_remainder ts))
        \<lparr>sm_received_at := pe_now env, sm_protocol := lower protocol\<rparr>)))"
    by (simp add: parse_message_def raw_def ts_def Let_def draft_message_ok[OF refl refl])
  show ?thesis
  proof (cases ts)
    case (Inl e)
    then have "int_digit_limit < length (takeWhile is_digit (pr_remainder (parse_pri raw)))"
      by (auto simp: ts_def parse_timestamp_def match_sequence_def read_sequence_def Let_def map_sum_def split: option.splits if_splits)
    then show ?thesis by (simp add: parse Inl raw_def)
  next
    case (Inr r)
    define c where "c = parse_cisco (tr_remainder r)"
    define m where "m = draft_message raw ip protocol (parse_pri raw) r c \<lparr>sm_received_at := pe_now env, sm_protocol := lower protocol\<rparr>"
    have p: "parse_message env data ip protocol = Inr (init_facility m)" by (simp add: parse Inr m_def c_def)
    have fields: "sm_severity m = (case c of None \<Rightarrow> (case pr_severity (parse_pri raw) of None \<Rightarrow> 6 | Some s \<Rightarrow> int s) | Some c \<Rightarrow> int (cs_severity c))"
      "sm_protocol m = lower protocol" "sm_pri m = pr_pri (parse_pri raw)" "sm_syslog_facility m = pr_facility (parse_pri raw)"
      "sm_cisco_facility m = map_option cs_facility c" "sm_mnemonic m = map_option cs_mnemonic c" "sm_facility m = None"
      "sm_source_ip m = ip" "sm_raw m = raw"
      "sm_status m = (if c \<noteq> None then ''parsed'' else if pr_pri (parse_pri raw) \<noteq> None \<or> (tr_time r \<noteq> None \<and> tr_time r \<noteq> Some [])
         then ''partial'' else ''raw'')"
      "sm_message m = (case c of None \<Rightarrow> if tr_remainder r = [] then raw else tr_remainder r
         | Some c \<Rightarrow> if cs_message c = [] then raw else cs_message c)"
      by (simp_all add: m_def draft_message_def Let_def)
    have tag: "cs_severity x \<le> 7 \<and> tag_word (cs_facility x) \<and> tag_word (cs_mnemonic x)" if "c = Some x" for x
      using parse_cisco_tag[of "tr_remainder r" x] that by (simp add: c_def)
    have label: "sm_facility (init_facility m) = (case sm_cisco_facility m of Some f \<Rightarrow> Some f | None \<Rightarrow> map_option show_nat (sm_syslog_facility m))"
      by (rule init_facility_label) (use tag fields in \<open>auto simp: tag_word_def\<close>)
    have "0 \<le> sm_severity m \<and> sm_severity m \<le> 7"
      using tag parse_pri_range[of raw] by (cases "pr_pri (parse_pri raw)") (auto simp: fields(1) split: option.split)
    moreover have "case pr_pri (parse_pri raw) of None \<Rightarrow> pr_facility (parse_pri raw) = None
        | Some p \<Rightarrow> p \<le> 191 \<and> pr_facility (parse_pri raw) = Some (p div 8)"
      using parse_pri_range[of raw] by (auto split: option.split)
    moreover have "sm_message m = [] \<longrightarrow> raw = []" by (auto simp: fields split: option.split)
    moreover have "CHR 0x00 \<notin> set raw" using set_strip_line by (fastforce simp: raw_def raw_text_def)
    moreover have "case (map_option cs_facility c, map_option cs_mnemonic c) of
        (None, None) \<Rightarrow> sm_status m \<in> {''partial'', ''raw''}
      | (Some f, Some n) \<Rightarrow> sm_status m = ''parsed'' \<and> tag_word f \<and> tag_word n
      | _ \<Rightarrow> False"
    proof (cases c)
      case (Some x)
      show ?thesis using tag[OF Some] by (simp add: Some fields(10))
    qed (simp add: fields(10))
    ultimately have "message_ok (init_facility m)"
      unfolding message_ok_def label init_facility_fields fields(2-6,9) lower_idem by blast
    moreover from this have "severity_name (init_facility m) \<noteq> None"
      unfolding message_ok_def severity_name_def Let_def by auto
    ultimately show ?thesis by (simp add: p fields(8,9) raw_def)
  qed
qed


section \<open>A line written by IOS\<close>

text \<open>
  The line a Cisco device sends with sequence numbers and millisecond time stamps: priority, sequence number, a star
  when the clock is not synchronised, month, day, time, time zone, and the system message.
\<close>

record ios_event =
  ie_pri :: nat
  ie_sequence :: nat
  ie_unsynced :: bool
  ie_month :: nat
  ie_day :: nat
  ie_hour :: nat
  ie_minute :: nat
  ie_second :: nat
  ie_milli :: nat
  ie_zone :: string
  ie_prefix :: "string list"
  ie_severity :: nat
  ie_mnemonic :: string
  ie_text :: string

definition three_digits :: "nat \<Rightarrow> string" where
  "three_digits n = digit_char (n div 100 mod 10) # two_digits n"

definition ios_stamp :: "ios_event \<Rightarrow> string" where
  "ios_stamp e = MONTHS ! (ie_month e - 1) @ (if ie_day e < 10 then ''  '' else '' '') @ show_nat (ie_day e) @ '' ''
     @ two_digits (ie_hour e) @ '':'' @ two_digits (ie_minute e) @ '':'' @ two_digits (ie_second e) @ ''.'' @ three_digits (ie_milli e)"

definition ios_line :: "ios_event \<Rightarrow> string" where
  "ios_line e = ''<'' @ show_nat (ie_pri e) @ ''>'' @ show_nat (ie_sequence e) @ '': '' @ (if ie_unsynced e then ''*'' else [])
     @ ios_stamp e @ (if ie_zone e = [] then [] else '' '' @ ie_zone e) @ '': ''
     @ cisco_tag (ie_prefix e) (ie_severity e) (ie_mnemonic e) ('' '' @ ie_text e)"

text \<open>The lines a device can write: the fields in their ranges and the text on one line without surrounding spaces.\<close>

definition zone_ok :: "string \<Rightarrow> bool" where
  "zone_ok z \<longleftrightarrow> z = [] \<or> (is_upper (hd z) \<and> list_all (\<lambda>c. is_upper c \<or> is_digit c \<or> c = CHR ''+'' \<or> c = CHR ''-'') (tl z))"

definition ios_event_ok :: "nat \<Rightarrow> ios_event \<Rightarrow> bool" where
  "ios_event_ok year e \<longleftrightarrow>
     ie_pri e \<le> 191 \<and> length (show_nat (ie_sequence e)) \<le> int_digit_limit \<and> 1000 \<le> year \<and> year \<le> 9999
   \<and> 1 \<le> ie_month e \<and> ie_month e \<le> 12 \<and> 1 \<le> ie_day e \<and> ie_day e \<le> days_in_month year (ie_month e)
   \<and> ie_hour e \<le> 23 \<and> ie_minute e \<le> 59 \<and> ie_second e \<le> 59 \<and> ie_milli e \<le> 999
   \<and> zone_ok (ie_zone e) \<and> valid_tag (ie_prefix e) (ie_severity e) (ie_mnemonic e)
   \<and> ie_text e \<noteq> [] \<and> strip (ie_text e) = ie_text e \<and> CHR 0x00 \<notin> set (ie_text e)"

definition iso_stamp :: "nat \<Rightarrow> ios_event \<Rightarrow> string" where
  "iso_stamp year e = show_nat year @ ''-'' @ two_digits (ie_month e) @ ''-'' @ two_digits (ie_day e) @ ''T''
     @ two_digits (ie_hour e) @ '':'' @ two_digits (ie_minute e) @ '':'' @ two_digits (ie_second e)
     @ (if ie_milli e = 0 then [] else ''.'' @ three_digits (ie_milli e) @ ''000'')"

lemma digits_list: "list_all is_digit (show_nat n)"
  using show_nat_digits by (auto simp: list_all_iff)

lemma show_nat_two: "10 \<le> n \<Longrightarrow> n < 100 \<Longrightarrow> show_nat n = two_digits n"
  by (subst show_nat.simps) (simp add: show_small two_digits_def)

lemma digits_value_two: "n < 100 \<Longrightarrow> digits_value (two_digits n) = n"
  by (simp add: digits_value_def two_digits_def)

lemma lstrip_ns: "\<not> is_space c \<Longrightarrow> lstrip (c # cs) = c # cs"
  by (simp add: lstrip_def)

lemma spaces [simp]: "is_space CHR '' ''" "\<not> is_space CHR '':''" "\<not> is_space CHR ''%''" "\<not> is_space CHR ''*''"
  "\<not> is_digit CHR '' ''" "\<not> is_digit CHR '':''" "\<not> is_digit CHR ''>''" "\<not> is_upper CHR '':''" "\<not> is_digit CHR ''%''" "\<not> is_upper CHR ''%''"
  by code_simp+

lemma upper_facts: "is_upper c \<Longrightarrow> \<not> is_space c \<and> \<not> is_digit c \<and> c \<noteq> CHR ''*'' \<and> c \<noteq> CHR '':''"
  by (auto simp: is_upper_def is_space_def is_digit_def Let_def code_def)

lemma match_pri_line:
  assumes "p \<le> 191"
  shows "parse_pri (CHR ''<'' # show_nat p @ CHR ''>'' # rest)
    = \<lparr>pr_pri = Some p, pr_facility = Some (p div 8), pr_severity = Some (p mod 8), pr_remainder = lstrip rest\<rparr>"
proof -
  have "length (show_nat p) \<le> 3" using assms by (simp add: length_show_nat_octet)
  then show ?thesis using assms
    by (simp add: parse_pri_def match_pri_def takeWhile_stop[OF digits_list] dropWhile_stop[OF digits_list] Suc_le_eq)
qed

lemma match_sequence_line: "match_sequence (show_nat n @ CHR '':'' # rest) = Some (show_nat n, lstrip rest)"
  by (simp add: match_sequence_def takeWhile_stop[OF digits_list] dropWhile_stop[OF digits_list])

text \<open>The twelve months.\<close>

lemma months:
  assumes "1 \<le> mo" "mo \<le> 12"
  shows "\<exists>a b c. MONTHS ! (mo - 1) = [a, b, c] \<and> is_upper a \<and> is_lower b \<and> is_lower c"
    "length (takeWhile (\<lambda>m. m \<noteq> MONTHS ! (mo - 1)) MONTHS) = mo - 1"
proof -
  have l: "list_all (\<lambda>i. length (takeWhile (\<lambda>m. m \<noteq> MONTHS ! i) MONTHS) = i
      \<and> (case MONTHS ! i of [a, b, c] \<Rightarrow> is_upper a \<and> is_lower b \<and> is_lower c | _ \<Rightarrow> False)) [0..<12]"
    by code_simp
  have "mo - 1 \<in> set [0..<12]" using assms by auto
  then have "length (takeWhile (\<lambda>m. m \<noteq> MONTHS ! (mo - 1)) MONTHS) = mo - 1
      \<and> (case MONTHS ! (mo - 1) of [a, b, c] \<Rightarrow> is_upper a \<and> is_lower b \<and> is_lower c | _ \<Rightarrow> False)"
    using l unfolding list_all_iff by blast
  then show "length (takeWhile (\<lambda>m. m \<noteq> MONTHS ! (mo - 1)) MONTHS) = mo - 1"
    "\<exists>a b c. MONTHS ! (mo - 1) = [a, b, c] \<and> is_upper a \<and> is_lower b \<and> is_lower c"
    by (auto split: list.splits)
qed

lemma match_clock:
  assumes "h < 100" "mi < 100" "s < 100"
  shows "match_classes clock_classes (two_digits h @ CHR '':'' # two_digits mi @ CHR '':'' # two_digits s @ rest)
    = Some (two_digits h @ CHR '':'' # two_digits mi @ CHR '':'' # two_digits s, rest)"
  by (simp add: clock_classes_def two_digits_def)

lemma skip_zone_line:
  assumes "zone_ok z"
  shows "skip_zone ((if z = [] then [] else CHR '' '' # z) @ CHR '':'' # rest) = CHR '':'' # rest"
proof (cases z)
  case (Cons c cs)
  then have "is_upper c" "list_all (\<lambda>c. is_upper c \<or> is_digit c \<or> c = CHR ''+'' \<or> c = CHR ''-'') cs" using assms by (simp_all add: zone_ok_def)
  then show ?thesis using Cons upper_facts[of c] dropWhile_stop[of _ cs "CHR '':''" rest]
    by (simp add: skip_zone_def lstrip_def)
qed (simp add: skip_zone_def)

lemma match_rfc_line:
  assumes ok: "ios_event_ok year e"
  shows "match_rfc ((if ie_unsynced e then ''*'' else []) @ ios_stamp e @ (if ie_zone e = [] then [] else '' '' @ ie_zone e) @ '': '' @ CHR ''%'' # rest)
    = Some (ie_unsynced e, \<lparr>rs_month = MONTHS ! (ie_month e - 1), rs_day = show_nat (ie_day e), rs_hour = two_digits (ie_hour e),
        rs_minute = two_digits (ie_minute e), rs_second = two_digits (ie_second e), rs_fraction = Some (three_digits (ie_milli e))\<rparr>,
        CHR ''%'' # rest)"
proof -
  obtain a b c where m: "MONTHS ! (ie_month e - 1) = [a, b, c]" "is_upper a" "is_lower b" "is_lower c"
    using months(1)[of "ie_month e"] ok by (auto simp: ios_event_ok_def)
  have "days_in_month year (ie_month e) \<le> 31" by (simp add: days_in_month_def)
  then have d: "1 \<le> ie_day e" "ie_day e \<le> 31" using ok by (auto simp: ios_event_ok_def)
  have len: "length (show_nat (ie_day e)) \<le> 2"
    using d(2) by (cases "ie_day e < 10") (simp_all add: show_small show_nat_two two_digits_def)
  have star: "take_star ((if ie_unsynced e then ''*'' else []) @ a # xs) = (ie_unsynced e, a # xs)" for xs
    using upper_facts[OF m(2)] by (simp add: take_star_def)
  have day: "skip_spaces ((if ie_day e < 10 then ''  '' else '' '') @ show_nat (ie_day e) @ xs) = Some (show_nat (ie_day e) @ xs)" for xs
    using show_nat_ends(1)[of "ie_day e"] by (cases "show_nat (ie_day e)") (simp_all add: skip_spaces_def lstrip_def)
  have clock: "skip_spaces (CHR '' '' # two_digits n @ xs) = Some (two_digits n @ xs)" for n xs
    using digit_not_space by (simp add: skip_spaces_def lstrip_def two_digits_def)
  have fraction: "take_fraction (CHR ''.'' # three_digits n @ t) = (Some (three_digits n), t)" if "t = [] \<or> \<not> is_digit (hd t)" for n t
    using that by (cases t) (simp_all add: take_fraction_def three_digits_def two_digits_def)
  let ?z = "(if ie_zone e = [] then [] else CHR '' '' # ie_zone e) @ CHR '':'' # CHR '' '' # CHR ''%'' # rest"
  have body: "skip_colon (skip_zone ?z) = CHR ''%'' # rest"
    using ok by (simp add: skip_zone_line ios_event_ok_def skip_colon_def lstrip_def)
  have classes: "match_classes [is_upper, is_lower, is_lower] (a # b # c # xs) = Some ([a, b, c], xs)" for xs using m by simp
  have digits: "take 2 (takeWhile is_digit (show_nat (ie_day e) @ CHR '' '' # xs)) = show_nat (ie_day e)" for xs
    using len by (simp add: takeWhile_stop[OF digits_list])
  have dropped: "drop (length (show_nat (ie_day e))) (show_nat (ie_day e) @ xs) = xs" for xs by simp
  have hour: "ie_hour e < 100" "ie_minute e < 100" "ie_second e < 100" using ok by (auto simp: ios_event_ok_def)
  have nd: "?z = [] \<or> \<not> is_digit (hd ?z)" by simp
  have shape: "(if ie_unsynced e then ''*'' else []) @ ios_stamp e @ (if ie_zone e = [] then [] else '' '' @ ie_zone e) @ '': '' @ CHR ''%'' # rest
     = (if ie_unsynced e then ''*'' else []) @ a # b # c # (if ie_day e < 10 then ''  '' else '' '') @ show_nat (ie_day e) @ CHR '' ''
       # two_digits (ie_hour e) @ CHR '':'' # two_digits (ie_minute e) @ CHR '':'' # two_digits (ie_second e) @ CHR ''.'' # three_digits (ie_milli e) @ ?z"
    using m(1) by (simp add: ios_stamp_def)
  show ?thesis
    unfolding match_rfc_def shape star Let_def prod.case classes Option.bind.bind_lunit day digits dropped clock match_clock[OF hour]
      fraction[OF nd] body
    by (simp add: two_digits_def m(1)[simplified])
qed


lemma decimal_milli: "100000 * (n div 100) + (10000 * (n div 10 mod 10) + 1000 * (n mod 10)) = 1000 * (n :: nat)"
proof -
  have "n div 100 = n div 10 div 10" by (simp add: div_mult2_eq[symmetric])
  moreover have "10 * (n div 10 div 10) + n div 10 mod 10 = n div 10" "10 * (n div 10) + n mod 10 = n" by simp_all
  ultimately show ?thesis by linarith
qed

lemma rfc_time_line:
  assumes ok: "ios_event_ok year e"
  shows "rfc_time year \<lparr>rs_month = MONTHS ! (ie_month e - 1), rs_day = show_nat (ie_day e), rs_hour = two_digits (ie_hour e),
        rs_minute = two_digits (ie_minute e), rs_second = two_digits (ie_second e), rs_fraction = Some (three_digits (ie_milli e))\<rparr>
    = Some (iso_stamp year e)"
proof -
  have mo: "1 \<le> ie_month e" "ie_month e \<le> 12" and ranges: "1 \<le> ie_day e" "ie_day e \<le> days_in_month year (ie_month e)"
      "ie_hour e \<le> 23" "ie_minute e \<le> 59" "ie_second e \<le> 59" "1000 \<le> year" "year \<le> 9999" and ms: "ie_milli e \<le> 999"
    using ok by (simp_all add: ios_event_ok_def)
  have month: "length (takeWhile (\<lambda>m. m \<noteq> MONTHS ! (ie_month e - 1)) MONTHS) + 1 = ie_month e" using months(2)[OF mo] mo by simp
  have us: "digits_value (three_digits (ie_milli e) @ ''000'') = 1000 * ie_milli e"
    using ms by (simp add: three_digits_def two_digits_def digits_value_def numeral_3_eq_3) (simp add: digit_val_def code_def decimal_milli)
  have pad: "three_digits (ie_milli e) @ replicate (6 - length (three_digits (ie_milli e))) CHR ''0'' = three_digits (ie_milli e) @ ''000''"
    by (simp add: three_digits_def two_digits_def numeral_3_eq_3)
  show ?thesis
    unfolding rfc_time_def Let_def rfc_stamp.simps month option.case pad us
    using mo ranges by (simp add: digits_value_two iso_stamp_def)
qed

lemma match_iso_letter:
  assumes "is_upper a"
  shows "match_iso ((if star then ''*'' else []) @ a # xs) = None"
  using upper_facts[OF assms]
  by (simp add: match_iso_def take_star_def iso_date_classes_def numeral_2_eq_2 eval_nat_numeral)

lemma parse_timestamp_line:
  assumes ok: "ios_event_ok year e"
  shows "parse_timestamp from_iso year (show_nat (ie_sequence e) @ '': '' @ (if ie_unsynced e then ''*'' else [])
     @ ios_stamp e @ (if ie_zone e = [] then [] else '' '' @ ie_zone e) @ '': '' @ CHR ''%'' # rest)
   = Inr \<lparr>tr_sequence = Some (ie_sequence e), tr_time = Some (iso_stamp year e), tr_unsynced = ie_unsynced e, tr_remainder = CHR ''%'' # rest\<rparr>"
proof -
  let ?t = "(if ie_unsynced e then ''*'' else []) @ ios_stamp e @ (if ie_zone e = [] then [] else '' '' @ ie_zone e) @ '': '' @ CHR ''%'' # rest"
  obtain a xs where t: "?t = (if ie_unsynced e then ''*'' else []) @ a # xs" "is_upper a"
    using months(1)[of "ie_month e"] ok by (fastforce simp: ios_event_ok_def ios_stamp_def)
  define u where "u = ?t"
  have iso: "match_iso u = None" unfolding u_def t(1) by (rule match_iso_letter[OF t(2)])
  have rfc: "match_rfc u = Some (ie_unsynced e, \<lparr>rs_month = MONTHS ! (ie_month e - 1), rs_day = show_nat (ie_day e), rs_hour = two_digits (ie_hour e),
        rs_minute = two_digits (ie_minute e), rs_second = two_digits (ie_second e), rs_fraction = Some (three_digits (ie_milli e))\<rparr>,
        CHR ''%'' # rest)" unfolding u_def by (rule match_rfc_line[OF ok])
  have "lstrip (CHR '' '' # u) = u" using upper_facts[OF t(2)] unfolding u_def t(1) by (simp add: lstrip_def)
  moreover have "show_nat (ie_sequence e) @ '': '' @ u = show_nat (ie_sequence e) @ CHR '':'' # CHR '' '' # u" by simp
  ultimately have seq: "match_sequence (show_nat (ie_sequence e) @ '': '' @ u) = Some (show_nat (ie_sequence e), u)"
    by (simp only: match_sequence_line)
  have read: "read_sequence (show_nat (ie_sequence e)) = Inr (ie_sequence e)"
    using ok by (simp add: read_sequence_def ios_event_ok_def)
  show ?thesis
    unfolding u_def[symmetric] parse_timestamp_def seq Let_def by (simp add: read iso rfc rfc_time_line[OF ok, simplified])
qed

lemma strip_line_id:
  assumes "s \<noteq> []" "\<not> is_space (hd s)" "\<not> is_space (last s)"
  shows "strip_line s = s"
proof -
  have e: "is_line_end c \<Longrightarrow> is_space c" for c by (auto simp: is_line_end_def is_space_def code_def Let_def)
  have "dropWhile is_line_end s = s" using assms e by (cases s) auto
  moreover have "dropWhile is_line_end (rev s) = rev s" using assms e by (cases s rule: rev_cases) auto
  ultimately show ?thesis by (simp add: strip_line_def)
qed

lemma ios_line_printable:
  assumes ok: "ios_event_ok year e"
  shows "raw_text (ios_line e) = ios_line e"
proof -
  have classes: "\<not> is_upper CHR 0x00" "\<not> is_lower CHR 0x00" "\<not> is_digit CHR 0x00" "\<not> is_tag_char CHR 0x00" by code_simp+
  have digits: "CHR 0x00 \<notin> set (show_nat n)" "n < 100 \<Longrightarrow> CHR 0x00 \<notin> set (two_digits n)" "n < 1000 \<Longrightarrow> CHR 0x00 \<notin> set (three_digits n)" for n
    using show_nat_digits[of _ n] is_digit_digit_char classes(3) by (auto simp: two_digits_def three_digits_def)
  have month: "CHR 0x00 \<notin> set (MONTHS ! (ie_month e - 1))"
    using months(1)[of "ie_month e"] ok classes by (auto simp: ios_event_ok_def)
  have zone: "CHR 0x00 \<notin> set (ie_zone e)"
    using ok classes by (cases "ie_zone e") (auto simp: ios_event_ok_def zone_ok_def list_all_iff)
  have tag: "CHR 0x00 \<notin> set (join ''-'' (ie_prefix e @ [show_nat (ie_severity e), ie_mnemonic e]))"
    using ok classes digits(1) set_join[of "CHR ''-''" "ie_prefix e @ [show_nat (ie_severity e), ie_mnemonic e]"]
    by (fastforce simp: ios_event_ok_def valid_tag_def tag_word_def list_all_iff)
  have "ie_hour e < 100" "ie_minute e < 100" "ie_second e < 100" "ie_milli e < 1000" and body: "CHR 0x00 \<notin> set (ie_text e)" "ie_text e \<noteq> []" "strip (ie_text e) = ie_text e"
    using ok by (auto simp: ios_event_ok_def)
  then have "CHR 0x00 \<notin> set (ios_line e)" using digits month zone tag by (simp add: ios_line_def ios_stamp_def cisco_tag_def)
  then have "filter (\<lambda>c. c \<noteq> CHR 0x00) (ios_line e) = ios_line e" by (auto simp: filter_id_conv)
  moreover have "hd (ios_line e) = CHR ''<''" "last (ios_line e) = last (ie_text e)" "ios_line e \<noteq> []"
    using body(2) by (simp_all add: ios_line_def cisco_tag_def)
  moreover have "\<not> is_space (last (ie_text e))" using strip_ends(2)[of "ie_text e"] body(2,3) by simp
  moreover have "\<not> is_space CHR ''<''" by code_simp
  ultimately show ?thesis by (simp add: raw_text_def strip_line_id)
qed

text \<open>Property C33. What IOS sends is read back: for every event with fields in their ranges, the line that the device writes for
  it is parsed into a message with exactly these fields, whatever the time zone it names and whatever the text.
\<close>

theorem ios_line_roundtrip:
  assumes "ios_event_ok (pe_year env) e" "pe_decode env data = ios_line e"
  shows "parse_message env data ip protocol = Inr
    \<lparr>sm_source_ip = ip, sm_severity = int (ie_severity e), sm_message = ie_text e, sm_raw = ios_line e,
     sm_protocol = lower protocol, sm_device_host = [], sm_received_at = pe_now env,
     sm_device_time = Some (iso_stamp (pe_year env) e), sm_sequence = Some (ie_sequence e), sm_unsynced = ie_unsynced e,
     sm_pri = Some (ie_pri e), sm_syslog_facility = Some (ie_pri e div 8),
     sm_cisco_facility = Some (hd (ie_prefix e)), sm_subfacility = none_if_empty (join ''-'' (tl (ie_prefix e))),
     sm_mnemonic = Some (ie_mnemonic e), sm_status = ''parsed'', sm_facility = Some (hd (ie_prefix e))\<rparr>"
proof -
  let ?tag = "cisco_tag (ie_prefix e) (ie_severity e) (ie_mnemonic e) ('' '' @ ie_text e)"
  obtain rest where tag: "?tag = CHR ''%'' # rest" by (simp add: cisco_tag_def)
  define ts where "ts = \<lparr>tr_sequence = Some (ie_sequence e), tr_time = Some (iso_stamp (pe_year env) e), tr_unsynced = ie_unsynced e, tr_remainder = ?tag\<rparr>"
  have v: "valid_tag (ie_prefix e) (ie_severity e) (ie_mnemonic e)" "ie_text e \<noteq> []" "strip (ie_text e) = ie_text e" "ie_pri e \<le> 191"
    using assms(1) by (simp_all add: ios_event_ok_def)
  have pri: "parse_pri (ios_line e) = \<lparr>pr_pri = Some (ie_pri e), pr_facility = Some (ie_pri e div 8), pr_severity = Some (ie_pri e mod 8),
      pr_remainder = show_nat (ie_sequence e) @ '': '' @ (if ie_unsynced e then ''*'' else [])
     @ ios_stamp e @ (if ie_zone e = [] then [] else '' '' @ ie_zone e) @ '': '' @ ?tag\<rparr>"
    using match_pri_line[OF v(4), of "show_nat (ie_sequence e) @ '': '' @ (if ie_unsynced e then ''*'' else [])
     @ ios_stamp e @ (if ie_zone e = [] then [] else '' '' @ ie_zone e) @ '': '' @ ?tag"]
    lstrip_id[of "show_nat (ie_sequence e) @ xs" for xs] by (simp add: ios_line_def hd_append)
  have time: "parse_timestamp (pe_iso env) (pe_year env) (pr_remainder (parse_pri (ios_line e))) = Inr ts"
    unfolding pri ts_def pri_result.simps tag by (rule parse_timestamp_line[OF assms(1)])
  have "search_tag ?tag = Some (ie_prefix e, show_nat (ie_severity e), ie_mnemonic e, lstrip ('' '' @ ie_text e))"
    by (rule search_tag_first[OF v(1), of 0]) simp_all
  then have cisco: "parse_cisco (tr_remainder ts) = Some \<lparr>cs_facility = hd (ie_prefix e),
      cs_subfacility = none_if_empty (join ''-'' (tl (ie_prefix e))), cs_severity = ie_severity e, cs_mnemonic = ie_mnemonic e, cs_message = ie_text e\<rparr>"
    by (simp add: parse_cisco_def ts_def v(3))
  have label: "hd (ie_prefix e) \<noteq> []" using v(1) by (cases "ie_prefix e") (auto simp: valid_tag_def tag_word_def)
  have raw: "raw_text (pe_decode env data) = ios_line e" using ios_line_printable[OF assms(1)] assms(2) by simp
  obtain c cs where f: "hd (ie_prefix e) = c # cs" using label by (cases "hd (ie_prefix e)") auto
  show ?thesis
    unfolding parse_message_def raw Let_def time sbind_simps draft_message_ok[OF refl refl] cisco
    by (simp add: draft_message_def pri init_facility_def f ts_def v(2))
qed


section \<open>The properties at concrete inputs\<close>

definition sample_parse_env :: parse_env where
  "sample_parse_env = \<lparr>pe_decode = id, pe_iso = (\<lambda>_. None), pe_year = 2026, pe_now = ''2026-01-01T00:00:00.000+00:00''\<rparr>"

definition sample_event :: ios_event where
  "sample_event = \<lparr>ie_pri = 189, ie_sequence = 42, ie_unsynced = True, ie_month = 3, ie_day = 1, ie_hour = 18, ie_minute = 46,
     ie_second = 11, ie_milli = 5, ie_zone = ''UTC'', ie_prefix = [''SYS'', ''SW1''], ie_severity = 5, ie_mnemonic = ''CONFIG_I'',
     ie_text = ''Configured from console''\<rparr>"

lemma sample_line:
  "ios_line sample_event = ''<189>42: *Mar  1 18:46:11.005 UTC: %SYS-SW1-5-CONFIG_I: Configured from console''"
  by code_simp

lemma sample_event_ok: "ios_event_ok 2026 sample_event"
  by code_simp

lemma ios_line_roundtrip_witness:
  "parse_message sample_parse_env (ios_line sample_event) ''10.0.0.1'' ''UDP'' = Inr
    \<lparr>sm_source_ip = ''10.0.0.1'', sm_severity = 5, sm_message = ''Configured from console'', sm_raw = ios_line sample_event,
     sm_protocol = ''udp'', sm_device_host = [], sm_received_at = ''2026-01-01T00:00:00.000+00:00'',
     sm_device_time = Some ''2026-03-01T18:46:11.005000'', sm_sequence = Some 42, sm_unsynced = True,
     sm_pri = Some 189, sm_syslog_facility = Some 23, sm_cisco_facility = Some ''SYS'', sm_subfacility = Some ''SW1'',
     sm_mnemonic = Some ''CONFIG_I'', sm_status = ''parsed'', sm_facility = Some ''SYS''\<rparr>"
proof -
  have e: "ios_event_ok (pe_year sample_parse_env) sample_event" "pe_decode sample_parse_env (ios_line sample_event) = ios_line sample_event"
    using sample_event_ok by (simp_all add: sample_parse_env_def)
  have "iso_stamp (pe_year sample_parse_env) sample_event = ''2026-03-01T18:46:11.005000''" "lower ''UDP'' = ''udp''" by code_simp+
  then show ?thesis using ios_line_roundtrip[OF e, of "''10.0.0.1''" "''UDP''"]
    by (simp add: sample_event_def sample_parse_env_def none_if_empty_def)
qed

lemma parse_cisco_exact_witness:
  "parse_cisco ''50% done %SYS-5-CONFIG_I: ok'' = Some \<lparr>cs_facility = ''SYS'', cs_subfacility = None, cs_severity = 5,
     cs_mnemonic = ''CONFIG_I'', cs_message = ''ok''\<rparr>"
proof (rule iffD2[OF parse_cisco_exact], intro exI conjI)
  show "valid_tag [''SYS''] 5 ''CONFIG_I''" by code_simp
  show "drop 9 ''50% done %SYS-5-CONFIG_I: ok'' = cisco_tag [''SYS''] 5 ''CONFIG_I'' '' ok''" by code_simp
  show "\<forall>k < 9. \<not> tag_at ''50% done %SYS-5-CONFIG_I: ok'' k"
  proof (intro allI impI)
    fix k :: nat
    assume k: "k < 9"
    have "list_all (\<lambda>k. case drop k ''50% done %SYS-5-CONFIG_I: ok'' of [] \<Rightarrow> True | c # cs \<Rightarrow> c \<noteq> CHR ''%'' \<or> match_tag cs = None) [0..<9]"
      by code_simp
    then show "\<not> tag_at ''50% done %SYS-5-CONFIG_I: ok'' k"
      using k unfolding list_all_iff tag_at_drop by (fastforce split: list.splits)
  qed
qed code_simp

text \<open>A sequence number of more than 4300 digits makes the parser fail, although the priority and the tag are readable.\<close>

lemma oversized_sequence_fails:
  assumes "length ds > int_digit_limit" "list_all is_digit ds"
  shows "\<exists>e. parse_timestamp from_iso year (ds @ '': %SYS-5-RESTART: x'') = Inl e"
  using assms by (cases "ds = []") (simp_all add: parse_timestamp_def match_sequence_def takeWhile_stop dropWhile_stop read_sequence_def Let_def)

end
