(* ===== verification/Syslog_Device.thy ===== *)
theory Syslog_Device
  imports View_Push Ipv4
begin

text \<open>
  The configuration of a Cisco device's Syslog destinations (\<open>features/syslog/device_config/\<close>): the commands
  (\<open>commands.py\<close>), the recognition of the result in device output (\<open>verifier.py\<close>), the dialogue with the device
  (\<open>worker.py\<close>, \<open>SaveConfigService.copy_running_to_startup\<close>) and the transactions that apply, verify and save a
  destination (\<open>service.py\<close>: \<open>SyslogConfigurator\<close>, its part that talks to the device).

  What the connection does is the record \<open>cli\<close>, an argument: sending a configuration set, running a show command,
  saving. An IPv6 address is read by the argument \<open>ip6\<close>, which gives its canonical text and whether it is
  unspecified; IPv4 is the model of \<open>Ipv4\<close>. The compiled patterns are written out as recognisers.
\<close>

section \<open>Commands\<close>

type_synonym ip6_reader = "string \<Rightarrow> (string \<times> bool) option"

text \<open>\<open>ip_address(text)\<close>: the canonical text and \<open>is_unspecified\<close>.\<close>

definition parse_address :: "ip6_reader \<Rightarrow> string \<Rightarrow> (string \<times> bool) option" where
  "parse_address ip6 s = (case parse_ipv4 s of Some a \<Rightarrow> Some (show_ipv4 a, a = 0) | None \<Rightarrow> ip6 s)"

definition SEVERITY_WORDS :: "string list" where
  "SEVERITY_WORDS = [''emergencies'', ''alerts'', ''critical'', ''errors'', ''warnings'', ''notifications'', ''informational'', ''debugging'']"

text \<open>\<open>INTERFACE_RE.fullmatch\<close>\<close>

definition interface_char :: "char \<Rightarrow> bool" where
  "interface_char c = (is_alpha c \<or> is_digit c \<or> c \<in> {CHR ''.'', CHR ''/'', CHR '':'', CHR ''_'', CHR ''-''})"

definition interface_word :: "string \<Rightarrow> bool" where
  "interface_word s = (case s of [] \<Rightarrow> False | c # cs \<Rightarrow> is_alpha c \<and> length cs \<le> 63 \<and> list_all interface_char cs)"

definition validate_destination :: "ip6_reader \<Rightarrow> string \<Rightarrow> string \<Rightarrow> int \<Rightarrow> string + string" where
  "validate_destination ip6 server_ip protocol port =
     (case parse_address ip6 server_ip of
        None \<Rightarrow> Inl ([CHR 0x27] @ server_ip @ [CHR 0x27] @ '' does not appear to be an IPv4 or IPv6 address'')
      | Some (_, unspecified) \<Rightarrow>
          if unspecified then Inl ''Syslog server IP cannot be unspecified''
          else if lower protocol \<notin> {''udp'', ''tcp''} then Inl ''Unsupported syslog transport''
          else if \<not> (1 \<le> port \<and> port \<le> 65535) then Inl ''Invalid syslog port''
          else Inr (lower protocol))"

definition destination_text :: "string \<Rightarrow> string \<Rightarrow> int \<Rightarrow> string" where
  "destination_text server_ip protocol port = ''logging host '' @ server_ip @ '' transport '' @ protocol @ '' port '' @ show_int port"

definition build_enable_commands :: "ip6_reader \<Rightarrow> string \<Rightarrow> string \<Rightarrow> int \<Rightarrow> string \<Rightarrow> int \<Rightarrow> bool \<Rightarrow> bool
    \<Rightarrow> string + string list" where
  "build_enable_commands ip6 server_ip protocol port source_interface trap timestamps sequence_numbers =
     sbind (validate_destination ip6 server_ip protocol port) (\<lambda>proto.
     if \<not> interface_word (strip source_interface) then Inl ''Source interface contains unsupported characters''
     else if \<not> (0 \<le> trap \<and> trap \<le> 7) then Inl ''Severity must be between 0 and 7''
     else Inr ([destination_text server_ip proto port, ''logging trap '' @ SEVERITY_WORDS ! nat trap]
       @ (if timestamps then [''service timestamps log datetime msec''] else [])
       @ (if sequence_numbers then [''service sequence-numbers''] else [])
       @ [''logging source-interface '' @ strip source_interface]))"

definition build_cancel_commands :: "ip6_reader \<Rightarrow> string \<Rightarrow> string \<Rightarrow> int \<Rightarrow> string + string list" where
  "build_cancel_commands ip6 server_ip protocol port =
     sbind (validate_destination ip6 server_ip protocol port) (\<lambda>proto.
     Inr [''no '' @ destination_text server_ip proto port])"

section \<open>Device output\<close>

text \<open>\<open>CLI_ERROR_RE\<close>: behind a percent sign and white space one of the phrases, as whole words, in any case.\<close>

definition CLI_ERRORS :: "string list" where
  "CLI_ERRORS = [''invalid input'', ''incomplete command'', ''ambiguous command'', ''unknown command'', ''error'']"

definition word_char :: "char \<Rightarrow> bool" where
  "word_char c = (is_alpha c \<or> is_digit c \<or> c = CHR ''_'')"

definition phrase_at :: "string \<Rightarrow> string \<Rightarrow> bool" where
  "phrase_at t phrase =
     (starts_with (lower t) phrase \<and> (let rest = drop (length phrase) t in rest = [] \<or> \<not> word_char (hd rest)))"

fun contains_cli_error :: "string \<Rightarrow> bool" where
  "contains_cli_error [] = False"
| "contains_cli_error (c # cs) =
     ((c = CHR ''%'' \<and> list_ex (phrase_at (lstrip cs)) CLI_ERRORS) \<or> contains_cli_error cs)"

definition cli_error_detail :: "string \<Rightarrow> string" where
  "cli_error_detail output =
     (case find contains_cli_error (split_lines output) of
        Some line \<Rightarrow> strip line
      | None \<Rightarrow> ''Cisco IOS rejected the command.'')"

definition normalized_line :: "string \<Rightarrow> string" where
  "normalized_line v = join '' '' (words (lower (strip v)))"

definition INTERFACE_ALIASES :: "(string \<times> string) list" where
  "INTERFACE_ALIASES =
     [(''et'', ''ethernet''), (''eth'', ''ethernet''), (''fa'', ''fastethernet''),
      (''fastethernet'', ''fastethernet''), (''gi'', ''gigabitethernet''),
      (''gig'', ''gigabitethernet''), (''gigabitethernet'', ''gigabitethernet''),
      (''te'', ''tengigabitethernet''), (''tengigabitethernet'', ''tengigabitethernet''),
      (''fo'', ''fortygigabitethernet''), (''fortygigabitethernet'', ''fortygigabitethernet''),
      (''hu'', ''hundredgige''), (''hundredgige'', ''hundredgige''), (''lo'', ''loopback''),
      (''loopback'', ''loopback''), (''po'', ''port-channel''), (''port-channel'', ''port-channel''),
      (''se'', ''serial''), (''serial'', ''serial''), (''tu'', ''tunnel''), (''tunnel'', ''tunnel''),
      (''vl'', ''vlan''), (''vlan'', ''vlan'')]"

definition normalize_interface :: "string \<Rightarrow> string" where
  "normalize_interface v =
     (let compact = lower (filter (\<lambda>c. \<not> is_space c) v);
          prefix = takeWhile (\<lambda>c. is_alpha c \<or> c = CHR ''-'') compact; suffix = drop (length prefix) compact in
      if prefix = [] then compact
      else (case map_of INTERFACE_ALIASES prefix of Some p \<Rightarrow> p | None \<Rightarrow> prefix) @ suffix)"

definition interface_listed :: "string \<Rightarrow> string \<Rightarrow> bool" where
  "interface_listed output iface =
     list_ex (\<lambda>line. case words (strip line) of [] \<Rightarrow> False | f # _ \<Rightarrow> normalize_interface f = normalize_interface iface) (split_lines output)"

definition verify_destination :: "string \<Rightarrow> string \<Rightarrow> string \<Rightarrow> int \<Rightarrow> bool \<Rightarrow> string option" where
  "verify_destination output server_ip protocol port expected =
     (let command = normalized_line (destination_text server_ip (lower protocol) port);
          present = list_ex (\<lambda>line. normalized_line line = command) (split_lines output) in
      if present = expected then None
      else Some (''Device configuration '' @ (if expected then ''does not contain'' else ''still contains'')
             @ '' '' @ [CHR 0x27] @ command @ [CHR 0x27] @ ''.''))"

definition SOURCE_PREFIX :: string where
  "SOURCE_PREFIX = ''logging source-interface ''"

definition source_line :: "string \<Rightarrow> string \<Rightarrow> bool" where
  "source_line iface line =
     (let normalized = normalized_line line in
      starts_with normalized SOURCE_PREFIX
      \<and> normalize_interface (hd (words (drop (length SOURCE_PREFIX) normalized))) = normalize_interface iface)"

definition verify_source_interface :: "string \<Rightarrow> string \<Rightarrow> bool" where
  "verify_source_interface output iface = list_ex (source_line iface) (split_lines output)"

section \<open>The dialogue\<close>

datatype save_error = SaveUnsupported | SaveFailed string

record ('k, 'w) cli =
  cl_connected :: "'k \<Rightarrow> 'w \<Rightarrow> bool"
  cl_config :: "'k \<Rightarrow> string list \<Rightarrow> ('w, string) act"
  cl_command :: "'k \<Rightarrow> string \<Rightarrow> ('w, string) act"
  cl_can_save :: "'k \<Rightarrow> bool"
  cl_save :: "'k \<Rightarrow> 'w \<Rightarrow> (save_error + string) \<times> 'w"

text \<open>An output that shows no CLI error is returned.\<close>

definition accept_cli :: "string \<Rightarrow> string \<Rightarrow> ('w, string) act" where
  "accept_cli prefix out w = ((if contains_cli_error out then Inl (prefix @ cli_error_detail out) else Inr out), w)"

text \<open>\<open>CiscoSyslogWorker\<close>\<close>

definition new_worker :: "('k, 'w) cli \<Rightarrow> 'k \<Rightarrow> ('w, unit) act" where
  "new_worker cl k w =
     ((if cl_connected cl k w then Inr () else Inl ''The active device session has no CLI connection''), w)"

definition worker_send :: "('k, 'w) cli \<Rightarrow> 'k \<Rightarrow> string list \<Rightarrow> ('w, string) act" where
  "worker_send cl k commands = abind (cl_config cl k commands) (accept_cli ''Cisco CLI rejected the Syslog command: '')"

definition worker_show :: "('k, 'w) cli \<Rightarrow> 'k \<Rightarrow> bool \<Rightarrow> ('w, string) act" where
  "worker_show cl k startup =
     (let config = (if startup then ''startup-config'' else ''running-config'') in
      abind (cl_command cl k (''show '' @ config @ '' | include logging'')) (accept_cli (''Could not read '' @ config @ '': '')))"

definition save_rejected :: "string \<Rightarrow> bool" where
  "save_rejected output = (contains (lower output) ''% invalid input'' \<or> contains (lower output) ''invalid input detected'')"

definition copy_running_to_startup :: "('k, 'w) cli \<Rightarrow> 'k \<Rightarrow> ('w, string) act" where
  "copy_running_to_startup cl k w =
     (if \<not> cl_connected cl k w then (Inl ''Device connection is not available'', w)
      else if \<not> cl_can_save cl k then (Inl ''The active device driver does not support saving configuration'', w)
      else case cl_save cl k w of
          (Inl SaveUnsupported, w') \<Rightarrow> (Inl ''The active device driver cannot run copy running-config startup-config'', w')
        | (Inl (SaveFailed e), w') \<Rightarrow> (Inl e, w')
        | (Inr out, w') \<Rightarrow>
            ((if save_rejected out then Inl ''The device rejected copy running-config startup-config'' else Inr out), w'))"

definition worker_save :: "('k, 'w) cli \<Rightarrow> 'k \<Rightarrow> ('w, string) act" where
  "worker_save cl k = abind (copy_running_to_startup cl k) (accept_cli ''copy running-config startup-config failed: '')"

definition worker_interface_exists :: "('k, 'w) cli \<Rightarrow> 'k \<Rightarrow> string \<Rightarrow> ('w, bool) act" where
  "worker_interface_exists cl k iface =
     abind (cl_command cl k ''show ip interface brief'') (\<lambda>out.
     abind (accept_cli ''Could not validate source interface: '' out) (\<lambda>out. areturn (interface_listed out iface)))"

section \<open>Transactions\<close>

record config_result =
  cf_ok :: bool
  cf_stage :: string
  cf_message :: string

definition config_failure :: "string \<Rightarrow> string \<Rightarrow> config_result" where
  "config_failure stage message = \<lparr>cf_ok = False, cf_stage = stage, cf_message = message\<rparr>"

text \<open>\<open>try: ... except Exception as exc: return self._failure(...)\<close>, and otherwise the rest of the transaction.\<close>

definition attempt :: "('w, 'a) act \<Rightarrow> (string \<Rightarrow> config_result) \<Rightarrow> ('a \<Rightarrow> 'w \<Rightarrow> config_result \<times> 'w) \<Rightarrow> 'w \<Rightarrow> config_result \<times> 'w" where
  "attempt m fail k w = (case m w of (Inl e, w') \<Rightarrow> (fail e, w') | (Inr a, w') \<Rightarrow> k a w')"

definition verify_config :: "('k, 'w) cli \<Rightarrow> 'k \<Rightarrow> string \<Rightarrow> string \<Rightarrow> string \<Rightarrow> int \<Rightarrow> string \<Rightarrow> bool
    \<Rightarrow> 'w \<Rightarrow> config_result option \<times> 'w" where
  "verify_config cl k host server_ip protocol port iface startup w =
     (let stage = (if startup then ''verify_startup'' else ''verify_running'');
          label = (if startup then ''Startup-config'' else ''Running-config'') in
      case worker_show cl k startup w of
        (Inl e, w') \<Rightarrow>
          (Some (config_failure stage
             ((if startup then ''Startup-config verification failed'' else ''Could not verify '' @ lower label) @ '' for '' @ host @ '': '' @ e)), w')
      | (Inr out, w') \<Rightarrow>
          (case verify_destination out server_ip protocol port True of
             Some message \<Rightarrow> (Some (config_failure stage message), w')
           | None \<Rightarrow>
               if verify_source_interface out iface then (None, w')
               else (Some (config_failure stage
                 (label @ '' on '' @ host @ '' does not contain logging source-interface '' @ iface @ ''.'')), w')))"

definition verify_absent :: "('k, 'w) cli \<Rightarrow> 'k \<Rightarrow> string \<Rightarrow> string \<Rightarrow> string \<Rightarrow> int \<Rightarrow> bool
    \<Rightarrow> 'w \<Rightarrow> config_result option \<times> 'w" where
  "verify_absent cl k host server_ip protocol port startup w =
     (let stage = (if startup then ''verify_startup'' else ''verify_running'');
          label = (if startup then ''Startup-config'' else ''Running-config'') in
      case worker_show cl k startup w of
        (Inl e, w') \<Rightarrow> (Some (config_failure stage (label @ '' verification failed for '' @ host @ '': '' @ e)), w')
      | (Inr out, w') \<Rightarrow> (map_option (config_failure stage) (verify_destination out server_ip protocol port False), w'))"

definition check_then :: "('w \<Rightarrow> config_result option \<times> 'w) \<Rightarrow> ('w \<Rightarrow> config_result \<times> 'w) \<Rightarrow> 'w \<Rightarrow> config_result \<times> 'w" where
  "check_then check k w = (case check w of (Some r, w') \<Rightarrow> (r, w') | (None, w') \<Rightarrow> k w')"

text \<open>The second half of both transactions: verify, save, verify what was saved.\<close>

definition save_and_verify :: "('k, 'w) cli \<Rightarrow> 'k \<Rightarrow> string \<Rightarrow> (bool \<Rightarrow> 'w \<Rightarrow> config_result option \<times> 'w) \<Rightarrow> string
    \<Rightarrow> 'w \<Rightarrow> config_result \<times> 'w" where
  "save_and_verify cl k host check message =
     check_then (check False)
       (attempt (worker_save cl k)
          (\<lambda>e. config_failure ''save'' (''copy running-config startup-config failed for '' @ host @ '': '' @ e)) (\<lambda>_.
        check_then (check True) (\<lambda>w. (\<lparr>cf_ok = True, cf_stage = ''complete'', cf_message = message\<rparr>, w))))"

definition configure_transaction :: "('k, 'w) cli \<Rightarrow> 'k \<Rightarrow> string \<Rightarrow> string list \<Rightarrow> string \<Rightarrow> string \<Rightarrow> int \<Rightarrow> string
    \<Rightarrow> 'w \<Rightarrow> config_result \<times> 'w" where
  "configure_transaction cl k host commands server_ip protocol port iface =
     attempt (worker_interface_exists cl k iface)
       (\<lambda>e. config_failure ''interface'' (''Could not validate source interface on '' @ host @ '': '' @ e)) (\<lambda>known.
     if \<not> known then (\<lambda>w. (config_failure ''interface''
       (''Source interface '' @ [CHR 0x27] @ iface @ [CHR 0x27] @ '' does not exist on '' @ host @ ''.''), w))
     else attempt (worker_send cl k commands)
       (\<lambda>e. config_failure ''apply'' (''Syslog apply failed for '' @ host @ '': '' @ e)) (\<lambda>_.
     save_and_verify cl k host (verify_config cl k host server_ip protocol port iface)
       (''Syslog configuration applied, verified, and saved on '' @ host @ ''.'')))"

definition cancel_transaction :: "('k, 'w) cli \<Rightarrow> 'k \<Rightarrow> string \<Rightarrow> string list \<Rightarrow> string \<Rightarrow> string \<Rightarrow> int
    \<Rightarrow> 'w \<Rightarrow> config_result \<times> 'w" where
  "cancel_transaction cl k host commands server_ip protocol port =
     attempt (worker_send cl k commands)
       (\<lambda>e. config_failure ''apply'' (''Syslog cancellation failed for '' @ host @ '': '' @ e)) (\<lambda>_.
     save_and_verify cl k host (verify_absent cl k host server_ip protocol port)
       (''Syslog destination removed, verified, and saved on '' @ host @ ''.''))"

text \<open>\<open>_run_transaction\<close>; \<open>execute\<close> is the session registry's, whose operation builds the worker first.\<close>

definition run_transaction :: "(string \<Rightarrow> ('k \<Rightarrow> ('w, config_result) act) \<Rightarrow> ('w, config_result executed) act)
    \<Rightarrow> ('k, 'w) cli \<Rightarrow> string \<Rightarrow> ('k \<Rightarrow> 'w \<Rightarrow> config_result \<times> 'w) \<Rightarrow> 'w \<Rightarrow> config_result \<times> 'w" where
  "run_transaction execute cl host op w =
     (case execute host (\<lambda>k. abind (new_worker cl k) (\<lambda>_ w. map_prod Inr id (op k w))) w of
        (Inl e, w') \<Rightarrow> (config_failure ''session'' (''Could not execute the Syslog transaction for '' @ host @ '': '' @ e), w')
      | (Inr x, w') \<Rightarrow>
          ((if \<not> ex_ok x then config_failure ''session'' (text_default (ex_message x) (''No CLI session for '' @ host @ ''.''))
            else case ex_value x of
                None \<Rightarrow> config_failure ''internal'' (''Syslog transaction for '' @ host @ '' returned no result.'')
              | Some r \<Rightarrow> r), w'))"

end
