(* ===== verification/Syslog_Servers.thy ===== *)
theory Syslog_Servers
  imports Syslog_Device Switch_Tables
begin

text \<open>
  The desired Syslog destinations of the devices: the table \<open>t10_syslog_servers\<close> and its repository
  (\<open>features/syslog/persistence/device_state_repository.py\<close>), the configurator that records the outcome of a
  transaction (\<open>device_config/service.py\<close>) and the push of pending destinations with its deferred verification
  (\<open>features/syslog/view_push.py\<close>).

  The table is a list of rows with the primary key host, address, protocol and port; \<open>updated_at\<close> is left out. The
  connections of this feature do not enable foreign keys. Text is the only type of form values beside numbers, flags and
  \<open>None\<close>. What the device lookup returns is an argument.
\<close>

section \<open>The table\<close>

record server_row =
  sl_host :: string
  sl_ip :: string
  sl_proto :: string
  sl_port :: int
  sl_iface :: "string option"
  sl_trap :: int
  sl_stamps :: bool
  sl_numbers :: bool
  sl_configured :: bool
  sl_sync :: sync_status
  sl_result :: "string option"

type_synonym server_key = "string \<times> string \<times> string \<times> int"

definition server_key :: "server_row \<Rightarrow> server_key" where
  "server_key r = (sl_host r, sl_ip r, sl_proto r, sl_port r)"

definition find_server :: "server_key \<Rightarrow> server_row list \<Rightarrow> server_row option" where
  "find_server k db = find (\<lambda>r. server_key r = k) db"

definition delete_server :: "server_key \<Rightarrow> server_row list \<Rightarrow> server_row list" where
  "delete_server k db = filter (\<lambda>r. server_key r \<noteq> k) db"

definition update_server :: "server_key \<Rightarrow> (server_row \<Rightarrow> server_row) \<Rightarrow> server_row list \<Rightarrow> server_row list" where
  "update_server k f db = map (\<lambda>r. if server_key r = k then f r else r) db"

text \<open>The \<open>CHECK\<close> constraints, which SQLite evaluates before it looks for the conflict.\<close>

definition server_checks :: "server_row \<Rightarrow> bool" where
  "server_checks r = (sl_proto r \<in> {''udp'', ''tcp''} \<and> 1 \<le> sl_port r \<and> sl_port r \<le> 65535 \<and> 0 \<le> sl_trap r \<and> sl_trap r \<le> 7)"

definition save_device_state :: "server_row list \<Rightarrow> string \<Rightarrow> string \<Rightarrow> string \<Rightarrow> int \<Rightarrow> string option \<Rightarrow> bool \<Rightarrow> string
    \<Rightarrow> int \<Rightarrow> bool \<Rightarrow> bool \<Rightarrow> string + server_row list" where
  "save_device_state db host server_ip protocol port iface configured result trap timestamps numbers =
     (let r = \<lparr>sl_host = host, sl_ip = server_ip, sl_proto = protocol, sl_port = port, sl_iface = iface, sl_trap = trap,
        sl_stamps = timestamps, sl_numbers = numbers, sl_configured = configured,
        sl_sync = (if configured then Synchronized else PendingApply), sl_result = Some result\<rparr> in
      if server_checks r then Inr (upsert_by server_key r db) else Inl ''CHECK constraint failed'')"

definition save_device_attempt :: "server_row list \<Rightarrow> string \<Rightarrow> string \<Rightarrow> string \<Rightarrow> int \<Rightarrow> string \<Rightarrow> string + server_row list" where
  "save_device_attempt db host server_ip protocol port result =
     (let r = \<lparr>sl_host = host, sl_ip = server_ip, sl_proto = protocol, sl_port = port, sl_iface = None, sl_trap = 5,
        sl_stamps = False, sl_numbers = False, sl_configured = False, sl_sync = Synchronized, sl_result = Some result\<rparr> in
      if \<not> server_checks r then Inl ''CHECK constraint failed''
      else if find_server (server_key r) db = None then Inr (db @ [r])
      else Inr (update_server (server_key r) (\<lambda>q. q\<lparr>sl_result := Some result\<rparr>) db))"

definition configured_hosts :: "server_row list \<Rightarrow> string \<Rightarrow> string \<Rightarrow> int \<Rightarrow> string list" where
  "configured_hosts db server_ip protocol port =
     remdups (map sl_host (filter (\<lambda>r. sl_ip r = server_ip \<and> sl_port r = port \<and> sl_configured r
        \<and> (lower protocol = ''both'' \<or> sl_proto r = protocol)) db))"

section \<open>Saving and staging\<close>

record server_form =
  sf_ip :: string
  sf_proto :: string
  sf_port :: int
  sf_iface :: string
  sf_trap :: int
  sf_stamps :: bool
  sf_numbers :: bool

text \<open>\<open>_clean_configuration\<close>: the host and the values of the form.\<close>

definition clean_configuration :: "ip6_reader \<Rightarrow> pyval \<Rightarrow> payload \<Rightarrow> string + string \<times> server_form" where
  "clean_configuration ip6 host p =
     (let clean_host = strip (text_or host []); server_ip = strip (text_or (get p ''server_ip'') []);
          protocol = lower (strip (text_or (get p ''protocol'') ''udp'')); iface = strip (text_or (get p ''source_interface'') []) in
      case parse_address ip6 server_ip of
        None \<Rightarrow> Inl ''Server IP must be a valid IPv4 or IPv6 address''
      | Some (address, unspecified) \<Rightarrow>
          if unspecified then Inl ''Server IP cannot be unspecified''
          else if clean_host = [] then Inl ''Device host is required''
          else if protocol \<notin> {''udp'', ''tcp''} then Inl ''Protocol must be UDP or TCP''
          else case (py_int (get_default p ''port'' (PInt 5514)), py_int (get_default p ''trap_severity'' (PInt 5))) of
            (Some port, Some severity) \<Rightarrow>
              if \<not> (1 \<le> port \<and> port \<le> 65535) then Inl ''Port must be between 1 and 65535''
              else if \<not> (0 \<le> severity \<and> severity \<le> 7) then Inl ''Trap severity must be between 0 and 7''
              else if iface = [] then Inl ''Source interface is required''
              else if \<not> interface_word iface then Inl ''Source interface contains unsupported characters''
              else Inr (clean_host, \<lparr>sf_ip = address, sf_proto = protocol, sf_port = port, sf_iface = iface, sf_trap = severity,
                sf_stamps = truthy (get p ''timestamps''), sf_numbers = truthy (get p ''sequence_numbers'')\<rparr>)
          | _ \<Rightarrow> Inl ''Port and severity must be numbers'')"

text \<open>Lines 244--284: the row under the original key, when the form changes the key.\<close>

definition retire_original :: "server_key \<Rightarrow> server_row list \<Rightarrow> server_row list" where
  "retire_original k db =
     (case find_server k db of
        None \<Rightarrow> db
      | Some r \<Rightarrow>
          if sl_configured r \<or> sl_sync r \<noteq> PendingApply then update_server k (\<lambda>r. r\<lparr>sl_sync := PendingDelete\<rparr>) db
          else delete_server k db)"

definition stage_server :: "string \<Rightarrow> server_form \<Rightarrow> server_row list \<Rightarrow> server_row list" where
  "stage_server host f db =
     (let k = (host, sf_ip f, sf_proto f, sf_port f) in
      if find_server k db = None then
        db @ [\<lparr>sl_host = host, sl_ip = sf_ip f, sl_proto = sf_proto f, sl_port = sf_port f, sl_iface = Some (sf_iface f),
          sl_trap = sf_trap f, sl_stamps = sf_stamps f, sl_numbers = sf_numbers f, sl_configured = False,
          sl_sync = PendingApply, sl_result = None\<rparr>]
      else update_server k (\<lambda>r. r\<lparr>sl_iface := Some (sf_iface f), sl_trap := sf_trap f, sl_stamps := sf_stamps f,
        sl_numbers := sf_numbers f, sl_sync := PendingApply, sl_result := None\<rparr>) db)"

definition original_key :: "string \<Rightarrow> server_form \<Rightarrow> payload \<Rightarrow> server_key" where
  "original_key host f p =
     (host, strip (text_or (get p ''original_server_ip'') (sf_ip f)), lower (strip (text_or (get p ''original_protocol'') (sf_proto f))),
      (case py_int (get_default p ''original_port'' (PInt (sf_port f))) of None \<Rightarrow> sf_port f | Some i \<Rightarrow> i))"

definition save_configuration :: "ip6_reader \<Rightarrow> server_row list \<Rightarrow> pyval \<Rightarrow> payload \<Rightarrow> (string + string) \<times> server_row list" where
  "save_configuration ip6 db host p =
     (case clean_configuration ip6 host p of
        Inl e \<Rightarrow> (Inl e, db)
      | Inr (h, f) \<Rightarrow>
          let k = original_key h f p;
              db = (if k \<noteq> (h, sf_ip f, sf_proto f, sf_port f) then retire_original k db else db)
          in (Inr ''Syslog server configuration saved.'', stage_server h f db))"

definition stage_delete_configuration :: "server_row list \<Rightarrow> pyval \<Rightarrow> payload \<Rightarrow> (string + string) \<times> server_row list" where
  "stage_delete_configuration db host p =
     (case py_int (get_default p ''port'' (PInt 5514)) of
        None \<Rightarrow> (Inl ''Port must be a number'', db)
      | Some port \<Rightarrow>
          let k = (strip (text_or host []), strip (text_or (get p ''server_ip'') []), lower (strip (text_or (get p ''protocol'') ''udp'')), port) in
          (case find_server k db of
             None \<Rightarrow> (Inl ''Syslog server configuration no longer exists.'', db)
           | Some r \<Rightarrow>
               if \<not> sl_configured r \<and> sl_sync r = PendingApply
               then (Inr ''Unapplied Syslog server configuration deleted.'', delete_server k db)
               else (Inr ''Syslog server marked for removal. Use View & Push to apply.'',
                     update_server k (\<lambda>r. r\<lparr>sl_sync := PendingDelete\<rparr>) db)))"

text \<open>The rows of a host that the pages and the push see, \<open>ORDER BY server_ip COLLATE NOCASE, protocol, port\<close>.\<close>

definition device_configurations :: "server_row list \<Rightarrow> string \<Rightarrow> server_row list" where
  "device_configurations db host =
     (if strip host = [] then []
      else sort_key (\<lambda>r. lower (sl_ip r)) (sort_key sl_proto (sort_key sl_port (filter (\<lambda>r. sl_host r = strip host
        \<and> \<not> (\<not> sl_configured r \<and> sl_sync r = Synchronized \<and> sl_iface r = None)) db))))"

section \<open>The configurator\<close>

definition SUPPORTED_DEVICE_OS :: "string list" where
  "SUPPORTED_DEVICE_OS = [''ios'', ''ios_xe'', ''cisco_ios'', ''cisco_xe'']"

text \<open>The device lookup: whether a device is connected, its operating system, its source interface; each may raise.\<close>

record device_lookup =
  lk_connected :: "string \<Rightarrow> string + bool"
  lk_os :: "string \<Rightarrow> string + string"
  lk_iface :: "string \<Rightarrow> string + string option"

definition read_failure :: "string \<Rightarrow> string \<Rightarrow> string \<Rightarrow> config_result" where
  "read_failure host what e = config_failure ''database''
     (''Could not read Syslog '' @ what @ '' for '' @ host @ '' from the database: '' @ e)"

definition validate_host :: "device_lookup \<Rightarrow> string \<Rightarrow> config_result option" where
  "validate_host lk host =
     (case sbind (lk_connected lk host) (\<lambda>c. sbind (lk_os lk host) (\<lambda>os. Inr (c, os))) of
        Inl e \<Rightarrow> Some (read_failure host ''device metadata'' e)
      | Inr (connected, os) \<Rightarrow>
          let device_os = map (\<lambda>c. if c = CHR ''-'' \<or> c = CHR '' '' then CHR ''_'' else c) os in
          if \<not> connected then Some (config_failure ''validate'' (host @ '' is not connected.''))
          else if device_os \<notin> set SUPPORTED_DEVICE_OS
          then Some (config_failure ''validate'' (''Syslog configuration does not support OS '' @ [CHR 0x27]
                 @ text_default device_os ''unknown'' @ [CHR 0x27] @ ''.''))
          else None)"

definition database_failure :: "string \<Rightarrow> config_result \<Rightarrow> string \<Rightarrow> config_result" where
  "database_failure host prior e = config_failure ''database''
     (cf_message prior @ '' Database state update failed for '' @ host @ '': '' @ e)"

text \<open>The result of a transaction is recorded; an error while recording replaces it.\<close>

definition record_result :: "string \<Rightarrow> config_result \<Rightarrow> server_row list \<Rightarrow> string + server_row list \<Rightarrow> config_result \<times> server_row list" where
  "record_result host r db m = (case m of Inl e \<Rightarrow> (database_failure host r e, db) | Inr db' \<Rightarrow> (r, db'))"

type_synonym ('k, 'w) executor = "string \<Rightarrow> ('k \<Rightarrow> ('w, config_result) act) \<Rightarrow> ('w, config_result executed) act"

definition configure :: "ip6_reader \<Rightarrow> device_lookup \<Rightarrow> ('k, 'w) executor \<Rightarrow> ('k, 'w) cli \<Rightarrow> string \<Rightarrow> string \<Rightarrow> string \<Rightarrow> int
    \<Rightarrow> string \<Rightarrow> int \<Rightarrow> bool \<Rightarrow> bool \<Rightarrow> 'w \<times> server_row list \<Rightarrow> config_result \<times> 'w \<times> server_row list" where
  "configure ip6 lk ex cl host server_ip protocol port source trap timestamps numbers world =
     (case world of (w, db) \<Rightarrow>
      case validate_host lk host of Some r \<Rightarrow> (r, w, db) | None \<Rightarrow>
      (case (if strip source \<noteq> [] then Inr (Some (strip source)) else lk_iface lk host) of
         Inl e \<Rightarrow> (read_failure host ''source interface'' e, w, db)
       | Inr iface \<Rightarrow>
           if iface = None \<or> iface = Some [] then
             (config_failure ''validate'' (''Interface data for '' @ host
                @ '' is not synchronized. Enter the Cisco source interface manually.''), w, db)
           else (case build_enable_commands ip6 server_ip protocol port (the iface) trap timestamps numbers of
             Inl e \<Rightarrow> (config_failure ''validate'' e, w, db)
           | Inr commands \<Rightarrow>
               let (r, w') = run_transaction ex cl host
                     (\<lambda>k. configure_transaction cl k host commands server_ip protocol port (the iface)) w;
                   (r', db') = record_result host r db
                     (save_device_state db host server_ip protocol port iface (cf_ok r) (cf_message r) trap timestamps numbers)
               in (r', w', db'))))"

definition cancel :: "ip6_reader \<Rightarrow> device_lookup \<Rightarrow> ('k, 'w) executor \<Rightarrow> ('k, 'w) cli \<Rightarrow> string \<Rightarrow> string \<Rightarrow> string \<Rightarrow> int
    \<Rightarrow> 'w \<times> server_row list \<Rightarrow> config_result \<times> 'w \<times> server_row list" where
  "cancel ip6 lk ex cl host server_ip protocol port world =
     (case world of (w, db) \<Rightarrow>
      case validate_host lk host of Some r \<Rightarrow> (r, w, db) | None \<Rightarrow>
      (case build_cancel_commands ip6 server_ip protocol port of
         Inl e \<Rightarrow> (config_failure ''validate'' e, w, db)
       | Inr commands \<Rightarrow>
           let (r, w') = run_transaction ex cl host (\<lambda>k. cancel_transaction cl k host commands server_ip protocol port) w;
               (r', db') = record_result host r db
                 (if cf_ok r then save_device_state db host server_ip protocol port None False (cf_message r) 5 False False
                  else save_device_attempt db host server_ip protocol port (cf_message r))
           in (r', w', db')))"

section \<open>View and push\<close>

record server_task =
  st_host :: string
  st_remove :: bool
  st_label :: string
  st_row :: server_row
  st_commands :: "string list"

definition server_commands :: "ip6_reader \<Rightarrow> server_row \<Rightarrow> string + string list" where
  "server_commands ip6 r =
     (if sl_sync r = PendingDelete then build_cancel_commands ip6 (sl_ip r) (sl_proto r) (sl_port r)
      else build_enable_commands ip6 (sl_ip r) (sl_proto r) (sl_port r) (case sl_iface r of None \<Rightarrow> [] | Some i \<Rightarrow> i)
             (sl_trap r) (sl_stamps r) (sl_numbers r))"

definition server_task :: "ip6_reader \<Rightarrow> string \<Rightarrow> server_row \<Rightarrow> string + server_task" where
  "server_task ip6 host r =
     sbind (server_commands ip6 r) (\<lambda>cs. Inr \<lparr>st_host = host, st_remove = (sl_sync r = PendingDelete),
       st_label = sl_ip r @ '' / '' @ upper (sl_proto r) @ '':'' @ show_int (sl_port r), st_row = r, st_commands = cs\<rparr>)"

fun collect_servers :: "ip6_reader \<Rightarrow> string \<Rightarrow> server_row list \<Rightarrow> string + server_task list" where
  "collect_servers ip6 host [] = Inr []"
| "collect_servers ip6 host (r # rs) =
     (if sl_sync r \<noteq> PendingApply \<and> sl_sync r \<noteq> PendingDelete then collect_servers ip6 host rs
      else sbind (server_task ip6 host r) (\<lambda>t. sbind (collect_servers ip6 host rs) (\<lambda>ts. Inr (t # ts))))"

text \<open>\<open>collect_pending_tasks\<close>; \<open>context\<close> is the template folder the device context names, or the error it raises.\<close>

definition collect_server_tasks :: "ip6_reader \<Rightarrow> (string \<Rightarrow> string + string) \<Rightarrow> server_row list \<Rightarrow> string \<Rightarrow> string + server_task list" where
  "collect_server_tasks ip6 folder db host =
     (if strip host = [] then Inr []
      else sbind (folder (strip host)) (\<lambda>t.
        if t \<notin> set SUPPORTED_DEVICE_OS then Inl ''Syslog View & Push currently supports Cisco IOS/IOS-XE only''
        else collect_servers ip6 (strip host) (device_configurations db host)))"

definition server_task_preview :: "server_task \<Rightarrow> string list" where
  "server_task_preview t = (''# '' @ st_host t @ '' / SYSLOG / '' @ (if st_remove t then ''REMOVE'' else ''SETUP'') @ '' / '' @ st_label t)
     # st_commands t"

record server_item =
  vi_host :: string
  vi_entity :: string
  vi_success :: bool
  vi_log :: string

text \<open>\<open>_apply_tasks\<close> for the result of \<open>registry.execute\<close>; the items carry \<open>db_updated\<close> false.\<close>

definition server_reply :: "string \<Rightarrow> server_task list \<Rightarrow> 'v executed \<Rightarrow> (server_item, server_task list) reply" where
  "server_reply host ts x =
     (let detail = text_default (ex_message x)
            (if ex_ok x then ''Syslog commands accepted by the device.'' else ''Syslog apply failed.'') in
      (reply_of (ex_ok x)
         (if ex_ok x then ''Applied '' @ show_nat (length ts) @ '' Syslog server task(s); verification continues in background.''
          else ''Syslog push stopped: '' @ detail))
        \<lparr>rp_report := map (\<lambda>t. \<lparr>vi_host = host, vi_entity = st_label t, vi_success = ex_ok x, vi_log = detail\<rparr>) ts\<rparr>)"

definition apply_server_tasks :: "(string \<Rightarrow> ('k \<Rightarrow> ('w, string) act) \<Rightarrow> ('w, string executed) act) \<Rightarrow> ('k, 'w) cli \<Rightarrow> string
    \<Rightarrow> server_task list \<Rightarrow> ('w, (server_item, server_task list) reply) act" where
  "apply_server_tasks ex cl host ts =
     abind (ex host (\<lambda>k. abind (new_worker cl k) (\<lambda>_. worker_send cl k (concat (map st_commands ts)))))
       (\<lambda>x. areturn (server_reply host ts x))"

text \<open>\<open>_ConnectorRegistry.execute\<close>: the connector whose lock the caller holds.\<close>

definition connector_execute :: "'k \<Rightarrow> string \<Rightarrow> ('k \<Rightarrow> ('w, 'v) act) \<Rightarrow> ('w, 'v executed) act" where
  "connector_execute k host op = abind (op k) (\<lambda>v. areturn \<lparr>ex_ok = True, ex_severity = [], ex_message = [], ex_value = Some v\<rparr>)"

text \<open>What \<open>verify_after_push\<close> finds wrong with a task in the two configurations.\<close>

definition task_failure :: "string \<Rightarrow> string \<Rightarrow> server_task \<Rightarrow> string option" where
  "task_failure running startup t =
     (let r = st_row t; iface = (case sl_iface r of None \<Rightarrow> [] | Some i \<Rightarrow> i); expected = \<not> st_remove t;
          protocol = text_default (sl_proto r) ''udp''; port = (if sl_port r = 0 then 514 else sl_port r);
          messages = map (\<lambda>out. verify_destination out (sl_ip r) protocol port expected) [running, startup]
            @ (if expected \<and> iface \<noteq> [] \<and> \<not> list_all (\<lambda>out. verify_source_interface out iface) [running, startup]
               then [Some (''Running/startup config does not contain logging source-interface '' @ iface @ ''.'')] else []) in
      case find (\<lambda>m. m \<noteq> None) messages of None \<Rightarrow> None | Some m \<Rightarrow> m)"

text \<open>\<open>int(row.get("trap_severity") or 5)\<close>\<close>

definition verified_trap :: "server_row \<Rightarrow> int" where
  "verified_trap r = (if sl_trap r = 0 then 5 else sl_trap r)"

definition settle_server :: "string \<Rightarrow> string \<Rightarrow> string \<Rightarrow> server_task \<Rightarrow> server_row list \<Rightarrow> string + server_row list" where
  "settle_server host running startup t db =
     (let r = st_row t; protocol = text_default (sl_proto r) ''udp''; port = (if sl_port r = 0 then 514 else sl_port r) in
      case task_failure running startup t of
        Some message \<Rightarrow> save_device_attempt db host (sl_ip r) protocol port message
      | None \<Rightarrow>
          if st_remove t then Inr (delete_server (host, sl_ip r, protocol, port) db)
          else save_device_state db host (sl_ip r) protocol port (Some (case sl_iface r of None \<Rightarrow> [] | Some i \<Rightarrow> i)) True
            ''Verified in running-config and startup-config.'' (verified_trap r) (sl_stamps r) (sl_numbers r))"

fun settle_servers :: "string \<Rightarrow> string \<Rightarrow> string \<Rightarrow> server_task list \<Rightarrow> server_row list \<Rightarrow> string option \<times> server_row list" where
  "settle_servers host running startup [] db = (None, db)"
| "settle_servers host running startup (t # ts) db =
     (case settle_server host running startup t db of
        Inl e \<Rightarrow> (Some e, db)
      | Inr db' \<Rightarrow> settle_servers host running startup ts db')"

definition verify_after_push :: "('k, 'w) cli \<Rightarrow> string \<Rightarrow> 'k \<Rightarrow> server_task list \<Rightarrow> ('w \<times> server_row list, sync_note) act" where
  "verify_after_push cl host k ts world =
     (case world of (w, db) \<Rightarrow>
      if ts = [] then (Inr \<lparr>nt_ok = Some True, nt_message = ''No deferred Syslog verification was required.''\<rparr>, w, db)
      else case new_worker cl k w of
        (Inl e, w) \<Rightarrow> (Inl e, w, db)
      | (Inr _, w) \<Rightarrow>
          (case abind (worker_show cl k False) (\<lambda>running. abind (worker_show cl k True) (\<lambda>startup. areturn (running, startup))) w of
             (Inl e, w) \<Rightarrow> (Inr \<lparr>nt_ok = Some False, nt_message = ''Deferred Syslog verification failed for '' @ host @ '': '' @ e\<rparr>, w, db)
           | (Inr (running, startup), w) \<Rightarrow>
               (case settle_servers host running startup ts db of
                  (Some e, db) \<Rightarrow> (Inl e, w, db)
                | (None, db) \<Rightarrow>
                    let failed = length (filter (\<lambda>t. task_failure running startup t \<noteq> None) ts);
                        succeeded = length ts - failed in
                    (Inr \<lparr>nt_ok = Some (failed = 0), nt_message = ''Deferred Syslog verification completed: ''
                       @ show_nat succeeded @ '' succeeded, '' @ show_nat failed @ '' failed.''\<rparr>, w, db))))"


section \<open>The table's constraints\<close>

definition servers_ok :: "server_row list \<Rightarrow> bool" where
  "servers_ok db \<longleftrightarrow> distinct (map server_key db) \<and> list_all server_checks db"

lemma find_server_SomeD: "find_server k db = Some r \<Longrightarrow> r \<in> set db \<and> server_key r = k"
  unfolding find_server_def by (drule find_SomeD) simp

lemma find_server_None: "find_server k db = None \<longleftrightarrow> k \<notin> server_key ` set db"
  by (auto simp: find_server_def find_None_iff)

lemma find_server_mem: "distinct (map server_key db) \<Longrightarrow> r \<in> set db \<Longrightarrow> find_server (server_key r) db = Some r"
  by (induction db) (auto simp: find_server_def)

lemma delete_server_ok: "servers_ok db \<Longrightarrow> servers_ok (delete_server k db)"
  by (auto simp: servers_ok_def delete_server_def list_all_iff distinct_map_filter)

lemma update_server_ok:
  assumes "servers_ok db" "\<forall>r. server_key (f r) = server_key r" "\<forall>r. server_checks r \<longrightarrow> server_checks (f r)"
  shows "servers_ok (update_server k f db)"
proof -
  have "map server_key (update_server k f db) = map server_key db" using assms(2) by (simp add: update_server_def)
  then have "distinct (map server_key (update_server k f db))" using assms(1) by (simp only: servers_ok_def)
  moreover have "list_all server_checks (update_server k f db)" using assms(1,3) by (auto simp: servers_ok_def list_all_iff update_server_def)
  ultimately show ?thesis by (simp add: servers_ok_def)
qed

lemma upsert_server_ok: "servers_ok db \<Longrightarrow> server_checks r \<Longrightarrow> servers_ok (upsert_by server_key r db)"
  by (auto simp: servers_ok_def list_all_iff distinct_upsert_by set_upsert_by)

lemma save_device_state_ok: "servers_ok db \<Longrightarrow> save_device_state db h i p n f c m t s q = Inr db' \<Longrightarrow> servers_ok db'"
  by (auto simp: save_device_state_def Let_def upsert_server_ok split: if_splits)

lemma save_device_attempt_ok:
  assumes "servers_ok db" "save_device_attempt db h i p n m = Inr db'"
  shows "servers_ok db'"
proof -
  let ?r = "\<lparr>sl_host = h, sl_ip = i, sl_proto = p, sl_port = n, sl_iface = None, sl_trap = 5,
        sl_stamps = False, sl_numbers = False, sl_configured = False, sl_sync = Synchronized, sl_result = Some m\<rparr>"
  have c: "server_checks ?r" "db' = (if find_server (server_key ?r) db = None then db @ [?r]
      else update_server (server_key ?r) (\<lambda>q. q\<lparr>sl_result := Some m\<rparr>) db)"
    using assms(2) by (auto simp: save_device_attempt_def Let_def split: if_splits)
  show ?thesis
  proof (cases "find_server (server_key ?r) db = None")
    case True
    then show ?thesis using assms(1) c by (auto simp: servers_ok_def find_server_None)
  next
    case False
    then obtain y where "find_server (server_key ?r) db = Some y" by blast
    moreover have "servers_ok (update_server (server_key ?r) (\<lambda>q. q\<lparr>sl_result := Some m\<rparr>) db)"
      by (rule update_server_ok[OF assms(1)]) (simp_all add: server_key_def server_checks_def)
    ultimately show ?thesis using c(2) by simp
  qed
qed

section \<open>Deferred verification\<close>

text \<open>What verification makes of a row of the pushed host: the rows that were pending are settled, or keep waiting with the reason.\<close>

definition pending_server :: "server_row \<Rightarrow> bool" where
  "pending_server r \<longleftrightarrow> sl_sync r = PendingApply \<or> sl_sync r = PendingDelete"

definition row_failure :: "string \<Rightarrow> string \<Rightarrow> server_row \<Rightarrow> string option" where
  "row_failure running startup r = task_failure running startup
     \<lparr>st_host = sl_host r, st_remove = (sl_sync r = PendingDelete), st_label = [], st_row = r, st_commands = []\<rparr>"

definition verified_row :: "string \<Rightarrow> string \<Rightarrow> server_row \<Rightarrow> server_row list" where
  "verified_row running startup r =
     (case row_failure running startup r of
        Some message \<Rightarrow> [r\<lparr>sl_result := Some message\<rparr>]
      | None \<Rightarrow>
          if sl_sync r = PendingDelete then []
          else [r\<lparr>sl_iface := Some (case sl_iface r of None \<Rightarrow> [] | Some i \<Rightarrow> i), sl_trap := verified_trap r, sl_configured := True,
                  sl_sync := Synchronized, sl_result := Some ''Verified in running-config and startup-config.''\<rparr>])"

text \<open>A task stands for the pending row it was collected from.\<close>

definition task_for :: "string \<Rightarrow> server_row \<Rightarrow> server_task \<Rightarrow> bool" where
  "task_for host r t \<longleftrightarrow> st_row t = r \<and> st_remove t = (sl_sync r = PendingDelete) \<and> st_host t = host"

lemma collect_servers_tasks:
  assumes "collect_servers ip6 host rs = Inr ts"
  shows "list_all2 (task_for host) (filter pending_server rs) ts"
  using assms
proof (induction rs arbitrary: ts)
  case (Cons r rs)
  show ?case
  proof (cases "pending_server r")
    case True
    then obtain t us where "server_task ip6 host r = Inr t" "collect_servers ip6 host rs = Inr us" "ts = t # us"
      using Cons.prems by (auto simp: pending_server_def sbind_eq_Inr_conv)
    then show ?thesis using Cons.IH True by (auto simp: task_for_def server_task_def sbind_eq_Inr_conv)
  next
    case False
    then show ?thesis using Cons by (simp add: pending_server_def)
  qed
qed simp

lemma replaced_key:
  assumes "distinct (map server_key db)" "r \<in> set db" "server_key r = k"
  shows "map (\<lambda>q. if server_key q = k then x else q) db = concat (map (\<lambda>q. if q = r then [x] else [q]) db)"
    "filter (\<lambda>q. server_key q \<noteq> k) db = concat (map (\<lambda>q. if q = r then [] else [q]) db)"
proof -
  have e: "server_key q = k \<longleftrightarrow> q = r" if "q \<in> set db" for q
    using assms that by (auto simp: distinct_map dest: inj_onD)
  then have "map (\<lambda>q. if server_key q = k then x else q) db = map (\<lambda>q. if q = r then x else q) db" by (auto intro: map_cong)
  moreover have "concat (map (\<lambda>q. if q = r then [x] else [q]) xs) = map (\<lambda>q. if q = r then x else q) xs" for xs by (induction xs) auto
  ultimately show "map (\<lambda>q. if server_key q = k then x else q) db = concat (map (\<lambda>q. if q = r then [x] else [q]) db)" by simp
  have "filter (\<lambda>q. server_key q \<noteq> k) db = filter (\<lambda>q. q \<noteq> r) db" using e by (auto intro: filter_cong)
  moreover have "concat (map (\<lambda>q. if q = r then [] else [q]) xs) = filter (\<lambda>q. q \<noteq> r) xs" for xs by (induction xs) auto
  ultimately show "filter (\<lambda>q. server_key q \<noteq> k) db = concat (map (\<lambda>q. if q = r then [] else [q]) db)" by simp
qed

lemma settle_one:
  assumes ok: "servers_ok db" and r: "r \<in> set db" "sl_host r = host" and t: "task_for host r t"
  shows "settle_server host running startup t db = Inr (concat (map (\<lambda>q. if q = r then verified_row running startup r else [q]) db))"
proof -
  have d: "distinct (map server_key db)" "server_checks r" using ok r(1) by (auto simp: servers_ok_def list_all_iff)
  then have proto: "text_default (sl_proto r) ''udp'' = sl_proto r" "(if sl_port r = 0 then 514 else sl_port r) = sl_port r"
    by (auto simp: server_checks_def text_default_def)
  have row: "st_row t = r" "st_remove t = (sl_sync r = PendingDelete)" using t by (simp_all add: task_for_def)
  have fail: "task_failure running startup t = row_failure running startup r"
    by (simp add: row_failure_def task_failure_def row)
  have key: "server_key r = (host, sl_ip r, sl_proto r, sl_port r)" using r(2) by (simp add: server_key_def)
  show ?thesis
  proof (cases "row_failure running startup r")
    case (Some m)
    have "find_server (host, sl_ip r, sl_proto r, sl_port r) db = Some r" using find_server_mem[OF d(1) r(1)] key by simp
    then have "settle_server host running startup t db = Inr (update_server (server_key r) (\<lambda>q. q\<lparr>sl_result := Some m\<rparr>) db)"
      using d(2) by (simp add: settle_server_def Let_def row fail Some proto save_device_attempt_def server_checks_def server_key_def r(2))
    also have "update_server (server_key r) (\<lambda>q. q\<lparr>sl_result := Some m\<rparr>) db = map (\<lambda>q. if server_key q = server_key r then r\<lparr>sl_result := Some m\<rparr> else q) db"
      unfolding update_server_def using d(1) r(1) by (auto simp: distinct_map dest: inj_onD intro!: map_cong)
    finally have "settle_server host running startup t db = Inr (concat (map (\<lambda>q. if q = r then [r\<lparr>sl_result := Some m\<rparr>] else [q]) db))"
      unfolding replaced_key(1)[OF d(1) r(1) refl] .
    moreover have "verified_row running startup r = [r\<lparr>sl_result := Some m\<rparr>]" by (simp add: verified_row_def Some)
    ultimately show ?thesis by (simp only:)
  next
    case None
    show ?thesis
    proof (cases "sl_sync r = PendingDelete")
      case True
      then have "settle_server host running startup t db = Inr (delete_server (server_key r) db)"
        by (simp add: settle_server_def Let_def row fail None proto key)
      then have "settle_server host running startup t db = Inr (concat (map (\<lambda>q. if q = r then [] else [q]) db))"
        unfolding delete_server_def replaced_key(2)[OF d(1) r(1) refl] .
      moreover have "verified_row running startup r = []" by (simp add: verified_row_def None True)
      ultimately show ?thesis by (simp only:)
    next
      case False
      let ?x = "r\<lparr>sl_iface := Some (case sl_iface r of None \<Rightarrow> [] | Some i \<Rightarrow> i), sl_trap := verified_trap r, sl_configured := True,
                  sl_sync := Synchronized, sl_result := Some ''Verified in running-config and startup-config.''\<rparr>"
      have x: "?x = \<lparr>sl_host = host, sl_ip = sl_ip r, sl_proto = sl_proto r, sl_port = sl_port r,
         sl_iface = Some (case sl_iface r of None \<Rightarrow> [] | Some i \<Rightarrow> i), sl_trap = verified_trap r, sl_stamps = sl_stamps r,
         sl_numbers = sl_numbers r, sl_configured = True, sl_sync = Synchronized,
         sl_result = Some ''Verified in running-config and startup-config.''\<rparr>"
        using r(2) by (cases r) simp
      have c: "server_checks ?x" "server_key ?x = server_key r"
        using d(2) by (auto simp: server_checks_def verified_trap_def server_key_def)
      have "settle_server host running startup t db = Inr (upsert_by server_key ?x db)"
        using False c(1) unfolding x by (simp add: settle_server_def Let_def row fail None proto save_device_state_def)
      moreover have "list_ex (\<lambda>q. server_key q = server_key ?x) db" using r(1) by (auto simp: list_ex_iff c(2))
      ultimately have "settle_server host running startup t db = Inr (concat (map (\<lambda>q. if q = r then [?x] else [q]) db))"
        unfolding upsert_by_def c(2) replaced_key(1)[OF d(1) r(1) refl] by simp
      moreover have "verified_row running startup r = [?x]" by (simp add: verified_row_def None False)
      ultimately show ?thesis by (simp only:)
    qed
  qed
qed

lemma concat_map_id: "\<forall>q \<in> set xs. f q = [q] \<Longrightarrow> concat (map f xs) = xs"
  by (induction xs) auto

lemma distinct_replaced:
  assumes "distinct (map server_key db)" "\<forall>x \<in> set v. server_key x = server_key r" "length v \<le> 1"
  shows "distinct (map server_key (concat (map (\<lambda>q. if q = r then v else [q]) db)))"
  using assms(1)
proof (induction db)
  case (Cons q db)
  have sub: "server_key ` set (concat (map (\<lambda>q. if q = r then v else [q]) db)) \<subseteq> server_key ` set db"
    using assms(2) by (auto split: if_splits)
  have new: "server_key q \<notin> server_key ` set db" using Cons.prems by auto
  show ?case
  proof (cases "q = r")
    case True
    then have "r \<notin> set db" using new by blast
    then have "concat (map (\<lambda>q. if q = r then v else [q]) db) = db" by (intro concat_map_id) auto
    then have "concat (map (\<lambda>q. if q = r then v else [q]) (q # db)) = v @ db" using True by simp
    moreover have "v = [] \<or> (\<exists>x. v = [x])" using assms(3) by (cases v) auto
    ultimately show ?thesis using new Cons.prems assms(2) True by (elim disjE exE) simp_all
  next
    case False
    have "server_key q \<notin> server_key ` set (concat (map (\<lambda>q. if q = r then v else [q]) db))" using sub new by blast
    then show ?thesis using False Cons by simp
  qed
qed simp

lemma settle_tasks:
  assumes "servers_ok db" "\<forall>r \<in> set rs. r \<in> set db \<and> sl_host r = host" "distinct (map server_key rs)" "list_all2 (task_for host) rs ts"
  shows "settle_servers host running startup ts db
    = (None, concat (map (\<lambda>q. if q \<in> set rs then verified_row running startup q else [q]) db))"
  using assms
proof (induction rs arbitrary: ts db)
  case Nil
  then show ?case by simp
next
  case (Cons r rs)
  obtain t us where ts: "ts = t # us" "task_for host r t" "list_all2 (task_for host) rs us" using Cons.prems(4) by (auto simp: list_all2_Cons1)
  let ?v = "verified_row running startup"
  define db1 where "db1 = concat (map (\<lambda>q. if q = r then ?v r else [q]) db)"
  have one: "settle_server host running startup t db = Inr db1"
    unfolding db1_def by (rule settle_one) (use Cons.prems ts(2) in auto)
  have d: "distinct (map server_key db)" using Cons.prems(1) by (simp add: servers_ok_def)
  have keys: "\<forall>x \<in> set (?v r). server_key x = server_key r \<and> (server_checks r \<longrightarrow> server_checks x)" "length (?v r) \<le> 1"
    by (auto simp: verified_row_def server_key_def server_checks_def verified_trap_def split: option.splits if_splits)
  have "settle_servers host running startup us db1 = (None, concat (map (\<lambda>q. if q \<in> set rs then ?v q else [q]) db1))"
  proof (rule Cons.IH)
    have "distinct (map server_key db1)" unfolding db1_def using distinct_replaced[OF d _ keys(2)] keys(1) by blast
    moreover have "list_all server_checks db1"
      using Cons.prems(1,2) keys(1) by (auto simp: db1_def servers_ok_def list_all_iff)
    ultimately show "servers_ok db1" by (simp add: servers_ok_def)
    show "\<forall>q \<in> set rs. q \<in> set db1 \<and> sl_host q = host" using Cons.prems(2,3) by (auto simp: db1_def)
  qed (use Cons.prems ts in auto)
  moreover have "concat (map (\<lambda>q. if q \<in> set rs then ?v q else [q]) db1)
      = concat (map (\<lambda>q. if q \<in> set (r # rs) then ?v q else [q]) db)"
  proof -
    have "\<forall>x \<in> set (?v r). x \<notin> set rs"
    proof (intro ballI notI)
      fix x
      assume "x \<in> set (?v r)" "x \<in> set rs"
      then have "server_key r \<in> server_key ` set rs" using keys(1) by (metis image_eqI)
      then show False using Cons.prems(3) by simp
    qed
    then have "concat (map (\<lambda>q. if q \<in> set rs then ?v q else [q]) (?v r)) = ?v r" by (intro concat_map_id) auto
    moreover have "r \<notin> set rs" using Cons.prems(3) by auto
    ultimately show ?thesis unfolding db1_def by (induction db) auto
  qed
  ultimately show ?case by (simp add: ts(1) one)
qed

text \<open>Property C35. The deferred verification of a push settles exactly what it found on the device. After the tasks collected for a
  host, every pending row of that host is judged by the running and the startup configuration: a removed destination
  that is gone from both is deleted, a destination that both contain becomes synchronized and configured with the
  values that were pushed, and every other row stays pending with the reason; the rows of other hosts and settled rows
  are untouched. (A trap severity of 0 is recorded as 5, see \<open>verified_trap\<close>.)
\<close>

theorem deferred_verification:
  assumes "servers_ok db" "collect_server_tasks ip6 folder db host = Inr ts" "host = strip host" "host \<noteq> []"
    and "new_worker cl k w = (Inr (), w)" "worker_show cl k False w = (Inr running, w1)" "worker_show cl k True w1 = (Inr startup, w2)"
  shows "\<exists>note. verify_after_push cl host k ts (w, db) = (Inr note, (if ts = [] then w else w2),
      concat (map (\<lambda>r. if sl_host r = host \<and> pending_server r then verified_row running startup r else [r]) db))
    \<and> nt_ok note = Some (\<forall>t \<in> set ts. task_failure running startup t = None)"
proof -
  let ?rows = "device_configurations db host"
  let ?rs = "filter pending_server ?rows"
  have coll: "collect_servers ip6 host ?rows = Inr ts"
    using assms(2-4) by (auto simp: collect_server_tasks_def sbind_eq_Inr_conv split: if_splits)
  have all2: "list_all2 (task_for host) ?rs ts" by (rule collect_servers_tasks[OF coll])
  have set_rs: "q \<in> set ?rs \<longleftrightarrow> q \<in> set db \<and> sl_host q = host \<and> pending_server q" for q
    using assms(3,4) by (auto simp: device_configurations_def pending_server_def)
  have "distinct (map server_key db)" using assms(1) by (simp add: servers_ok_def)
  then have "distinct (map server_key ?rs)"
    unfolding device_configurations_def by (auto simp: distinct_map intro: inj_on_subset)
  then have settle: "settle_servers host running startup ts db
      = (None, concat (map (\<lambda>q. if q \<in> set ?rs then verified_row running startup q else [q]) db))"
    using set_rs by (intro settle_tasks[OF assms(1) _ _ all2]) auto
  also have "map (\<lambda>q. if q \<in> set ?rs then verified_row running startup q else [q]) db
      = map (\<lambda>r. if sl_host r = host \<and> pending_server r then verified_row running startup r else [r]) db"
    using set_rs by (intro map_cong) auto
  finally have settle: "settle_servers host running startup ts db
      = (None, concat (map (\<lambda>r. if sl_host r = host \<and> pending_server r then verified_row running startup r else [r]) db))" .
  show ?thesis
  proof (cases "ts = []")
    case True
    then show ?thesis using settle by (simp add: verify_after_push_def)
  next
    case False
    have "(length (filter (\<lambda>t. task_failure running startup t \<noteq> None) ts) = 0) = (\<forall>t \<in> set ts. task_failure running startup t = None)"
      by (auto simp: filter_empty_conv)
    then show ?thesis using False settle assms(5-7)
      by (simp add: verify_after_push_def Let_def abind_def areturn_def)
  qed
qed


text \<open>The repository's operations keep the constraints that the verification relies on.\<close>

lemma clean_configuration_checks:
  assumes "clean_configuration ip6 host p = Inr (h, f)"
  shows "sf_proto f \<in> {''udp'', ''tcp''} \<and> 1 \<le> sf_port f \<and> sf_port f \<le> 65535 \<and> 0 \<le> sf_trap f \<and> sf_trap f \<le> 7 \<and> interface_word (sf_iface f)"
  using assms by (auto simp: clean_configuration_def Let_def split: option.splits if_splits prod.splits)

lemma retire_original_ok: "servers_ok db \<Longrightarrow> servers_ok (retire_original k db)"
  by (auto simp: retire_original_def delete_server_ok server_key_def server_checks_def intro!: update_server_ok split: option.split)

lemma stage_server_ok:
  assumes "servers_ok db" "clean_configuration ip6 host p = Inr (h, f)"
  shows "servers_ok (stage_server h f db)"
proof -
  let ?k = "(h, sf_ip f, sf_proto f, sf_port f)"
  let ?u = "\<lambda>r. r\<lparr>sl_iface := Some (sf_iface f), sl_trap := sf_trap f, sl_stamps := sf_stamps f,
        sl_numbers := sf_numbers f, sl_sync := PendingApply, sl_result := None\<rparr>"
  note f = clean_configuration_checks[OF assms(2)]
  have "servers_ok (update_server ?k ?u db)"
    by (rule update_server_ok[OF assms(1)]) (use f in \<open>simp_all add: server_key_def server_checks_def\<close>)
  moreover have "servers_ok (db @ [\<lparr>sl_host = h, sl_ip = sf_ip f, sl_proto = sf_proto f, sl_port = sf_port f, sl_iface = Some (sf_iface f),
          sl_trap = sf_trap f, sl_stamps = sf_stamps f, sl_numbers = sf_numbers f, sl_configured = False,
          sl_sync = PendingApply, sl_result = None\<rparr>])" if "find_server ?k db = None"
    using that assms(1) f unfolding find_server_None by (auto simp: servers_ok_def server_key_def server_checks_def)
  ultimately show ?thesis by (simp add: stage_server_def Let_def)
qed

lemma save_configuration_ok: "servers_ok db \<Longrightarrow> servers_ok (snd (save_configuration ip6 db host p))"
  by (auto simp: save_configuration_def Let_def stage_server_ok retire_original_ok split: sum.split prod.split)

lemma stage_delete_ok: "servers_ok db \<Longrightarrow> servers_ok (snd (stage_delete_configuration db host p))"
  by (auto simp: stage_delete_configuration_def Let_def delete_server_ok server_key_def server_checks_def
      intro!: update_server_ok split: option.split)

section \<open>Examples\<close>

text \<open>A device whose configuration is a list of lines, running and startup alike.\<close>

definition line_cli :: "(unit, string list) cli" where
  "line_cli = \<lparr>cl_connected = (\<lambda>_ _. True),
     cl_config = (\<lambda>_ cs w. (Inr [], foldl (\<lambda>w c. if starts_with c ''no '' then filter (\<lambda>l. l \<noteq> drop 3 c) w else w @ [c]) w cs)),
     cl_command = (\<lambda>_ c w. (Inr (if starts_with c ''show ip'' then ''Loopback0 10.0.0.1'' else join [CHR 0x0A] w), w)),
     cl_can_save = (\<lambda>_. True), cl_save = (\<lambda>_ w. (Inr [], w))\<rparr>"

definition known_device :: device_lookup where
  "known_device = \<lparr>lk_connected = (\<lambda>_. Inr True), lk_os = (\<lambda>_. Inr ''ios''), lk_iface = (\<lambda>_. Inr (Some ''Loopback0''))\<rparr>"

definition syslog_form :: "int \<Rightarrow> payload" where
  "syslog_form trap = [''server_ip'' \<mapsto> PStr ''10.0.0.5'', ''port'' \<mapsto> PInt 514, ''source_interface'' \<mapsto> PStr ''Loopback0'',
     ''trap_severity'' \<mapsto> PInt trap]"

definition staged_servers :: "int \<Rightarrow> server_row list" where
  "staged_servers trap = snd (save_configuration (\<lambda>_. None) [] (PStr ''R1'') (syslog_form trap))"

definition staged_tasks :: "int \<Rightarrow> server_task list" where
  "staged_tasks trap = (case collect_server_tasks (\<lambda>_. None) (\<lambda>_. Inr ''cisco_ios'') (staged_servers trap) ''R1'' of Inl _ \<Rightarrow> [] | Inr ts \<Rightarrow> ts)"

definition pushed_lines :: "int \<Rightarrow> string list" where
  "pushed_lines trap = snd (apply_server_tasks (\<lambda>host op. connector_execute () host op) line_cli ''R1'' (staged_tasks trap) [])"

lemma pushed_sample: "pushed_lines 3 = [''logging host 10.0.0.5 transport udp port 514'', ''logging trap errors'', ''logging source-interface Loopback0'']"
  by code_simp

lemma deferred_verification_witness:
  "\<exists>note. verify_after_push line_cli ''R1'' () (staged_tasks 3) (pushed_lines 3, staged_servers 3) = (Inr note, pushed_lines 3,
      concat (map (\<lambda>r. if sl_host r = ''R1'' \<and> pending_server r
        then verified_row (join [CHR 0x0A] (pushed_lines 3)) (join [CHR 0x0A] (pushed_lines 3)) r else [r]) (staged_servers 3)))
    \<and> nt_ok note = Some True"
proof -
  let ?out = "join [CHR 0x0A] (pushed_lines 3)"
  have s: "servers_ok (staged_servers 3)"
    unfolding staged_servers_def by (rule save_configuration_ok) (simp add: servers_ok_def)
  have c: "collect_server_tasks (\<lambda>_. None) (\<lambda>_. Inr ''cisco_ios'') (staged_servers 3) ''R1'' = Inr (staged_tasks 3)" by code_simp
  have h: "''R1'' = strip ''R1''" "''R1'' \<noteq> []" by code_simp+
  have w: "new_worker line_cli () (pushed_lines 3) = (Inr (), pushed_lines 3)" by (simp add: new_worker_def line_cli_def)
  have show1: "worker_show line_cli () b (pushed_lines 3) = (Inr ?out, pushed_lines 3)" for b
  proof -
    have "contains_cli_error ?out = False" by code_simp
    moreover have "\<not> starts_with (''show '' @ c) ''show ip''" if "c = ''running-config | include logging'' \<or> c = ''startup-config | include logging''" for c
      using that by (elim disjE) simp_all
    ultimately show ?thesis by (cases b) (simp_all add: worker_show_def line_cli_def abind_def accept_cli_def)
  qed
  have "staged_tasks 3 \<noteq> []" "list_all (\<lambda>t. task_failure ?out ?out t = None) (staged_tasks 3)" by code_simp+
  then show ?thesis
    using deferred_verification[OF s c h w show1 show1] by (simp add: list_all_iff)
qed

text \<open>Two defects the model shows. The severity 0 that was pushed is recorded as 5.\<close>

lemma emergencies_recorded_as_notifications:
  "map st_commands (staged_tasks 0) = [[''logging host 10.0.0.5 transport udp port 514'', ''logging trap emergencies'', ''logging source-interface Loopback0'']]
   \<and> map (\<lambda>r. (sl_sync r, sl_trap r)) (snd (snd (verify_after_push line_cli ''R1'' () (staged_tasks 0) (pushed_lines 0, staged_servers 0))))
     = [(Synchronized, 5)]"
  by code_simp

text \<open>
  A destination that was cancelled on the device stays in the table as pending, without its source interface: the next
  collection for the device fails, so no other destination of it can be pushed either.
\<close>

definition cancelled_servers :: "server_row list" where
  "cancelled_servers = (let ex = \<lambda>host op w. connector_execute () host op w;
      (_, w, db) = configure (\<lambda>_. None) known_device ex line_cli ''R1'' ''10.0.0.5'' ''udp'' 514 [] 5 False False ([], [])
    in snd (snd (cancel (\<lambda>_. None) known_device ex line_cli ''R1'' ''10.0.0.5'' ''udp'' 514 (w, db))))"

lemma cancelled_destination_blocks_push:
  "map (\<lambda>r. (sl_configured r, sl_sync r, sl_iface r)) cancelled_servers = [(False, PendingApply, None)]
   \<and> collect_server_tasks (\<lambda>_. None) (\<lambda>_. Inr ''cisco_ios'') cancelled_servers ''R1''
     = Inl ''Source interface contains unsupported characters''"
  by code_simp

end
