(* ===== verification/Switch_Store.thy ===== *)
theory Switch_Store
  imports Switch_Tables
begin

text \<open>
  VLANs, SVIs and IP routing in the desired state of a switch
  (\<open>features/switching/vlan_repository.py\<close>, \<open>l3_repository.py\<close>).

  A save or delete on the tables of \<open>Switch_Tables\<close> returns the new database and its reply, an error text
  on the left; the transaction of a failed call changes nothing.
  The lemmas show that references stay intact, that a row never changes its identity, and what a deletion requires.
\<close>

section \<open>VLANs\<close>

record vlan_view =
  vv_row :: vlan_row
  vv_ports :: nat

definition access_port_count :: "switch_db \<Rightarrow> vlan_row \<Rightarrow> nat" where
  "access_port_count db v =
     length (filter (\<lambda>a. (ac_vlan a = vn_vlan v \<or> ac_voice a = Some (vn_vlan v))
       \<and> list_ex (\<lambda>i. li_id i = ac_iface a \<and> li_host i = vn_host v) (ss_ifaces db)) (ss_access db))"

definition get_vlans :: "switch_db \<Rightarrow> pyval \<Rightarrow> vlan_view list" where
  "get_vlans db host =
     (let target = form_text host in
      if target = [] then []
      else map (\<lambda>v. \<lparr>vv_row = v, vv_ports = access_port_count db v\<rparr>)
             (sort_key vn_vlan (filter (\<lambda>v. vn_host v = target \<and> selectable_vlan v) (ss_vlans db))))"

definition find_vlan :: "switch_db \<Rightarrow> int \<Rightarrow> string \<Rightarrow> vlan_row option" where
  "find_vlan db i host = find (\<lambda>r. vn_id r = i \<and> vn_host r = host) (ss_vlans db)"

definition update_vlan :: "int \<Rightarrow> string \<Rightarrow> (vlan_row \<Rightarrow> vlan_row) \<Rightarrow> switch_db \<Rightarrow> switch_db" where
  "update_vlan i host f db =
     db\<lparr>ss_vlans := map (\<lambda>r. if vn_id r = i \<and> vn_host r = host then f r else r) (ss_vlans db)\<rparr>"

definition insert_vlan :: "string \<Rightarrow> int \<Rightarrow> string \<Rightarrow> string \<Rightarrow> switch_db \<Rightarrow> string + switch_db \<times> int" where
  "insert_vlan host vlan name state db =
     (if \<not> known_host db host then Inl ''FOREIGN KEY constraint failed''
      else if list_ex (\<lambda>r. vn_host r = host \<and> vn_vlan r = vlan) (ss_vlans db)
        then Inl ''UNIQUE constraint failed: t06_vlan_db.host, t06_vlan_db.vlan_id''
      else Inr (db\<lparr>ss_vlans := ss_vlans db @ [\<lparr>vn_id = ss_next_vlan db, vn_host = host, vn_vlan = vlan, vn_name = name,
             vn_state = state, vn_success = PendingApply, vn_present = False\<rparr>],
             ss_next_vlan := ss_next_vlan db + 1\<rparr>, ss_next_vlan db))"

definition save_vlan_tx :: "switch_db \<Rightarrow> string \<Rightarrow> payload \<Rightarrow> string + switch_db \<times> int" where
  "save_vlan_tx db host p =
     sbind (require_vlan_configuration_owner (ss_vtp db) host) (\<lambda>_.
     sbind (row_id_of (get p ''id'')) (\<lambda>row_id.
     sbind (form_integer (get p ''vlan_id'') ''VLAN ID'' 1 4094) (\<lambda>vlan.
     let name = form_text (get p ''vlan_name'') in
     sbind (form_choice (get p ''state'') ''VLAN state'' [''active'', ''suspend''] ''active'') (\<lambda>state.
     if row_id > 0 then
       sbind (require_immutable_identity (map_option (\<lambda>r. show_int (vn_vlan r)) (find_vlan db row_id host))
         (show_int vlan) ''VLAN'') (\<lambda>_.
       Inr (update_vlan row_id host (\<lambda>r. r\<lparr>vn_vlan := vlan, vn_name := name, vn_state := state,
              vn_success := PendingApply\<rparr>) db, row_id))
     else insert_vlan host vlan name state db))))"

definition save_vlan :: "switch_db \<Rightarrow> pyval \<Rightarrow> payload \<Rightarrow> switch_db \<times> (string + int)" where
  "save_vlan db host p = transact db (sbind (require_host host) (\<lambda>target. save_vlan_tx db target p))"

text \<open>What still uses a VLAN on a host, with the counts of the error message.\<close>

definition vlan_uses :: "switch_db \<Rightarrow> string \<Rightarrow> int \<Rightarrow> (nat \<times> string) list" where
  "vlan_uses db host vlan =
     [(length (filter (\<lambda>a. iface_of db host (ac_iface a) (\<lambda>i. li_success i \<noteq> PendingDelete)
         \<and> (ac_vlan a = vlan \<or> ac_voice a = Some vlan)) (ss_access db)), '' access/voice port(s)''),
      (length (filter (\<lambda>s. sr_host s = host \<and> sr_vlan s = vlan) (ss_svis db)), '' SVI(s)''),
      (length (filter (\<lambda>s. sg_host s = host \<and> sg_vlan s = vlan) (ss_stp db)), '' STP policy/policies''),
      (length (filter (\<lambda>s. vs_host s = host \<and> vs_vlan s = vlan) (ss_security db)), '' Layer 2 security policy/policies''),
      (length (filter (\<lambda>m. iface_of db host (mr_iface m) (\<lambda>_. True) \<and> mr_vlan m = vlan \<and> mr_type m = ''static'') (ss_macs db)),
        '' static MAC binding(s)''),
      (length (filter (\<lambda>t. iface_of db host (tu_iface t) (\<lambda>_. True) \<and> tu_native t = vlan) (ss_trunks db)), '' trunk profile(s)'')]"

definition dependency_text :: "(nat \<times> string) list \<Rightarrow> string" where
  "dependency_text uses = join '' and '' (map (\<lambda>(n, t). show_nat n @ t) (filter (\<lambda>(n, t). n > 0) uses))"

definition delete_vlan_tx :: "switch_db \<Rightarrow> string \<Rightarrow> pyval \<Rightarrow> string + switch_db \<times> bool" where
  "delete_vlan_tx db host row =
     sbind (require_vlan_configuration_owner (ss_vtp db) host) (\<lambda>_.
     case py_int row of
       None \<Rightarrow> Inl ''invalid literal for int()''
     | Some i \<Rightarrow>
         if i \<le> 0 then Inl ''A valid VLAN is required''
         else case find_vlan db i host of
             None \<Rightarrow> Inl ''The selected VLAN no longer exists''
           | Some r \<Rightarrow>
               if vn_vlan r = 1 then Inl ''VLAN 1 is the default VLAN and cannot be deleted''
               else if list_ex (\<lambda>(n, t). n > 0) (vlan_uses db host (vn_vlan r))
                 then Inl (''VLAN '' @ show_int (vn_vlan r) @ '' is still used by ''
                        @ dependency_text (vlan_uses db host (vn_vlan r)))
               else if \<not> is_device_backed (vn_present r) (vn_success r)
                 then Inr (db\<lparr>ss_vlans := filter (\<lambda>r. \<not> (vn_id r = i \<and> vn_host r = host)) (ss_vlans db)\<rparr>, True)
               else Inr (update_vlan i host (\<lambda>r. r\<lparr>vn_success := PendingDelete\<rparr>) db, False))"

definition delete_vlan :: "switch_db \<Rightarrow> pyval \<Rightarrow> pyval \<Rightarrow> switch_db \<times> (string + bool)" where
  "delete_vlan db host row = transact db (sbind (require_host host) (\<lambda>target. delete_vlan_tx db target row))"

section \<open>Routing and SVIs\<close>

definition require_sw3 :: "switch_db \<Rightarrow> string \<Rightarrow> string + unit" where
  "require_sw3 db host =
     (case find_device db host of
        None \<Rightarrow> Inl ''Layer 3 switch features require device role sw3''
      | Some d \<Rightarrow> require (normalize_switch_role (dv_role d) = ''sw3'') ''Layer 3 switch features require device role sw3'')"

definition get_ip_routing :: "switch_db \<Rightarrow> pyval \<Rightarrow> bool \<times> sync_status" where
  "get_ip_routing db host =
     (case map_of (ss_routing db) (form_text host) of
        None \<Rightarrow> (False, Synchronized)
      | Some r \<Rightarrow> if form_text host = [] then (False, Synchronized) else r)"

definition save_ip_routing :: "switch_db \<Rightarrow> pyval \<Rightarrow> pyval \<Rightarrow> switch_db \<times> (string + unit)" where
  "save_ip_routing db host enabled = transact db
     (sbind (require_host host) (\<lambda>target.
      sbind (require_sw3 db target) (\<lambda>_.
      Inr (db\<lparr>ss_routing := (target, form_boolean enabled, PendingApply)
             # filter (\<lambda>r. fst r \<noteq> target) (ss_routing db)\<rparr>, ()))))"

definition get_svis :: "switch_db \<Rightarrow> pyval \<Rightarrow> (svi_row \<times> string) list" where
  "get_svis db host =
     (let target = form_text host in
      if target = [] then []
      else concat (map (\<lambda>s. map (\<lambda>v. (s, vn_name v)) (filter (\<lambda>v. vn_host v = sr_host s \<and> vn_vlan v = sr_vlan s) (ss_vlans db)))
             (sort_key sr_vlan (filter (\<lambda>s. sr_host s = target \<and> sr_sync s \<noteq> PendingDelete) (ss_svis db)))))"

definition find_svi :: "switch_db \<Rightarrow> int \<Rightarrow> string \<Rightarrow> svi_row option" where
  "find_svi db i host = find (\<lambda>r. sr_id r = i \<and> sr_host r = host) (ss_svis db)"

definition update_svi :: "int \<Rightarrow> string \<Rightarrow> (svi_row \<Rightarrow> svi_row) \<Rightarrow> switch_db \<Rightarrow> switch_db" where
  "update_svi i host f db =
     db\<lparr>ss_svis := map (\<lambda>r. if sr_id r = i \<and> sr_host r = host then f r else r) (ss_svis db)\<rparr>"

definition insert_svi :: "string \<Rightarrow> int \<Rightarrow> (string \<times> string) option \<Rightarrow> bool \<Rightarrow> switch_db \<Rightarrow> string + switch_db \<times> int" where
  "insert_svi host vlan address shutdown db =
     (if list_ex (\<lambda>r. sr_host r = host \<and> sr_vlan r = vlan) (ss_svis db)
        then Inl ''UNIQUE constraint failed: t06_svi_interface.host, t06_svi_interface.vlan_id''
      else Inr (db\<lparr>ss_svis := ss_svis db @ [\<lparr>sr_id = ss_next_svi db, sr_host = host, sr_vlan = vlan,
             sr_ip = map_option fst address, sr_mask = map_option snd address, sr_shutdown = shutdown,
             sr_sync = PendingApply, sr_present = False\<rparr>], ss_next_svi := ss_next_svi db + 1\<rparr>, ss_next_svi db))"

definition save_svi_tx :: "switch_db \<Rightarrow> string \<Rightarrow> payload \<Rightarrow> string + switch_db \<times> int" where
  "save_svi_tx db host p =
     sbind (row_id_of (get p ''id'')) (\<lambda>row_id.
     sbind (form_integer (get p ''vlan_id'') ''VLAN ID'' 1 4094) (\<lambda>vlan.
     sbind (validate_ipv4_pair (get p ''ip_address'') (get p ''subnet_mask'')) (\<lambda>address.
     let shutdown = form_boolean (get p ''shutdown'') in
     sbind (require_sw3 db host) (\<lambda>_.
     sbind (require_active_vlan (ss_vlans db) host vlan ''VLAN'') (\<lambda>_.
     if address \<noteq> None \<and> list_ex (\<lambda>r. sr_host r = host \<and> sr_ip r = map_option fst address \<and> sr_id r \<noteq> row_id
          \<and> sr_sync r \<noteq> PendingDelete) (ss_svis db)
       then Inl ''The IPv4 address is already assigned to another SVI''
     else if row_id > 0 then
       sbind (require_immutable_identity (map_option (\<lambda>r. show_int (sr_vlan r)) (find_svi db row_id host))
         (show_int vlan) ''SVI'') (\<lambda>_.
       Inr (update_svi row_id host (\<lambda>r. r\<lparr>sr_vlan := vlan, sr_ip := map_option fst address,
              sr_mask := map_option snd address, sr_shutdown := shutdown, sr_sync := PendingApply\<rparr>) db, row_id))
     else insert_svi host vlan address shutdown db)))))"

definition save_svi :: "switch_db \<Rightarrow> pyval \<Rightarrow> payload \<Rightarrow> switch_db \<times> (string + int)" where
  "save_svi db host p = transact db (sbind (require_host host) (\<lambda>target. save_svi_tx db target p))"

definition delete_svi_tx :: "switch_db \<Rightarrow> string \<Rightarrow> pyval \<Rightarrow> string + switch_db \<times> bool" where
  "delete_svi_tx db host row =
     sbind (require_sw3 db host) (\<lambda>_.
     case py_int row of
       None \<Rightarrow> Inl ''invalid literal for int()''
     | Some i \<Rightarrow>
         (case find_svi db i host of
            None \<Rightarrow> Inl ''The selected SVI no longer exists''
          | Some r \<Rightarrow>
              if \<not> is_device_backed (sr_present r) (sr_sync r)
              then Inr (db\<lparr>ss_svis := filter (\<lambda>r. \<not> (sr_id r = i \<and> sr_host r = host)) (ss_svis db)\<rparr>, True)
              else Inr (update_svi i host (\<lambda>r. r\<lparr>sr_sync := PendingDelete\<rparr>) db, False)))"

definition delete_svi :: "switch_db \<Rightarrow> pyval \<Rightarrow> pyval \<Rightarrow> switch_db \<times> (string + bool)" where
  "delete_svi db host row = transact db (sbind (require_host host) (\<lambda>target. delete_svi_tx db target row))"

section \<open>Constraints\<close>

definition vlan_key :: "vlan_row \<Rightarrow> int \<times> string \<times> int" where
  "vlan_key r = (vn_id r, vn_host r, vn_vlan r)"

definition svi_key :: "svi_row \<Rightarrow> int \<times> string \<times> int" where
  "svi_key r = (sr_id r, sr_host r, sr_vlan r)"

definition keys_ok :: "int \<Rightarrow> (int \<times> string \<times> int) list \<Rightarrow> bool" where
  "keys_ok n ks \<longleftrightarrow> distinct (map fst ks) \<and> distinct (map snd ks)
     \<and> (\<forall>(i, h, v) \<in> set ks. 0 < i \<and> i < n \<and> 1 \<le> v \<and> v \<le> 4094)"

definition addresses_ok :: "svi_row list \<Rightarrow> bool" where
  "addresses_ok rows \<longleftrightarrow> (\<forall>a \<in> set rows. \<forall>b \<in> set rows.
     sr_host a = sr_host b \<longrightarrow> sr_ip a = sr_ip b \<longrightarrow> sr_ip a \<noteq> None \<longrightarrow>
     sr_sync a \<noteq> PendingDelete \<longrightarrow> sr_sync b \<noteq> PendingDelete \<longrightarrow> sr_id a = sr_id b)"

definition store_ok :: "switch_db \<Rightarrow> bool" where
  "store_ok db \<longleftrightarrow>
     0 < ss_next_vlan db \<and> 0 < ss_next_svi db
   \<and> keys_ok (ss_next_vlan db) (map vlan_key (ss_vlans db))
   \<and> keys_ok (ss_next_svi db) (map svi_key (ss_svis db))
   \<and> snd ` set (map svi_key (ss_svis db)) \<subseteq> snd ` set (map vlan_key (ss_vlans db))
   \<and> (\<forall>r \<in> set (ss_vlans db). known_host db (vn_host r))
   \<and> addresses_ok (ss_svis db)"

lemma keys_ok_snoc:
  "keys_ok n ks \<Longrightarrow> 0 < n \<Longrightarrow> 1 \<le> v \<Longrightarrow> v \<le> 4094 \<Longrightarrow> (h, v) \<notin> snd ` set ks \<Longrightarrow> keys_ok (n + 1) (ks @ [(n, h, v)])"
  by (fastforce simp: keys_ok_def)

lemma addresses_ok_snoc:
  assumes "addresses_ok rows"
    "sr_ip r \<noteq> None \<Longrightarrow> \<forall>s \<in> set rows. sr_host s = sr_host r \<longrightarrow> sr_ip s = sr_ip r \<longrightarrow> sr_sync s = PendingDelete"
  shows "addresses_ok (rows @ [r])"
  unfolding addresses_ok_def
proof (intro ballI impI)
  fix x y assume *: "x \<in> set (rows @ [r])" "y \<in> set (rows @ [r])" "sr_host x = sr_host y" "sr_ip x = sr_ip y"
    "sr_ip x \<noteq> None" "sr_sync x \<noteq> PendingDelete" "sr_sync y \<noteq> PendingDelete"
  then consider "x \<in> set rows" "y \<in> set rows" | "x \<in> set rows" "y = r" | "x = r" "y \<in> set rows" | "x = r" "y = r"
    by auto
  then show "sr_id x = sr_id y"
  proof cases
    case 1
    then show ?thesis using * assms(1) unfolding addresses_ok_def by blast
  next
    case 2
    then show ?thesis using * assms(2) by simp
  next
    case 3
    then show ?thesis using * assms(2) by simp
  next
    case 4
    then show ?thesis by simp
  qed
qed

lemma keys_ok_filter: "keys_ok n ks \<Longrightarrow> keys_ok n (filter P ks)"
  by (auto simp: keys_ok_def distinct_map_filter)

lemma keys_ok_inject:
  "keys_ok n ks \<Longrightarrow> (i, x) \<in> set ks \<Longrightarrow> (i, y) \<in> set ks \<Longrightarrow> x = y"
  using inj_onD[of fst "set ks" "(i, x)" "(i, y)"] by (simp add: keys_ok_def distinct_map)

lemma map_filter_key: "(\<And>x. P x = Q (f x)) \<Longrightarrow> map f (filter P xs) = filter Q (map f xs)"
  by (induction xs) auto

lemma known_host_tables [simp]:
  "known_host (db\<lparr>ss_vlans := a\<rparr>) = known_host db" "known_host (db\<lparr>ss_svis := b\<rparr>) = known_host db"
  "known_host (db\<lparr>ss_next_vlan := c\<rparr>) = known_host db" "known_host (db\<lparr>ss_next_svi := d\<rparr>) = known_host db"
  "known_host (db\<lparr>ss_routing := e\<rparr>) = known_host db"
  by (simp_all add: known_host_def fun_eq_iff)

lemma find_vlan_SomeD: "find_vlan db i h = Some r \<Longrightarrow> r \<in> set (ss_vlans db) \<and> vn_id r = i \<and> vn_host r = h"
  unfolding find_vlan_def by (drule find_SomeD) simp

lemma find_svi_SomeD: "find_svi db i h = Some r \<Longrightarrow> r \<in> set (ss_svis db) \<and> sr_id r = i \<and> sr_host r = h"
  unfolding find_svi_def by (drule find_SomeD) simp

lemma lower_show_int: "lower (show_int i) = show_int i"
proof -
  have d: "lower_char c = c" if "is_digit c" for c
    using that by (auto simp: lower_char_def is_digit_def Let_def)
  have "lower_char (CHR ''-'') = CHR ''-''" by code_simp
  moreover have "map lower_char (show_nat n) = show_nat n" for n
    using show_nat_digits d by (intro map_idI) auto
  ultimately show ?thesis by (simp add: lower_def show_int_def)
qed

lemma identity_same: "require_immutable_identity (Some (show_int a)) (show_int b) l = Inr () \<longleftrightarrow> a = b"
  by (auto simp: require_immutable_identity_def lower_show_int dest: show_int_inject)

subsection \<open>What the operations do\<close>

text \<open>A successful save updates one row without its key, or inserts a row with a new key.\<close>

inductive vlan_change :: "switch_db \<Rightarrow> switch_db \<Rightarrow> bool" where
  edit: "find_vlan db i h = Some r \<Longrightarrow> (\<And>q. vn_id q = i \<Longrightarrow> vn_host q = h \<Longrightarrow> vlan_key (f q) \<in> {vlan_key q, vlan_key r})
      \<Longrightarrow> vlan_change db (update_vlan i h f db)"
| insert: "insert_vlan h v n s db = Inr (db', i) \<Longrightarrow> 1 \<le> v \<Longrightarrow> v \<le> 4094 \<Longrightarrow> vlan_change db db'"
| remove: "find_vlan db i h = Some r \<Longrightarrow> (\<And>s. s \<in> set (ss_svis db) \<Longrightarrow> \<not> (sr_host s = h \<and> sr_vlan s = vn_vlan r))
      \<Longrightarrow> vlan_change db (db\<lparr>ss_vlans := filter (\<lambda>r. \<not> (vn_id r = i \<and> vn_host r = h)) (ss_vlans db)\<rparr>)"

inductive svi_change :: "switch_db \<Rightarrow> switch_db \<Rightarrow> bool" where
  edit: "find_svi db i h = Some r \<Longrightarrow> (\<And>q. sr_id q = i \<Longrightarrow> sr_host q = h \<Longrightarrow> svi_key (f q) \<in> {svi_key q, svi_key r})
      \<Longrightarrow> (\<And>q. q \<in> set (ss_svis db) \<Longrightarrow> sr_sync (f q) \<noteq> PendingDelete \<Longrightarrow> sr_ip (f q) \<noteq> None \<Longrightarrow>
            (\<forall>s \<in> set (ss_svis db). sr_host s = h \<longrightarrow> sr_ip s = sr_ip (f q) \<longrightarrow> sr_sync s \<noteq> PendingDelete \<longrightarrow> sr_id s = i))
      \<Longrightarrow> svi_change db (update_svi i h f db)"
| insert: "insert_svi h v a sh db = Inr (db', i) \<Longrightarrow> 1 \<le> v \<Longrightarrow> v \<le> 4094 \<Longrightarrow> (h, v) \<in> snd ` set (map vlan_key (ss_vlans db))
      \<Longrightarrow> (a \<noteq> None \<Longrightarrow> \<forall>s \<in> set (ss_svis db). sr_host s = h \<longrightarrow> sr_ip s = map_option fst a \<longrightarrow> sr_sync s = PendingDelete)
      \<Longrightarrow> svi_change db db'"
| remove: "svi_change db (db\<lparr>ss_svis := filter P (ss_svis db)\<rparr>)"

lemma update_vlan_keys:
  assumes "keys_ok n (map vlan_key (ss_vlans db))" "find_vlan db i h = Some r"
    "\<And>q. vn_id q = i \<Longrightarrow> vn_host q = h \<Longrightarrow> vlan_key (f q) \<in> {vlan_key q, vlan_key r}"
  shows "map vlan_key (ss_vlans (update_vlan i h f db)) = map vlan_key (ss_vlans db)"
proof -
  have "vlan_key (if vn_id q = i \<and> vn_host q = h then f q else q) = vlan_key q" if "q \<in> set (ss_vlans db)" for q
  proof (cases "vn_id q = i \<and> vn_host q = h")
    case True
    have "vlan_key q \<in> set (map vlan_key (ss_vlans db))" "vlan_key r \<in> set (map vlan_key (ss_vlans db))"
      using that find_vlan_SomeD[OF assms(2)] by auto
    then have "vlan_key q = vlan_key r"
      using keys_ok_inject[OF assms(1), of i "snd (vlan_key q)" "snd (vlan_key r)"] True find_vlan_SomeD[OF assms(2)]
      by (auto simp: vlan_key_def)
    then show ?thesis using True assms(3)[of q] by simp
  qed auto
  then show ?thesis by (simp add: update_vlan_def)
qed

lemma update_svi_keys:
  assumes "keys_ok n (map svi_key (ss_svis db))" "find_svi db i h = Some r"
    "\<And>q. sr_id q = i \<Longrightarrow> sr_host q = h \<Longrightarrow> svi_key (f q) \<in> {svi_key q, svi_key r}"
  shows "map svi_key (ss_svis (update_svi i h f db)) = map svi_key (ss_svis db)"
proof -
  have "svi_key (if sr_id q = i \<and> sr_host q = h then f q else q) = svi_key q" if "q \<in> set (ss_svis db)" for q
  proof (cases "sr_id q = i \<and> sr_host q = h")
    case True
    have "svi_key q \<in> set (map svi_key (ss_svis db))" "svi_key r \<in> set (map svi_key (ss_svis db))"
      using that find_svi_SomeD[OF assms(2)] by auto
    then have "svi_key q = svi_key r"
      using keys_ok_inject[OF assms(1), of i "snd (svi_key q)" "snd (svi_key r)"] True find_svi_SomeD[OF assms(2)]
      by (auto simp: svi_key_def)
    then show ?thesis using True assms(3)[of q] by simp
  qed auto
  then show ?thesis by (simp add: update_svi_def)
qed

lemma vlan_change_ok:
  assumes "vlan_change db db'" "store_ok db"
  shows "store_ok db'"
  using assms
proof (cases rule: vlan_change.cases)
  case (edit i h r f)
  have keys: "keys_ok (ss_next_vlan db) (map vlan_key (ss_vlans db))" using assms(2) by (simp add: store_ok_def)
  have k: "map vlan_key (ss_vlans db') = map vlan_key (ss_vlans db)"
    using update_vlan_keys[OF keys edit(2,3)] edit(1) by simp
  have hosts: "vn_host (f q) = h" if "vn_id q = i" "vn_host q = h" for q
    using edit(3)[OF that] that find_vlan_SomeD[OF edit(2)] by (auto simp: vlan_key_def)
  have o: "ss_svis db' = ss_svis db" "ss_next_vlan db' = ss_next_vlan db" "ss_next_svi db' = ss_next_svi db"
    "known_host db' = known_host db"
    by (simp_all add: edit(1) update_vlan_def)
  have "\<forall>r \<in> set (ss_vlans db'). known_host db (vn_host r)"
    using assms(2) hosts by (auto simp: edit(1) update_vlan_def store_ok_def)
  then show ?thesis using assms(2) unfolding store_ok_def k o by blast
next
  case (insert h v n s i)
  let ?r = "\<lparr>vn_id = ss_next_vlan db, vn_host = h, vn_vlan = v, vn_name = n, vn_state = s, vn_success = PendingApply, vn_present = False\<rparr>"
  have d: "db' = db\<lparr>ss_vlans := ss_vlans db @ [?r], ss_next_vlan := ss_next_vlan db + 1\<rparr>" "known_host db h"
    "\<forall>r \<in> set (ss_vlans db). \<not> (vn_host r = h \<and> vn_vlan r = v)"
    using insert(1) by (auto simp: insert_vlan_def list_ex_iff split: if_splits)
  have "(h, v) \<notin> snd ` set (map vlan_key (ss_vlans db))" using d(3) by (auto simp: vlan_key_def)
  then have "keys_ok (ss_next_vlan db + 1) (map vlan_key (ss_vlans db) @ [(ss_next_vlan db, h, v)])"
    using assms(2) insert(2,3) by (intro keys_ok_snoc) (auto simp: store_ok_def)
  moreover have k: "map vlan_key (ss_vlans db') = map vlan_key (ss_vlans db) @ [(ss_next_vlan db, h, v)]"
    by (simp add: d(1) vlan_key_def)
  moreover have "snd ` set (map svi_key (ss_svis db')) \<subseteq> snd ` set (map vlan_key (ss_vlans db'))"
  proof -
    have "snd ` set (map vlan_key (ss_vlans db)) \<subseteq> snd ` set (map vlan_key (ss_vlans db'))" unfolding k by auto
    moreover have "snd ` set (map svi_key (ss_svis db)) \<subseteq> snd ` set (map vlan_key (ss_vlans db))"
      using assms(2) unfolding store_ok_def by blast
    ultimately show ?thesis using d(1) by simp
  qed
  ultimately show ?thesis using assms(2) d(2) unfolding store_ok_def by (simp add: d(1))
next
  case (remove i h r)
  let ?P = "\<lambda>(j, g, v). \<not> (j = i \<and> g = h)"
  have k: "map vlan_key (ss_vlans db') = filter ?P (map vlan_key (ss_vlans db))"
    unfolding remove(1) by (simp, rule map_filter_key) (simp add: vlan_key_def)
  have r: "r \<in> set (ss_vlans db)" "vn_id r = i" "vn_host r = h" using find_vlan_SomeD[OF remove(2)] by auto
  have keys: "keys_ok (ss_next_vlan db) (map vlan_key (ss_vlans db))" using assms(2) by (simp add: store_ok_def)
  have "snd ` set (map svi_key (ss_svis db)) \<subseteq> snd ` set (filter ?P (map vlan_key (ss_vlans db)))"
  proof
    fix x assume x: "x \<in> snd ` set (map svi_key (ss_svis db))"
    then obtain s where s: "s \<in> set (ss_svis db)" "x = (sr_host s, sr_vlan s)" by (auto simp: svi_key_def)
    have "x \<in> snd ` set (map vlan_key (ss_vlans db))" using x assms(2) unfolding store_ok_def by blast
    then obtain j where j: "(j, x) \<in> set (map vlan_key (ss_vlans db))" by (metis imageE prod.collapse)
    have "(i, h, vn_vlan r) \<in> set (map vlan_key (ss_vlans db))" using r by (auto simp: vlan_key_def)
    moreover have "x \<noteq> (h, vn_vlan r)" using remove(3)[OF s(1)] s(2) by simp
    ultimately have "j \<noteq> i" using j keys_ok_inject[OF keys, of i x "(h, vn_vlan r)"] by blast
    then have "?P (j, x)" by (simp add: case_prod_beta)
    then have "(j, x) \<in> set (filter ?P (map vlan_key (ss_vlans db)))" using j by simp
    then show "x \<in> snd ` set (filter ?P (map vlan_key (ss_vlans db)))" by (metis imageI snd_conv)
  qed
  moreover have "keys_ok (ss_next_vlan db) (filter ?P (map vlan_key (ss_vlans db)))" using keys by (rule keys_ok_filter)
  ultimately show ?thesis using assms(2) unfolding store_ok_def k by (simp add: remove(1))
qed

lemma svi_change_ok:
  assumes "svi_change db db'" "store_ok db"
  shows "store_ok db'"
  using assms
proof (cases rule: svi_change.cases)
  case (edit i h r f)
  have keys: "keys_ok (ss_next_svi db) (map svi_key (ss_svis db))" using assms(2) by (simp add: store_ok_def)
  have k: "map svi_key (ss_svis db') = map svi_key (ss_svis db)"
    using update_svi_keys[OF keys edit(2,3)] edit(1) by simp
  have same: "sr_host (f q) = h" "sr_id (f q) = i" if "sr_id q = i" "sr_host q = h" for q
    using edit(3)[OF that] that find_svi_SomeD[OF edit(2)] by (auto simp: svi_key_def)
  have o: "ss_vlans db' = ss_vlans db" "ss_next_vlan db' = ss_next_vlan db" "ss_next_svi db' = ss_next_svi db"
    "known_host db' = known_host db"
    by (simp_all add: edit(1) update_svi_def)
  have "addresses_ok (ss_svis db')"
    unfolding addresses_ok_def
  proof (intro ballI impI)
    fix a b assume ab: "a \<in> set (ss_svis db')" "b \<in> set (ss_svis db')" "sr_host a = sr_host b" "sr_ip a = sr_ip b"
      "sr_ip a \<noteq> None" "sr_sync a \<noteq> PendingDelete" "sr_sync b \<noteq> PendingDelete"
    have new: "x \<in> set (ss_svis db) \<and> \<not> (sr_id x = i \<and> sr_host x = h) \<or> (\<exists>q \<in> set (ss_svis db). x = f q \<and> sr_id q = i \<and> sr_host q = h)"
      if "x \<in> set (ss_svis db')" for x
      using that by (auto simp: edit(1) update_svi_def split: if_splits)
    have one: "sr_id x = sr_id y" if "x \<in> set (ss_svis db)" "sr_host x = sr_host y" "sr_ip x = sr_ip y" "sr_ip x \<noteq> None"
      "sr_sync x \<noteq> PendingDelete" "sr_sync y \<noteq> PendingDelete" "\<exists>q \<in> set (ss_svis db). y = f q \<and> sr_id q = i \<and> sr_host q = h" for x y
      using edit(4) that same by metis
    show "sr_id a = sr_id b"
      using new[OF ab(1)] new[OF ab(2)]
    proof (elim disjE)
      assume "a \<in> set (ss_svis db) \<and> \<not> (sr_id a = i \<and> sr_host a = h)" "b \<in> set (ss_svis db) \<and> \<not> (sr_id b = i \<and> sr_host b = h)"
      then show ?thesis using assms(2) ab by (auto simp: store_ok_def addresses_ok_def)
    next
      assume "\<exists>q \<in> set (ss_svis db). a = f q \<and> sr_id q = i \<and> sr_host q = h" "\<exists>q \<in> set (ss_svis db). b = f q \<and> sr_id q = i \<and> sr_host q = h"
      then show ?thesis using same by auto
    next
      assume "a \<in> set (ss_svis db) \<and> \<not> (sr_id a = i \<and> sr_host a = h)" "\<exists>q \<in> set (ss_svis db). b = f q \<and> sr_id q = i \<and> sr_host q = h"
      then show ?thesis using one[of a b] ab by blast
    next
      assume "\<exists>q \<in> set (ss_svis db). a = f q \<and> sr_id q = i \<and> sr_host q = h" "b \<in> set (ss_svis db) \<and> \<not> (sr_id b = i \<and> sr_host b = h)"
      then show ?thesis using one[of b a] ab by metis
    qed
  qed
  then show ?thesis using assms(2) unfolding store_ok_def k o by blast
next
  case (insert h v a sh i)
  let ?r = "\<lparr>sr_id = ss_next_svi db, sr_host = h, sr_vlan = v, sr_ip = map_option fst a, sr_mask = map_option snd a,
    sr_shutdown = sh, sr_sync = PendingApply, sr_present = False\<rparr>"
  have d: "db' = db\<lparr>ss_svis := ss_svis db @ [?r], ss_next_svi := ss_next_svi db + 1\<rparr>"
    "\<forall>r \<in> set (ss_svis db). \<not> (sr_host r = h \<and> sr_vlan r = v)"
    using insert(1) by (auto simp: insert_svi_def list_ex_iff split: if_splits)
  have "(h, v) \<notin> snd ` set (map svi_key (ss_svis db))" using d(2) by (auto simp: svi_key_def)
  then have keys: "keys_ok (ss_next_svi db + 1) (map svi_key (ss_svis db) @ [(ss_next_svi db, h, v)])"
    using assms(2) insert(2,3) by (intro keys_ok_snoc) (auto simp: store_ok_def)
  have "addresses_ok (ss_svis db @ [?r])"
  proof (rule addresses_ok_snoc)
    show "addresses_ok (ss_svis db)" using assms(2) by (simp add: store_ok_def)
    show "\<forall>s \<in> set (ss_svis db). sr_host s = sr_host ?r \<longrightarrow> sr_ip s = sr_ip ?r \<longrightarrow> sr_sync s = PendingDelete"
      if "sr_ip ?r \<noteq> None" using that insert(5) by simp
  qed
  moreover have k: "map svi_key (ss_svis db') = map svi_key (ss_svis db) @ [(ss_next_svi db, h, v)]"
    by (simp add: d(1) svi_key_def)
  moreover have "snd ` set (map svi_key (ss_svis db')) \<subseteq> snd ` set (map vlan_key (ss_vlans db))"
  proof -
    have "snd ` set (map svi_key (ss_svis db)) \<subseteq> snd ` set (map vlan_key (ss_vlans db))"
      using assms(2) unfolding store_ok_def by blast
    then show ?thesis unfolding k using insert(4) by simp
  qed
  ultimately show ?thesis using assms(2) keys unfolding store_ok_def by (simp add: d(1))
next
  case (remove P)
  have "set (filter P (ss_svis db)) \<subseteq> set (ss_svis db)" by auto
  moreover have "keys_ok (ss_next_svi db) (map svi_key (filter P (ss_svis db)))"
    using assms(2) by (auto simp: store_ok_def keys_ok_def distinct_map_filter)
  moreover have "addresses_ok (filter P (ss_svis db))"
    using assms(2) by (simp add: store_ok_def addresses_ok_def)
  moreover have "snd ` set (map svi_key (filter P (ss_svis db))) \<subseteq> snd ` set (map vlan_key (ss_vlans db))"
  proof (rule order_trans)
    show "snd ` set (map svi_key (filter P (ss_svis db))) \<subseteq> snd ` set (map svi_key (ss_svis db))" by auto
    show "snd ` set (map svi_key (ss_svis db)) \<subseteq> snd ` set (map vlan_key (ss_vlans db))"
      using assms(2) unfolding store_ok_def by blast
  qed
  ultimately show ?thesis using assms(2) unfolding store_ok_def by (simp add: remove(1))
qed

subsection \<open>Every operation makes such a change, or none\<close>

lemma form_integer_Inr: "form_integer v f lo hi = Inr i \<Longrightarrow> lo \<le> i \<and> i \<le> hi"
  by (auto simp: form_integer_def split: option.splits if_splits)

lemma transact_cases:
  assumes "\<And>db' r. m = Inr (db', r) \<Longrightarrow> Q db'" "Q db"
  shows "Q (fst (transact db m))"
  using assms by (auto simp: transact_def split: sum.splits)

lemma save_vlan_change:
  assumes "save_vlan_tx db h p = Inr (db', i)"
  shows "vlan_change db db'"
proof -
  obtain row_id vlan state where *: "form_integer (get p ''vlan_id'') ''VLAN ID'' 1 4094 = Inr vlan"
    "(if row_id > 0 then
       sbind (require_immutable_identity (map_option (\<lambda>r. show_int (vn_vlan r)) (find_vlan db row_id h)) (show_int vlan) ''VLAN'') (\<lambda>_.
       Inr (update_vlan row_id h (\<lambda>r. r\<lparr>vn_vlan := vlan, vn_name := form_text (get p ''vlan_name''), vn_state := state,
              vn_success := PendingApply\<rparr>) db, row_id))
     else insert_vlan h vlan (form_text (get p ''vlan_name'')) state db) = Inr (db', i)"
    using assms unfolding save_vlan_tx_def Let_def sbind_eq_Inr_conv by blast
  note range = form_integer_Inr[OF *(1)]
  show ?thesis
  proof (cases "row_id > 0")
    case True
    then obtain r where r: "find_vlan db row_id h = Some r" "vn_vlan r = vlan"
      using *(2) by (cases "find_vlan db row_id h") (auto simp: sbind_eq_Inr_conv identity_same require_immutable_identity_def[of None])
    have "db' = update_vlan row_id h (\<lambda>r. r\<lparr>vn_vlan := vlan, vn_name := form_text (get p ''vlan_name''), vn_state := state,
        vn_success := PendingApply\<rparr>) db"
      using *(2) True by (auto simp: sbind_eq_Inr_conv)
    moreover have "vlan_change db (update_vlan row_id h (\<lambda>r. r\<lparr>vn_vlan := vlan, vn_name := form_text (get p ''vlan_name''),
        vn_state := state, vn_success := PendingApply\<rparr>) db)"
      using find_vlan_SomeD[OF r(1)] by (intro vlan_change.edit[OF r(1)]) (auto simp: vlan_key_def r(2))
    ultimately show ?thesis by simp
  next
    case False
    then have "insert_vlan h vlan (form_text (get p ''vlan_name'')) state db = Inr (db', i)" using *(2) by simp
    then show ?thesis using range by (intro vlan_change.insert) auto
  qed
qed

lemma not_used:
  assumes "\<not> list_ex (\<lambda>(n, t). n > 0) (vlan_uses db h v)"
  shows "\<forall>s \<in> set (ss_svis db). \<not> (sr_host s = h \<and> sr_vlan s = v)"
    "\<forall>s \<in> set (ss_stp db). \<not> (sg_host s = h \<and> sg_vlan s = v)" "\<forall>s \<in> set (ss_security db). \<not> (vs_host s = h \<and> vs_vlan s = v)"
    "\<forall>a \<in> set (ss_access db). iface_of db h (ac_iface a) (\<lambda>i. li_success i \<noteq> PendingDelete) \<longrightarrow>
       ac_vlan a \<noteq> v \<and> ac_voice a \<noteq> Some v"
    "\<forall>m \<in> set (ss_macs db). iface_of db h (mr_iface m) (\<lambda>_. True) \<longrightarrow> mr_type m = ''static'' \<longrightarrow> mr_vlan m \<noteq> v"
    "\<forall>t \<in> set (ss_trunks db). iface_of db h (tu_iface t) (\<lambda>_. True) \<longrightarrow> tu_native t \<noteq> v"
  using assms by (auto simp: vlan_uses_def filter_empty_conv)

lemma delete_vlan_cases:
  assumes "delete_vlan_tx db h row = Inr (db', removed)"
  obtains i r where "find_vlan db i h = Some r" "vn_vlan r \<noteq> 1" "\<not> list_ex (\<lambda>(n, t). n > 0) (vlan_uses db h (vn_vlan r))"
    "require_vlan_configuration_owner (ss_vtp db) h = Inr ()"
    "removed = (\<not> is_device_backed (vn_present r) (vn_success r))"
    "db' = (if removed then db\<lparr>ss_vlans := filter (\<lambda>r. \<not> (vn_id r = i \<and> vn_host r = h)) (ss_vlans db)\<rparr>
       else update_vlan i h (\<lambda>r. r\<lparr>vn_success := PendingDelete\<rparr>) db)"
proof -
  obtain i r where f: "find_vlan db i h = Some r" "py_int row = Some i"
    using assms by (auto simp: delete_vlan_tx_def sbind_eq_Inr_conv split: option.splits if_splits)
  have "vn_vlan r \<noteq> 1 \<and> \<not> list_ex (\<lambda>(n, t). n > 0) (vlan_uses db h (vn_vlan r))
    \<and> require_vlan_configuration_owner (ss_vtp db) h = Inr ()
    \<and> removed = (\<not> is_device_backed (vn_present r) (vn_success r))
    \<and> db' = (if removed then db\<lparr>ss_vlans := filter (\<lambda>r. \<not> (vn_id r = i \<and> vn_host r = h)) (ss_vlans db)\<rparr>
       else update_vlan i h (\<lambda>r. r\<lparr>vn_success := PendingDelete\<rparr>) db)"
    using assms unfolding delete_vlan_tx_def sbind_eq_Inr_conv f option.case by (simp split: if_splits)
  then show ?thesis using that f(1) by blast
qed

lemma delete_vlan_change:
  assumes "delete_vlan_tx db h row = Inr (db', removed)"
  shows "vlan_change db db'"
  using assms
proof (rule delete_vlan_cases)
  fix i r assume f: "find_vlan db i h = Some r" and u: "\<not> list_ex (\<lambda>(n, t). n > 0) (vlan_uses db h (vn_vlan r))" and
    d: "db' = (if removed then db\<lparr>ss_vlans := filter (\<lambda>r. \<not> (vn_id r = i \<and> vn_host r = h)) (ss_vlans db)\<rparr>
       else update_vlan i h (\<lambda>r. r\<lparr>vn_success := PendingDelete\<rparr>) db)"
  show ?thesis
  proof (cases removed)
    case True
    then show ?thesis using d not_used(1)[OF u] vlan_change.remove[OF f] by auto
  next
    case False
    have "vlan_change db (update_vlan i h (\<lambda>r. r\<lparr>vn_success := PendingDelete\<rparr>) db)"
      by (rule vlan_change.edit[OF f]) (simp add: vlan_key_def)
    then show ?thesis using d False by simp
  qed
qed

lemma active_vlan_key:
  "require_active_vlan (ss_vlans db) h v f = Inr () \<Longrightarrow> (h, v) \<in> snd ` set (map vlan_key (ss_vlans db))"
  by (auto simp: require_active_vlan_def list_ex_iff vlan_key_def image_iff)

lemma save_svi_change:
  assumes "save_svi_tx db h p = Inr (db', i)" "store_ok db"
  shows "svi_change db db'"
proof -
  obtain row_id vlan address where *: "form_integer (get p ''vlan_id'') ''VLAN ID'' 1 4094 = Inr vlan"
    "require_active_vlan (ss_vlans db) h vlan ''VLAN'' = Inr ()"
    "(if address \<noteq> None \<and> list_ex (\<lambda>r. sr_host r = h \<and> sr_ip r = map_option fst address \<and> sr_id r \<noteq> row_id
          \<and> sr_sync r \<noteq> PendingDelete) (ss_svis db)
       then Inl ''The IPv4 address is already assigned to another SVI''
     else if row_id > 0 then
       sbind (require_immutable_identity (map_option (\<lambda>r. show_int (sr_vlan r)) (find_svi db row_id h))
         (show_int vlan) ''SVI'') (\<lambda>_.
       Inr (update_svi row_id h (\<lambda>r. r\<lparr>sr_vlan := vlan, sr_ip := map_option fst address,
              sr_mask := map_option snd address, sr_shutdown := form_boolean (get p ''shutdown''), sr_sync := PendingApply\<rparr>) db, row_id))
     else insert_svi h vlan address (form_boolean (get p ''shutdown'')) db) = Inr (db', i)"
    using assms(1) unfolding save_svi_tx_def Let_def sbind_eq_Inr_conv by auto
  note range = form_integer_Inr[OF *(1)]
  have unique: "\<forall>s \<in> set (ss_svis db). sr_host s = h \<longrightarrow> sr_ip s = map_option fst address \<longrightarrow> address \<noteq> None \<longrightarrow>
      sr_sync s \<noteq> PendingDelete \<longrightarrow> sr_id s = row_id"
    using *(3) by (auto simp: list_ex_iff split: if_splits)
  let ?f = "\<lambda>r. r\<lparr>sr_vlan := vlan, sr_ip := map_option fst address, sr_mask := map_option snd address,
      sr_shutdown := form_boolean (get p ''shutdown''), sr_sync := PendingApply\<rparr>"
  show ?thesis
  proof (cases "row_id > 0")
    case True
    then obtain r where r: "find_svi db row_id h = Some r" "sr_vlan r = vlan"
      using *(3) by (cases "find_svi db row_id h")
        (auto simp: sbind_eq_Inr_conv identity_same require_immutable_identity_def[of None] split: if_splits)
    have "db' = update_svi row_id h ?f db"
      using *(3) True by (auto simp: sbind_eq_Inr_conv split: if_splits)
    moreover have "svi_change db (update_svi row_id h ?f db)"
      using find_svi_SomeD[OF r(1)] unique by (intro svi_change.edit[OF r(1)]) (auto simp: svi_key_def r(2))
    ultimately show ?thesis by simp
  next
    case False
    then have ins: "insert_svi h vlan address (form_boolean (get p ''shutdown'')) db = Inr (db', i)"
      using *(3) by (simp split: if_splits)
    have none: "\<forall>s \<in> set (ss_svis db). sr_host s = h \<longrightarrow> sr_ip s = map_option fst address \<longrightarrow> sr_sync s = PendingDelete"
      if "address \<noteq> None"
    proof (intro ballI impI)
      fix s assume s: "s \<in> set (ss_svis db)" "sr_host s = h" "sr_ip s = map_option fst address"
      have "svi_key s \<in> set (map svi_key (ss_svis db))" using s(1) by simp
      then have "0 < sr_id s" using assms(2) by (auto simp: store_ok_def keys_ok_def svi_key_def)
      then show "sr_sync s = PendingDelete" using unique s that False by fastforce
    qed
    show ?thesis using range ins active_vlan_key[OF *(2)] none by (intro svi_change.insert[OF ins]) auto
  qed
qed

lemma delete_svi_change:
  assumes "delete_svi_tx db h row = Inr (db', removed)"
  shows "svi_change db db'"
proof -
  obtain i r where f: "find_svi db i h = Some r" "db' = db\<lparr>ss_svis := filter (\<lambda>r. \<not> (sr_id r = i \<and> sr_host r = h)) (ss_svis db)\<rparr>
      \<or> db' = update_svi i h (\<lambda>r. r\<lparr>sr_sync := PendingDelete\<rparr>) db"
    using assms by (auto simp: delete_svi_tx_def sbind_eq_Inr_conv split: option.splits if_splits)
  have "svi_change db (update_svi i h (\<lambda>r. r\<lparr>sr_sync := PendingDelete\<rparr>) db)"
    by (rule svi_change.edit[OF f(1)]) (simp_all add: svi_key_def)
  then show ?thesis using f(2) svi_change.remove by auto
qed

section \<open>Properties\<close>

datatype switch_op = SaveVlan pyval payload | DeleteVlan pyval pyval | SaveSvi pyval payload | DeleteSvi pyval pyval
  | SaveRouting pyval pyval

fun switch_step :: "switch_db \<Rightarrow> switch_op \<Rightarrow> switch_db" where
  "switch_step db (SaveVlan h p) = fst (save_vlan db h p)"
| "switch_step db (DeleteVlan h r) = fst (delete_vlan db h r)"
| "switch_step db (SaveSvi h p) = fst (save_svi db h p)"
| "switch_step db (DeleteSvi h r) = fst (delete_svi db h r)"
| "switch_step db (SaveRouting h e) = fst (save_ip_routing db h e)"

lemma store_ok_routing: "store_ok (db\<lparr>ss_routing := r\<rparr>) = store_ok db"
  by (simp add: store_ok_def)

text \<open>Each step is a change of the VLANs, of the SVIs, or of neither.\<close>

lemma switch_step_cases:
  assumes "store_ok db"
  shows "vlan_change db (switch_step db op) \<or> svi_change db (switch_step db op)
    \<or> (\<exists>r. switch_step db op = db\<lparr>ss_routing := r\<rparr>)"
proof -
  have id: "\<exists>r. db = db\<lparr>ss_routing := r\<rparr>" by (rule exI[of _ "ss_routing db"]) simp
  show ?thesis
  proof (cases op)
    case (SaveVlan h p)
    then show ?thesis using id save_vlan_change
      by (auto simp: save_vlan_def transact_def sbind_eq_Inr_conv split: sum.splits)
  next
    case (DeleteVlan h r)
    then show ?thesis using id delete_vlan_change
      by (auto simp: delete_vlan_def transact_def sbind_eq_Inr_conv split: sum.splits)
  next
    case (SaveSvi h p)
    then show ?thesis using id save_svi_change[OF _ assms]
      by (auto simp: save_svi_def transact_def sbind_eq_Inr_conv split: sum.splits)
  next
    case (DeleteSvi h r)
    then show ?thesis using id delete_svi_change
      by (auto simp: delete_svi_def transact_def sbind_eq_Inr_conv split: sum.splits)
  next
    case (SaveRouting h e)
    then show ?thesis using id
      by (auto simp: save_ip_routing_def transact_def sbind_eq_Inr_conv split: sum.splits)
  qed
qed

lemma store_ok_step: "store_ok db \<Longrightarrow> store_ok (switch_step db op)"
  using switch_step_cases[of db op] vlan_change_ok svi_change_ok store_ok_routing by metis

text \<open>Property C29. The switch tables stay consistent: after any sequence of saves and deletions of VLANs and
  SVIs, of which any may fail, row ids and (host, VLAN) pairs are unique, VLANs are in range and belong to
  known devices, every SVI has its VLAN row, and no two live SVIs of a switch share an address.\<close>

theorem switch_tables_consistent:
  assumes "store_ok db"
  shows "store_ok (foldl switch_step db ops)"
  using assms by (induction ops arbitrary: db) (simp_all add: store_ok_step)

text \<open>Keys of old rows; AUTOINCREMENT never gives an id twice.\<close>

definition inherits :: "int \<Rightarrow> (int \<times> string \<times> int) list \<Rightarrow> (int \<times> string \<times> int) list \<Rightarrow> bool" where
  "inherits n ks ks' \<longleftrightarrow> (\<forall>k \<in> set ks'. fst k < n \<longrightarrow> k \<in> set ks)"

lemma vlan_change_inherits:
  assumes "vlan_change db db'" "store_ok db"
  shows "inherits (ss_next_vlan db) (map vlan_key (ss_vlans db)) (map vlan_key (ss_vlans db'))
    \<and> ss_next_vlan db \<le> ss_next_vlan db' \<and> ss_svis db' = ss_svis db \<and> ss_next_svi db' = ss_next_svi db"
  using assms
proof (cases rule: vlan_change.cases)
  case (edit i h r f)
  have keys: "keys_ok (ss_next_vlan db) (map vlan_key (ss_vlans db))" using assms(2) by (simp add: store_ok_def)
  show ?thesis using update_vlan_keys[OF keys edit(2,3)] by (simp add: edit(1) inherits_def) (simp add: update_vlan_def)
next
  case (insert h v n s i)
  then show ?thesis by (auto simp: insert_vlan_def inherits_def vlan_key_def split: if_splits)
next
  case (remove i h r)
  then show ?thesis by (auto simp: inherits_def)
qed

lemma svi_change_inherits:
  assumes "svi_change db db'" "store_ok db"
  shows "inherits (ss_next_svi db) (map svi_key (ss_svis db)) (map svi_key (ss_svis db'))
    \<and> ss_next_svi db \<le> ss_next_svi db' \<and> ss_vlans db' = ss_vlans db \<and> ss_next_vlan db' = ss_next_vlan db"
  using assms
proof (cases rule: svi_change.cases)
  case (edit i h r f)
  have keys: "keys_ok (ss_next_svi db) (map svi_key (ss_svis db))" using assms(2) by (simp add: store_ok_def)
  show ?thesis using update_svi_keys[OF keys edit(2,3)] by (simp add: edit(1) inherits_def) (simp add: update_svi_def)
next
  case (insert h v a sh i)
  then show ?thesis by (auto simp: insert_svi_def inherits_def svi_key_def split: if_splits)
next
  case (remove P)
  then show ?thesis by (auto simp: inherits_def)
qed

lemma step_inherits:
  assumes "store_ok db" "db' = switch_step db op"
  shows "inherits (ss_next_vlan db) (map vlan_key (ss_vlans db)) (map vlan_key (ss_vlans db'))
    \<and> inherits (ss_next_svi db) (map svi_key (ss_svis db)) (map svi_key (ss_svis db'))
    \<and> ss_next_vlan db \<le> ss_next_vlan db' \<and> ss_next_svi db \<le> ss_next_svi db'"
proof -
  have triv: "inherits n ks ks" for n ks by (simp add: inherits_def)
  consider "vlan_change db db'" | "svi_change db db'" | r where "db' = db\<lparr>ss_routing := r\<rparr>"
    using switch_step_cases[OF assms(1), of op] assms(2) by blast
  then show ?thesis
  proof cases
    case 1
    then show ?thesis using vlan_change_inherits[OF 1 assms(1)] triv by simp
  next
    case 2
    then show ?thesis using svi_change_inherits[OF 2 assms(1)] triv by simp
  next
    case 3
    then show ?thesis using triv by simp
  qed
qed

lemma run_inherits:
  "store_ok db \<Longrightarrow> inherits (ss_next_vlan db) (map vlan_key (ss_vlans db)) (map vlan_key (ss_vlans (foldl switch_step db ops)))
    \<and> inherits (ss_next_svi db) (map svi_key (ss_svis db)) (map svi_key (ss_svis (foldl switch_step db ops)))"
proof (induction ops arbitrary: db)
  case (Cons op ops)
  have trans: "inherits n ks ks'" if "inherits n ks kt" "inherits m kt ks'" "n \<le> m" for n m :: int and ks kt ks'
    using that unfolding inherits_def by fastforce
  show ?case
    using step_inherits[OF Cons.prems refl, of op] Cons.IH[OF store_ok_step[OF Cons.prems], of op] trans
    by (metis foldl_Cons)
qed (simp add: inherits_def)

text \<open>A row never changes what it stands for: whatever saves and deletions follow, a VLAN or SVI
  row that still exists under its id is the same VLAN of the same switch, so that an edit can never leave
  an object behind on the device under another name.\<close>

theorem row_identity_immutable:
  assumes "store_ok db" "db' = foldl switch_step db ops"
  shows "(\<forall>r \<in> set (ss_vlans db). \<forall>r' \<in> set (ss_vlans db'). vn_id r = vn_id r' \<longrightarrow> vn_host r = vn_host r' \<and> vn_vlan r = vn_vlan r')
    \<and> (\<forall>s \<in> set (ss_svis db). \<forall>s' \<in> set (ss_svis db'). sr_id s = sr_id s' \<longrightarrow> sr_host s = sr_host s' \<and> sr_vlan s = sr_vlan s')"
proof -
  have unique: "k = k'" if "keys_ok n ks" "inherits n ks ks'" "k \<in> set ks" "k' \<in> set ks'" "fst k = fst k'" for n ks ks' k k'
  proof -
    have "fst k' < n" using that unfolding keys_ok_def by force
    then have "k' \<in> set ks" using that by (simp add: inherits_def)
    then show ?thesis using keys_ok_inject[OF that(1), of "fst k" "snd k" "snd k'"] that by (metis prod.collapse)
  qed
  have ok: "keys_ok (ss_next_vlan db) (map vlan_key (ss_vlans db))" "keys_ok (ss_next_svi db) (map svi_key (ss_svis db))"
    using assms(1) by (auto simp: store_ok_def)
  note inh = run_inherits[OF assms(1), of ops, folded assms(2)]
  have "vlan_key r = vlan_key r'" if "r \<in> set (ss_vlans db)" "r' \<in> set (ss_vlans db')" "vn_id r = vn_id r'" for r r'
  proof (rule unique[OF ok(1) conjunct1[OF inh]])
    show "fst (vlan_key r) = fst (vlan_key r')" using that(3) by (simp add: vlan_key_def)
  qed (use that in auto)
  moreover have "svi_key s = svi_key s'" if "s \<in> set (ss_svis db)" "s' \<in> set (ss_svis db')" "sr_id s = sr_id s'" for s s'
  proof (rule unique[OF ok(2) conjunct2[OF inh]])
    show "fst (svi_key s) = fst (svi_key s')" using that(3) by (simp add: svi_key_def)
  qed (use that in auto)
  ultimately show ?thesis by (auto simp: vlan_key_def svi_key_def)
qed


section \<open>Examples\<close>

definition store_sample :: switch_db where
  "store_sample = \<lparr>ss_vtp = vtp_sample,
     ss_vlans = [\<lparr>vn_id = 1, vn_host = ''S1'', vn_vlan = 10, vn_name = ''USERS'', vn_state = ''active'', vn_success = Synchronized, vn_present = True\<rparr>,
       \<lparr>vn_id = 2, vn_host = ''S1'', vn_vlan = 20, vn_name = [], vn_state = ''active'', vn_success = PendingApply, vn_present = False\<rparr>],
     ss_next_vlan = 3,
     ss_svis = [\<lparr>sr_id = 1, sr_host = ''S1'', sr_vlan = 20, sr_ip = Some ''10.0.20.1'', sr_mask = Some ''255.255.255.0'',
       sr_shutdown = False, sr_sync = PendingApply, sr_present = False\<rparr>],
     ss_next_svi = 2, ss_routing = [], ss_ifaces = [], ss_next_iface = 1, ss_access = [],
     ss_trunks = [], ss_port_stp = [], ss_secure = [], ss_macs = [], ss_next_mac = 1, ss_channels = [], ss_next_channel = 1,
     ss_stp = [], ss_next_stp = 1, ss_security = [], ss_next_security = 1, ss_trust = [], ss_next_trust = 1\<rparr>"

lemma store_sample_ok: "store_ok store_sample"
  by (simp add: store_ok_def store_sample_def keys_ok_def addresses_ok_def vlan_key_def svi_key_def known_host_def
      vtp_sample_def sample_switch_def)

definition new_vlan :: "int \<Rightarrow> payload" where
  "new_vlan v = [''vlan_id'' \<mapsto> PInt v, ''vlan_name'' \<mapsto> PStr ''X'']"

lemma switch_tables_consistent_witness:
  "store_ok (foldl switch_step store_sample [SaveVlan (PStr ''S1'') (new_vlan 30), DeleteSvi (PStr ''S1'') (PInt 1)])"
  by (rule switch_tables_consistent[OF store_sample_ok])

lemma renumbered_sample:
  "let db' = foldl switch_step store_sample [SaveVlan (PStr ''S1'') ((new_vlan 40)(''id'' \<mapsto> PInt 1))]
   in ss_vlans store_sample \<noteq> [] \<and> ss_vlans db' \<noteq> [] \<and> vn_id (hd (ss_vlans store_sample)) = vn_id (hd (ss_vlans db'))"
  by code_simp

lemma row_identity_immutable_witness:
  "vn_vlan (hd (ss_vlans (foldl switch_step store_sample [SaveVlan (PStr ''S1'') ((new_vlan 40)(''id'' \<mapsto> PInt 1))])))
     = vn_vlan (hd (ss_vlans store_sample))"
proof -
  let ?db' = "foldl switch_step store_sample [SaveVlan (PStr ''S1'') ((new_vlan 40)(''id'' \<mapsto> PInt 1))]"
  have "hd (ss_vlans store_sample) \<in> set (ss_vlans store_sample)" "hd (ss_vlans ?db') \<in> set (ss_vlans ?db')"
    "vn_id (hd (ss_vlans store_sample)) = vn_id (hd (ss_vlans ?db'))"
    using renumbered_sample by (auto simp: Let_def)
  then show ?thesis using row_identity_immutable[OF store_sample_ok refl, of "[SaveVlan (PStr ''S1'') ((new_vlan 40)(''id'' \<mapsto> PInt 1))]"] by metis
qed

lemma delete_sample: "snd (delete_vlan store_sample (PStr ''S1'') (PInt 1)) = Inr False"
  by code_simp


text \<open>
  A VLAN staged for removal is no longer listed, but its row still holds the number: creating the VLAN
  again is refused with the database's constraint text until the removal has been pushed.
\<close>

lemma hidden_vlan_blocks_recreation:
  "let db = fst (delete_vlan store_sample (PStr ''S1'') (PInt 1)) in
     list_all (\<lambda>v. vn_vlan (vv_row v) \<noteq> 10) (get_vlans db (PStr ''S1''))
     \<and> snd (save_vlan db (PStr ''S1'') (new_vlan 10)) = Inl ''UNIQUE constraint failed: t06_vlan_db.host, t06_vlan_db.vlan_id''"
  by code_simp

end
