(* ===== verification/Switch_Ports.thy ===== *)
theory Switch_Ports
  imports Switch_Store
begin

text \<open>
  Ports and EtherChannels in the desired state of a switch
  (\<open>features/switching/interface_repository.py\<close>, \<open>etherchannel_repository.py\<close>).

  Saving an interface writes its row and its access, trunk, spanning-tree and Port Security profiles in one
  transaction. The lemmas say what a successful save leaves in each table.
\<close>

section \<open>Interfaces\<close>

record port_view =
  iv_row :: l2_iface
  iv_access :: "access_row option"
  iv_trunk :: "trunk_row option"
  iv_stp :: "port_stp_row option"
  iv_secure :: "secure_row option"

definition access_of :: "switch_db \<Rightarrow> int \<Rightarrow> access_row option" where
  "access_of db i = find (\<lambda>a. ac_iface a = i) (ss_access db)"

definition trunk_of :: "switch_db \<Rightarrow> int \<Rightarrow> trunk_row option" where
  "trunk_of db i = find (\<lambda>t. tu_iface t = i) (ss_trunks db)"

definition port_stp_of :: "switch_db \<Rightarrow> int \<Rightarrow> port_stp_row option" where
  "port_stp_of db i = find (\<lambda>t. pq_iface t = i) (ss_port_stp db)"

definition secure_of :: "switch_db \<Rightarrow> int \<Rightarrow> secure_row option" where
  "secure_of db i = find (\<lambda>t. ps_iface t = i) (ss_secure db)"

text \<open>\<open>ORDER BY if_name COLLATE NOCASE\<close>\<close>

definition by_name :: "l2_iface list \<Rightarrow> l2_iface list" where
  "by_name = sort_key (\<lambda>i. lower (li_name i))"

definition get_switch_interfaces :: "switch_db \<Rightarrow> pyval \<Rightarrow> port_view list" where
  "get_switch_interfaces db host =
     (let target = form_text host in
      if target = [] then []
      else map (\<lambda>i. \<lparr>iv_row = i, iv_access = access_of db (li_id i), iv_trunk = trunk_of db (li_id i),
                     iv_stp = port_stp_of db (li_id i), iv_secure = secure_of db (li_id i)\<rparr>)
             (by_name (filter (\<lambda>i. li_host i = target) (ss_ifaces db))))"

definition drop_access :: "int \<Rightarrow> switch_db \<Rightarrow> switch_db" where
  "drop_access i db = db\<lparr>ss_access := filter (\<lambda>a. ac_iface a \<noteq> i) (ss_access db)\<rparr>"

definition drop_trunk :: "int \<Rightarrow> switch_db \<Rightarrow> switch_db" where
  "drop_trunk i db = db\<lparr>ss_trunks := filter (\<lambda>t. tu_iface t \<noteq> i) (ss_trunks db)\<rparr>"

definition save_access_profile :: "switch_db \<Rightarrow> string \<Rightarrow> int \<Rightarrow> payload \<Rightarrow> string + switch_db" where
  "save_access_profile db host i p =
     sbind (form_integer (get_default p ''access_vlan'' (PInt 1)) ''Access VLAN'' 1 4094) (\<lambda>access.
     sbind (optional_vlan (get p ''voice_vlan'') ''Voice VLAN'') (\<lambda>voice.
     if voice = Some access then Inl ''Voice VLAN must differ from Access VLAN''
     else sbind (require_active_vlan (ss_vlans db) host access ''Access VLAN'') (\<lambda>_.
       sbind (case voice of None \<Rightarrow> Inr () | Some v \<Rightarrow> require_active_vlan (ss_vlans db) host v ''Voice VLAN'') (\<lambda>_.
       let db = drop_trunk i db in
       Inr (db\<lparr>ss_access := upsert_by ac_iface \<lparr>ac_iface = i, ac_vlan = access, ac_voice = voice\<rparr> (ss_access db)\<rparr>)))))"

definition save_trunk_profile :: "switch_db \<Rightarrow> string \<Rightarrow> int \<Rightarrow> payload \<Rightarrow> string + switch_db" where
  "save_trunk_profile db host i p =
     sbind (form_integer (get_default p ''native_vlan'' (PInt 1)) ''Native VLAN'' 1 4094) (\<lambda>native.
     sbind (require_active_vlan (ss_vlans db) host native ''Native VLAN'') (\<lambda>_.
     sbind (validate_vlan_expression (get p ''allowed_vlans'') ''Allowed VLANs'' ''all'') (\<lambda>allowed.
     sbind (validate_vlan_expression (get p ''pruning_vlans'') ''Pruning VLANs'' ''none'') (\<lambda>pruning.
     sbind (reject_pending_vlan_references (ss_vlans db) host allowed ''Allowed VLANs'') (\<lambda>_.
     sbind (reject_pending_vlan_references (ss_vlans db) host pruning ''Pruning VLANs'') (\<lambda>_.
     sbind (form_choice (get p ''encapsulation'') ''Encapsulation'' [''dot1q'', ''isl''] ''dot1q'') (\<lambda>encap.
     let db = drop_access i db in
     Inr (db\<lparr>ss_trunks := upsert_by tu_iface \<lparr>tu_iface = i, tu_allowed = allowed, tu_native = native,
            tu_encap = encap, tu_pruning = pruning\<rparr> (ss_trunks db)\<rparr>))))))))"

definition save_mode_profile :: "switch_db \<Rightarrow> string \<Rightarrow> int \<Rightarrow> string \<Rightarrow> payload \<Rightarrow> string + switch_db" where
  "save_mode_profile db host i mode p =
     (if mode = ''access'' then save_access_profile db host i p
      else if mode = ''trunk'' then save_trunk_profile db host i p
      else Inr (drop_trunk i (drop_access i db)))"

text \<open>An enabled policy is switched off and staged; \<open>View/Push\<close> still needs the row to render its removal.\<close>

definition disable_security :: "int \<Rightarrow> switch_db \<Rightarrow> switch_db" where
  "disable_security i db = db\<lparr>ss_secure := map (\<lambda>r. if ps_iface r = i \<and> ps_enabled r
     then r\<lparr>ps_enabled := False, ps_sync := PendingApply, ps_success := PendingApply\<rparr> else r) (ss_secure db)\<rparr>"

definition enabled_choice :: "payload \<Rightarrow> string \<Rightarrow> string \<Rightarrow> string + string" where
  "enabled_choice p field label = form_choice (get p field) label [''enabled'', ''disabled''] ''disabled''"

definition read_port_stp :: "payload \<Rightarrow> int \<Rightarrow> string + port_stp_row" where
  "read_port_stp p i =
     sbind (enabled_choice p ''portfast'' ''PortFast'') (\<lambda>portfast.
     sbind (enabled_choice p ''bpduguard'' ''BPDU Guard'') (\<lambda>bpduguard.
     sbind (enabled_choice p ''bpdufilter'' ''BPDU Filter'') (\<lambda>bpdufilter.
     sbind (enabled_choice p ''root_guard'' ''Root Guard'') (\<lambda>root_guard.
     sbind (enabled_choice p ''loop_guard'' ''Loop Guard'') (\<lambda>loop_guard.
     Inr \<lparr>pq_iface = i, pq_portfast = portfast, pq_bpduguard = bpduguard, pq_bpdufilter = bpdufilter,
          pq_root_guard = root_guard, pq_loop_guard = loop_guard\<rparr>)))))"

definition read_policy :: "payload \<Rightarrow> string + port_policy" where
  "read_policy p =
     sbind (form_integer (get_default p ''max_mac'' (PInt 1)) ''Maximum MAC'' 1 16384) (\<lambda>max_mac.
     sbind (form_integer (get_default p ''aging_time'' (PInt 0)) ''Aging time'' 0 1000000) (\<lambda>aging.
     sbind (form_choice (get p ''violation'') ''Violation'' [''shutdown'', ''restrict'', ''protect''] ''shutdown'') (\<lambda>violation.
     sbind (form_choice (get p ''aging_type'') ''Aging type'' [''absolute'', ''inactivity''] ''absolute'') (\<lambda>aging_type.
     Inr \<lparr>ps_max = max_mac, ps_violation = violation, ps_sticky = form_boolean (get p ''sticky''),
          ps_aging_type = aging_type, ps_aging_time = aging\<rparr>))))"

text \<open>A policy saved with the values it has keeps its state of synchronisation.\<close>

definition upsert_security :: "int \<Rightarrow> port_policy \<Rightarrow> secure_row list \<Rightarrow> secure_row list" where
  "upsert_security i q rows =
     (let fresh = port_policy.extend q \<lparr>ps_iface = i, ps_enabled = True, ps_sync = PendingApply, ps_success = PendingApply\<rparr>
      in case find (\<lambda>r. ps_iface r = i) rows of
           None \<Rightarrow> rows @ [fresh]
         | Some r \<Rightarrow>
             if ps_enabled r \<and> port_policy.truncate r = q then rows
             else map (\<lambda>r. if ps_iface r = i then fresh else r) rows)"

definition save_optional_profiles :: "switch_db \<Rightarrow> int \<Rightarrow> string \<Rightarrow> payload \<Rightarrow> string + switch_db" where
  "save_optional_profiles db i mode p =
     (if mode = ''routed'' then
        Inr (disable_security i (db\<lparr>ss_port_stp := filter (\<lambda>s. pq_iface s \<noteq> i) (ss_port_stp db)\<rparr>))
      else sbind (read_port_stp p i) (\<lambda>stp.
        let db = db\<lparr>ss_port_stp := upsert_by pq_iface stp (ss_port_stp db)\<rparr> in
        if form_boolean (get p ''port_security_enabled'') then
          if mode \<noteq> ''access'' then Inl ''Port Security can only be enabled on an access port''
          else sbind (read_policy p) (\<lambda>q. Inr (db\<lparr>ss_secure := upsert_security i q (ss_secure db)\<rparr>))
        else Inr (disable_security i db)))"

definition read_interface :: "payload \<Rightarrow> string + l2_iface" where
  "read_interface p =
     (let name = form_text (get p ''if_name'') in
      if name = [] then Inl ''Interface name is required''
      else
      sbind (form_choice (get p ''mode'') ''Mode'' [''access'', ''trunk'', ''hybrid'', ''routed''] ''access'') (\<lambda>mode.
      sbind (form_choice (get p ''admin_status'') ''Admin status'' [''up'', ''down''] ''up'') (\<lambda>admin.
      sbind (form_choice (get p ''oper_status'') ''Oper status'' [''up'', ''down'', ''err-disabled'', ''unknown''] ''unknown'') (\<lambda>oper.
      sbind (form_choice (get p ''speed'') ''Speed'' [''auto'', ''10'', ''100'', ''1000'', ''10000''] ''auto'') (\<lambda>speed.
      sbind (form_choice (get p ''duplex'') ''Duplex'' [''auto'', ''full'', ''half''] ''auto'') (\<lambda>duplex.
      Inr \<lparr>li_id = 0, li_host = [], li_name = name, li_description = form_text (get p ''description''), li_mode = mode,
           li_admin = admin, li_oper = oper, li_speed = speed, li_duplex = duplex, li_success = PendingApply\<rparr>))))))"

definition find_iface :: "switch_db \<Rightarrow> int \<Rightarrow> string \<Rightarrow> l2_iface option" where
  "find_iface db i host = find (\<lambda>r. li_id r = i \<and> li_host r = host) (ss_ifaces db)"

text \<open>The row gets its new values; key and host stay.\<close>

definition update_iface_row :: "int \<Rightarrow> string \<Rightarrow> l2_iface \<Rightarrow> switch_db \<Rightarrow> switch_db" where
  "update_iface_row i host v db =
     db\<lparr>ss_ifaces := map (\<lambda>r. if li_id r = i \<and> li_host r = host then v\<lparr>li_id := i, li_host := host\<rparr> else r) (ss_ifaces db)\<rparr>"

definition insert_iface :: "string \<Rightarrow> l2_iface \<Rightarrow> switch_db \<Rightarrow> string + switch_db \<times> int" where
  "insert_iface host v db =
     (if \<not> known_host db host then Inl ''FOREIGN KEY constraint failed''
      else if list_ex (\<lambda>r. li_host r = host \<and> li_name r = li_name v) (ss_ifaces db)
        then Inl ''UNIQUE constraint failed: t06_interface_l2.host, t06_interface_l2.if_name''
      else Inr (db\<lparr>ss_ifaces := ss_ifaces db @ [v\<lparr>li_id := ss_next_iface db, li_host := host\<rparr>],
             ss_next_iface := ss_next_iface db + 1\<rparr>, ss_next_iface db))"

definition store_iface :: "switch_db \<Rightarrow> string \<Rightarrow> int \<Rightarrow> l2_iface \<Rightarrow> string + switch_db \<times> int" where
  "store_iface db host row_id v =
     (if row_id > 0 then
        sbind (require_immutable_identity (map_option li_name (find_iface db row_id host)) (li_name v) ''Interface'') (\<lambda>_.
        if list_ex (\<lambda>r. li_host r = host \<and> li_name r = li_name v \<and> li_id r \<noteq> row_id) (ss_ifaces db)
        then Inl ''UNIQUE constraint failed: t06_interface_l2.host, t06_interface_l2.if_name''
        else Inr (update_iface_row row_id host v db, row_id))
      else insert_iface host v db)"

definition save_interface_tx :: "switch_db \<Rightarrow> string \<Rightarrow> payload \<Rightarrow> string + switch_db \<times> int" where
  "save_interface_tx db host p =
     sbind (row_id_of (get p ''id'')) (\<lambda>row_id.
     sbind (read_interface p) (\<lambda>v.
     sbind (require (li_mode v \<noteq> ''routed''
              \<or> (case find_device db host of None \<Rightarrow> False | Some d \<Rightarrow> normalize_switch_role (dv_role d) = ''sw3''))
            ''Routed ports require device role sw3'') (\<lambda>_.
     sbind (store_iface db host row_id v) (\<lambda>(db, i).
     sbind (save_mode_profile db host i (li_mode v) p) (\<lambda>db.
     sbind (save_optional_profiles db i (li_mode v) p) (\<lambda>db. Inr (db, i)))))))"

definition save_switch_interface :: "switch_db \<Rightarrow> pyval \<Rightarrow> payload \<Rightarrow> switch_db \<times> (string + int)" where
  "save_switch_interface db host p = transact db (sbind (require_host host) (\<lambda>target. save_interface_tx db target p))"

section \<open>EtherChannels\<close>

definition get_etherchannels :: "switch_db \<Rightarrow> pyval \<Rightarrow> channel_row list" where
  "get_etherchannels db host =
     (let target = form_text host in
      if target = [] then []
      else sort_key cr_number (filter (\<lambda>c. cr_host c = target \<and> cr_success c \<noteq> PendingDelete) (ss_channels db)))"

text \<open>The non-empty names of a comma separated column.\<close>

definition names_of :: "string \<Rightarrow> string list" where
  "names_of s = filter (\<lambda>n. n \<noteq> []) (map strip (split_on (CHR '','') s))"

definition member_char :: "char \<Rightarrow> bool" where
  "member_char c = (is_alpha c \<or> is_digit c \<or> c \<in> set ''./:_-'')"

definition valid_member :: "string \<Rightarrow> bool" where
  "valid_member m = (m \<noteq> [] \<and> is_alpha (hd m) \<and> list_all member_char (tl m))"

text \<open>\<open>^(?:port-channel|po)\d\<close>, case ignored\<close>

definition nested_channel :: "string \<Rightarrow> bool" where
  "nested_channel m = list_ex (\<lambda>pre. starts_with (lower m) pre \<and> drop (length pre) m \<noteq> [] \<and> is_digit (hd (drop (length pre) m)))
     [''port-channel'', ''po'']"

fun check_members :: "string list \<Rightarrow> string list \<Rightarrow> string + unit" where
  "check_members seen [] = Inr ()"
| "check_members seen (m # ms) =
     (if \<not> valid_member m then Inl (''Invalid member interface: '' @ m)
      else if nested_channel m then Inl ''A Port-channel cannot be nested as a member''
      else if lower m \<in> set seen then Inl (''Duplicate member interface: '' @ m)
      else check_members (lower m # seen) ms)"

definition normalize_channel_members :: "pyval \<Rightarrow> string + string" where
  "normalize_channel_members v =
     (let members = names_of (form_text v) in
      if members = [] then Inl ''At least one member interface is required''
      else sbind (check_members [] members) (\<lambda>_. Inr (join '','' members)))"

definition channel_modes :: "string \<Rightarrow> string list" where
  "channel_modes protocol =
     (if protocol = ''lacp'' then [''active'', ''passive'']
      else if protocol = ''pagp'' then [''desirable'', ''auto''] else [''on''])"

record channel_form =
  cf_number :: int
  cf_protocol :: string
  cf_mode :: string
  cf_members :: string
  cf_description :: string

definition read_channel :: "payload \<Rightarrow> string + channel_form" where
  "read_channel p =
     sbind (form_integer (get p ''po_number'') ''Port-channel number'' 1 4096) (\<lambda>number.
     sbind (form_choice (get p ''protocol'') ''Protocol'' [''lacp'', ''pagp'', ''static''] ''lacp'') (\<lambda>protocol.
     sbind (form_choice (get p ''mode'') ''Mode'' (channel_modes protocol) (hd (channel_modes protocol))) (\<lambda>mode.
     sbind (normalize_channel_members (get p ''member_ports'')) (\<lambda>members.
     let description = form_text (get p ''description'') in
     if CHR 0x0A \<in> set description \<or> CHR 0x0D \<in> set description then Inl ''Description must be a single line''
     else Inr \<lparr>cf_number = number, cf_protocol = protocol, cf_mode = mode, cf_members = members,
               cf_description = description\<rparr>))))"

text \<open>The members another channel of the host already has, in the order of the message.\<close>

definition taken_members :: "string list \<Rightarrow> channel_row \<Rightarrow> string list" where
  "taken_members members r =
     sort_key lower (filter (\<lambda>m. lower m \<in> set (map lower (names_of (cr_members r)))) members)"

definition require_free_members :: "switch_db \<Rightarrow> string \<Rightarrow> int \<Rightarrow> string list \<Rightarrow> string + unit" where
  "require_free_members db host row_id members =
     (case find (\<lambda>r. taken_members members r \<noteq> []) (filter (\<lambda>r. cr_host r = host \<and> cr_id r \<noteq> row_id) (ss_channels db)) of
        None \<Rightarrow> Inr ()
      | Some r \<Rightarrow> Inl (''Member interface is already assigned to Port-channel'' @ show_int (cr_number r) @ '': ''
                   @ join '', '' (taken_members members r)))"

text \<open>Ports that left the channel and still have to be told so on the device.\<close>

definition next_cleanup :: "channel_row \<Rightarrow> string list \<Rightarrow> string list" where
  "next_cleanup r members = sort_key lower (remdups
     (filter (\<lambda>m. m \<notin> set members) (names_of (cr_cleanup r) @ names_of (cr_members r))))"

definition find_channel :: "switch_db \<Rightarrow> int \<Rightarrow> string \<Rightarrow> channel_row option" where
  "find_channel db i host = find (\<lambda>r. cr_id r = i \<and> cr_host r = host) (ss_channels db)"

definition update_channel :: "int \<Rightarrow> string \<Rightarrow> (channel_row \<Rightarrow> channel_row) \<Rightarrow> switch_db \<Rightarrow> switch_db" where
  "update_channel i host f db =
     db\<lparr>ss_channels := map (\<lambda>r. if cr_id r = i \<and> cr_host r = host then f r else r) (ss_channels db)\<rparr>"

definition insert_channel :: "string \<Rightarrow> channel_form \<Rightarrow> switch_db \<Rightarrow> string + switch_db \<times> int" where
  "insert_channel host c db =
     (if \<not> known_host db host then Inl ''FOREIGN KEY constraint failed''
      else Inr (db\<lparr>ss_channels := ss_channels db @ [\<lparr>cr_id = ss_next_channel db, cr_host = host, cr_number = cf_number c,
             cr_protocol = cf_protocol c, cr_mode = cf_mode c, cr_members = cf_members c, cr_cleanup = [],
             cr_description = cf_description c, cr_status = ''unknown'', cr_success = PendingApply, cr_present = False\<rparr>],
             ss_next_channel := ss_next_channel db + 1\<rparr>, ss_next_channel db))"

definition save_channel_tx :: "switch_db \<Rightarrow> string \<Rightarrow> payload \<Rightarrow> string + switch_db \<times> int" where
  "save_channel_tx db host p =
     sbind (row_id_of (get p ''id'')) (\<lambda>row_id.
     sbind (read_channel p) (\<lambda>c.
     let members = split_on (CHR '','') (cf_members c) in
     sbind (require_etherchannel_members (map (\<lambda>i. (li_name i, li_mode i)) (filter (\<lambda>i. li_host i = host) (ss_ifaces db))) members) (\<lambda>_.
     if list_ex (\<lambda>r. cr_host r = host \<and> cr_number r = cf_number c \<and> cr_id r \<noteq> row_id) (ss_channels db)
       then Inl (''Port-channel'' @ show_int (cf_number c) @ '' already exists on this switch'')
     else sbind (require_free_members db host row_id members) (\<lambda>_.
       if row_id > 0 then
         sbind (require_immutable_identity (map_option (\<lambda>r. show_int (cr_number r)) (find_channel db row_id host))
           (show_int (cf_number c)) ''EtherChannel'') (\<lambda>_.
         Inr (update_channel row_id host (\<lambda>r. r\<lparr>cr_number := cf_number c, cr_protocol := cf_protocol c, cr_mode := cf_mode c,
                cr_members := cf_members c, cr_cleanup := join '','' (next_cleanup r members),
                cr_description := cf_description c, cr_success := PendingApply\<rparr>) db, row_id))
       else insert_channel host c db))))"

definition save_etherchannel :: "switch_db \<Rightarrow> pyval \<Rightarrow> payload \<Rightarrow> switch_db \<times> (string + int)" where
  "save_etherchannel db host p = transact db (sbind (require_host host) (\<lambda>target. save_channel_tx db target p))"

definition delete_channel_tx :: "switch_db \<Rightarrow> string \<Rightarrow> pyval \<Rightarrow> string + switch_db \<times> bool" where
  "delete_channel_tx db host row =
     (case py_int row of
        None \<Rightarrow> Inl ''invalid literal for int()''
      | Some i \<Rightarrow>
          if i \<le> 0 then Inl ''A valid EtherChannel is required''
          else case find_channel db i host of
              None \<Rightarrow> Inl ''The selected EtherChannel no longer exists''
            | Some r \<Rightarrow>
                if \<not> is_device_backed (cr_present r) (cr_success r)
                then Inr (db\<lparr>ss_channels := filter (\<lambda>r. \<not> (cr_id r = i \<and> cr_host r = host)) (ss_channels db)\<rparr>, True)
                else Inr (update_channel i host (\<lambda>r. r\<lparr>cr_success := PendingDelete\<rparr>) db, False))"

definition delete_etherchannel :: "switch_db \<Rightarrow> pyval \<Rightarrow> pyval \<Rightarrow> switch_db \<times> (string + bool)" where
  "delete_etherchannel db host row = transact db (sbind (require_host host) (\<lambda>target. delete_channel_tx db target row))"

end
