(* ===== verification/Switch_Policies.thy ===== *)
theory Switch_Policies
  imports Switch_Ports
begin

text \<open>
  Per-VLAN spanning tree and Layer 2 security policies in the desired state of a switch
  (\<open>features/switching/stp_repository.py\<close>, \<open>security_repository.py\<close>, \<open>policy_delete_repository.py\<close>,
  \<open>monitoring_repository.py\<close>).

  A policy of a VLAN is created or edited by a save and staged for removal by a deletion; the row itself
  goes when a push has removed the policy from the switch (\<open>Switch_Push\<close>).
\<close>

section \<open>Spanning tree\<close>

definition get_stp_configs :: "switch_db \<Rightarrow> pyval \<Rightarrow> (stp_policy \<times> string option) list" where
  "get_stp_configs db host =
     (let target = form_text host in
      if target = [] then []
      else map (\<lambda>s. (s, map_option vn_name (find (\<lambda>v. vn_host v = sg_host s \<and> vn_vlan v = sg_vlan s) (ss_vlans db))))
             (sort_key sg_vlan (filter (\<lambda>s. sg_host s = target \<and> sg_success s \<noteq> PendingDelete) (ss_stp db))))"

definition find_stp :: "switch_db \<Rightarrow> int \<Rightarrow> string \<Rightarrow> stp_policy option" where
  "find_stp db i host = find (\<lambda>r. sg_id r = i \<and> sg_host r = host) (ss_stp db)"

text \<open>The mode is global on the switch: every row of the host takes it and is staged.\<close>

definition set_stp_mode :: "string \<Rightarrow> string \<Rightarrow> switch_db \<Rightarrow> switch_db" where
  "set_stp_mode host mode db = db\<lparr>ss_stp := map (\<lambda>r. if sg_host r = host
     then r\<lparr>sg_mode := mode, sg_success := PendingApply\<rparr> else r) (ss_stp db)\<rparr>"

definition save_stp_tx :: "switch_db \<Rightarrow> string \<Rightarrow> payload \<Rightarrow> string + switch_db \<times> int" where
  "save_stp_tx db host p =
     sbind (row_id_of (get p ''id'')) (\<lambda>row_id.
     sbind (form_integer (get p ''vlan_id'') ''VLAN ID'' 1 4094) (\<lambda>vlan.
     sbind (form_choice (get p ''stp_mode'') ''STP mode'' [''pvst'', ''rapid-pvst''] ''rapid-pvst'') (\<lambda>mode.
     sbind (form_integer (get_default p ''priority'' (PInt 32768)) ''STP priority'' 0 61440) (\<lambda>priority.
     if priority mod 4096 \<noteq> 0 then Inl ''STP priority must be a multiple of 4096''
     else
     sbind (form_choice (get p ''root_role'') ''Root role'' [''primary'', ''secondary'', ''none''] ''none'') (\<lambda>role.
     sbind (require_active_vlan (ss_vlans db) host vlan ''VLAN'') (\<lambda>_.
     sbind (if row_id > 0 then require_immutable_identity (map_option (\<lambda>r. show_int (sg_vlan r)) (find_stp db row_id host))
              (show_int vlan) ''STP policy'' else Inr ()) (\<lambda>_.
     if list_ex (\<lambda>r. sg_host r = host \<and> sg_vlan r = vlan \<and> sg_id r \<noteq> row_id) (ss_stp db)
       then Inl (''An STP policy already exists for VLAN '' @ show_int vlan)
     else
       let db = set_stp_mode host mode db in
       if row_id > 0 then
         Inr (db\<lparr>ss_stp := map (\<lambda>r. if sg_id r = row_id \<and> sg_host r = host
                then r\<lparr>sg_vlan := vlan, sg_mode := mode, sg_priority := priority, sg_role := role, sg_success := PendingApply\<rparr>
                else r) (ss_stp db)\<rparr>, row_id)
       else if \<not> known_host db host then Inl ''FOREIGN KEY constraint failed''
       else Inr (db\<lparr>ss_stp := ss_stp db @ [\<lparr>sg_id = ss_next_stp db, sg_host = host, sg_vlan = vlan, sg_mode = mode,
                sg_priority = priority, sg_role = role, sg_success = PendingApply\<rparr>],
                ss_next_stp := ss_next_stp db + 1\<rparr>, ss_next_stp db))))))))"

definition save_stp_config :: "switch_db \<Rightarrow> pyval \<Rightarrow> payload \<Rightarrow> switch_db \<times> (string + int)" where
  "save_stp_config db host p = transact db (sbind (require_host host) (\<lambda>target. save_stp_tx db target p))"

section \<open>VLAN protection\<close>

definition save_vlan_security_tx :: "switch_db \<Rightarrow> string \<Rightarrow> payload \<Rightarrow> string + switch_db \<times> int" where
  "save_vlan_security_tx db host p =
     sbind (form_integer (get p ''vlan_id'') ''VLAN ID'' 1 4094) (\<lambda>vlan.
     let snooping = form_boolean (get p ''dhcp_snooping''); dai = form_boolean (get p ''dai_enabled'') in
     if dai \<and> \<not> snooping
     then Inl ''Enable DHCP Snooping before Dynamic ARP Inspection; ARP ACL-based DAI is not managed by this workflow''
     else sbind (require_active_vlan (ss_vlans db) host vlan ''VLAN'') (\<lambda>_.
       case find (\<lambda>r. vs_host r = host \<and> vs_vlan r = vlan) (ss_security db) of
         Some r \<Rightarrow> Inr (db\<lparr>ss_security := map (\<lambda>r. if vs_host r = host \<and> vs_vlan r = vlan
             then r\<lparr>vs_snooping := snooping, vs_dai := dai, vs_success := PendingApply\<rparr> else r) (ss_security db)\<rparr>, vs_id r)
       | None \<Rightarrow>
           if \<not> known_host db host then Inl ''FOREIGN KEY constraint failed''
           else Inr (db\<lparr>ss_security := ss_security db @ [\<lparr>vs_id = ss_next_security db, vs_host = host, vs_vlan = vlan,
                  vs_snooping = snooping, vs_dai = dai, vs_success = PendingApply\<rparr>],
                  ss_next_security := ss_next_security db + 1\<rparr>, ss_next_security db)))"

definition save_l2_vlan_security :: "switch_db \<Rightarrow> pyval \<Rightarrow> payload \<Rightarrow> switch_db \<times> (string + int)" where
  "save_l2_vlan_security db host p =
     transact db (sbind (require_host host) (\<lambda>target. save_vlan_security_tx db target p))"

section \<open>Trusted uplinks\<close>

definition add_trust_tx :: "switch_db \<Rightarrow> string \<Rightarrow> string \<Rightarrow> string + switch_db \<times> int" where
  "add_trust_tx db host name =
     (if \<not> list_ex (\<lambda>i. li_host i = host \<and> li_name i = name \<and> li_mode i \<noteq> ''routed'' \<and> li_success i \<noteq> PendingDelete) (ss_ifaces db)
        then Inl ''Trust port must be an existing Layer 2 interface''
      else if \<not> known_host db host then Inl ''FOREIGN KEY constraint failed''
      else if list_ex (\<lambda>t. tw_host t = host \<and> tw_name t = name) (ss_trust db)
        then Inl ''UNIQUE constraint failed: t06_dhcp_trust_ports.host, t06_dhcp_trust_ports.if_name''
      else Inr (db\<lparr>ss_trust := ss_trust db @ [\<lparr>tw_id = ss_next_trust db, tw_host = host, tw_name = name,
             tw_success = PendingApply\<rparr>], ss_next_trust := ss_next_trust db + 1\<rparr>, ss_next_trust db))"

definition add_l2_trust_port :: "switch_db \<Rightarrow> pyval \<Rightarrow> pyval \<Rightarrow> switch_db \<times> (string + int)" where
  "add_l2_trust_port db host name =
     (if form_text host = [] \<or> form_text name = [] then (db, Inl ''Host and interface are required'')
      else transact db (add_trust_tx db (form_text host) (form_text name)))"

section \<open>Static MAC bindings\<close>

definition hex_char :: "char \<Rightarrow> bool" where
  "hex_char c = (is_digit c \<or> (97 \<le> code (lower_char c) \<and> code (lower_char c) \<le> 102))"

definition canonical_mac :: "pyval \<Rightarrow> string + string" where
  "canonical_mac v =
     (let compact = filter hex_char (form_text v) in
      if length compact \<noteq> 12 then Inl ''MAC address must contain exactly 12 hexadecimal digits''
      else Inr (lower (join ''.'' [take 4 compact, take 4 (drop 4 compact), drop 8 compact])))"

definition find_mac :: "switch_db \<Rightarrow> int \<Rightarrow> string \<Rightarrow> mac_row option" where
  "find_mac db i host = find (\<lambda>m. mr_id m = i \<and> mr_type m = ''static'' \<and> iface_of db host (mr_iface m) (\<lambda>_. True)) (ss_macs db)"

definition iface_name :: "switch_db \<Rightarrow> int \<Rightarrow> string" where
  "iface_name db i = (case find (\<lambda>r. li_id r = i) (ss_ifaces db) of None \<Rightarrow> [] | Some r \<Rightarrow> li_name r)"

text \<open>\<open>UNIQUE(iface_id, mac_addr, vlan_id)\<close>, over rows of every type\<close>

definition mac_taken :: "switch_db \<Rightarrow> int \<Rightarrow> string \<Rightarrow> int \<Rightarrow> int \<Rightarrow> bool" where
  "mac_taken db iface addr vlan row_id =
     list_ex (\<lambda>m. mr_iface m = iface \<and> mr_addr m = addr \<and> mr_vlan m = vlan \<and> mr_id m \<noteq> row_id) (ss_macs db)"

definition store_mac :: "switch_db \<Rightarrow> string \<Rightarrow> int \<Rightarrow> int \<Rightarrow> string \<Rightarrow> int \<Rightarrow> string \<Rightarrow> string + switch_db \<times> int" where
  "store_mac db host row_id iface name vlan addr =
     (if row_id > 0 then
        (case find_mac db row_id host of
           None \<Rightarrow> Inl ''The selected static MAC binding no longer exists''
         | Some m \<Rightarrow>
             if (lower (mr_addr m) \<noteq> lower addr \<or> mr_vlan m \<noteq> vlan \<or> lower (iface_name db (mr_iface m)) \<noteq> lower name)
                \<and> mr_success m \<noteq> PendingApply
             then Inl ''A synchronized static MAC identity cannot be changed; delete it and create a new binding''
             else if mac_taken db iface addr vlan row_id
             then Inl ''UNIQUE constraint failed: t06_iface_mac_table.iface_id, t06_iface_mac_table.mac_addr, t06_iface_mac_table.vlan_id''
             else Inr (db\<lparr>ss_macs := map (\<lambda>r. if mr_id r = row_id \<and> mr_type r = ''static'' \<and> iface_of db host (mr_iface r) (\<lambda>_. True)
                    then r\<lparr>mr_iface := iface, mr_addr := addr, mr_vlan := vlan, mr_success := PendingApply\<rparr> else r) (ss_macs db)\<rparr>, row_id))
      else if mac_taken db iface addr vlan 0
        then Inl ''UNIQUE constraint failed: t06_iface_mac_table.iface_id, t06_iface_mac_table.mac_addr, t06_iface_mac_table.vlan_id''
      else Inr (db\<lparr>ss_macs := ss_macs db @ [\<lparr>mr_id = ss_next_mac db, mr_iface = iface, mr_addr = addr, mr_vlan = vlan,
             mr_type = ''static'', mr_success = PendingApply\<rparr>], ss_next_mac := ss_next_mac db + 1\<rparr>, ss_next_mac db))"

definition save_mac_tx :: "switch_db \<Rightarrow> string \<Rightarrow> payload \<Rightarrow> string + switch_db \<times> int" where
  "save_mac_tx db host p =
     sbind (row_id_of (get p ''id'')) (\<lambda>row_id.
     let name = form_text (get p ''if_name'') in
     sbind (form_integer (get p ''vlan_id'') ''VLAN ID'' 1 4094) (\<lambda>vlan.
     sbind (canonical_mac (get p ''mac_addr'')) (\<lambda>addr.
     sbind (require_active_vlan (ss_vlans db) host vlan ''VLAN'') (\<lambda>_.
     case find (\<lambda>i. li_host i = host \<and> li_name i = name \<and> li_mode i \<noteq> ''routed''
                  \<and> list_ex (\<lambda>v. vn_host v = host \<and> vn_vlan v = vlan) (ss_vlans db)) (ss_ifaces db) of
       None \<Rightarrow> Inl ''Static MAC requires an existing VLAN and Layer 2 interface''
     | Some i \<Rightarrow> store_mac db host row_id (li_id i) name vlan addr))))"

definition save_static_mac :: "switch_db \<Rightarrow> pyval \<Rightarrow> payload \<Rightarrow> switch_db \<times> (string + int)" where
  "save_static_mac db host p = transact db (sbind (require_host host) (\<lambda>target. save_mac_tx db target p))"

section \<open>The security page\<close>

text \<open>A VLAN without a policy is shown with id 0, both features off and state \<open>skipped\<close>.\<close>

record vlan_protection =
  vp_id :: int
  vp_vlan :: int
  vp_name :: string
  vp_snooping :: bool
  vp_dai :: bool
  vp_success :: sync_status

record security_view =
  sx_vlans :: "vlan_protection list"
  sx_trust :: "trust_row list"
  sx_macs :: "(mac_row \<times> string) list"
  sx_ifaces :: "l2_iface list"

definition protection_of :: "switch_db \<Rightarrow> vlan_row \<Rightarrow> vlan_protection" where
  "protection_of db v =
     (case find (\<lambda>s. vs_host s = vn_host v \<and> vs_vlan s = vn_vlan v \<and> vs_success s \<noteq> PendingDelete) (ss_security db) of
        None \<Rightarrow> \<lparr>vp_id = 0, vp_vlan = vn_vlan v, vp_name = vn_name v, vp_snooping = False, vp_dai = False, vp_success = Skipped\<rparr>
      | Some s \<Rightarrow> \<lparr>vp_id = vs_id s, vp_vlan = vn_vlan v, vp_name = vn_name v, vp_snooping = vs_snooping s,
                   vp_dai = vs_dai s, vp_success = vs_success s\<rparr>)"

definition mode_rank :: "string \<Rightarrow> nat" where
  "mode_rank m = (if m = ''trunk'' then 0 else if m = ''hybrid'' then 1 else 2)"

text \<open>A list sorted by the second criterion first, then stably by the first one.\<close>

definition static_bindings :: "switch_db \<Rightarrow> string \<Rightarrow> (mac_row \<times> string) list" where
  "static_bindings db host = map (\<lambda>m. (m, iface_name db (mr_iface m)))
     (sort_key mr_vlan (sort_key mr_addr
       (filter (\<lambda>m. mr_type m = ''static'' \<and> iface_of db host (mr_iface m) (\<lambda>_. True)) (ss_macs db))))"

definition get_l2_security :: "switch_db \<Rightarrow> pyval \<Rightarrow> security_view" where
  "get_l2_security db host =
     (let target = form_text host in
      if target = [] then \<lparr>sx_vlans = [], sx_trust = [], sx_macs = [], sx_ifaces = []\<rparr>
      else \<lparr>sx_vlans = map (protection_of db) (sort_key vn_vlan (filter (\<lambda>v. vn_host v = target \<and> selectable_vlan v) (ss_vlans db))),
            sx_trust = sort_key (\<lambda>t. lower (tw_name t)) (filter (\<lambda>t. tw_host t = target \<and> tw_success t \<noteq> PendingDelete) (ss_trust db)),
            sx_macs = filter (\<lambda>(m, _). mr_success m \<noteq> PendingDelete) (static_bindings db target),
            sx_ifaces = sort_key (\<lambda>i. mode_rank (li_mode i)) (by_name
              (filter (\<lambda>i. li_host i = target \<and> li_mode i \<noteq> ''routed'' \<and> li_success i \<noteq> PendingDelete) (ss_ifaces db)))\<rparr>)"

definition get_mac_table :: "switch_db \<Rightarrow> pyval \<Rightarrow> (mac_row \<times> string) list" where
  "get_mac_table db host = map (\<lambda>m. (m, iface_name db (mr_iface m)))
     (sort_key mr_vlan (sort_key (\<lambda>m. lower (mr_addr m))
       (filter (\<lambda>m. iface_of db (form_text host) (mr_iface m) (\<lambda>_. True)) (ss_macs db))))"

section \<open>Staged removal\<close>

text \<open>\<open>_stage_host_row\<close>, with the table given by its host and key columns and the staged rows.\<close>

definition staged :: "pyval \<Rightarrow> string \<Rightarrow> (int \<Rightarrow> string + switch_db) \<Rightarrow> string + switch_db \<times> unit" where
  "staged row label stage =
     (case py_int row of
        None \<Rightarrow> Inl ''invalid literal for int()''
      | Some i \<Rightarrow> if i \<le> 0 then Inl (''A valid '' @ label @ '' is required'') else sbind (stage i) (\<lambda>db. Inr (db, ())))"

definition delete_stp_config :: "switch_db \<Rightarrow> pyval \<Rightarrow> pyval \<Rightarrow> switch_db \<times> (string + unit)" where
  "delete_stp_config db host row = transact db (sbind (require_host host) (\<lambda>h. staged row ''STP policy'' (\<lambda>i.
     sbind (require (list_ex (\<lambda>r. sg_id r = i \<and> sg_host r = h) (ss_stp db)) ''The selected STP policy no longer exists'') (\<lambda>_.
     Inr (db\<lparr>ss_stp := map (\<lambda>r. if sg_id r = i \<and> sg_host r = h then r\<lparr>sg_success := PendingDelete\<rparr> else r) (ss_stp db)\<rparr>)))))"

definition delete_l2_vlan_security :: "switch_db \<Rightarrow> pyval \<Rightarrow> pyval \<Rightarrow> switch_db \<times> (string + unit)" where
  "delete_l2_vlan_security db host row = transact db (sbind (require_host host) (\<lambda>h. staged row ''VLAN protection policy'' (\<lambda>i.
     sbind (require (list_ex (\<lambda>r. vs_id r = i \<and> vs_host r = h) (ss_security db)) ''The selected VLAN protection policy no longer exists'') (\<lambda>_.
     Inr (db\<lparr>ss_security := map (\<lambda>r. if vs_id r = i \<and> vs_host r = h then r\<lparr>vs_success := PendingDelete\<rparr> else r) (ss_security db)\<rparr>)))))"

definition delete_l2_trust_port :: "switch_db \<Rightarrow> pyval \<Rightarrow> pyval \<Rightarrow> switch_db \<times> (string + unit)" where
  "delete_l2_trust_port db host row = transact db (sbind (require_host host) (\<lambda>h. staged row ''trusted uplink'' (\<lambda>i.
     sbind (require (list_ex (\<lambda>r. tw_id r = i \<and> tw_host r = h) (ss_trust db)) ''The selected trusted uplink no longer exists'') (\<lambda>_.
     Inr (db\<lparr>ss_trust := map (\<lambda>r. if tw_id r = i \<and> tw_host r = h then r\<lparr>tw_success := PendingDelete\<rparr> else r) (ss_trust db)\<rparr>)))))"

definition delete_static_mac :: "switch_db \<Rightarrow> pyval \<Rightarrow> pyval \<Rightarrow> switch_db \<times> (string + unit)" where
  "delete_static_mac db host row = transact db (sbind (require_host host) (\<lambda>h. staged row ''static MAC binding'' (\<lambda>i.
     let hit = (\<lambda>m. mr_id m = i \<and> mr_type m = ''static'' \<and> iface_of db h (mr_iface m) (\<lambda>_. True)) in
     sbind (require (list_ex hit (ss_macs db)) ''The selected static MAC binding no longer exists'') (\<lambda>_.
     Inr (db\<lparr>ss_macs := map (\<lambda>r. if hit r then r\<lparr>mr_success := PendingDelete\<rparr> else r) (ss_macs db)\<rparr>)))))"

text \<open>Saving any STP policy of a switch cancels the staged deletion of all its others.\<close>

lemma saved_stp_cancels_deletions:
  assumes "r \<in> set (ss_stp (set_stp_mode h m db))" "sg_host r = h"
  shows "sg_success r = PendingApply"
proof -
  let ?f = "\<lambda>q. if sg_host q = h then q\<lparr>sg_mode := m, sg_success := PendingApply\<rparr> else q"
  have "r \<in> ?f ` set (ss_stp db)" using assms(1) by (simp add: set_stp_mode_def)
  then obtain q where "r = ?f q" by (rule imageE)
  then show ?thesis using assms(2) by (cases "sg_host q = h") simp_all
qed

end
