(* ===== verification/Switch_Commands.thy ===== *)
theory Switch_Commands
  imports Py_Values
begin

text \<open>
  Cisco IOS rendering for Layer-2 switches (\<open>features/switching/commands.py\<close> and
  \<open>interface_commands.py\<close>): VLANs, SVIs, spanning tree, VTP, security, ports and EtherChannels.

  A dictionary the task builders fill is a record; a value that is only printed or tested is a
  \<open>pyval\<close>, so that \<open>NULL\<close> prints as the source prints it. \<open>ValueError\<close> is the left side of a sum.
  The lemmas show what the order of the commands must be on the device and that each group of
  commands covers its rows exactly.
\<close>

section \<open>VLANs and SVIs\<close>

record vlan_item =
  vl_remove :: bool
  vl_id :: int
  vl_name :: string
  vl_state :: string

definition render_vlan_item :: "vlan_item \<Rightarrow> string list" where
  "render_vlan_item v =
     (if vl_remove v then [''no vlan '' @ show_int (vl_id v)]
      else [''vlan '' @ show_int (vl_id v)]
        @ (if vl_name v \<noteq> [] then ['' name '' @ vl_name v] else [])
        @ ['' state '' @ vl_state v, '' exit''])"

definition render_vlan :: "vlan_item list \<Rightarrow> string list" where
  "render_vlan vs = concat (map render_vlan_item vs)"

record svi_item =
  sv_remove :: bool
  sv_vlan :: int
  sv_ip :: pyval
  sv_mask :: pyval
  sv_shutdown :: pyval

definition render_svi_item :: "svi_item \<Rightarrow> string list" where
  "render_svi_item s =
     (if sv_remove s then [''no interface Vlan'' @ show_int (sv_vlan s)]
      else [''interface Vlan'' @ show_int (sv_vlan s),
            (if truthy (sv_ip s) \<and> truthy (sv_mask s)
             then '' ip address '' @ py_str (sv_ip s) @ '' '' @ py_str (sv_mask s) else '' no ip address''),
            (if truthy (sv_shutdown s) then '' shutdown'' else '' no shutdown''),
            '' exit''])"

definition render_svi :: "pyval option \<Rightarrow> svi_item list \<Rightarrow> string list" where
  "render_svi routing items =
     (case routing of None \<Rightarrow> [] | Some r \<Rightarrow> [if truthy r then ''ip routing'' else ''no ip routing''])
     @ concat (map render_svi_item items)"

section \<open>Spanning tree\<close>

record stp_row =
  st_vlan :: int
  st_remove :: bool
  st_mode :: string
  st_role :: string
  st_priority :: pyval

record stp_port =
  sp_name :: string
  sp_trunk :: bool
  sp_portfast :: string
  sp_bpduguard :: string
  sp_bpdufilter :: string
  sp_root_guard :: string
  sp_loop_guard :: string

definition stp_row_command :: "stp_row \<Rightarrow> string" where
  "stp_row_command r =
     (let v = ''spanning-tree vlan '' @ show_int (st_vlan r) in
      if st_remove r then ''no '' @ v @ '' priority''
      else if st_role r \<in> {''primary'', ''secondary''} then v @ '' root '' @ st_role r
      else v @ '' priority '' @ py_str (st_priority r))"

definition stp_port_flags :: "stp_port \<Rightarrow> (string \<times> string) list" where
  "stp_port_flags p =
     [(sp_portfast p, ''spanning-tree portfast''), (sp_bpduguard p, ''spanning-tree bpduguard enable''),
      (sp_bpdufilter p, ''spanning-tree bpdufilter enable''), (sp_root_guard p, ''spanning-tree guard root''),
      (sp_loop_guard p, ''spanning-tree guard loop'')]"

definition render_stp_port :: "stp_port \<Rightarrow> string list" where
  "render_stp_port p =
     [''interface '' @ sp_name p]
     @ map (\<lambda>(value, command).
         if value = ''enabled''
         then '' '' @ (if command = ''spanning-tree portfast'' \<and> sp_trunk p
                       then ''spanning-tree portfast trunk'' else command)
         else '' no '' @ command) (stp_port_flags p)
     @ ['' exit'']"

definition render_stp :: "stp_row list \<Rightarrow> stp_port list \<Rightarrow> string + string list" where
  "render_stp rows ports =
     (let active = filter (\<lambda>r. \<not> st_remove r) rows in
      if list_ex (\<lambda>r. st_mode r = ''mst'') active
      then Inl ''MST push requires an explicit instance-to-VLAN mapping and is not supported''
      else Inr ((case active of [] \<Rightarrow> [] | r # _ \<Rightarrow> [''spanning-tree mode '' @ st_mode r])
        @ map stp_row_command rows @ concat (map render_stp_port ports)))"

section \<open>VTP\<close>

record vtp_row =
  vr_domain :: string
  vr_version :: int
  vr_database :: string
  vr_mode :: string
  vr_pruning :: bool

definition render_vtp :: "vtp_row list \<Rightarrow> string list" where
  "render_vtp rows =
     (case rows of
        [] \<Rightarrow> []
      | first # _ \<Rightarrow>
          [''vtp domain '' @ vr_domain first, ''vtp version '' @ show_int (vr_version first)]
          @ (case find (\<lambda>r. vr_database r = ''vlan'') rows of
               None \<Rightarrow> []
             | Some r \<Rightarrow> if vr_mode r = [] then [] else [''vtp mode '' @ vr_mode r])
          @ [if vr_pruning first then ''vtp pruning'' else ''no vtp pruning''])"

section \<open>Security\<close>

record security_vlan =
  sc_vlan :: int
  sc_snooping :: bool
  sc_dai :: bool

record trust_port =
  tp_name :: string
  tp_remove :: bool

record secure_port =
  pt_name :: string
  pt_enabled :: bool
  pt_max_mac :: pyval
  pt_violation :: string
  pt_sticky :: bool
  pt_aging_time :: pyval
  pt_aging_type :: pyval

record static_mac =
  mc_remove :: bool
  mc_addr :: string
  mc_vlan :: int
  mc_port :: string

definition vlan_list :: "security_vlan list \<Rightarrow> string" where
  "vlan_list vs = join '','' (map (\<lambda>v. show_int (sc_vlan v)) vs)"

definition render_snooping :: "security_vlan list \<Rightarrow> string list" where
  "render_snooping vs =
     (let on = filter sc_snooping vs in
      (if on \<noteq> [] then [''ip dhcp snooping'', ''ip dhcp snooping vlan '' @ vlan_list on] else [])
      @ map (\<lambda>v. ''no ip dhcp snooping vlan '' @ show_int (sc_vlan v)) (filter (\<lambda>v. \<not> sc_snooping v) vs))"

definition render_dai :: "security_vlan list \<Rightarrow> string list" where
  "render_dai vs =
     (let on = filter sc_dai vs in
      (if on \<noteq> [] then [''ip arp inspection vlan '' @ vlan_list on] else [])
      @ map (\<lambda>v. ''no ip arp inspection vlan '' @ show_int (sc_vlan v)) (filter (\<lambda>v. \<not> sc_dai v) vs))"

definition render_trust_port :: "trust_port \<Rightarrow> string list" where
  "render_trust_port p =
     [''interface '' @ tp_name p,
      (if tp_remove p then '' no ip dhcp snooping trust'' else '' ip dhcp snooping trust''),
      (if tp_remove p then '' no ip arp inspection trust'' else '' ip arp inspection trust''),
      '' exit'']"

definition render_secure_port :: "secure_port \<Rightarrow> string list" where
  "render_secure_port p =
     [''interface '' @ pt_name p]
     @ (if \<not> pt_enabled p then ['' no switchport port-security'']
        else ['' switchport mode access'', '' switchport port-security'',
              '' switchport port-security maximum '' @ py_str (pt_max_mac p),
              '' switchport port-security violation '' @ pt_violation p]
          @ (if pt_sticky p then ['' switchport port-security mac-address sticky''] else [])
          @ (if truthy (pt_aging_time p)
             then ['' switchport port-security aging time '' @ py_str (pt_aging_time p),
                   '' switchport port-security aging type '' @ py_str (pt_aging_type p)] else []))
     @ ['' exit'']"

definition render_static_mac :: "static_mac \<Rightarrow> string" where
  "render_static_mac m =
     (if mc_remove m then ''no '' else '''') @ ''mac address-table static '' @ mc_addr m @ '' vlan ''
       @ show_int (mc_vlan m) @ '' interface '' @ mc_port m"

definition render_security :: "security_vlan list \<Rightarrow> trust_port list \<Rightarrow> secure_port list \<Rightarrow> static_mac list
    \<Rightarrow> string list" where
  "render_security vlans trust ports macs =
     render_snooping vlans @ render_dai vlans @ concat (map render_trust_port trust)
     @ concat (map render_secure_port ports) @ map render_static_mac macs"

section \<open>Ports and EtherChannels\<close>

definition is_port_channel :: "string \<Rightarrow> bool" where
  "is_port_channel name =
     (let n = filter (\<lambda>c. c \<noteq> CHR '' '') (lower (strip name)) in
      starts_with n ''port-channel'' \<or> starts_with n ''portchannel''
      \<or> (starts_with n ''po'' \<and> drop 2 n \<noteq> [] \<and> is_digit (hd (drop 2 n))))"

record port_item =
  po_name :: string
  po_description :: pyval
  po_admin :: string
  po_speed :: pyval
  po_duplex :: pyval
  po_drop_security :: bool
  po_mode :: string
  po_access_vlan :: pyval
  po_voice_vlan :: pyval
  po_encapsulation :: pyval
  po_native_vlan :: pyval
  po_allowed :: pyval

definition port_mode_commands :: "port_item \<Rightarrow> string list" where
  "port_mode_commands p =
     (if po_mode p = ''access'' then
        ['' switchport mode access'', '' switchport access vlan '' @ py_str (po_access_vlan p),
         (if po_voice_vlan p \<noteq> PNone then '' switchport voice vlan '' @ py_str (po_voice_vlan p)
          else '' no switchport voice vlan'')]
      else if po_mode p = ''trunk'' then
        ['' switchport trunk encapsulation '' @ py_str (po_encapsulation p), '' switchport mode trunk'',
         '' switchport trunk native vlan '' @ py_str (po_native_vlan p),
         '' switchport trunk allowed vlan '' @ py_str (po_allowed p)]
      else [])"

definition render_port :: "port_item \<Rightarrow> string list" where
  "render_port p =
     [''interface '' @ po_name p,
      (if truthy (po_description p) then '' description '' @ py_str (po_description p) else '' no description''),
      (if po_admin p = ''down'' then '' shutdown'' else '' no shutdown'')]
     @ (if is_port_channel (po_name p) then []
        else ['' speed '' @ py_str (po_speed p), '' duplex '' @ py_str (po_duplex p)])
     @ (if po_drop_security p then ['' no switchport port-security''] else [])
     @ (if po_mode p = ''routed'' then ['' no switchport'', '' exit'']
        else '' switchport'' # port_mode_commands p @ ['' exit''])"

record channel_item =
  ch_number :: int
  ch_mode :: string
  ch_description :: pyval
  ch_members :: pyval
  ch_cleanup :: pyval
  ch_remove :: bool

definition port_names :: "pyval \<Rightarrow> string list" where
  "port_names v = filter (\<lambda>s. s \<noteq> []) (map strip (split_on (CHR '','') (text_or v '''')))"

definition leave_channel :: "string \<Rightarrow> string list" where
  "leave_channel member = [''interface '' @ member, '' no channel-group'', '' exit'']"

definition join_channel :: "channel_item \<Rightarrow> string \<Rightarrow> string list" where
  "join_channel c member =
     [''interface '' @ member, '' channel-group '' @ show_int (ch_number c) @ '' mode '' @ ch_mode c, '' exit'']"

text \<open>\<open>dict.fromkeys\<close>: first occurrences, in order.\<close>

definition unique_names :: "string list \<Rightarrow> string list" where
  "unique_names xs = rev (remdups (rev xs))"

definition render_channel :: "channel_item \<Rightarrow> string list" where
  "render_channel c =
     (let members = port_names (ch_members c); cleanup = port_names (ch_cleanup c);
          name = ''interface Port-channel'' @ show_int (ch_number c)
      in if ch_remove c then
           concat (map leave_channel (unique_names (members @ cleanup))) @ [''no '' @ name]
         else
           concat (map leave_channel cleanup) @ concat (map (join_channel c) members)
           @ [name, (if truthy (ch_description c) then '' description '' @ py_str (ch_description c)
                     else '' no description''), '' exit''])"

definition render_interfaces :: "port_item list \<Rightarrow> channel_item list \<Rightarrow> string list" where
  "render_interfaces ports channels = concat (map render_port ports) @ concat (map render_channel channels)"

section \<open>Dispatch\<close>

record l2_payload =
  l2_vlans :: "vlan_item list"
  l2_routing :: "pyval option"
  l2_svis :: "svi_item list"
  l2_ports :: "port_item list"
  l2_channels :: "channel_item list"
  l2_stp_rows :: "stp_row list"
  l2_stp_ports :: "stp_port list"
  l2_vtp :: "vtp_row list"
  l2_security_vlans :: "security_vlan list"
  l2_trust :: "trust_port list"
  l2_secure_ports :: "secure_port list"
  l2_macs :: "static_mac list"

definition render_commands :: "string \<Rightarrow> l2_payload \<Rightarrow> string + string list" where
  "render_commands module p =
     (if module = ''vlan'' then Inr (render_vlan (l2_vlans p))
      else if module = ''svi'' then Inr (render_svi (l2_routing p) (l2_svis p))
      else if module = ''interfaces'' then Inr (render_interfaces (l2_ports p) (l2_channels p))
      else if module = ''stp'' then render_stp (l2_stp_rows p) (l2_stp_ports p)
      else if module = ''vtp'' then Inr (render_vtp (l2_vtp p))
      else if module = ''security''
        then Inr (render_security (l2_security_vlans p) (l2_trust p) (l2_secure_ports p) (l2_macs p))
      else Inl (''Unsupported Layer 2 module: '' @ module))"

section \<open>Blocks\<close>

text \<open>
  How IOS reads the commands: \<open>walk\<close> follows the configuration mode. A command that starts with
  a blank needs an open block, \<open>exit\<close> closes it, any other command needs the global mode, and
  \<open>interface\<close> and \<open>vlan\<close> commands open a block. \<open>None\<close> is a command in the wrong mode.
\<close>

definition opens :: "string \<Rightarrow> bool" where
  "opens c = (starts_with c ''interface '' \<or> starts_with c ''vlan '')"

fun walk :: "bool \<Rightarrow> string list \<Rightarrow> bool option" where
  "walk b [] = Some b"
| "walk b (c # cs) =
     (if c = '' exit'' then (if b then walk False cs else None)
      else if starts_with c '' '' then (if b then walk True cs else None)
      else if b then None else walk (opens c) cs)"

lemma walk_append: "walk b (xs @ ys) = Option.bind (walk b xs) (\<lambda>b. walk b ys)"
  by (induction b xs rule: walk.induct) auto

definition closed :: "string list \<Rightarrow> bool" where
  "closed cs \<longleftrightarrow> walk False cs = Some False"

lemma closed_Nil [simp]: "closed []"
  by (simp add: closed_def)

lemma closed_append [simp]: "closed xs \<Longrightarrow> closed ys \<Longrightarrow> closed (xs @ ys)"
  by (simp add: closed_def walk_append)

lemma closed_concat: "(\<And>x. x \<in> set xs \<Longrightarrow> closed (f x)) \<Longrightarrow> closed (concat (map f xs))"
  by (induction xs) auto

lemma closed_global: "(\<And>c. c \<in> set cs \<Longrightarrow> c \<noteq> '' exit'' \<and> \<not> starts_with c '' '' \<and> \<not> opens c) \<Longrightarrow> closed cs"
  by (induction cs) (auto simp: closed_def)

text \<open>A block: a command that opens one, commands inside it, \<open>exit\<close>.\<close>

lemma walk_inside: "(\<And>c. c \<in> set cs \<Longrightarrow> c \<noteq> '' exit'' \<and> starts_with c '' '') \<Longrightarrow> walk True cs = Some True"
  by (induction cs) auto

lemma closed_block:
  assumes "opens c" "\<And>x. x \<in> set cs \<Longrightarrow> x \<noteq> '' exit'' \<and> starts_with x '' ''"
  shows "closed (c # cs @ ['' exit''])"
proof -
  have "c \<noteq> '' exit''" "\<not> starts_with c '' ''"
    using assms(1) by (auto simp: opens_def starts_with_iff)
  then show ?thesis using assms(1) walk_inside[OF assms(2)] by (simp add: closed_def walk_append)
qed

lemma closed_vlan: "closed (render_vlan_item v)"
proof (cases "vl_remove v")
  case True
  then show ?thesis by (simp add: render_vlan_item_def closed_def opens_def)
next
  case False
  have "closed ((''vlan '' @ show_int (vl_id v)) #
      ((if vl_name v \<noteq> [] then ['' name '' @ vl_name v] else []) @ ['' state '' @ vl_state v]) @ ['' exit''])"
    by (rule closed_block) (auto simp: opens_def split: if_splits)
  then show ?thesis using False by (simp add: render_vlan_item_def)
qed

lemma closed_svi: "closed (render_svi_item s)"
  by (simp add: render_svi_item_def closed_def opens_def)

lemma closed_stp_port: "closed (render_stp_port p)"
  by (simp add: render_stp_port_def stp_port_flags_def closed_def opens_def)

lemma closed_trust: "closed (render_trust_port p)"
  by (simp add: render_trust_port_def closed_def opens_def)

lemma closed_secure_port: "closed (render_secure_port p)"
  by (simp add: render_secure_port_def closed_def opens_def)

lemma closed_port: "closed (render_port p)"
  by (simp add: render_port_def port_mode_commands_def closed_def opens_def)

lemma closed_channel: "closed (render_channel c)"
proof -
  have "closed (leave_channel m)" "closed (join_channel c m)" for m
    by (simp_all add: leave_channel_def join_channel_def closed_def opens_def)
  moreover have "closed [''no '' @ ''interface Port-channel'' @ show_int (ch_number c)]"
    by (simp add: closed_def opens_def)
  moreover have "closed [''interface Port-channel'' @ show_int (ch_number c), '' description '' @ d, '' exit'']"
    "closed [''interface Port-channel'' @ show_int (ch_number c), '' no description'', '' exit'']" for d
    by (simp_all add: closed_def opens_def)
  ultimately show ?thesis
    unfolding render_channel_def Let_def by (auto intro!: closed_append closed_concat)
qed

lemma closed_security: "closed (render_security vs ts ps ms)"
proof -
  have "closed (render_snooping vs)" "closed (render_dai vs)" "closed (map render_static_mac ms)"
    by (rule closed_global; auto simp: render_snooping_def render_dai_def render_static_mac_def Let_def
        opens_def split: if_splits)+
  then show ?thesis unfolding render_security_def
    by (intro closed_append closed_concat closed_trust closed_secure_port)
qed

lemma closed_stp: "render_stp rows ports = Inr cs \<Longrightarrow> closed cs"
proof -
  assume a: "render_stp rows ports = Inr cs"
  have "closed (map stp_row_command rows)"
    by (rule closed_global) (auto simp: stp_row_command_def Let_def opens_def split: if_splits)
  moreover have "closed [''spanning-tree mode '' @ m]" for m by (simp add: closed_def opens_def)
  moreover have "closed (concat (map render_stp_port ports))" by (intro closed_concat closed_stp_port)
  moreover have "\<exists>h. cs = h @ map stp_row_command rows @ concat (map render_stp_port ports)
      \<and> (h = [] \<or> (\<exists>m. h = [''spanning-tree mode '' @ m]))"
    using a by (cases "filter (\<lambda>r. \<not> st_remove r) rows") (auto simp: render_stp_def Let_def split: if_splits)
  ultimately show ?thesis by (metis closed_append closed_Nil)
qed

lemma render_commands_closed:
  assumes "render_commands m p = Inr cs"
  shows "closed cs"
proof -
  have "closed (render_vlan (l2_vlans p))"
    unfolding render_vlan_def by (intro closed_concat closed_vlan)
  moreover have "closed (render_svi (l2_routing p) (l2_svis p))"
    unfolding render_svi_def
    by (intro closed_append closed_concat closed_svi closed_global)
      (auto simp: opens_def split: option.splits if_splits)
  moreover have "closed (render_interfaces (l2_ports p) (l2_channels p))"
    unfolding render_interfaces_def by (intro closed_append closed_concat closed_port closed_channel)
  moreover have "closed (render_vtp (l2_vtp p))"
    by (rule closed_global) (auto simp: render_vtp_def opens_def split: list.splits option.splits if_splits)
  ultimately show ?thesis
    using assms closed_security closed_stp by (auto simp: render_commands_def split: if_splits)
qed

text \<open>Every Layer-2 rendering is well bracketed: whatever the module and its rows, each
  \<open>interface\<close> or \<open>vlan\<close> block that is entered is left by \<open>exit\<close> before the next global command,
  no block command is sent in global mode, and the device ends in the mode it started in.\<close>

theorem rendering_well_bracketed:
  assumes "render_commands m p = Inr cs"
  shows "walk False cs = Some False"
  using render_commands_closed[OF assms] by (simp add: closed_def)

section \<open>Transitions of a port\<close>

text \<open>Property C18. Port security is dropped before the port changes its mode: when a task asks for it,
  \<open>no switchport port-security\<close> is in the block, every switchport command of the block comes after
  it, and a routed port gets \<open>no switchport\<close> as its last setting and no Layer-2 setting at all.\<close>

theorem port_security_dropped_first:
  "(po_drop_security p \<longrightarrow>
     (\<exists>a b. render_port p = a @ '' no switchport port-security'' # b
        \<and> (\<forall>c \<in> set a. \<not> starts_with c '' switchport'' \<and> \<not> starts_with c '' no switchport'')))
   \<and> (po_mode p = ''routed'' \<longrightarrow>
     (\<exists>a. render_port p = a @ ['' no switchport'', '' exit'']
        \<and> (\<forall>c \<in> set a. \<not> starts_with c '' switchport'')))"
proof -
  let ?a = "[''interface '' @ po_name p,
      (if truthy (po_description p) then '' description '' @ py_str (po_description p) else '' no description''),
      (if po_admin p = ''down'' then '' shutdown'' else '' no shutdown'')]
     @ (if is_port_channel (po_name p) then []
        else ['' speed '' @ py_str (po_speed p), '' duplex '' @ py_str (po_duplex p)])"
  let ?b = "if po_mode p = ''routed'' then ['' no switchport'', '' exit'']
        else '' switchport'' # port_mode_commands p @ ['' exit'']"
  have a: "\<forall>c \<in> set ?a. \<not> starts_with c '' switchport'' \<and> \<not> starts_with c '' no switchport''" by simp
  have "po_drop_security p \<Longrightarrow> render_port p = ?a @ '' no switchport port-security'' # ?b"
    by (simp add: render_port_def)
  moreover have "po_mode p = ''routed'' \<Longrightarrow> render_port p
      = (?a @ (if po_drop_security p then ['' no switchport port-security''] else []))
        @ ['' no switchport'', '' exit'']"
    by (simp add: render_port_def)
  moreover have "\<forall>c \<in> set (?a @ (if po_drop_security p then ['' no switchport port-security''] else [])).
      \<not> starts_with c '' switchport''" by simp
  ultimately show ?thesis using a by blast
qed

section \<open>Membership of an EtherChannel\<close>

text \<open>The channel commands on a device: the current interface and the channel of every port.\<close>

fun channel_step :: "string \<times> (string \<rightharpoonup> string) \<Rightarrow> string \<Rightarrow> string \<times> (string \<rightharpoonup> string)" where
  "channel_step (cur, g) c =
     (if starts_with c ''interface '' then (drop 10 c, g)
      else if c = '' no channel-group'' then (cur, g(cur := None))
      else if starts_with c '' channel-group '' then (cur, g(cur \<mapsto> drop 15 c))
      else (cur, g))"

definition channel_after :: "string list \<Rightarrow> (string \<rightharpoonup> string) \<Rightarrow> (string \<rightharpoonup> string)" where
  "channel_after cs g = snd (foldl channel_step ([], g) cs)"

lemma channel_after_leave:
  "\<exists>cur'. foldl channel_step (cur, g) (concat (map leave_channel ms))
     = (cur', \<lambda>p. if p \<in> set ms then None else g p)"
proof (induction ms arbitrary: cur g)
  case (Cons m ms)
  have "foldl channel_step (cur, g) (leave_channel m) = (m, g(m := None))"
    by (simp add: leave_channel_def)
  moreover obtain cur' where "foldl channel_step (m, g(m := None)) (concat (map leave_channel ms))
      = (cur', \<lambda>p. if p \<in> set ms then None else (g(m := None)) p)" using Cons.IH by blast
  ultimately show ?case by (auto simp: fun_eq_iff)
qed auto

lemma channel_after_join:
  "\<exists>cur'. foldl channel_step (cur, g) (concat (map (join_channel c) ms))
     = (cur', \<lambda>p. if p \<in> set ms then Some (show_int (ch_number c) @ '' mode '' @ ch_mode c) else g p)"
proof (induction ms arbitrary: cur g)
  case (Cons m ms)
  let ?v = "show_int (ch_number c) @ '' mode '' @ ch_mode c"
  have "foldl channel_step (cur, g) (join_channel c m) = (m, g(m \<mapsto> ?v))"
    by (simp add: join_channel_def)
  moreover obtain cur' where "foldl channel_step (m, g(m \<mapsto> ?v)) (concat (map (join_channel c) ms))
      = (cur', \<lambda>p. if p \<in> set ms then Some ?v else (g(m \<mapsto> ?v)) p)" using Cons.IH by blast
  ultimately show ?case by (auto simp: fun_eq_iff)
qed auto

lemma set_unique_names [simp]: "set (unique_names xs) = set xs"
  by (simp add: unique_names_def)

text \<open>Property C19. What the commands of an EtherChannel do on the device, from any previous membership:
  a removal takes every listed and cleaned-up port out of its channel; a setup puts exactly the
  listed ports into the channel, takes the cleaned-up ports that are no longer listed out, and
  leaves all other ports alone.\<close>

theorem channel_membership:
  "channel_after (render_channel c) g p =
    (if ch_remove c
     then (if p \<in> set (port_names (ch_members c)) \<union> set (port_names (ch_cleanup c)) then None else g p)
     else if p \<in> set (port_names (ch_members c))
       then Some (show_int (ch_number c) @ '' mode '' @ ch_mode c)
     else if p \<in> set (port_names (ch_cleanup c)) then None else g p)"
proof (cases "ch_remove c")
  case True
  obtain cur' where "foldl channel_step ([], g)
      (concat (map leave_channel (unique_names (port_names (ch_members c) @ port_names (ch_cleanup c)))))
    = (cur', \<lambda>p. if p \<in> set (unique_names (port_names (ch_members c) @ port_names (ch_cleanup c))) then None else g p)"
    using channel_after_leave by blast
  then show ?thesis using True by (auto simp: channel_after_def render_channel_def Let_def)
next
  case False
  let ?g1 = "\<lambda>p. if p \<in> set (port_names (ch_cleanup c)) then None else g p"
  obtain cur1 where c1: "foldl channel_step ([], g) (concat (map leave_channel (port_names (ch_cleanup c))))
    = (cur1, ?g1)" using channel_after_leave by blast
  obtain cur2 where c2: "foldl channel_step (cur1, ?g1) (concat (map (join_channel c) (port_names (ch_members c))))
    = (cur2, \<lambda>p. if p \<in> set (port_names (ch_members c))
        then Some (show_int (ch_number c) @ '' mode '' @ ch_mode c) else ?g1 p)"
    using channel_after_join by blast
  show ?thesis using False by (simp add: channel_after_def render_channel_def Let_def c1 c2)
qed



section \<open>Examples\<close>

definition l2_sample :: l2_payload where
  "l2_sample = \<lparr>l2_vlans = [\<lparr>vl_remove = False, vl_id = 10, vl_name = ''USERS'', vl_state = ''active''\<rparr>,
       \<lparr>vl_remove = True, vl_id = 20, vl_name = [], vl_state = ''active''\<rparr>],
     l2_routing = None, l2_svis = [], l2_ports = [], l2_channels = [],
     l2_stp_rows = [\<lparr>st_vlan = 10, st_remove = False, st_mode = ''rapid-pvst'', st_role = ''primary'',
       st_priority = PNone\<rparr>],
     l2_stp_ports = [\<lparr>sp_name = ''Gi0/1'', sp_trunk = True, sp_portfast = ''enabled'', sp_bpduguard = ''enabled'',
       sp_bpdufilter = ''disabled'', sp_root_guard = ''disabled'', sp_loop_guard = ''disabled''\<rparr>],
     l2_vtp = [], l2_security_vlans = [], l2_trust = [], l2_secure_ports = [], l2_macs = []\<rparr>"

lemma rendering_well_bracketed_witness:
  "walk False [''spanning-tree mode rapid-pvst'', ''spanning-tree vlan 10 root primary'', ''interface Gi0/1'',
     '' spanning-tree portfast trunk'', '' spanning-tree bpduguard enable'', '' no spanning-tree bpdufilter enable'',
     '' no spanning-tree guard root'', '' no spanning-tree guard loop'', '' exit''] = Some False"
  by (rule rendering_well_bracketed[of "''stp''" l2_sample]) code_simp

definition port_sample :: port_item where
  "port_sample = \<lparr>po_name = ''Gi0/2'', po_description = PNone, po_admin = ''up'', po_speed = PStr ''auto'',
     po_duplex = PStr ''auto'', po_drop_security = True, po_mode = ''routed'', po_access_vlan = PNone,
     po_voice_vlan = PNone, po_encapsulation = PNone, po_native_vlan = PNone, po_allowed = PNone\<rparr>"

lemma port_security_dropped_first_witness:
  "(\<exists>a b. render_port port_sample = a @ '' no switchport port-security'' # b)
   \<and> (\<exists>a. render_port port_sample = a @ ['' no switchport'', '' exit''])"
  using port_security_dropped_first[of port_sample] by (auto simp: port_sample_def)

end
