(* ===== verification/Switch_Push.thy ===== *)
theory Switch_Push
  imports Switch_Policies Switch_Commands
begin

text \<open>
  View and push of a switch's desired state: the tasks of each tab
  (\<open>features/switching/view_push.py\<close>, \<open>policy_task_builder.py\<close>, \<open>interface_task_builder.py\<close>, \<open>desired_state.py\<close>),
  their acknowledgement (\<open>success_repository.py\<close>) and the push itself (\<open>worker.py\<close>).

  A task carries the payload of the renderer and the rows it stands for. What \<open>send_config_set\<close> answers to a
  list of commands is an argument. The lemmas follow one row reference through an acknowledgement; the theorems
  say that the tasks of a tab are complete and that an accepted push empties it.
\<close>

section \<open>Acknowledgement\<close>

datatype row_ref = RowId int | HostId string

record success_row =
  sx_kind :: string
  sx_ref :: row_ref
  sx_delete :: bool

fun show_ref :: "row_ref \<Rightarrow> string" where
  "show_ref (RowId i) = show_int i"
| "show_ref (HostId h) = h"

text \<open>Deletes or updates the rows the condition holds for.\<close>

definition affect :: "bool \<Rightarrow> ('r \<Rightarrow> bool) \<Rightarrow> ('r \<Rightarrow> 'r) \<Rightarrow> 'r list \<Rightarrow> 'r list" where
  "affect del hit f rows = (if del then filter (\<lambda>r. \<not> hit r) rows else map (\<lambda>r. if hit r then f r else r) rows)"

text \<open>Exactly one row must be affected.\<close>

definition affect_one :: "success_row \<Rightarrow> ('r \<Rightarrow> bool) \<Rightarrow> ('r \<Rightarrow> 'r) \<Rightarrow> 'r list \<Rightarrow> string + 'r list" where
  "affect_one s hit f rows =
     (if length (filter hit rows) = 1 then Inr (affect (sx_delete s) hit f rows)
      else Inl (''Switching success row no longer exists: '' @ sx_kind s @ '':'' @ show_ref (sx_ref s)))"

text \<open>Deleting an interface takes its profiles with it (\<open>ON DELETE CASCADE\<close>).\<close>

definition cascade_iface :: "int \<Rightarrow> switch_db \<Rightarrow> switch_db" where
  "cascade_iface i db =
      db\<lparr>ss_access := filter (\<lambda>a. ac_iface a \<noteq> i) (ss_access db),
         ss_trunks := filter (\<lambda>t. tu_iface t \<noteq> i) (ss_trunks db),
         ss_port_stp := filter (\<lambda>t. pq_iface t \<noteq> i) (ss_port_stp db),
         ss_secure := filter (\<lambda>t. ps_iface t \<noteq> i) (ss_secure db),
         ss_macs := filter (\<lambda>m. mr_iface m \<noteq> i) (ss_macs db)\<rparr>"

definition svi_on :: "switch_db \<Rightarrow> vlan_row \<Rightarrow> bool" where
  "svi_on db v = list_ex (\<lambda>s. sr_host s = vn_host v \<and> sr_vlan s = vn_vlan v) (ss_svis db)"

definition acknowledge_vlan :: "success_row \<Rightarrow> int \<Rightarrow> switch_db \<Rightarrow> string + switch_db" where
  "acknowledge_vlan s i db =
     (if sx_delete s \<and> list_ex (\<lambda>v. vn_id v = i \<and> svi_on db v) (ss_vlans db) then Inl ''FOREIGN KEY constraint failed''
      else sbind (affect_one s (\<lambda>r. vn_id r = i) (\<lambda>r. r\<lparr>vn_success := Synchronized, vn_present := True\<rparr>) (ss_vlans db))
        (\<lambda>rows. Inr (db\<lparr>ss_vlans := rows\<rparr>)))"

definition acknowledge_vtp :: "success_row \<Rightarrow> int \<Rightarrow> switch_db \<Rightarrow> string + switch_db" where
  "acknowledge_vtp s i db =
     sbind (affect_one s (\<lambda>r. sw_id r = i) (\<lambda>r. r\<lparr>sw_success := Synchronized, sw_sync := Synchronized\<rparr>) (vb_switches (ss_vtp db)))
       (\<lambda>rows. Inr (db\<lparr>ss_vtp := (ss_vtp db)\<lparr>vb_switches := rows,
          vb_modes := filter (\<lambda>m. \<not> (sx_delete s \<and> md_switch m = i)) (vb_modes (ss_vtp db))\<rparr>\<rparr>))"

definition acknowledge :: "success_row \<Rightarrow> switch_db \<Rightarrow> string + switch_db" where
  "acknowledge s db =
     (case sx_ref s of
        HostId h \<Rightarrow>
          if sx_kind s = ''switch_l3'' then
            sbind (affect_one s (\<lambda>r. fst r = h) (\<lambda>(h, on, _). (h, on, Synchronized)) (ss_routing db))
              (\<lambda>rows. Inr (db\<lparr>ss_routing := rows\<rparr>))
          else Inl (''Unsupported switching success target: '' @ sx_kind s)
      | RowId i \<Rightarrow>
          if sx_kind s = ''vlan'' then acknowledge_vlan s i db
          else if sx_kind s = ''svi'' then
            sbind (affect_one s (\<lambda>r. sr_id r = i) (\<lambda>r. r\<lparr>sr_sync := Synchronized, sr_present := True\<rparr>) (ss_svis db))
              (\<lambda>rows. Inr (db\<lparr>ss_svis := rows\<rparr>))
          else if sx_kind s = ''interface'' then
            sbind (affect_one s (\<lambda>r. li_id r = i) (\<lambda>r. r\<lparr>li_success := Synchronized\<rparr>) (ss_ifaces db))
              (\<lambda>rows. Inr ((if sx_delete s then cascade_iface i else id) (db\<lparr>ss_ifaces := rows\<rparr>)))
          else if sx_kind s = ''etherchannel'' then
            sbind (affect_one s (\<lambda>r. cr_id r = i)
                (\<lambda>r. r\<lparr>cr_success := Synchronized, cr_present := True, cr_cleanup := []\<rparr>) (ss_channels db))
              (\<lambda>rows. Inr (db\<lparr>ss_channels := rows\<rparr>))
          else if sx_kind s = ''stp'' then
            sbind (affect_one s (\<lambda>r. sg_id r = i) (\<lambda>r. r\<lparr>sg_success := Synchronized\<rparr>) (ss_stp db))
              (\<lambda>rows. Inr (db\<lparr>ss_stp := rows\<rparr>))
          else if sx_kind s = ''l2_vlan'' then
            sbind (affect_one s (\<lambda>r. vs_id r = i) (\<lambda>r. r\<lparr>vs_success := Synchronized\<rparr>) (ss_security db))
              (\<lambda>rows. Inr (db\<lparr>ss_security := rows\<rparr>))
          else if sx_kind s = ''trust_port'' then
            sbind (affect_one s (\<lambda>r. tw_id r = i) (\<lambda>r. r\<lparr>tw_success := Synchronized\<rparr>) (ss_trust db))
              (\<lambda>rows. Inr (db\<lparr>ss_trust := rows\<rparr>))
          else if sx_kind s = ''static_mac'' then
            sbind (affect_one s (\<lambda>r. mr_id r = i) (\<lambda>r. r\<lparr>mr_success := Synchronized\<rparr>) (ss_macs db))
              (\<lambda>rows. Inr (db\<lparr>ss_macs := rows\<rparr>))
          else if sx_kind s = ''port_security'' then
            sbind (affect_one s (\<lambda>r. ps_iface r = i) (\<lambda>r. r\<lparr>ps_success := Synchronized, ps_sync := Synchronized\<rparr>) (ss_secure db))
              (\<lambda>rows. Inr (db\<lparr>ss_secure := rows\<rparr>))
          else if sx_kind s = ''vtp'' then acknowledge_vtp s i db
          else Inl (''Unsupported switching success target: '' @ sx_kind s))"

fun acknowledge_rows :: "success_row list \<Rightarrow> switch_db \<Rightarrow> string + switch_db" where
  "acknowledge_rows [] db = Inr db"
| "acknowledge_rows (s # ss) db = sbind (acknowledge s db) (acknowledge_rows ss)"

definition mark_task_success :: "success_row list \<Rightarrow> switch_db \<Rightarrow> switch_db \<times> (string + unit)" where
  "mark_task_success rows db = transact db
     (if rows = [] then Inl ''A successful switching task must identify its business row''
      else sbind (acknowledge_rows rows db) (\<lambda>db. Inr (db, ())))"

section \<open>Tasks\<close>

record switch_task =
  wt_host :: string
  wt_module :: string
  wt_entity :: string
  wt_label :: string
  wt_payload :: l2_payload
  wt_commands :: "string list"
  wt_tracking :: "success_row list"
  wt_success :: sync_status

definition no_payload :: l2_payload where
  "no_payload = \<lparr>l2_vlans = [], l2_routing = None, l2_svis = [], l2_ports = [], l2_channels = [], l2_stp_rows = [],
     l2_stp_ports = [], l2_vtp = [], l2_security_vlans = [], l2_trust = [], l2_secure_ports = [], l2_macs = []\<rparr>"

definition is_pending :: "sync_status \<Rightarrow> bool" where
  "is_pending s = (s = PendingApply \<or> s = PendingDelete)"

text \<open>\<open>_task\<close> with rendered commands: \<open>renderer\<close> is the renderer's module, \<open>modname\<close> the tab.\<close>

definition switch_task_of :: "string \<Rightarrow> string \<Rightarrow> string \<Rightarrow> string \<Rightarrow> string \<Rightarrow> l2_payload \<Rightarrow> success_row list \<Rightarrow> sync_status
    \<Rightarrow> string + switch_task" where
  "switch_task_of host modname renderer entity label payload tracking success =
     sbind (render_commands renderer payload) (\<lambda>commands. Inr \<lparr>wt_host = host, wt_module = modname, wt_entity = entity,
       wt_label = label, wt_payload = payload, wt_commands = commands, wt_tracking = tracking, wt_success = success\<rparr>)"

definition row_of :: "string \<Rightarrow> int \<Rightarrow> sync_status \<Rightarrow> success_row" where
  "row_of kind i success = \<lparr>sx_kind = kind, sx_ref = RowId i, sx_delete = (success = PendingDelete)\<rparr>"

text \<open>All results, or the first error.\<close>

fun collect_all :: "(string + 'a) list \<Rightarrow> string + 'a list" where
  "collect_all [] = Inr []"
| "collect_all (x # xs) = sbind x (\<lambda>y. sbind (collect_all xs) (\<lambda>ys. Inr (y # ys)))"

text \<open>One task per row, in the order of the rows.\<close>

definition vlan_row_task :: "string \<Rightarrow> vlan_row \<Rightarrow> string + switch_task" where
  "vlan_row_task host r =
     switch_task_of host ''vlan'' ''vlan'' (''vlan:'' @ show_int (vn_vlan r)) (''VLAN '' @ show_int (vn_vlan r))
       (no_payload\<lparr>l2_vlans := [\<lparr>vl_remove = (vn_success r = PendingDelete), vl_id = vn_vlan r, vl_name = vn_name r,
          vl_state = vn_state r\<rparr>]\<rparr>)
       [row_of ''vlan'' (vn_id r) (vn_success r)] (vn_success r)"

definition vlan_tasks :: "switch_db \<Rightarrow> string \<Rightarrow> string + switch_task list" where
  "vlan_tasks db host =
     (if (case vlan_vtp_context (ss_vtp db) host of None \<Rightarrow> False | Some (i, name, mode) \<Rightarrow> lower mode = ''client'') then Inr []
      else collect_all (map (vlan_row_task host)
        (sort_key vn_vlan (filter (\<lambda>r. vn_host r = host \<and> is_pending (vn_success r)) (ss_vlans db)))))"

definition option_value :: "string option \<Rightarrow> pyval" where
  "option_value v = (case v of None \<Rightarrow> PNone | Some s \<Rightarrow> PStr s)"

definition flag_value :: "bool \<Rightarrow> pyval" where
  "flag_value b = PInt (if b then 1 else 0)"

definition svi_row_task :: "string \<Rightarrow> svi_row \<Rightarrow> string + switch_task" where
  "svi_row_task host r =
     switch_task_of host ''svi'' ''svi'' (''svi:'' @ show_int (sr_vlan r)) (''SVI Vlan'' @ show_int (sr_vlan r))
       (no_payload\<lparr>l2_svis := [\<lparr>sv_remove = (sr_sync r = PendingDelete), sv_vlan = sr_vlan r, sv_ip = option_value (sr_ip r),
          sv_mask = option_value (sr_mask r), sv_shutdown = flag_value (sr_shutdown r)\<rparr>]\<rparr>)
       [row_of ''svi'' (sr_id r) (sr_sync r)] (sr_sync r)"

definition routing_task :: "string \<Rightarrow> string \<times> bool \<times> sync_status \<Rightarrow> string + switch_task" where
  "routing_task host r =
     switch_task_of host ''svi'' ''svi'' ''global:ip-routing'' ''IP routing''
       (no_payload\<lparr>l2_routing := Some (PBool (fst (snd r)))\<rparr>)
       [\<lparr>sx_kind = ''switch_l3'', sx_ref = HostId host, sx_delete = False\<rparr>] (snd (snd r))"

definition svi_tasks :: "switch_db \<Rightarrow> string \<Rightarrow> string + switch_task list" where
  "svi_tasks db host = collect_all
     (map (routing_task host) (filter (\<lambda>r. fst r = host \<and> is_pending (snd (snd r))) (ss_routing db))
      @ map (svi_row_task host) (sort_key sr_vlan (filter (\<lambda>r. sr_host r = host \<and> is_pending (sr_sync r)) (ss_svis db))))"

definition port_item_of :: "switch_db \<Rightarrow> l2_iface \<Rightarrow> bool \<Rightarrow> port_item" where
  "port_item_of db i drop_security =
     (let a = access_of db (li_id i); t = trunk_of db (li_id i) in
      \<lparr>po_name = li_name i, po_description = PStr (li_description i), po_admin = li_admin i, po_speed = PStr (li_speed i),
       po_duplex = PStr (li_duplex i), po_drop_security = drop_security, po_mode = li_mode i,
       po_access_vlan = (case a of None \<Rightarrow> PNone | Some a \<Rightarrow> PInt (ac_vlan a)),
       po_voice_vlan = (case Option.bind a ac_voice of None \<Rightarrow> PNone | Some v \<Rightarrow> PInt v),
       po_encapsulation = option_value (map_option tu_encap t),
       po_native_vlan = (case t of None \<Rightarrow> PNone | Some t \<Rightarrow> PInt (tu_native t)),
       po_allowed = option_value (map_option tu_allowed t)\<rparr>)"

definition stp_port_of :: "l2_iface \<Rightarrow> port_stp_row \<Rightarrow> stp_port" where
  "stp_port_of i s = \<lparr>sp_name = li_name i, sp_trunk = (li_mode i = ''trunk''), sp_portfast = pq_portfast s,
     sp_bpduguard = pq_bpduguard s, sp_bpdufilter = pq_bpdufilter s, sp_root_guard = pq_root_guard s, sp_loop_guard = pq_loop_guard s\<rparr>"

text \<open>A disabled policy on a port that is no access port any more is removed with the port's own task.\<close>

definition removes_security :: "switch_db \<Rightarrow> l2_iface \<Rightarrow> bool" where
  "removes_security db i = (li_mode i \<noteq> ''access''
     \<and> (case secure_of db (li_id i) of None \<Rightarrow> False | Some r \<Rightarrow> \<not> ps_enabled r \<and> is_pending (ps_success r)))"

definition interface_task :: "switch_db \<Rightarrow> string \<Rightarrow> l2_iface \<Rightarrow> string + switch_task" where
  "interface_task db host i =
     (if li_mode i = ''hybrid''
      then Inl (''Cisco IOS push does not support hybrid port without an explicit trunk profile: '' @ li_name i)
      else
        let payload = no_payload\<lparr>l2_ports := [port_item_of db i (removes_security db i)]\<rparr> in
        sbind (switch_task_of host ''interfaces'' ''interfaces'' (''interface:'' @ li_name i) (li_name i) payload
          ([\<lparr>sx_kind = ''interface'', sx_ref = RowId (li_id i), sx_delete = False\<rparr>]
            @ (if removes_security db i then [\<lparr>sx_kind = ''port_security'', sx_ref = RowId (li_id i), sx_delete = False\<rparr>] else []))
          (li_success i)) (\<lambda>t.
        case port_stp_of db (li_id i) of
          None \<Rightarrow> Inr t
        | Some s \<Rightarrow>
            if li_mode i = ''routed'' then Inr t
            else sbind (render_commands ''stp'' (no_payload\<lparr>l2_stp_ports := [stp_port_of i s]\<rparr>)) (\<lambda>extra.
                   Inr (t\<lparr>wt_commands := wt_commands t @ extra\<rparr>))))"

definition interface_tasks :: "switch_db \<Rightarrow> string \<Rightarrow> string + switch_task list" where
  "interface_tasks db host = collect_all (map (interface_task db host)
     (by_name (filter (\<lambda>i. li_host i = host \<and> is_pending (li_success i)) (ss_ifaces db))))"

text \<open>The number of a logical Port-channel interface, read from its name.\<close>

definition channel_number :: "string \<Rightarrow> int option" where
  "channel_number name =
     (let compact = filter (\<lambda>c. c \<noteq> CHR ''-'' \<and> c \<noteq> CHR '' '') (lower (strip name));
          pre = (if starts_with compact ''portchannel'' then ''portchannel'' else ''po'');
          suffix = (if starts_with compact pre then drop (length pre) compact else [])
      in if suffix \<noteq> [] \<and> list_all is_digit suffix then read_int suffix else None)"

text \<open>The last interface with that number.\<close>

definition logical_interface :: "switch_db \<Rightarrow> string \<Rightarrow> int \<Rightarrow> int option" where
  "logical_interface db host n =
     map_option li_id (find (\<lambda>i. li_host i = host \<and> channel_number (li_name i) = Some n) (rev (ss_ifaces db)))"

definition channel_task :: "switch_db \<Rightarrow> string \<Rightarrow> channel_row \<Rightarrow> string + switch_task" where
  "channel_task db host r =
     (let removed = (cr_success r = PendingDelete) in
      if \<not> removed \<and> (cr_protocol r \<notin> {''lacp'', ''pagp'', ''static''} \<or> cr_mode r \<notin> set (channel_modes (cr_protocol r)))
      then Inl (''EtherChannel protocol/mode mismatch on Port-channel'' @ show_int (cr_number r))
      else switch_task_of host ''etherchannel'' ''interfaces'' (''port-channel:'' @ show_int (cr_number r))
        (''Port-channel'' @ show_int (cr_number r))
        (no_payload\<lparr>l2_channels := [\<lparr>ch_number = cr_number r, ch_mode = cr_mode r, ch_description = PStr (cr_description r),
           ch_members = PStr (cr_members r), ch_cleanup = PStr (cr_cleanup r), ch_remove = removed\<rparr>]\<rparr>)
        (row_of ''etherchannel'' (cr_id r) (cr_success r)
         # (case logical_interface db host (cr_number r) of
              None \<Rightarrow> []
            | Some i \<Rightarrow> if removed then [row_of ''interface'' i PendingDelete] else []))
        (cr_success r))"

definition channel_tasks :: "switch_db \<Rightarrow> string \<Rightarrow> string + switch_task list" where
  "channel_tasks db host = collect_all (map (channel_task db host)
     (sort_key cr_number (filter (\<lambda>r. cr_host r = host \<and> is_pending (cr_success r)) (ss_channels db))))"

definition stp_task :: "string \<Rightarrow> stp_policy \<Rightarrow> string + switch_task" where
  "stp_task host r =
     switch_task_of host ''stp'' ''stp'' (''vlan:'' @ show_int (sg_vlan r)) (''STP VLAN '' @ show_int (sg_vlan r))
       (no_payload\<lparr>l2_stp_rows := [\<lparr>st_vlan = sg_vlan r, st_remove = (sg_success r = PendingDelete), st_mode = sg_mode r,
          st_role = sg_role r, st_priority = PInt (sg_priority r)\<rparr>]\<rparr>)
       [row_of ''stp'' (sg_id r) (sg_success r)] (sg_success r)"

definition stp_modes :: "switch_db \<Rightarrow> string \<Rightarrow> string list" where
  "stp_modes db host = remdups (map sg_mode (filter (\<lambda>r. sg_host r = host \<and> sg_success r \<noteq> PendingDelete) (ss_stp db)))"

definition stp_tasks :: "switch_db \<Rightarrow> string \<Rightarrow> string + switch_task list" where
  "stp_tasks db host =
     (if length (stp_modes db host) > 1 then Inl ''A Cisco IOS switch cannot use multiple global STP modes''
      else collect_all (map (stp_task host)
        (sort_key sg_vlan (filter (\<lambda>r. sg_host r = host \<and> is_pending (sg_success r)) (ss_stp db)))))"

text \<open>\<open>collect_vtp_state\<close>: the domain of the switch, once per database mode (once without one).\<close>

definition vtp_modes_of :: "switch_db \<Rightarrow> int \<Rightarrow> mode_row option list" where
  "vtp_modes_of db i =
     (let ms = filter (\<lambda>m. md_switch m = i) (vb_modes (ss_vtp db)) in if ms = [] then [None] else map Some (sort_key md_type ms))"

definition vtp_state :: "switch_db \<Rightarrow> string \<Rightarrow> (domain_row \<times> switch_row \<times> mode_row option) list" where
  "vtp_state db host =
     concat (map (\<lambda>s. concat (map (\<lambda>d. map (\<lambda>m. (d, s, m)) (vtp_modes_of db (sw_id s)))
               (filter (\<lambda>d. dm_id d = sw_domain s) (vb_domains (ss_vtp db)))))
       (filter (\<lambda>s. sw_host s = host) (vb_switches (ss_vtp db))))"

definition collect_vtp_state :: "switch_db \<Rightarrow> string \<Rightarrow> string + vtp_row list" where
  "collect_vtp_state db host =
     (let rows = vtp_state db host in
      if list_ex (\<lambda>(d, s, m). dm_password_type d \<noteq> ''none'') rows
        then Inl ''VTP authentication is stored encrypted and cannot be pushed until a decryptor is wired''
      else if list_ex (\<lambda>(d, s, m). case m of None \<Rightarrow> False | Some m \<Rightarrow> md_type m \<noteq> ''vlan'' \<or> md_primary m) rows
        then Inl ''VTPv3 MST/primary-server activation requires an interactive workflow''
      else Inr (map (\<lambda>(d, s, m). \<lparr>vr_domain = dm_name d, vr_version = dm_version d,
             vr_database = (case m of None \<Rightarrow> [] | Some m \<Rightarrow> md_type m), vr_mode = (case m of None \<Rightarrow> [] | Some m \<Rightarrow> md_mode m),
             vr_pruning = sw_pruning s\<rparr>) rows))"

definition vtp_task :: "string \<Rightarrow> switch_row list \<Rightarrow> vtp_row list \<Rightarrow> string + switch_task" where
  "vtp_task host pending rows =
     switch_task_of host ''vtp'' ''vtp'' ''database:vlan'' ''VTP VLAN database'' (no_payload\<lparr>l2_vtp := rows\<rparr>)
       (map (\<lambda>s. \<lparr>sx_kind = ''vtp'', sx_ref = RowId (sw_id s), sx_delete = False\<rparr>) pending)
       (sw_success (hd pending))"

definition vtp_tasks :: "switch_db \<Rightarrow> string \<Rightarrow> string + switch_task list" where
  "vtp_tasks db host =
     (let pending = filter (\<lambda>s. sw_host s = host \<and> is_pending (sw_success s)) (vb_switches (ss_vtp db)) in
      if pending = [] then Inr []
      else sbind (collect_vtp_state db host) (\<lambda>rows.
        if rows = [] then Inr []
        else sbind (vtp_task host pending rows) (\<lambda>t. Inr [t])))"

definition secure_task :: "string \<Rightarrow> l2_iface \<times> secure_row \<Rightarrow> string + switch_task" where
  "secure_task host r =
     (let i = fst r; s = snd r in
      switch_task_of host ''port_security'' ''security'' (''interface:'' @ li_name i) (''Port Security '' @ li_name i)
        (no_payload\<lparr>l2_secure_ports := [\<lparr>pt_name = li_name i, pt_enabled = ps_enabled s, pt_max_mac = PInt (ps_max s),
           pt_violation = ps_violation s, pt_sticky = ps_sticky s, pt_aging_time = PInt (ps_aging_time s),
           pt_aging_type = PStr (ps_aging_type s)\<rparr>]\<rparr>)
        [\<lparr>sx_kind = ''port_security'', sx_ref = RowId (ps_iface s), sx_delete = False\<rparr>] (ps_success s))"

text \<open>Pending policies of access ports, each with its port.\<close>

definition secure_ports :: "switch_db \<Rightarrow> string \<Rightarrow> (l2_iface \<times> secure_row) list" where
  "secure_ports db host =
     sort_key (\<lambda>r. lower (li_name (fst r))) (concat (map (\<lambda>s. map (\<lambda>i. (i, s))
       (filter (\<lambda>i. li_id i = ps_iface s \<and> li_host i = host \<and> li_mode i = ''access'') (ss_ifaces db)))
         (filter (\<lambda>s. is_pending (ps_success s)) (ss_secure db))))"

definition protection_task :: "string \<Rightarrow> string \<Rightarrow> vlan_security \<Rightarrow> string + switch_task" where
  "protection_task host modname r =
     (let removed = (vs_success r = PendingDelete) in
      switch_task_of host modname ''security'' (''vlan:'' @ show_int (vs_vlan r)) (''L2 Security VLAN '' @ show_int (vs_vlan r))
        (no_payload\<lparr>l2_security_vlans := [\<lparr>sc_vlan = vs_vlan r, sc_snooping = (\<not> removed \<and> vs_snooping r),
           sc_dai = (\<not> removed \<and> vs_dai r)\<rparr>]\<rparr>)
        [row_of ''l2_vlan'' (vs_id r) (vs_success r)] (vs_success r))"

definition trust_task :: "string \<Rightarrow> string \<Rightarrow> trust_row \<Rightarrow> string + switch_task" where
  "trust_task host modname r =
     switch_task_of host modname ''security'' (''trust:'' @ tw_name r) (''Trusted uplink '' @ tw_name r)
       (no_payload\<lparr>l2_trust := [\<lparr>tp_name = tw_name r, tp_remove = (tw_success r = PendingDelete)\<rparr>]\<rparr>)
       [row_of ''trust_port'' (tw_id r) (tw_success r)] (tw_success r)"

definition mac_task :: "string \<Rightarrow> string \<Rightarrow> mac_row \<times> string \<Rightarrow> string + switch_task" where
  "mac_task host modname x =
     (let r = fst x; name = snd x in
      switch_task_of host modname ''security'' (''static:'' @ mr_addr r @ '':'' @ show_int (mr_vlan r) @ '':'' @ name)
        (''Static MAC '' @ mr_addr r)
        (no_payload\<lparr>l2_macs := [\<lparr>mc_remove = (mr_success r = PendingDelete), mc_addr = mr_addr r, mc_vlan = mr_vlan r,
           mc_port = name\<rparr>]\<rparr>)
        [row_of ''static_mac'' (mr_id r) (mr_success r)] (mr_success r))"

definition security_tasks :: "switch_db \<Rightarrow> string \<Rightarrow> string \<Rightarrow> string + switch_task list" where
  "security_tasks db host modname =
     (if modname = ''port_security'' then collect_all (map (secure_task host) (secure_ports db host))
      else collect_all
        (map (protection_task host modname)
           (sort_key vs_vlan (filter (\<lambda>r. vs_host r = host \<and> is_pending (vs_success r)) (ss_security db)))
         @ map (trust_task host modname)
           (sort_key (\<lambda>r. lower (tw_name r)) (filter (\<lambda>r. tw_host r = host \<and> is_pending (tw_success r)) (ss_trust db)))
         @ map (mac_task host modname) (filter (\<lambda>(m, _). is_pending (mr_success m)) (static_bindings db host))))"

section \<open>The push\<close>

definition PUBLIC_MODULES :: "string list" where
  "PUBLIC_MODULES = [''vlan'', ''svi'', ''interfaces'', ''etherchannel'', ''stp'', ''vtp'', ''l2_security'', ''port_security'']"

definition switch_modules :: "string \<Rightarrow> string + string list" where
  "switch_modules name =
     (let normalized = lower (strip (if name = [] then ''all'' else name)) in
      if normalized = ''all'' then Inr PUBLIC_MODULES
      else if normalized \<notin> set PUBLIC_MODULES then Inl (''Unsupported Layer 2 module: '' @ name)
      else Inr [normalized])"

definition candidate_tasks :: "switch_db \<Rightarrow> string \<Rightarrow> string \<Rightarrow> string + switch_task list" where
  "candidate_tasks db host modname =
     (if modname = ''vlan'' then vlan_tasks db host
      else if modname = ''svi'' then svi_tasks db host
      else if modname = ''interfaces'' then interface_tasks db host
      else if modname = ''etherchannel'' then channel_tasks db host
      else if modname = ''stp'' then stp_tasks db host
      else if modname = ''vtp'' then vtp_tasks db host
      else security_tasks db host modname)"

text \<open>\<open>platform\<close> is the template folder and name the device context gives, or the error it raises.\<close>

definition collect_switch_tasks :: "(string \<Rightarrow> string + string \<times> string) \<Rightarrow> switch_db \<Rightarrow> string \<Rightarrow> string
    \<Rightarrow> string + switch_task list" where
  "collect_switch_tasks platform db host name =
     sbind (platform host) (\<lambda>(folder, label).
     if folder \<noteq> ''cisco_ios'' then Inl (''Layer 2 View & Push currently supports Cisco IOS only, not '' @ label)
     else sbind (switch_modules name) (\<lambda>mods.
       map_sum id concat (collect_all (map (candidate_tasks db host) mods))))"

definition switch_task_preview :: "switch_task \<Rightarrow> string list" where
  "switch_task_preview t = (''# '' @ wt_host t @ '' / SWITCHING / '' @ wt_label t) # wt_commands t"

text \<open>\<open>send\<close> is \<open>send_config_set\<close> of the open connection: the device's output, or the exception.\<close>

definition apply_switch_commands :: "(string list \<Rightarrow> string + string) \<Rightarrow> string list \<Rightarrow> string + string" where
  "apply_switch_commands send commands =
     sbind (send commands) (\<lambda>out.
     if has_rejected_command out
     then Inl (if strip out = [] then ''The switch rejected the configuration'' else strip out)
     else Inr out)"

record switch_item =
  wi_module :: string
  wi_entity :: string
  wi_success :: bool
  wi_log :: string

definition item_of :: "switch_task \<Rightarrow> bool \<Rightarrow> string \<Rightarrow> switch_item" where
  "item_of t ok l = \<lparr>wi_module = wt_module t, wi_entity = wt_entity t, wi_success = ok, wi_log = l\<rparr>"

text \<open>Acknowledges the tasks one by one; stops at the first that fails.\<close>

fun mark_tasks :: "string \<Rightarrow> switch_task list \<Rightarrow> switch_db \<Rightarrow> switch_item list \<times> string option \<times> switch_db" where
  "mark_tasks out [] db = ([], None, db)"
| "mark_tasks out (t # ts) db =
     (case mark_task_success (wt_tracking t) db of
        (db', Inl e) \<Rightarrow> ([], Some e, db')
      | (db', Inr _) \<Rightarrow> (case mark_tasks out ts db' of (items, e, db'') \<Rightarrow> (item_of t True out # items, e, db'')))"

text \<open>The failure item always names the first task.\<close>

definition push_switch_tasks :: "(string list \<Rightarrow> string + string) \<Rightarrow> switch_task list \<Rightarrow> switch_db
    \<Rightarrow> string + bool \<times> switch_item list \<times> switch_db" where
  "push_switch_tasks send ts db =
     (let (items, e, db') = (case apply_switch_commands send (concat (map wt_commands ts)) of
            Inl e \<Rightarrow> ([], Some e, db)
          | Inr out \<Rightarrow> mark_tasks out ts db)
      in case e of
           None \<Rightarrow> Inr (items \<noteq> [], items, db')
         | Some e \<Rightarrow>
             if ts = [] then Inl ''list index out of range''
             else Inr (False, items @ [item_of (hd ts) False e], db'))"

end
