(* ===== verification/Switch_Settle.thy ===== *)
theory Switch_Settle
  imports Switch_Push
begin

text \<open>
  What a push of a switch's desired state achieves: the stream of commands of the collected tasks, and the
  acknowledgement of their rows (\<open>Switch_Push\<close>).

  The locale \<open>acked_table\<close> states what the acknowledgement of one kind of row promises to its table; it is
  interpreted for every kind.
\<close>

section \<open>Collected tasks\<close>

lemma collect_all_Inr:
  "collect_all xs = Inr ys \<longleftrightarrow> list_all2 (\<lambda>x y. x = Inr y) xs ys"
proof (induction xs arbitrary: ys)
  case Nil
  show ?case by (cases ys) auto
next
  case (Cons x xs)
  show ?case using Cons by (cases ys; cases x) (auto simp: sbind_eq_Inr_conv)
qed

lemma collect_all_map:
  "collect_all (map f xs) = Inr ys \<longleftrightarrow> length ys = length xs \<and> (\<forall>i < length xs. f (xs ! i) = Inr (ys ! i))"
  by (auto simp: collect_all_Inr list_all2_conv_all_nth)

lemma collect_all_Nil: "collect_all xs = Inr [] \<longleftrightarrow> xs = []"
  by (simp add: collect_all_Inr)

lemma collect_all_P:
  assumes "collect_all xs = Inr ys" "\<And>x y. x \<in> set xs \<Longrightarrow> x = Inr y \<Longrightarrow> P y"
  shows "list_all P ys"
  using assms by (induction xs arbitrary: ys) (auto simp: sbind_eq_Inr_conv)

lemma switch_task_of_closed: "switch_task_of h m r e l p t s = Inr task \<Longrightarrow> closed (wt_commands task)"
  using render_commands_closed by (auto simp: switch_task_of_def sbind_eq_Inr_conv)

lemmas task_defs = vlan_row_task_def svi_row_task_def routing_task_def channel_task_def stp_task_def secure_task_def
  protection_task_def trust_task_def mac_task_def

lemma interface_task_closed: "interface_task db h i = Inr t \<Longrightarrow> closed (wt_commands t)"
  using switch_task_of_closed render_commands_closed
  by (fastforce simp: interface_task_def sbind_eq_Inr_conv Let_def split: if_splits option.splits)

lemma vtp_tasks_cases:
  assumes "vtp_tasks db h = Inr ts"
  defines "pending \<equiv> filter (\<lambda>s. sw_host s = h \<and> is_pending (sw_success s)) (vb_switches (ss_vtp db))"
  obtains "ts = []" | rows t where "vtp_task h pending rows = Inr t" "ts = [t]" "pending \<noteq> []"
proof (cases "pending = []")
  case True
  then show ?thesis using assms(1) that(1) unfolding vtp_tasks_def pending_def[symmetric] Let_def by simp
next
  case False
  then obtain rows where r: "(if rows = [] then Inr [] else sbind (vtp_task h pending rows) (\<lambda>t. Inr [t])) = Inr ts"
    using assms(1) unfolding vtp_tasks_def pending_def[symmetric] Let_def by (auto simp only: if_False sbind_eq_Inr_conv)
  then show ?thesis using that(1) that(2)[of rows] False by (cases "rows = []") (auto simp: sbind_eq_Inr_conv)
qed

lemma vtp_tasks_closed:
  assumes "vtp_tasks db h = Inr ts"
  shows "list_all (\<lambda>t. closed (wt_commands t)) ts"
  using assms
proof (cases rule: vtp_tasks_cases)
  case (2 rows t)
  then have "closed (wt_commands t)" using switch_task_of_closed unfolding vtp_task_def by blast
  then show ?thesis using 2 by simp
qed simp

lemma collected_closed:
  assumes "collect_all xs = Inr ts" "\<And>x t. x \<in> set xs \<Longrightarrow> x = Inr t \<Longrightarrow> closed (wt_commands t)"
  shows "list_all (\<lambda>t. closed (wt_commands t)) ts"
  by (rule collect_all_P[OF assms(1)]) (rule assms(2))

lemma row_task_closed:
  "vlan_row_task h v = Inr t \<Longrightarrow> closed (wt_commands t)" "svi_row_task h s = Inr t \<Longrightarrow> closed (wt_commands t)"
  "routing_task h g = Inr t \<Longrightarrow> closed (wt_commands t)" "channel_task db h c = Inr t \<Longrightarrow> closed (wt_commands t)"
  "stp_task h p = Inr t \<Longrightarrow> closed (wt_commands t)" "secure_task h q = Inr t \<Longrightarrow> closed (wt_commands t)"
  "protection_task h m x = Inr t \<Longrightarrow> closed (wt_commands t)" "trust_task h m y = Inr t \<Longrightarrow> closed (wt_commands t)"
  "mac_task h m z = Inr t \<Longrightarrow> closed (wt_commands t)"
  by (auto simp: task_defs Let_def split: if_splits dest: switch_task_of_closed)

lemma mapped_closed:
  assumes "collect_all (map f xs) = Inr ts" "\<And>x t. f x = Inr t \<Longrightarrow> closed (wt_commands t)"
  shows "list_all (\<lambda>t. closed (wt_commands t)) ts"
  by (rule collected_closed[OF assms(1)]) (use assms(2) in auto)

lemma collect_all_append:
  "collect_all (xs @ ys) = Inr ts \<longleftrightarrow> (\<exists>as bs. collect_all xs = Inr as \<and> collect_all ys = Inr bs \<and> ts = as @ bs)"
  by (simp add: collect_all_Inr list_all2_append1) (metis list_all2_lengthD)

lemma tab_closed:
  "vlan_tasks db h = Inr ts \<Longrightarrow> list_all (\<lambda>t. closed (wt_commands t)) ts"
  "svi_tasks db h = Inr ts \<Longrightarrow> list_all (\<lambda>t. closed (wt_commands t)) ts"
  "interface_tasks db h = Inr ts \<Longrightarrow> list_all (\<lambda>t. closed (wt_commands t)) ts"
  "channel_tasks db h = Inr ts \<Longrightarrow> list_all (\<lambda>t. closed (wt_commands t)) ts"
  "stp_tasks db h = Inr ts \<Longrightarrow> list_all (\<lambda>t. closed (wt_commands t)) ts"
  "security_tasks db h m = Inr ts \<Longrightarrow> list_all (\<lambda>t. closed (wt_commands t)) ts"
  unfolding vlan_tasks_def svi_tasks_def interface_tasks_def channel_tasks_def stp_tasks_def security_tasks_def
       apply (auto split: if_splits elim!: mapped_closed dest: row_task_closed(1))[1]
      apply (auto simp: collect_all_append dest: mapped_closed[OF _ row_task_closed(3)] mapped_closed[OF _ row_task_closed(2)])[1]
     apply (erule mapped_closed, erule interface_task_closed)
    apply (erule mapped_closed, erule row_task_closed(4))
   apply (auto split: if_splits elim!: mapped_closed dest: row_task_closed(5))[1]
  apply (auto split: if_splits simp: collect_all_append
      dest: mapped_closed[OF _ row_task_closed(6)] mapped_closed[OF _ row_task_closed(7)]
        mapped_closed[OF _ row_task_closed(8)] mapped_closed[OF _ row_task_closed(9)])[1]
  done

lemma candidate_tasks_closed:
  assumes "candidate_tasks db h m = Inr ts"
  shows "list_all (\<lambda>t. closed (wt_commands t)) ts"
  using assms unfolding candidate_tasks_def
  by (auto split: if_splits dest: tab_closed vtp_tasks_closed)

section \<open>One table under acknowledgement\<close>

lemma acknowledge_rows_append:
  "acknowledge_rows (xs @ ys) db = sbind (acknowledge_rows xs db) (acknowledge_rows ys)"
  by (induction xs arbitrary: db) (auto simp: sbind_def split: sum.splits)

lemma affect_one_Inr:
  assumes "distinct (map key rows)" "i \<in> key ` set rows"
  shows "affect_one s (\<lambda>r. key r = i) f rows = Inr (affect (sx_delete s) (\<lambda>r. key r = i) f rows)"
proof -
  have "length (filter (\<lambda>r. key r = i) rows) = 1"
    using assms by (induction rows) (auto simp: filter_empty_conv, metis image_eqI)
  then show ?thesis by (simp add: affect_one_def)
qed

lemma affect_keys:
  assumes "\<And>r. key (f r) = key r"
  shows "map key (affect d (\<lambda>r. key r = i) f rows) = (if d then filter (\<lambda>k. k \<noteq> i) (map key rows) else map key rows)"
  by (induction rows) (auto simp: affect_def assms)

text \<open>The rows a list of references leaves: \<open>refs\<close> pairs a key with the deletion flag.\<close>

fun settled :: "('r \<Rightarrow> int) \<Rightarrow> ('r \<Rightarrow> 'r) \<Rightarrow> (int \<times> bool) list \<Rightarrow> 'r list \<Rightarrow> 'r list" where
  "settled key f [] rows = rows"
| "settled key f ((i, d) # refs) rows = settled key f refs (affect d (\<lambda>r. key r = i) f rows)"

lemma settled_sub:
  assumes "\<And>r. key (f r) = key r" "r' \<in> set (settled key f refs rows)"
  shows "\<exists>r \<in> set rows. key r' = key r"
  using assms(2)
proof (induction refs arbitrary: rows)
  case (Cons x refs)
  then obtain i d where x: "x = (i, d)" by (cases x)
  with Cons obtain r where r: "r \<in> set (affect d (\<lambda>r. key r = i) f rows)" "key r' = key r" by auto
  then show ?case using assms(1) by (auto simp: affect_def split: if_splits)
qed auto

lemma settled_rows:
  assumes "\<And>r. key (f r) = key r" "distinct (map fst refs)" "r' \<in> set (settled key f refs rows)"
  shows "(\<exists>r \<in> set rows. (key r, False) \<in> set refs \<and> r' = f r) \<or> r' \<in> set rows \<and> key r' \<notin> fst ` set refs"
  using assms(2,3)
proof (induction refs arbitrary: rows)
  case (Cons x refs)
  obtain i d where x: "x = (i, d)" by (cases x)
  let ?rows = "affect d (\<lambda>r. key r = i) f rows"
  have old: "(\<exists>r \<in> set ?rows. (key r, False) \<in> set refs \<and> r' = f r) \<or> r' \<in> set ?rows \<and> key r' \<notin> fst ` set refs"
    using Cons.IH[of ?rows] Cons.prems by (simp add: x)
  have new: "(\<exists>q \<in> set rows. key q = i \<and> \<not> d \<and> r = f q) \<or> r \<in> set rows \<and> key r \<noteq> i" if "r \<in> set ?rows" for r
    using that by (auto simp: affect_def split: if_splits)
  have i: "i \<notin> fst ` set refs" using Cons.prems(1) x by simp
  from old show ?case
  proof
    assume "\<exists>r \<in> set ?rows. (key r, False) \<in> set refs \<and> r' = f r"
    then obtain r where r: "r \<in> set ?rows" "(key r, False) \<in> set refs" "r' = f r" by blast
    then have "key r \<noteq> i" using i by force
    then have "r \<in> set rows" using new[OF r(1)] assms(1) by auto
    then show ?thesis using r x by auto
  next
    assume a: "r' \<in> set ?rows \<and> key r' \<notin> fst ` set refs"
    then have "(\<exists>q \<in> set rows. key q = i \<and> \<not> d \<and> r' = f q) \<or> r' \<in> set rows \<and> key r' \<noteq> i" using new by blast
    then show ?thesis
    proof
      assume "\<exists>q \<in> set rows. key q = i \<and> \<not> d \<and> r' = f q"
      then show ?thesis by (auto simp: x)
    next
      assume "r' \<in> set rows \<and> key r' \<noteq> i"
      then show ?thesis using a by (simp add: x)
    qed
  qed
qed simp

locale acked_table =
  fixes rows :: "switch_db \<Rightarrow> 'r list" and put :: "'r list \<Rightarrow> switch_db \<Rightarrow> switch_db"
    and key :: "'r \<Rightarrow> int" and mark :: "'r \<Rightarrow> 'r" and kind :: string
    and free :: "switch_db \<Rightarrow> int \<times> bool \<Rightarrow> bool"
  assumes get_put: "rows (put rs db) = rs"
    and put_put: "put rs (put rs' db) = put rs db"
    and put_get: "put (rows db) db = db"
    and key_mark: "key (mark r) = key r"
    and ack: "free db (i, d) \<Longrightarrow> acknowledge \<lparr>sx_kind = kind, sx_ref = RowId i, sx_delete = d\<rparr> db
      = sbind (affect_one \<lparr>sx_kind = kind, sx_ref = RowId i, sx_delete = d\<rparr> (\<lambda>r. key r = i) mark (rows db))
          (\<lambda>rs. Inr (put rs db))"
    and free_put: "free db x \<Longrightarrow> free (put (affect d (\<lambda>r. key r = i) mark (rows db)) db) x"
begin

lemma acknowledge_free:
  assumes "free db (i, d)" "distinct (map key (rows db))" "i \<in> key ` set (rows db)"
  shows "acknowledge \<lparr>sx_kind = kind, sx_ref = RowId i, sx_delete = d\<rparr> db
    = Inr (put (affect d (\<lambda>r. key r = i) mark (rows db)) db)"
  using assms by (simp add: ack affect_one_Inr)

text \<open>References with distinct keys of the table are all acknowledged, and only the table changes.\<close>

lemma acknowledge_refs:
  assumes "distinct (map key (rows db))" "distinct (map fst refs)" "fst ` set refs \<subseteq> key ` set (rows db)"
    and "\<And>x. x \<in> set refs \<Longrightarrow> free db x"
  shows "acknowledge_rows (map (\<lambda>(i, d). \<lparr>sx_kind = kind, sx_ref = RowId i, sx_delete = d\<rparr>) refs) db
    = Inr (put (settled key mark refs (rows db)) db)"
  using assms
proof (induction refs arbitrary: db)
  case Nil
  show ?case by (simp add: put_get)
next
  case (Cons x refs)
  obtain i d where x: "x = (i, d)" by (cases x)
  let ?rs = "affect d (\<lambda>r. key r = i) mark (rows db)"
  have keys: "map key ?rs = (if d then filter (\<lambda>k. k \<noteq> i) (map key (rows db)) else map key (rows db))"
    by (rule affect_keys) (rule key_mark)
  have step: "acknowledge \<lparr>sx_kind = kind, sx_ref = RowId i, sx_delete = d\<rparr> db = Inr (put ?rs db)"
    using Cons.prems x by (intro acknowledge_free) auto
  have "i \<notin> fst ` set refs" using Cons.prems(2) x by simp
  then have sub: "fst ` set refs \<subseteq> set (map key ?rs)" using Cons.prems(3) x unfolding keys by (cases d) (auto, force)
  have "acknowledge_rows (map (\<lambda>(i, d). \<lparr>sx_kind = kind, sx_ref = RowId i, sx_delete = d\<rparr>) refs) (put ?rs db)
      = Inr (put (settled key mark refs (rows (put ?rs db))) (put ?rs db))"
  proof (rule Cons.IH)
    show "distinct (map key (rows (put ?rs db)))" using Cons.prems(1) by (auto simp: get_put keys)
    show "fst ` set refs \<subseteq> key ` set (rows (put ?rs db))" using sub by (simp add: get_put)
    show "free (put ?rs db) y" if "y \<in> set refs" for y using that Cons.prems(4) by (intro free_put) simp
  qed (use Cons.prems(2) x in simp)
  then show ?case by (simp add: x step get_put put_put)
qed

end

text \<open>The tables of the acknowledgement, each with its kind.\<close>

abbreviation mark_vlan :: "vlan_row \<Rightarrow> vlan_row" where
  "mark_vlan r \<equiv> r\<lparr>vn_success := Synchronized, vn_present := True\<rparr>"

abbreviation mark_svi :: "svi_row \<Rightarrow> svi_row" where
  "mark_svi r \<equiv> r\<lparr>sr_sync := Synchronized, sr_present := True\<rparr>"

abbreviation mark_iface :: "l2_iface \<Rightarrow> l2_iface" where
  "mark_iface r \<equiv> r\<lparr>li_success := Synchronized\<rparr>"

abbreviation mark_channel :: "channel_row \<Rightarrow> channel_row" where
  "mark_channel r \<equiv> r\<lparr>cr_success := Synchronized, cr_present := True, cr_cleanup := []\<rparr>"

abbreviation mark_secure :: "secure_row \<Rightarrow> secure_row" where
  "mark_secure r \<equiv> r\<lparr>ps_success := Synchronized, ps_sync := Synchronized\<rparr>"

text \<open>A VLAN row can go only when no SVI refers to it.\<close>

definition vlan_free :: "switch_db \<Rightarrow> int \<times> bool \<Rightarrow> bool" where
  "vlan_free db x \<longleftrightarrow> (snd x \<longrightarrow> (\<forall>v \<in> set (ss_vlans db). vn_id v = fst x \<longrightarrow> \<not> svi_on db v))"

interpretation acked_vlans: acked_table ss_vlans "\<lambda>rs db. db\<lparr>ss_vlans := rs\<rparr>" vn_id mark_vlan "''vlan''" vlan_free
  by unfold_locales (auto simp: acknowledge_def acknowledge_vlan_def vlan_free_def svi_on_def affect_def list_ex_iff
      split: if_splits)

interpretation acked_svis: acked_table ss_svis "\<lambda>rs db. db\<lparr>ss_svis := rs\<rparr>" sr_id mark_svi "''svi''" "\<lambda>_ _. True"
  by unfold_locales (auto simp: acknowledge_def)

interpretation acked_stp: acked_table ss_stp "\<lambda>rs db. db\<lparr>ss_stp := rs\<rparr>" sg_id "\<lambda>r. r\<lparr>sg_success := Synchronized\<rparr>"
  "''stp''" "\<lambda>_ _. True"
  by unfold_locales (auto simp: acknowledge_def)

interpretation acked_security: acked_table ss_security "\<lambda>rs db. db\<lparr>ss_security := rs\<rparr>" vs_id
  "\<lambda>r. r\<lparr>vs_success := Synchronized\<rparr>" "''l2_vlan''" "\<lambda>_ _. True"
  by unfold_locales (auto simp: acknowledge_def)

interpretation acked_trust: acked_table ss_trust "\<lambda>rs db. db\<lparr>ss_trust := rs\<rparr>" tw_id
  "\<lambda>r. r\<lparr>tw_success := Synchronized\<rparr>" "''trust_port''" "\<lambda>_ _. True"
  by unfold_locales (auto simp: acknowledge_def)

interpretation acked_macs: acked_table ss_macs "\<lambda>rs db. db\<lparr>ss_macs := rs\<rparr>" mr_id
  "\<lambda>r. r\<lparr>mr_success := Synchronized\<rparr>" "''static_mac''" "\<lambda>_ _. True"
  by unfold_locales (auto simp: acknowledge_def)

interpretation acked_secure: acked_table ss_secure "\<lambda>rs db. db\<lparr>ss_secure := rs\<rparr>" ps_iface mark_secure
  "''port_security''" "\<lambda>_ _. True"
  by unfold_locales (auto simp: acknowledge_def)

interpretation acked_ifaces: acked_table ss_ifaces "\<lambda>rs db. db\<lparr>ss_ifaces := rs\<rparr>" li_id mark_iface
  "''interface''" "\<lambda>_ x. \<not> snd x"
  by unfold_locales (auto simp: acknowledge_def)

interpretation acked_channels: acked_table ss_channels "\<lambda>rs db. db\<lparr>ss_channels := rs\<rparr>" cr_id mark_channel
  "''etherchannel''" "\<lambda>_ _. True"
  by unfold_locales (auto simp: acknowledge_def)

interpretation acked_vtp: acked_table "\<lambda>db. vb_switches (ss_vtp db)" "\<lambda>rs db. db\<lparr>ss_vtp := (ss_vtp db)\<lparr>vb_switches := rs\<rparr>\<rparr>"
  sw_id "\<lambda>r. r\<lparr>sw_success := Synchronized, sw_sync := Synchronized\<rparr>" "''vtp''" "\<lambda>_ x. \<not> snd x"
  by unfold_locales (auto simp: acknowledge_def acknowledge_vtp_def)

context acked_table
begin

lemma settle_all:
  assumes "distinct (map key (rows db))" "distinct (map key xs)" "set xs \<subseteq> set (rows db)"
    and "\<And>r. r \<in> set xs \<Longrightarrow> free db (key r, D r)"
  obtains db' where "acknowledge_rows (map (\<lambda>r. \<lparr>sx_kind = kind, sx_ref = RowId (key r), sx_delete = D r\<rparr>) xs) db = Inr db'"
    "db' = put (rows db') db"
    "\<And>r. r \<in> set (rows db') \<Longrightarrow> (\<exists>q \<in> set xs. \<not> D q \<and> r = mark q) \<or> r \<in> set (rows db) \<and> r \<notin> set xs"
proof -
  let ?refs = "map (\<lambda>r. (key r, D r)) xs"
  let ?db' = "put (settled key mark ?refs (rows db)) db"
  have "acknowledge_rows (map (\<lambda>(i, d). \<lparr>sx_kind = kind, sx_ref = RowId i, sx_delete = d\<rparr>) ?refs) db = Inr ?db'"
    using assms by (intro acknowledge_refs) (auto simp: comp_def)
  then have 1: "acknowledge_rows (map (\<lambda>r. \<lparr>sx_kind = kind, sx_ref = RowId (key r), sx_delete = D r\<rparr>) xs) db = Inr ?db'"
    by (simp add: comp_def)
  have 3: "(\<exists>q \<in> set xs. \<not> D q \<and> r = mark q) \<or> r \<in> set (rows db) \<and> r \<notin> set xs"
    if "r \<in> set (rows ?db')" for r
  proof -
    have "distinct (map fst ?refs)" using assms(2) by (simp add: comp_def)
    then have "(\<exists>q \<in> set (rows db). (key q, False) \<in> set ?refs \<and> r = mark q) \<or> r \<in> set (rows db) \<and> key r \<notin> fst ` set ?refs"
      using that by (intro settled_rows) (auto simp: key_mark get_put)
    moreover have "q \<in> set xs \<and> \<not> D q" if q: "q \<in> set (rows db)" "(key q, False) \<in> set ?refs" for q
    proof -
      obtain x where x: "x \<in> set xs" "key x = key q" "\<not> D x" using q(2) by auto
      then have "x = q" using assms(1,3) q(1) by (meson distinct_map inj_onD subsetD)
      then show ?thesis using x by simp
    qed
    ultimately show ?thesis by force
  qed
  show ?thesis by (rule that[OF 1 _ 3]) (simp_all add: get_put)
qed

text \<open>In particular nothing pending is left when every pending row was referred to.\<close>

lemma settle_pending:
  assumes "distinct (map key (rows db))" "\<And>r. \<not> P (mark r)"
    and "\<And>r. r \<in> set (rows db) \<Longrightarrow> P r \<Longrightarrow> free db (key r, D r)"
  shows "\<exists>db'. acknowledge_rows (map (\<lambda>r. \<lparr>sx_kind = kind, sx_ref = RowId (key r), sx_delete = D r\<rparr>)
      (sort_key k (filter P (rows db)))) db = Inr db'
    \<and> db' = put (rows db') db \<and> filter P (rows db') = []
    \<and> (\<forall>r \<in> set (rows db'). (\<exists>q \<in> set (rows db). P q \<and> \<not> D q \<and> r = mark q) \<or> r \<in> set (rows db) \<and> \<not> P r)"
proof -
  let ?xs = "sort_key k (filter P (rows db))"
  have d: "distinct (map key ?xs)"
  proof -
    have "mset (map key ?xs) = mset (map key (filter P (rows db)))" by simp
    then show ?thesis using assms(1) distinct_map_filter mset_eq_imp_distinct_iff by blast
  qed
  show ?thesis
  proof (rule settle_all[OF assms(1) d])
    fix db' assume *: "acknowledge_rows (map (\<lambda>r. \<lparr>sx_kind = kind, sx_ref = RowId (key r), sx_delete = D r\<rparr>) ?xs) db = Inr db'"
      "db' = put (rows db') db"
      "\<And>r. r \<in> set (rows db') \<Longrightarrow> (\<exists>q \<in> set ?xs. \<not> D q \<and> r = mark q) \<or> r \<in> set (rows db) \<and> r \<notin> set ?xs"
    have "(\<exists>q \<in> set (rows db). P q \<and> \<not> D q \<and> r = mark q) \<or> r \<in> set (rows db) \<and> \<not> P r"
      if "r \<in> set (rows db')" for r using *(3)[OF that] by auto
    then show ?thesis using * assms(2) by (intro exI[of _ db']) (auto simp: filter_empty_conv)
  qed (use assms(3) in auto)
qed

end

section \<open>References of different kinds\<close>

text \<open>References that may be exchanged.\<close>

definition exchange :: "success_row \<Rightarrow> success_row \<Rightarrow> bool" where
  "exchange a b \<longleftrightarrow> (\<forall>db db'. acknowledge_rows [a, b] db = Inr db' \<longleftrightarrow> acknowledge_rows [b, a] db = Inr db')"

lemma exchange_move:
  assumes "\<And>b. b \<in> set bs \<Longrightarrow> exchange a b"
  shows "acknowledge_rows (bs @ a # ys) db = Inr db' \<longleftrightarrow> acknowledge_rows (a # bs @ ys) db = Inr db'"
  using assms
proof (induction bs arbitrary: db)
  case (Cons b bs)
  have "acknowledge_rows ((b # bs) @ a # ys) db = Inr db'
      \<longleftrightarrow> (\<exists>db1. acknowledge b db = Inr db1 \<and> acknowledge_rows (a # bs @ ys) db1 = Inr db')"
    using Cons by (simp add: sbind_eq_Inr_conv)
  also have "\<dots> \<longleftrightarrow> (\<exists>db2. acknowledge_rows [b, a] db = Inr db2 \<and> acknowledge_rows (bs @ ys) db2 = Inr db')"
    by (auto simp: sbind_eq_Inr_conv)
  also have "\<dots> \<longleftrightarrow> (\<exists>db2. acknowledge_rows [a, b] db = Inr db2 \<and> acknowledge_rows (bs @ ys) db2 = Inr db')"
    using Cons.prems[of b] by (simp add: exchange_def)
  also have "\<dots> \<longleftrightarrow> acknowledge_rows (a # (b # bs) @ ys) db = Inr db'" by (auto simp: sbind_eq_Inr_conv)
  finally show ?case .
qed simp

lemma exchange_blocks:
  assumes "\<And>x b. b \<in> set bs \<Longrightarrow> exchange (f x) b"
  shows "acknowledge_rows (bs @ map f xs @ zs) db = Inr db' \<longleftrightarrow> acknowledge_rows (map f xs @ bs @ zs) db = Inr db'"
proof (induction xs arbitrary: db)
  case (Cons x xs)
  have "acknowledge_rows (bs @ f x # (map f xs @ zs)) db = Inr db'
      \<longleftrightarrow> acknowledge_rows (f x # bs @ (map f xs @ zs)) db = Inr db'"
    using assms by (intro exchange_move)
  also have "\<dots> \<longleftrightarrow> acknowledge_rows (f x # map f xs @ bs @ zs) db = Inr db'"
    using Cons.IH by (simp add: sbind_eq_Inr_conv)
  finally show ?case by simp
qed simp

lemma exchange_unzip:
  assumes "\<And>x y b. b \<in> set (g y) \<Longrightarrow> exchange (f x) b"
  shows "acknowledge_rows (concat (map (\<lambda>x. f x # g x) xs)) db = Inr db'
    \<longleftrightarrow> acknowledge_rows (map f xs @ concat (map g xs)) db = Inr db'"
proof (induction xs arbitrary: db)
  case (Cons x xs)
  have "acknowledge_rows (f x # g x @ concat (map (\<lambda>x. f x # g x) xs)) db = Inr db'
      \<longleftrightarrow> acknowledge_rows (f x # g x @ map f xs @ concat (map g xs)) db = Inr db'"
    using Cons.IH by (auto simp: sbind_eq_Inr_conv acknowledge_rows_append)
  also have "\<dots> \<longleftrightarrow> acknowledge_rows (f x # map f xs @ g x @ concat (map g xs)) db = Inr db'"
    using exchange_blocks[of "g x" f] assms by (simp add: sbind_eq_Inr_conv)
  finally show ?case by simp
qed simp

section \<open>Each tab\<close>

lemma switch_task_of_tracking: "switch_task_of h m r e l p tr s = Inr t \<Longrightarrow> wt_tracking t = tr"
  by (auto simp: switch_task_of_def sbind_eq_Inr_conv)

lemma row_task_tracking:
  "vlan_row_task h v = Inr t \<Longrightarrow> wt_tracking t = [row_of ''vlan'' (vn_id v) (vn_success v)]"
  "svi_row_task h s = Inr t \<Longrightarrow> wt_tracking t = [row_of ''svi'' (sr_id s) (sr_sync s)]"
  "routing_task h g = Inr t \<Longrightarrow> wt_tracking t = [\<lparr>sx_kind = ''switch_l3'', sx_ref = HostId h, sx_delete = False\<rparr>]"
  "stp_task h p = Inr t \<Longrightarrow> wt_tracking t = [row_of ''stp'' (sg_id p) (sg_success p)]"
  "secure_task h q = Inr t \<Longrightarrow> wt_tracking t = [\<lparr>sx_kind = ''port_security'', sx_ref = RowId (ps_iface (snd q)), sx_delete = False\<rparr>]"
  "protection_task h m x = Inr t \<Longrightarrow> wt_tracking t = [row_of ''l2_vlan'' (vs_id x) (vs_success x)]"
  "trust_task h m y = Inr t \<Longrightarrow> wt_tracking t = [row_of ''trust_port'' (tw_id y) (tw_success y)]"
  "mac_task h m z = Inr t \<Longrightarrow> wt_tracking t = [row_of ''static_mac'' (mr_id (fst z)) (mr_success (fst z))]"
  by (auto simp: task_defs Let_def dest: switch_task_of_tracking)

lemma interface_task_tracking:
  assumes "interface_task db h i = Inr t"
  shows "wt_tracking t = \<lparr>sx_kind = ''interface'', sx_ref = RowId (li_id i), sx_delete = False\<rparr>
    # (if removes_security db i then [\<lparr>sx_kind = ''port_security'', sx_ref = RowId (li_id i), sx_delete = False\<rparr>] else [])"
  using assms by (auto simp: interface_task_def Let_def sbind_eq_Inr_conv split: if_splits option.splits dest!: switch_task_of_tracking)

lemma channel_task_tracking:
  assumes "channel_task db h r = Inr t"
  shows "wt_tracking t = row_of ''etherchannel'' (cr_id r) (cr_success r)
    # (case logical_interface db h (cr_number r) of None \<Rightarrow> []
       | Some i \<Rightarrow> if cr_success r = PendingDelete then [row_of ''interface'' i PendingDelete] else [])"
  using assms by (auto simp: channel_task_def Let_def split: if_splits dest!: switch_task_of_tracking)

lemmas row_refs = row_task_tracking[unfolded row_of_def]

text \<open>The references of collected tasks, one list per row.\<close>

lemma tracked:
  assumes "collect_all (map f xs) = Inr ts" "\<And>x t. f x = Inr t \<Longrightarrow> wt_tracking t = g x"
  shows "concat (map wt_tracking ts) = concat (map g xs)"
  using assms(1) by (induction xs arbitrary: ts) (auto simp: sbind_eq_Inr_conv assms(2))

lemma concat_single: "concat (map (\<lambda>x. [f x]) xs) = map f xs"
  by (induction xs) auto

lemma not_pending [simp]: "\<not> is_pending Synchronized"
  by (simp add: is_pending_def)

context acked_table
begin

lemma tab_settles:
  assumes "distinct (map key (rows db))" "\<forall>r. \<not> P (mark r)" "\<forall>r \<in> set (rows db). P r \<longrightarrow> free db (key r, D r)"
    and "collect_all (map f (sort_key k (filter P (rows db)))) = Inr ts"
    and "\<forall>x t. f x = Inr t \<longrightarrow> wt_tracking t = [\<lparr>sx_kind = kind, sx_ref = RowId (key x), sx_delete = D x\<rparr>]"
  shows "\<exists>db'. acknowledge_rows (concat (map wt_tracking ts)) db = Inr db'
    \<and> db' = put (rows db') db \<and> filter P (rows db') = []
    \<and> (\<forall>r \<in> set (rows db'). (\<exists>q \<in> set (rows db). P q \<and> \<not> D q \<and> r = mark q) \<or> r \<in> set (rows db) \<and> \<not> P r)"
proof -
  have "concat (map wt_tracking ts) = map (\<lambda>x. \<lparr>sx_kind = kind, sx_ref = RowId (key x), sx_delete = D x\<rparr>)
      (sort_key k (filter P (rows db)))"
    using tracked[OF assms(4)] assms(5) by (simp add: concat_single)
  then show ?thesis using settle_pending[of db P D k] assms(1-3) by simp
qed

end

text \<open>What a consistent database says about a VLAN staged for removal.\<close>

lemma staged_vlan_free:
  assumes "store_ok db" "vlans_live db" "r \<in> set (ss_vlans db)"
  shows "vlan_free db (vn_id r, vn_success r = PendingDelete)"
  unfolding vlan_free_def
proof (intro impI ballI)
  fix v assume d: "snd (vn_id r, vn_success r = PendingDelete)" and v: "v \<in> set (ss_vlans db)" "vn_id v = fst (vn_id r, vn_success r = PendingDelete)"
  have keys: "keys_ok (ss_next_vlan db) (map vlan_key (ss_vlans db))" using assms(1) by (simp add: store_ok_def)
  then have id: "distinct (map vn_id (ss_vlans db))" and hv: "distinct (map (\<lambda>r. (vn_host r, vn_vlan r)) (ss_vlans db))"
    by (simp_all add: keys_ok_def vlan_key_def comp_def)
  have "v = r" using id v assms(3) by (simp add: distinct_map inj_on_def)
  have "\<not> live_vlan db (vn_host r) (vn_vlan r)"
  proof
    assume "live_vlan db (vn_host r) (vn_vlan r)"
    then obtain q where "q \<in> set (ss_vlans db)" "vn_host q = vn_host r" "vn_vlan q = vn_vlan r" "vn_success q \<noteq> PendingDelete"
      by (auto simp: live_vlan_def list_ex_iff)
    moreover from this have "q = r" using hv assms(3) by (simp add: distinct_map inj_on_def)
    ultimately show False using d by simp
  qed
  then have "\<not> uses_vlan db (vn_host r) (vn_vlan r)" using assms(2) by (auto simp: vlans_live_def)
  then show "\<not> svi_on db v" using \<open>v = r\<close> by (auto simp: uses_vlan_def svi_on_def list_ex_iff)
qed

lemma vlan_ids: "store_ok db \<Longrightarrow> distinct (map vn_id (ss_vlans db))"
  by (simp add: store_ok_def keys_ok_def vlan_key_def comp_def)

lemma svi_ids: "store_ok db \<Longrightarrow> distinct (map sr_id (ss_svis db))"
  by (simp add: store_ok_def keys_ok_def svi_key_def comp_def)

lemma vlan_tab_settles:
  assumes ok: "store_ok db" "vlans_live db" and ts: "vlan_tasks db h = Inr ts"
  shows "\<exists>db'. acknowledge_rows (concat (map wt_tracking ts)) db = Inr db' \<and> vlan_tasks db' h = Inr []"
proof (cases "case vlan_vtp_context (ss_vtp db) h of None \<Rightarrow> False | Some (i, name, mode) \<Rightarrow> lower mode = ''client''")
  case True
  then show ?thesis using ts by (simp add: vlan_tasks_def)
next
  case False
  let ?P = "\<lambda>r. vn_host r = h \<and> is_pending (vn_success r)"
  have "collect_all (map (vlan_row_task h) (sort_key vn_vlan (filter ?P (ss_vlans db)))) = Inr ts"
    using ts False by (simp add: vlan_tasks_def)
  then obtain db' where *:
    "acknowledge_rows (concat (map wt_tracking ts)) db = Inr db'" "db' = db\<lparr>ss_vlans := ss_vlans db'\<rparr>" "filter ?P (ss_vlans db') = []"
    using acked_vlans.tab_settles[where P = ?P and D = "\<lambda>r. vn_success r = PendingDelete" and f = "vlan_row_task h", of db vn_vlan ts]
      vlan_ids[OF ok(1)] staged_vlan_free[OF ok] row_refs(1) by auto
  have "ss_vtp db' = ss_vtp db" by (subst *(2)) simp
  then show ?thesis using * False by (simp add: vlan_tasks_def)
qed

lemma filter_key_cases: "distinct (map key xs) \<Longrightarrow> filter (\<lambda>r. key r = k) xs = [] \<or> (\<exists>r. filter (\<lambda>r. key r = k) xs = [r])"
proof (induction xs)
  case (Cons x xs)
  then show ?case by (cases "key x = k") (auto simp: filter_empty_conv image_iff)
qed simp

lemma acknowledge_routing:
  assumes "distinct (map fst (ss_routing db))"
    and "collect_all (map (routing_task h) (filter (\<lambda>r. fst r = h \<and> is_pending (snd (snd r))) (ss_routing db))) = Inr ts"
  shows "\<exists>rt. acknowledge_rows (concat (map wt_tracking ts)) db = Inr (db\<lparr>ss_routing := rt\<rparr>)
    \<and> filter (\<lambda>r. fst r = h \<and> is_pending (snd (snd r))) rt = []"
proof -
  let ?Q = "\<lambda>r. fst r = h \<and> is_pending (snd (snd r))" and ?f = "\<lambda>(h, on, _). (h, on, Synchronized)"
  have refs: "concat (map wt_tracking ts) = map (\<lambda>_. \<lparr>sx_kind = ''switch_l3'', sx_ref = HostId h, sx_delete = False\<rparr>) (filter ?Q (ss_routing db))"
    using tracked[OF assms(2) row_task_tracking(3)] by (simp add: concat_single)
  have hosts: "filter (\<lambda>r. fst r = h) (ss_routing db) = [] \<or> (\<exists>r. filter (\<lambda>r. fst r = h) (ss_routing db) = [r])"
    by (rule filter_key_cases[OF assms(1)])
  have sub: "filter ?Q (ss_routing db) = filter (\<lambda>r. is_pending (snd (snd r))) (filter (\<lambda>r. fst r = h) (ss_routing db))"
    by simp
  show ?thesis
  proof (cases "filter ?Q (ss_routing db) = []")
    case True
    have c: "concat (map wt_tracking ts) = []" unfolding refs True by simp
    show ?thesis unfolding c using True by (intro exI[of _ "ss_routing db"]) simp
  next
    case False
    then have "filter (\<lambda>r. fst r = h) (ss_routing db) \<noteq> []" unfolding sub by (cases "filter (\<lambda>r. fst r = h) (ss_routing db)") simp_all
    with hosts obtain r where r1: "filter (\<lambda>r. fst r = h) (ss_routing db) = [r]" by blast
    then have r2: "filter ?Q (ss_routing db) = [r]" using False unfolding sub r1 by (simp split: if_splits)
    note r = r1 r2
    have "filter ?Q (affect False (\<lambda>r. fst r = h) ?f (ss_routing db)) = []"
      by (auto simp: affect_def filter_empty_conv)
    then show ?thesis using r unfolding refs r(2)
      by (intro exI[of _ "affect False (\<lambda>r. fst r = h) ?f (ss_routing db)"]) (simp add: acknowledge_def affect_one_def)
  qed
qed

lemma svi_tab_settles:
  assumes ok: "store_ok db" "tables_ok db" and ts: "svi_tasks db h = Inr ts"
  shows "\<exists>db'. acknowledge_rows (concat (map wt_tracking ts)) db = Inr db' \<and> svi_tasks db' h = Inr []"
proof -
  let ?P = "\<lambda>r. sr_host r = h \<and> is_pending (sr_sync r)" and ?Q = "\<lambda>r. fst r = h \<and> is_pending (snd (snd r))"
  obtain as bs where c: "collect_all (map (routing_task h) (filter ?Q (ss_routing db))) = Inr as"
    "collect_all (map (svi_row_task h) (sort_key sr_vlan (filter ?P (ss_svis db)))) = Inr bs" "ts = as @ bs"
    using ts by (auto simp: svi_tasks_def collect_all_append)
  have "distinct (map fst (ss_routing db))" using ok(2) by (simp add: tables_ok_def)
  from acknowledge_routing[OF this c(1)] obtain rt where rt:
    "acknowledge_rows (concat (map wt_tracking as)) db = Inr (db\<lparr>ss_routing := rt\<rparr>)" "filter ?Q rt = []" by blast
  let ?db = "db\<lparr>ss_routing := rt\<rparr>"
  obtain db' where *: "acknowledge_rows (concat (map wt_tracking bs)) ?db = Inr db'" "db' = ?db\<lparr>ss_svis := ss_svis db'\<rparr>"
    "filter ?P (ss_svis db') = []"
    using acked_svis.tab_settles[where P = ?P and D = "\<lambda>r. sr_sync r = PendingDelete" and f = "svi_row_task h", of ?db sr_vlan bs]
      svi_ids[OF ok(1)] c(2) row_refs(2) by auto
  have "ss_routing db' = rt" by (subst *(2)) simp
  then show ?thesis using * rt c(3) by (simp add: svi_tasks_def acknowledge_rows_append sbind_eq_Inr_conv)
qed

lemma stp_tab_settles:
  assumes ok: "tables_ok db" and ts: "stp_tasks db h = Inr ts"
  shows "\<exists>db'. acknowledge_rows (concat (map wt_tracking ts)) db = Inr db' \<and> stp_tasks db' h = Inr []"
proof -
  let ?P = "\<lambda>r. sg_host r = h \<and> is_pending (sg_success r)"
  have c: "length (stp_modes db h) \<le> 1" "collect_all (map (stp_task h) (sort_key sg_vlan (filter ?P (ss_stp db)))) = Inr ts"
    using ts by (auto simp: stp_tasks_def split: if_splits)
  have "distinct (map sg_id (ss_stp db))" using ok by (simp add: tables_ok_def serial_def)
  moreover have "\<forall>r. \<not> ?P (r\<lparr>sg_success := Synchronized\<rparr>)" by simp
  moreover have "\<forall>x t. stp_task h x = Inr t \<longrightarrow>
      wt_tracking t = [\<lparr>sx_kind = ''stp'', sx_ref = RowId (sg_id x), sx_delete = (sg_success x = PendingDelete)\<rparr>]"
    using row_refs(4) by blast
  ultimately have "\<exists>db'. acknowledge_rows (concat (map wt_tracking ts)) db = Inr db'
      \<and> db' = db\<lparr>ss_stp := ss_stp db'\<rparr> \<and> filter ?P (ss_stp db') = []
      \<and> (\<forall>r \<in> set (ss_stp db'). (\<exists>q \<in> set (ss_stp db). ?P q \<and> \<not> sg_success q = PendingDelete \<and> r = q\<lparr>sg_success := Synchronized\<rparr>)
       \<or> r \<in> set (ss_stp db) \<and> \<not> ?P r)"
    by (intro acked_stp.tab_settles[OF _ _ _ c(2)]) simp_all
  then obtain db' where *: "acknowledge_rows (concat (map wt_tracking ts)) db = Inr db'" "filter ?P (ss_stp db') = []"
    "\<And>r. r \<in> set (ss_stp db') \<Longrightarrow> (\<exists>q \<in> set (ss_stp db). ?P q \<and> \<not> sg_success q = PendingDelete \<and> r = q\<lparr>sg_success := Synchronized\<rparr>)
       \<or> r \<in> set (ss_stp db) \<and> \<not> ?P r"
    by blast
  have "set (stp_modes db' h) \<subseteq> set (stp_modes db h)"
  proof
    fix m assume "m \<in> set (stp_modes db' h)"
    then obtain r where r: "r \<in> set (ss_stp db')" "sg_host r = h" "sg_success r \<noteq> PendingDelete" "m = sg_mode r"
      by (auto simp: stp_modes_def)
    from *(3)[OF r(1)] have "\<exists>q \<in> set (ss_stp db). sg_host q = h \<and> sg_success q \<noteq> PendingDelete \<and> sg_mode q = sg_mode r"
    proof
      assume "\<exists>q \<in> set (ss_stp db). ?P q \<and> \<not> sg_success q = PendingDelete \<and> r = q\<lparr>sg_success := Synchronized\<rparr>"
      then obtain q where "q \<in> set (ss_stp db)" "sg_host q = h" "sg_success q \<noteq> PendingDelete" "r = q\<lparr>sg_success := Synchronized\<rparr>" by blast
      then show ?thesis by (intro bexI[of _ q]) simp_all
    next
      assume "r \<in> set (ss_stp db) \<and> \<not> ?P r"
      then show ?thesis using r(2,3) by blast
    qed
    then show "m \<in> set (stp_modes db h)" using r(4) by (auto simp: stp_modes_def image_iff)
  qed
  then have "card (set (stp_modes db' h)) \<le> card (set (stp_modes db h))" by (intro card_mono) auto
  then have "length (stp_modes db' h) \<le> 1" using c(1) by (simp add: stp_modes_def length_remdups_card_conv)
  then show ?thesis using *(1,2) by (simp add: stp_tasks_def)
qed

lemma vtp_tab_settles:
  assumes ok: "tables_ok db" and ts: "vtp_tasks db h = Inr ts"
  shows "\<exists>db'. acknowledge_rows (concat (map wt_tracking ts)) db = Inr db' \<and> (ts = [] \<or> vtp_tasks db' h = Inr [])"
  using ts
proof (cases rule: vtp_tasks_cases)
  case (2 rows t)
  let ?P = "\<lambda>s. sw_host s = h \<and> is_pending (sw_success s)"
  have d: "distinct (map sw_id (vb_switches (ss_vtp db)))" using ok by (simp add: tables_ok_def vtp_ok_def)
  have "wt_tracking t = map (\<lambda>s. \<lparr>sx_kind = ''vtp'', sx_ref = RowId (sw_id s), sx_delete = False\<rparr>) (filter ?P (vb_switches (ss_vtp db)))"
    using switch_task_of_tracking 2(1) unfolding vtp_task_def by blast
  moreover obtain db' where "acknowledge_rows (map (\<lambda>s. \<lparr>sx_kind = ''vtp'', sx_ref = RowId (sw_id s), sx_delete = False\<rparr>)
      (sort_key (\<lambda>_. 0 :: nat) (filter ?P (vb_switches (ss_vtp db))))) db = Inr db'" "filter ?P (vb_switches (ss_vtp db')) = []"
    using acked_vtp.settle_pending[of db ?P "\<lambda>_. False" "\<lambda>_. 0 :: nat"] d by auto
  ultimately show ?thesis using 2(2) by (intro exI[of _ db']) (simp add: vtp_tasks_def Let_def sort_key_const)
qed simp


lemma sort_key_eq_Nil [simp]: "sort_key k xs = [] \<longleftrightarrow> xs = []"
  by (metis length_0_conv length_sort)

lemma join_unique:
  assumes "\<And>s. length (g s) \<le> 1"
  shows "map snd (concat (map (\<lambda>s. map (\<lambda>i. (i, s)) (g s)) xs)) = filter (\<lambda>s. g s \<noteq> []) xs"
proof (induction xs)
  case (Cons s xs)
  then show ?case using assms[of s] by (cases "g s") simp_all
qed simp

lemma port_security_tab_settles:
  assumes ok: "tables_ok db" and ts: "collect_all (map (secure_task h) (secure_ports db h)) = Inr ts"
  shows "\<exists>db'. acknowledge_rows (concat (map wt_tracking ts)) db = Inr db' \<and> secure_ports db' h = []"
proof -
  let ?g = "\<lambda>s. filter (\<lambda>i. li_id i = ps_iface s \<and> li_host i = h \<and> li_mode i = ''access'') (ss_ifaces db)"
  let ?rows = "filter (\<lambda>s. is_pending (ps_success s)) (ss_secure db)"
  have ids: "distinct (map li_id (ss_ifaces db))" "distinct (map ps_iface (ss_secure db))"
    using ok by (simp_all add: tables_ok_def serial_def)
  have one: "length (?g s) \<le> 1" for s
  proof -
    have g: "?g s = filter (\<lambda>i. li_host i = h \<and> li_mode i = ''access'') (filter (\<lambda>i. li_id i = ps_iface s) (ss_ifaces db))"
      by (simp add: conj_ac)
    have "length (filter (\<lambda>i. li_id i = ps_iface s) (ss_ifaces db)) \<le> 1"
      using filter_key_cases[OF ids(1), of "ps_iface s"] by auto
    then show ?thesis unfolding g by (rule order_trans[OF length_filter_le])
  qed
  have joined: "map snd (concat (map (\<lambda>s. map (\<lambda>i. (i, s)) (?g s)) ?rows)) = filter (\<lambda>s. ?g s \<noteq> []) ?rows"
    by (rule join_unique) (rule one)
  have "mset (map snd (secure_ports db h)) = mset (map snd (concat (map (\<lambda>s. map (\<lambda>i. (i, s)) (?g s)) ?rows)))"
    unfolding secure_ports_def by (simp only: mset_map mset_sort)
  then have perm: "mset (map snd (secure_ports db h)) = mset (filter (\<lambda>s. is_pending (ps_success s) \<and> ?g s \<noteq> []) (ss_secure db))"
    unfolding joined by (simp only: filter_filter)
  then have sub: "set (map snd (secure_ports db h)) = {s \<in> set (ss_secure db). is_pending (ps_success s) \<and> ?g s \<noteq> []}"
    using mset_eq_setD[OF perm] by (simp only: set_filter)
  have keys: "mset (map ps_iface (map snd (secure_ports db h)))
      = mset (map ps_iface (filter (\<lambda>s. is_pending (ps_success s) \<and> ?g s \<noteq> []) (ss_secure db)))"
    using arg_cong[OF perm, of "image_mset ps_iface"] by (simp only: mset_map)
  have d: "distinct (map ps_iface (map snd (secure_ports db h)))"
    unfolding mset_eq_imp_distinct_iff[OF keys] by (rule distinct_map_filter[OF ids(2)])
  have refs: "concat (map wt_tracking ts) = map (\<lambda>s. \<lparr>sx_kind = ''port_security'', sx_ref = RowId (ps_iface s), sx_delete = False\<rparr>)
      (map snd (secure_ports db h))"
    using tracked[OF ts row_refs(5)] by (simp add: concat_single comp_def)
  show ?thesis unfolding refs
  proof (rule acked_secure.settle_all[OF ids(2) d, where D = "\<lambda>_. False"])
    show "set (map snd (secure_ports db h)) \<subseteq> set (ss_secure db)" using sub by blast
  next
    fix db' assume *: "acknowledge_rows (map (\<lambda>r. \<lparr>sx_kind = ''port_security'', sx_ref = RowId (ps_iface r), sx_delete = False\<rparr>)
        (map snd (secure_ports db h))) db = Inr db'" "db' = db\<lparr>ss_secure := ss_secure db'\<rparr>"
      "\<And>r. r \<in> set (ss_secure db') \<Longrightarrow> (\<exists>q \<in> set (map snd (secure_ports db h)). \<not> False \<and> r = mark_secure q)
         \<or> r \<in> set (ss_secure db) \<and> r \<notin> set (map snd (secure_ports db h))"
    have "ss_ifaces db' = ss_ifaces db" by (subst *(2)) simp
    moreover have "?g r = []" if "r \<in> set (ss_secure db')" "is_pending (ps_success r)" for r
      using *(3)[OF that(1)] that(2) unfolding sub by auto
    ultimately have "secure_ports db' h = []" by (auto simp: secure_ports_def filter_empty_conv)
    then show "\<exists>db'. acknowledge_rows (map (\<lambda>s. \<lparr>sx_kind = ''port_security'', sx_ref = RowId (ps_iface s), sx_delete = False\<rparr>)
        (map snd (secure_ports db h))) db = Inr db' \<and> secure_ports db' h = []"
      using *(1) by blast
  qed simp
qed


lemma distinct_map_sort: "distinct (map f xs) \<Longrightarrow> distinct (map f (sort_key k xs))"
  using mset_eq_imp_distinct_iff[of "map f (sort_key k xs)" "map f xs"] by simp

lemma l2_security_tab_settles:
  assumes ok: "tables_ok db" and m: "m \<noteq> ''port_security''" and ts: "security_tasks db h m = Inr ts"
  shows "\<exists>db'. acknowledge_rows (concat (map wt_tracking ts)) db = Inr db' \<and> security_tasks db' h m = Inr []"
proof -
  let ?P = "\<lambda>r. vs_host r = h \<and> is_pending (vs_success r)" and ?Q = "\<lambda>r. tw_host r = h \<and> is_pending (tw_success r)"
  let ?R = "\<lambda>db r. (mr_type r = ''static'' \<and> iface_of db h (mr_iface r) (\<lambda>_. True)) \<and> is_pending (mr_success r)"
  obtain as bs cs where c: "collect_all (map (protection_task h m) (sort_key vs_vlan (filter ?P (ss_security db)))) = Inr as"
    "collect_all (map (trust_task h m) (sort_key (\<lambda>t. lower (tw_name t)) (filter ?Q (ss_trust db)))) = Inr bs"
    "collect_all (map (mac_task h m) (filter (\<lambda>(m, _). is_pending (mr_success m)) (static_bindings db h))) = Inr cs"
    "ts = as @ bs @ cs"
    using ts m unfolding security_tasks_def by (auto simp: collect_all_append)
  have ids: "distinct (map vs_id (ss_security db))" "distinct (map tw_id (ss_trust db))" "distinct (map mr_id (ss_macs db))"
    using ok by (simp_all add: tables_ok_def serial_def)
  obtain db1 where 1: "acknowledge_rows (concat (map wt_tracking as)) db = Inr db1" "db1 = db\<lparr>ss_security := ss_security db1\<rparr>"
    "filter ?P (ss_security db1) = []"
    using acked_security.tab_settles[where P = ?P and D = "\<lambda>r. vs_success r = PendingDelete" and f = "protection_task h m", of db vs_vlan as]
      ids(1) c(1) row_refs(6) by auto
  obtain db2 where 2: "acknowledge_rows (concat (map wt_tracking bs)) db1 = Inr db2" "db2 = db1\<lparr>ss_trust := ss_trust db2\<rparr>"
    "filter ?Q (ss_trust db2) = []"
  proof -
    have "ss_trust db1 = ss_trust db" by (subst 1(2)) simp
    then show ?thesis using that row_refs(7) ids(2) c(2)
      acked_trust.tab_settles[where P = ?Q and D = "\<lambda>r. tw_success r = PendingDelete" and f = "trust_task h m",
        of db1 "\<lambda>t. lower (tw_name t)" bs] by auto
  qed
  have same: "ss_macs db2 = ss_macs db" "ss_ifaces db2 = ss_ifaces db" by (subst 2(2), subst 1(2), simp)+
  have "concat (map wt_tracking cs) = map (\<lambda>r. \<lparr>sx_kind = ''static_mac'', sx_ref = RowId (mr_id r), sx_delete = (mr_success r = PendingDelete)\<rparr>)
      (filter (\<lambda>m. is_pending (mr_success m)) (sort_key mr_vlan (sort_key mr_addr
        (filter (\<lambda>m. mr_type m = ''static'' \<and> iface_of db h (mr_iface m) (\<lambda>_. True)) (ss_macs db)))))"
    using tracked[OF c(3) row_refs(8)] by (simp add: concat_single static_bindings_def filter_map comp_def)
  moreover have "distinct (map mr_id (filter (\<lambda>m. is_pending (mr_success m)) (sort_key mr_vlan (sort_key mr_addr
        (filter (\<lambda>m. mr_type m = ''static'' \<and> iface_of db h (mr_iface m) (\<lambda>_. True)) (ss_macs db))))))"
    by (intro distinct_map_filter distinct_map_sort ids(3))
  ultimately obtain db3 where 3: "acknowledge_rows (concat (map wt_tracking cs)) db2 = Inr db3" "db3 = db2\<lparr>ss_macs := ss_macs db3\<rparr>"
    "\<And>r. r \<in> set (ss_macs db3) \<Longrightarrow> mr_success r = Synchronized \<or> r \<in> set (ss_macs db) \<and> \<not> ?R db r"
  proof -
    let ?xs = "filter (\<lambda>m. is_pending (mr_success m)) (sort_key mr_vlan (sort_key mr_addr
        (filter (\<lambda>m. mr_type m = ''static'' \<and> iface_of db h (mr_iface m) (\<lambda>_. True)) (ss_macs db))))"
    assume r: "concat (map wt_tracking cs) = map (\<lambda>r. \<lparr>sx_kind = ''static_mac'', sx_ref = RowId (mr_id r), sx_delete = (mr_success r = PendingDelete)\<rparr>) ?xs"
      "distinct (map mr_id ?xs)"
    show ?thesis
    proof (rule acked_macs.settle_all[of db2 ?xs "\<lambda>r. mr_success r = PendingDelete"])
      show "distinct (map mr_id (ss_macs db2))" "set ?xs \<subseteq> set (ss_macs db2)" using ids(3) by (auto simp: same)
    next
      fix db' assume *: "acknowledge_rows (map (\<lambda>r. \<lparr>sx_kind = ''static_mac'', sx_ref = RowId (mr_id r),
          sx_delete = (mr_success r = PendingDelete)\<rparr>) ?xs) db2 = Inr db'" "db' = db2\<lparr>ss_macs := ss_macs db'\<rparr>"
        "\<And>r. r \<in> set (ss_macs db') \<Longrightarrow> (\<exists>q \<in> set ?xs. \<not> mr_success q = PendingDelete \<and> r = q\<lparr>mr_success := Synchronized\<rparr>)
           \<or> r \<in> set (ss_macs db2) \<and> r \<notin> set ?xs"
      show ?thesis
      proof (rule that)
        show "acknowledge_rows (concat (map wt_tracking cs)) db2 = Inr db'" unfolding r(1) by (rule *(1))
        show "mr_success r = Synchronized \<or> r \<in> set (ss_macs db) \<and> \<not> ?R db r" if "r \<in> set (ss_macs db')" for r
          using *(3)[OF that] by (auto simp: same)
      qed (rule *(2))
    qed (use r(2) in auto)
  qed
  have "ss_security db3 = ss_security db1" "ss_trust db3 = ss_trust db2" "ss_ifaces db3 = ss_ifaces db"
    by (subst 3(2), subst 2(2), simp) (subst 3(2), simp add: same)+
  then have tables: "ss_security db3 = ss_security db1" "ss_trust db3 = ss_trust db2" "iface_of db3 = iface_of db"
    by (simp_all add: iface_of_def fun_eq_iff)
  have "filter (\<lambda>(m, _). is_pending (mr_success m)) (static_bindings db3 h) = []"
    using 3(3) by (force simp: static_bindings_def filter_empty_conv tables(3))
  then have "security_tasks db3 h m = Inr []" using 1(3) 2(3) m by (simp add: security_tasks_def tables)
  then show ?thesis using 1(1) 2(1) 3(1) c(4) by (intro exI[of _ db3]) (simp add: acknowledge_rows_append sbind_eq_Inr_conv)
qed

lemma concat_if: "concat (map (\<lambda>x. if P x then [f x] else []) xs) = map f (filter P xs)"
  by (induction xs) auto

lemma interface_exchange:
  "exchange \<lparr>sx_kind = ''interface'', sx_ref = RowId i, sx_delete = False\<rparr> \<lparr>sx_kind = ''port_security'', sx_ref = RowId j, sx_delete = False\<rparr>"
  by (auto simp: exchange_def acknowledge_def affect_one_def sbind_eq_Inr_conv split: if_splits)

lemma channel_exchange:
  "exchange \<lparr>sx_kind = ''etherchannel'', sx_ref = RowId i, sx_delete = d\<rparr> \<lparr>sx_kind = ''interface'', sx_ref = RowId j, sx_delete = True\<rparr>"
  by (auto simp: exchange_def acknowledge_def affect_one_def sbind_eq_Inr_conv cascade_iface_def split: if_splits)

lemma interface_tab_settles:
  assumes ok: "tables_ok db" and ts: "interface_tasks db h = Inr ts"
  shows "\<exists>db'. acknowledge_rows (concat (map wt_tracking ts)) db = Inr db' \<and> interface_tasks db' h = Inr []"
proof -
  let ?P = "\<lambda>i. li_host i = h \<and> is_pending (li_success i)"
  let ?xs = "by_name (filter ?P (ss_ifaces db))"
  let ?a = "\<lambda>i. \<lparr>sx_kind = ''interface'', sx_ref = RowId (li_id i), sx_delete = False\<rparr>"
  let ?s = "\<lambda>i. \<lparr>sx_kind = ''port_security'', sx_ref = RowId (li_id i), sx_delete = False\<rparr>"
  let ?g = "\<lambda>i. if removes_security db i then [?s i] else []"
  have ids: "distinct (map li_id (ss_ifaces db))" "distinct (map ps_iface (ss_secure db))"
    using ok by (simp_all add: tables_ok_def serial_def)
  have refs: "concat (map wt_tracking ts) = concat (map (\<lambda>i. ?a i # ?g i) ?xs)"
    using ts unfolding interface_tasks_def by (rule tracked) (rule interface_task_tracking)
  obtain db1 where 1: "acknowledge_rows (map ?a ?xs) db = Inr db1" "db1 = db\<lparr>ss_ifaces := ss_ifaces db1\<rparr>" "filter ?P (ss_ifaces db1) = []"
    using acked_ifaces.settle_pending[of db ?P "\<lambda>_. False" "\<lambda>i. lower (li_name i)"] ids(1) unfolding by_name_def by auto
  have g: "concat (map ?g ?xs) = map (\<lambda>(i, d). \<lparr>sx_kind = ''port_security'', sx_ref = RowId i, sx_delete = d\<rparr>)
      (map (\<lambda>i. (li_id i, False)) (filter (removes_security db) ?xs))"
    by (simp add: concat_if comp_def)
  have "ss_secure db1 = ss_secure db" by (subst 1(2)) simp
  moreover have "distinct (map li_id (filter (removes_security db) ?xs))"
    unfolding by_name_def by (intro distinct_map_filter distinct_map_sort ids(1))
  moreover have "li_id i \<in> ps_iface ` set (ss_secure db)" if rem: "removes_security db i" for i
  proof -
    obtain r where r: "secure_of db (li_id i) = Some r"
      using rem by (cases "secure_of db (li_id i)") (simp_all add: removes_security_def)
    show ?thesis using find_SomeD[OF r[unfolded secure_of_def]] by (intro image_eqI[of _ _ r]) simp_all
  qed
  ultimately have 2: "acknowledge_rows (concat (map ?g ?xs)) db1
      = Inr (db1\<lparr>ss_secure := settled ps_iface mark_secure (map (\<lambda>i. (li_id i, False)) (filter (removes_security db) ?xs)) (ss_secure db1)\<rparr>)"
    unfolding g by (intro acked_secure.acknowledge_refs) (auto simp: comp_def ids(2))
  have "acknowledge_rows (concat (map wt_tracking ts)) db
      = Inr (db1\<lparr>ss_secure := settled ps_iface mark_secure (map (\<lambda>i. (li_id i, False)) (filter (removes_security db) ?xs)) (ss_secure db1)\<rparr>)"
    unfolding refs by (subst exchange_unzip)
      (use interface_exchange 1(1) 2 in \<open>auto simp: acknowledge_rows_append sbind_eq_Inr_conv split: if_splits\<close>)
  then show ?thesis using 1(3) by (intro exI conjI) (auto simp: interface_tasks_def by_name_def)
qed

text \<open>The logical interfaces of removed channels: different channels have different ones.\<close>

lemma logical_interface_SomeD:
  assumes "logical_interface db h n = Some i"
  obtains r where "r \<in> set (ss_ifaces db)" "li_id r = i" "channel_number (li_name r) = Some n"
  using assms find_SomeD[of _ "rev (ss_ifaces db)"] by (fastforce simp: logical_interface_def)

lemma logical_interface_inj:
  assumes "distinct (map li_id (ss_ifaces db))" "logical_interface db h n = Some i" "logical_interface db h m = Some i"
  shows "n = m"
proof -
  obtain r q where "r \<in> set (ss_ifaces db)" "li_id r = i" "channel_number (li_name r) = Some n"
    "q \<in> set (ss_ifaces db)" "li_id q = i" "channel_number (li_name q) = Some m"
    using logical_interface_SomeD assms(2,3) by metis
  moreover from this have "r = q" using assms(1) by (auto simp: distinct_map dest: inj_onD)
  ultimately show ?thesis by simp
qed

lemma acknowledge_iface_deletions:
  assumes "distinct (map li_id (ss_ifaces db))" "distinct js" "set js \<subseteq> li_id ` set (ss_ifaces db)"
  shows "\<exists>db'. acknowledge_rows (map (\<lambda>i. \<lparr>sx_kind = ''interface'', sx_ref = RowId i, sx_delete = True\<rparr>) js) db = Inr db'
    \<and> ss_channels db' = ss_channels db"
  using assms
proof (induction js arbitrary: db)
  case (Cons i js)
  let ?rows = "filter (\<lambda>r. li_id r \<noteq> i) (ss_ifaces db)"
  let ?db = "cascade_iface i (db\<lparr>ss_ifaces := ?rows\<rparr>)"
  have step: "acknowledge \<lparr>sx_kind = ''interface'', sx_ref = RowId i, sx_delete = True\<rparr> db = Inr ?db"
    using affect_one_Inr[OF Cons.prems(1), of i] Cons.prems(3) by (simp add: acknowledge_def affect_def)
  have tables: "ss_ifaces ?db = ?rows" "ss_channels ?db = ss_channels db" by (simp_all add: cascade_iface_def)
  have "\<exists>db'. acknowledge_rows (map (\<lambda>i. \<lparr>sx_kind = ''interface'', sx_ref = RowId i, sx_delete = True\<rparr>) js) ?db = Inr db'
      \<and> ss_channels db' = ss_channels ?db"
  proof (rule Cons.IH)
    show "distinct (map li_id (ss_ifaces ?db))" unfolding tables by (intro distinct_map_filter Cons.prems(1))
    show "set js \<subseteq> li_id ` set (ss_ifaces ?db)" unfolding tables using Cons.prems(2,3) by (fastforce simp: image_iff)
  qed (use Cons.prems(2) in simp)
  then show ?case by (simp add: step tables)
qed simp

lemma channel_tab_settles:
  assumes ok: "tables_ok db" and ts: "channel_tasks db h = Inr ts"
  shows "\<exists>db'. acknowledge_rows (concat (map wt_tracking ts)) db = Inr db' \<and> channel_tasks db' h = Inr []"
proof -
  let ?P = "\<lambda>r. cr_host r = h \<and> is_pending (cr_success r)"
  let ?xs = "sort_key cr_number (filter ?P (ss_channels db))"
  let ?c = "\<lambda>r. \<lparr>sx_kind = ''etherchannel'', sx_ref = RowId (cr_id r), sx_delete = (cr_success r = PendingDelete)\<rparr>"
  let ?i = "\<lambda>i. \<lparr>sx_kind = ''interface'', sx_ref = RowId i, sx_delete = True\<rparr>"
  let ?l = "\<lambda>r. logical_interface db h (cr_number r)"
  let ?D = "\<lambda>r. cr_success r = PendingDelete \<and> ?l r \<noteq> None"
  let ?g = "\<lambda>r. if ?D r then [?i (the (?l r))] else []"
  let ?js = "map (\<lambda>r. the (?l r)) (filter ?D ?xs)"
  have ids: "distinct (map cr_id (ss_channels db))" "distinct (map li_id (ss_ifaces db))"
    "distinct (map (\<lambda>c. (cr_host c, cr_number c)) (ss_channels db))"
    using ok by (simp_all add: tables_ok_def serial_def)
  have track: "channel_task db h r = Inr t \<Longrightarrow> wt_tracking t = ?c r # ?g r" for r t
    using channel_task_tracking[of db h r t] by (auto simp: row_of_def split: option.splits)
  have refs: "concat (map wt_tracking ts) = concat (map (\<lambda>r. ?c r # ?g r) ?xs)"
    using ts unfolding channel_tasks_def by (rule tracked) (rule track)
  obtain db1 where 1: "acknowledge_rows (map ?c ?xs) db = Inr db1" "db1 = db\<lparr>ss_channels := ss_channels db1\<rparr>" "filter ?P (ss_channels db1) = []"
    using acked_channels.settle_pending[of db ?P "\<lambda>r. cr_success r = PendingDelete" cr_number] ids(1) by auto
  have g: "concat (map ?g ?xs) = map ?i ?js" by (simp add: concat_if comp_def)
  have same: "ss_ifaces db1 = ss_ifaces db" by (subst 1(2)) simp
  have "distinct ?xs" "inj_on cr_number (set ?xs)"
    using ids(1,3) by (auto simp: distinct_map inj_on_def)
  moreover have "inj_on (\<lambda>r. the (?l r)) (set (filter ?D ?xs))"
    using \<open>inj_on cr_number (set ?xs)\<close> logical_interface_inj[OF ids(2)] by (fastforce simp: inj_on_def)
  ultimately have "distinct ?js" by (simp add: distinct_map)
  moreover have "set ?js \<subseteq> li_id ` set (ss_ifaces db1)"
  proof -
    have "the (?l r) \<in> li_id ` set (ss_ifaces db)" if n: "?l r \<noteq> None" for r
    proof -
      obtain i where i: "?l r = Some i" using n by blast
      then obtain q where "q \<in> set (ss_ifaces db)" "li_id q = i" by (rule logical_interface_SomeD)
      then show ?thesis by (auto simp: i)
    qed
    then show ?thesis unfolding same by auto
  qed
  ultimately obtain db2 where 2: "acknowledge_rows (concat (map ?g ?xs)) db1 = Inr db2" "ss_channels db2 = ss_channels db1"
    using acknowledge_iface_deletions[of db1 ?js] ids(2) unfolding g same by blast
  have "acknowledge_rows (concat (map wt_tracking ts)) db = Inr db2"
    unfolding refs by (subst exchange_unzip)
      (use channel_exchange 1(1) 2(1) in \<open>auto simp: acknowledge_rows_append sbind_eq_Inr_conv split: if_splits\<close>)
  then show ?thesis using 1(3) 2(2) by (intro exI conjI) (auto simp: channel_tasks_def)
qed

section \<open>The push\<close>

text \<open>Every tab: its tasks are acknowledged completely and none is left, unless it had none.\<close>

lemma candidate_settles:
  assumes ok: "store_ok db" "tables_ok db" "vlans_live db" and m: "m \<in> set PUBLIC_MODULES"
    and ts: "candidate_tasks db h m = Inr ts" "ts \<noteq> []"
  shows "\<exists>db'. acknowledge_rows (concat (map wt_tracking ts)) db = Inr db' \<and> candidate_tasks db' h m = Inr []"
proof -
  have "m = ''vlan'' \<or> m = ''svi'' \<or> m = ''interfaces'' \<or> m = ''etherchannel'' \<or> m = ''stp'' \<or> m = ''vtp''
      \<or> m = ''l2_security'' \<or> m = ''port_security''"
    using m unfolding PUBLIC_MODULES_def by (simp only: list.set insert_iff empty_iff simp_thms)
  then show ?thesis
  proof (elim disjE)
    assume "m = ''vlan''"
    then have e: "candidate_tasks D h m = vlan_tasks D h" for D by (simp add: candidate_tasks_def)
    show ?thesis unfolding e by (rule vlan_tab_settles[OF ok(1,3) ts(1)[unfolded e]])
  next
    assume "m = ''svi''"
    then have e: "candidate_tasks D h m = svi_tasks D h" for D by (simp add: candidate_tasks_def)
    show ?thesis unfolding e by (rule svi_tab_settles[OF ok(1,2) ts(1)[unfolded e]])
  next
    assume "m = ''interfaces''"
    then have e: "candidate_tasks D h m = interface_tasks D h" for D by (simp add: candidate_tasks_def)
    show ?thesis unfolding e by (rule interface_tab_settles[OF ok(2) ts(1)[unfolded e]])
  next
    assume "m = ''etherchannel''"
    then have e: "candidate_tasks D h m = channel_tasks D h" for D by (simp add: candidate_tasks_def)
    show ?thesis unfolding e by (rule channel_tab_settles[OF ok(2) ts(1)[unfolded e]])
  next
    assume "m = ''stp''"
    then have e: "candidate_tasks D h m = stp_tasks D h" for D by (simp add: candidate_tasks_def)
    show ?thesis unfolding e by (rule stp_tab_settles[OF ok(2) ts(1)[unfolded e]])
  next
    assume "m = ''vtp''"
    then have e: "candidate_tasks D h m = vtp_tasks D h" for D by (simp add: candidate_tasks_def)
    from vtp_tab_settles[OF ok(2) ts(1)[unfolded e]] ts(2) show ?thesis unfolding e by simp
  next
    assume "m = ''l2_security''"
    then have e: "candidate_tasks D h m = security_tasks D h ''l2_security''" for D by (simp add: candidate_tasks_def)
    show ?thesis unfolding e by (rule l2_security_tab_settles[OF ok(2) _ ts(1)[unfolded e]]) simp
  next
    assume "m = ''port_security''"
    then have e: "candidate_tasks D h m = security_tasks D h ''port_security''" for D by (simp add: candidate_tasks_def)
    have c: "collect_all (map (secure_task h) (secure_ports db h)) = Inr ts"
      using ts(1) unfolding e by (simp add: security_tasks_def)
    obtain db' where "acknowledge_rows (concat (map wt_tracking ts)) db = Inr db'" "secure_ports db' h = []"
      using port_security_tab_settles[OF ok(2) c] by blast
    then show ?thesis unfolding e by (intro exI[of _ db'] conjI) (simp_all add: security_tasks_def)
  qed
qed

text \<open>Acknowledging task by task is acknowledging all references in a row, when that succeeds.\<close>

lemma mark_tasks_all:
  assumes "acknowledge_rows (concat (map wt_tracking ts)) db = Inr db'" "list_all (\<lambda>t. wt_tracking t \<noteq> []) ts"
  shows "mark_tasks out ts db = (map (\<lambda>t. item_of t True out) ts, None, db')"
  using assms
proof (induction ts arbitrary: db)
  case (Cons t ts)
  then obtain db1 where "acknowledge_rows (wt_tracking t) db = Inr db1" "acknowledge_rows (concat (map wt_tracking ts)) db1 = Inr db'"
    by (auto simp: acknowledge_rows_append sbind_eq_Inr_conv)
  then show ?case using Cons by (simp add: mark_task_success_def transact_def)
qed simp

lemma row_refs_nonempty:
  "vlan_row_task h v = Inr t \<Longrightarrow> wt_tracking t \<noteq> []" "svi_row_task h s = Inr t \<Longrightarrow> wt_tracking t \<noteq> []"
  "routing_task h g = Inr t \<Longrightarrow> wt_tracking t \<noteq> []" "channel_task db h c = Inr t \<Longrightarrow> wt_tracking t \<noteq> []"
  "stp_task h p = Inr t \<Longrightarrow> wt_tracking t \<noteq> []" "secure_task h q = Inr t \<Longrightarrow> wt_tracking t \<noteq> []"
  "protection_task h m x = Inr t \<Longrightarrow> wt_tracking t \<noteq> []" "trust_task h m y = Inr t \<Longrightarrow> wt_tracking t \<noteq> []"
  "mac_task h m z = Inr t \<Longrightarrow> wt_tracking t \<noteq> []" "interface_task db h i = Inr t \<Longrightarrow> wt_tracking t \<noteq> []"
  by (auto dest!: row_task_tracking channel_task_tracking interface_task_tracking)

lemma mapped_nonempty:
  assumes "collect_all (map f xs) = Inr ts" "\<And>x t. f x = Inr t \<Longrightarrow> wt_tracking t \<noteq> []"
  shows "list_all (\<lambda>t. wt_tracking t \<noteq> []) ts"
  by (rule collect_all_P[OF assms(1)]) (use assms(2) in auto)

lemma tab_nonempty:
  "vlan_tasks db h = Inr ts \<Longrightarrow> list_all (\<lambda>t. wt_tracking t \<noteq> []) ts"
  "svi_tasks db h = Inr ts \<Longrightarrow> list_all (\<lambda>t. wt_tracking t \<noteq> []) ts"
  "interface_tasks db h = Inr ts \<Longrightarrow> list_all (\<lambda>t. wt_tracking t \<noteq> []) ts"
  "channel_tasks db h = Inr ts \<Longrightarrow> list_all (\<lambda>t. wt_tracking t \<noteq> []) ts"
  "stp_tasks db h = Inr ts \<Longrightarrow> list_all (\<lambda>t. wt_tracking t \<noteq> []) ts"
  "security_tasks db h m = Inr ts \<Longrightarrow> list_all (\<lambda>t. wt_tracking t \<noteq> []) ts"
  unfolding vlan_tasks_def svi_tasks_def interface_tasks_def channel_tasks_def stp_tasks_def security_tasks_def
       apply (auto split: if_splits elim!: mapped_nonempty dest: row_refs_nonempty(1))[1]
      apply (auto simp: collect_all_append dest: mapped_nonempty[OF _ row_refs_nonempty(3)] mapped_nonempty[OF _ row_refs_nonempty(2)])[1]
     apply (erule mapped_nonempty, erule row_refs_nonempty(10))
    apply (erule mapped_nonempty, erule row_refs_nonempty(4))
   apply (auto split: if_splits elim!: mapped_nonempty dest: row_refs_nonempty(5))[1]
  apply (auto split: if_splits simp: collect_all_append
      dest: mapped_nonempty[OF _ row_refs_nonempty(6)] mapped_nonempty[OF _ row_refs_nonempty(7)]
        mapped_nonempty[OF _ row_refs_nonempty(8)] mapped_nonempty[OF _ row_refs_nonempty(9)])[1]
  done

lemma vtp_nonempty:
  assumes "vtp_tasks db h = Inr ts"
  shows "list_all (\<lambda>t. wt_tracking t \<noteq> []) ts"
  using assms
proof (cases rule: vtp_tasks_cases)
  case (2 rows t)
  then show ?thesis using switch_task_of_tracking unfolding vtp_task_def by fastforce
qed simp

lemma candidate_nonempty:
  assumes "candidate_tasks db h m = Inr ts"
  shows "list_all (\<lambda>t. wt_tracking t \<noteq> []) ts"
  using assms unfolding candidate_tasks_def
  by (auto split: if_splits dest: tab_nonempty vtp_nonempty)

lemma map_sum_Inr_conv: "map_sum f g x = Inr y \<longleftrightarrow> (\<exists>z. x = Inr z \<and> y = g z)"
  by (cases x) auto

lemma collected_tasks_closed:
  assumes "collect_switch_tasks platform db host name = Inr ts"
  shows "list_all (\<lambda>t. closed (wt_commands t)) ts"
proof -
  obtain mods tss where c: "collect_all (map (candidate_tasks db host) mods) = Inr tss" "ts = concat tss"
    using assms unfolding collect_switch_tasks_def
    by (auto simp: sbind_eq_Inr_conv map_sum_Inr_conv split: if_splits prod.splits)
  have "list_all (list_all (\<lambda>t. closed (wt_commands t))) tss"
  proof (rule collect_all_P[OF c(1)])
    fix x y
    assume "x \<in> set (map (candidate_tasks db host) mods)" "x = Inr y"
    then obtain m where "candidate_tasks db host m = Inr y" by auto
    then show "list_all (\<lambda>t. closed (wt_commands t)) y" by (rule candidate_tasks_closed)
  qed
  then show ?thesis unfolding c(2) by (auto simp: list_all_iff)
qed

text \<open>Property C31. The commands a push sends for a switch are well bracketed: each collected task starts and ends in global
  configuration mode, so the device is in global mode after every prefix of the tasks, and no sub-mode command of one
  task can be read in the mode another task opened.
\<close>

theorem push_stream:
  assumes "collect_switch_tasks platform db host name = Inr ts"
  shows "walk False (concat (map wt_commands (take n ts))) = Some False"
proof -
  have "closed (concat (map wt_commands (take n ts)))"
    by (rule closed_concat) (use collected_tasks_closed[OF assms] in \<open>auto simp: list_all_iff dest: in_set_takeD\<close>)
  then show ?thesis by (simp add: closed_def)
qed


section \<open>The properties at a concrete database\<close>

definition push_sample :: switch_db where
  "push_sample = store_sample\<lparr>ss_ifaces := [\<lparr>li_id = 1, li_host = ''S1'', li_name = ''Gi0/1'', li_description = ''uplink'',
       li_mode = ''access'', li_admin = ''up'', li_oper = ''up'', li_speed = ''auto'', li_duplex = ''auto'', li_success = PendingApply\<rparr>],
     ss_next_iface := 2, ss_access := [\<lparr>ac_iface = 1, ac_vlan = 10, ac_voice = None\<rparr>],
     ss_secure := [\<lparr>ps_max = 1, ps_violation = ''shutdown'', ps_sticky = True, ps_aging_type = ''absolute'', ps_aging_time = 0,
       ps_iface = 1, ps_enabled = True, ps_sync = PendingApply, ps_success = PendingApply\<rparr>]\<rparr>"

definition cisco :: "string \<Rightarrow> string + string \<times> string" where
  "cisco host = Inr (''cisco_ios'', ''Cisco IOS'')"

definition sample_collected :: "string \<Rightarrow> switch_task list" where
  "sample_collected m = (case collect_switch_tasks cisco push_sample ''S1'' m of Inl _ \<Rightarrow> [] | Inr ts \<Rightarrow> ts)"

lemma sample_collects: "collect_switch_tasks cisco push_sample ''S1'' ''all'' = Inr (sample_collected ''all'')"
  by code_simp

lemma push_stream_witness:
  "length (sample_collected ''all'') = 4 \<and> walk False (concat (map wt_commands (take 2 (sample_collected ''all'')))) = Some False"
proof
  show "length (sample_collected ''all'') = 4" by code_simp
qed (rule push_stream[OF sample_collects])

lemma push_sample_consistent: "store_ok push_sample" "tables_ok push_sample" "vlans_live push_sample"
proof -
  show "store_ok push_sample" using store_sample_ok by (simp add: push_sample_def store_ok_def known_host_def)
  show "tables_ok push_sample" by code_simp
  show "vlans_live push_sample"
    by (auto simp: vlans_live_def uses_vlan_def live_vlan_def push_sample_def store_sample_def iface_of_def)
qed


text \<open>
  Pushing every module of a switch whose Port-channel is removed while a static MAC binding on it is pending: the
  device accepts all commands, but acknowledging the removal deletes the binding's row with its interface, so the
  binding's acknowledgement fails and the push reports the failure under its first task.
\<close>

definition removed_channel_sample :: switch_db where
  "removed_channel_sample = store_sample\<lparr>ss_svis := [], ss_vlans := [hd (ss_vlans store_sample)],
     ss_ifaces := [\<lparr>li_id = 1, li_host = ''S1'', li_name = ''Port-channel1'', li_description = [], li_mode = ''access'',
       li_admin = ''up'', li_oper = ''up'', li_speed = ''auto'', li_duplex = ''auto'', li_success = Synchronized\<rparr>],
     ss_next_iface := 2, ss_access := [\<lparr>ac_iface = 1, ac_vlan = 10, ac_voice = None\<rparr>],
     ss_channels := [\<lparr>cr_id = 1, cr_host = ''S1'', cr_number = 1, cr_protocol = ''lacp'', cr_mode = ''active'', cr_members = [],
       cr_cleanup = [], cr_description = [], cr_status = [], cr_success = PendingDelete, cr_present = True\<rparr>], ss_next_channel := 2,
     ss_macs := [\<lparr>mr_id = 1, mr_iface = 1, mr_addr = ''0011.2233.4455'', mr_vlan = 10, mr_type = ''static'',
       mr_success = PendingApply\<rparr>], ss_next_mac := 2\<rparr>"

lemma removed_channel_breaks_acknowledgement:
  "(case collect_switch_tasks cisco removed_channel_sample ''S1'' ''all'' of Inl _ \<Rightarrow> None | Inr ts \<Rightarrow>
      Some (map wt_entity ts, case push_switch_tasks (\<lambda>_. Inr ''ok'') ts removed_channel_sample of
        Inl _ \<Rightarrow> None | Inr (ok, items, _) \<Rightarrow> Some (ok, map (\<lambda>i. (wi_entity i, wi_success i)) items)))
   = Some ([''port-channel:1'', ''static:0011.2233.4455:10:Port-channel1''],
        Some (False, [(''port-channel:1'', True), (''port-channel:1'', False)]))"
  by code_simp

end
