(* ===== verification/Spec2Isabelle.thy ===== *)
theory Spec2Isabelle
  imports Iface_Push Fhrp_Preview Batch Syslog_Transport Syslog_Writer Syslog_Parsing Syslog_Servers Switch_Settle
begin

text \<open>
  Verification library of NetworkTools, a desktop application that keeps the desired configuration of network
  devices in an SQLite database, edits it through forms, renders it to Cisco IOS commands, pushes the commands over
  a managed session and records what the device accepted; beside it runs a Syslog server.

  \<^bold>\<open>How the program is put together.\<close> A form (QML) calls a slot of the facade with a dictionary. A feature's service
  or repository under \<open>src/features\<close> validates it and writes rows of the desired state, each with a \<open>sync_status\<close>
  (\<open>pending_apply\<close>, \<open>pending_delete\<close>, \<open>synchronized\<close>, \<open>skipped\<close>). View and push collects the pending rows of a host
  as tasks, renders them to commands, sends them in one configuration set over the session of the host and
  acknowledges the rows: a staged deletion removes its row, everything else becomes \<open>synchronized\<close>. What the features
  share is \<open>src/core/view_push.py\<close> (the controller), \<open>src/core/view_push_batch.py\<close> and
  \<open>src/infrastructure/network\<close> (many hosts at once, the registry of sessions).

  \<^bold>\<open>Conventions.\<close> A payload is a map from keys to plain values (\<open>pyval\<close>); a table is a list of rows or a map from its
  primary key; a transaction is a function to a sum, whose left side is the text of the exception and leaves the
  caller with the old database. Third-party code is an argument: what Netmiko's \<open>send_config_set\<close> and \<open>send_command\<close>
  answer, the connector factory, sockets, the thread pool's schedule, the clock, the decoding of bytes. Text is the
  ASCII part of Python's. Python integers are \<open>int\<close>; where SQLite's 64-bit limit can be reached it is written out.

  \<^bold>\<open>Shared theories.\<close>
  \<^item> \<open>Py_Prelude\<close>, \<open>Py_Values\<close>: string operations, decimal numbers, payload values and
    \<open>core/database/conversion.py\<close>. The lemma collections \<open>text_simps\<close>, \<open>dict_simps\<close> and \<open>row_simps\<close> carry the
    component proofs.
  \<^item> \<open>Ipv4\<close>: the part of \<open>ipaddress\<close> the validators use, with the round trip of addresses and masks.

  \<^bold>\<open>Router interfaces\<close> (\<open>features/interfaces\<close>).
  \<^item> \<open>Iface_Models\<close> (\<open>models.py\<close>), \<open>Iface_Validation\<close> (\<open>validation.py\<close>): names, types and validation; an accepted
    payload satisfies the documented limits and is a fixed point of validation.
  \<^item> \<open>Action_Bits\<close> (\<open>action_bits.py\<close>): the dirty-field mask, refined to a set of fields by the locale \<open>dirty_mask\<close>.
  \<^item> \<open>Iface_Tables\<close>, \<open>Iface_Store\<close> (\<open>repository.py\<close>, \<open>common.py\<close>): the tables and the save and delete transactions.
  \<^item> \<open>Iface_Tasks\<close> (\<open>collector.py\<close>, \<open>push_state.py\<close>): pending work and its acknowledgement; the locale \<open>synced_table\<close>
    is the contract of a profile table and is interpreted for the four of them. The schema's constraints hold in
    every reachable database, and committing the collected tasks empties the queue of a host.
  \<^item> \<open>Iface_Commands\<close> (\<open>commands.py\<close>): the renderer and the redaction of secrets.
  \<^item> \<open>Iface_Push\<close> (\<open>view_push.py\<close>, \<open>worker.py\<close>): the shared controller on the session registry with this database.

  \<^bold>\<open>The shared controller\<close> (\<open>core\<close>, \<open>infrastructure/network\<close>).
  \<^item> \<open>View_Push\<close> (\<open>core/view_push.py\<close>): \<open>BaseViewPushController\<close> with its abstract methods as the record \<open>controller\<close>;
    the locale \<open>session_executor\<close> is what it relies on in a session layer.
  \<^item> \<open>Sessions\<close> (\<open>session_registry.py\<close>, \<open>session_entry.py\<close>): the registry with its shared mutable entries in a heap,
    split into the atomic pieces that other threads interleave with; it interprets \<open>session_executor\<close>.
  \<^item> \<open>Batch\<close> (\<open>batch_executor.py\<close>, \<open>core/view_push_batch.py\<close>): operations on many hosts for every schedule of the pool.

  \<^bold>\<open>Switching\<close> (\<open>features/switching\<close>).
  \<^item> \<open>Switch_Rules\<close>: \<open>common.py\<close>, \<open>entity_rules.py\<close>, \<open>lifecycle.py\<close>, \<open>navigation.py\<close>, \<open>cli_validation.py\<close>.
  \<^item> \<open>Vtp_Group\<close>: \<open>vtp_group.py\<close>, \<open>vtp_membership.py\<close>, and who may edit VLANs.
  \<^item> \<open>Switch_Tables\<close>: the tables of a switch's desired state. \<open>Switch_Store\<close> (\<open>vlan_repository.py\<close>,
    \<open>l3_repository.py\<close>), \<open>Switch_Policies\<close> (\<open>stp_repository.py\<close>, \<open>security_repository.py\<close>,
    \<open>policy_delete_repository.py\<close>, \<open>monitoring_repository.py\<close>) and \<open>Switch_Ports\<close> (\<open>interface_repository.py\<close>,
    \<open>etherchannel_repository.py\<close>) are the transactions on them.
  \<^item> \<open>Switch_Commands\<close> (\<open>commands.py\<close>, \<open>interface_commands.py\<close>): the renderer.
  \<^item> \<open>Switch_Push\<close>, \<open>Switch_Settle\<close> (\<open>view_push.py\<close>, the task builders, \<open>success_repository.py\<close>, \<open>worker.py\<close>): tasks,
    their acknowledgement and the push; the locale \<open>acked_table\<close>, interpreted for ten tables, is what acknowledging a
    kind of row promises.

  \<^bold>\<open>First hop redundancy\<close> (\<open>features/fhrp\<close>).
  \<^item> \<open>Fhrp_Model\<close> (\<open>service.py\<close> \<open>_normalize\<close>, the endpoint queries of \<open>repository.py\<close>): the form of a group over several
    devices becomes a normalized group; a normalized group satisfies the documented limits.
  \<^item> \<open>Fhrp_Store\<close> (\<open>repository.py\<close>, \<open>push_state.py\<close>, the constraints and triggers of \<open>08_fhrp.sql\<close>): saving, staging a
    removal, cancelling it and acknowledging; \<open>fhrp_abs\<close> is the abstract state a save refines.
  \<^item> \<open>Fhrp_Staging\<close>: the invariant over all sequences of operations, and that cancelling restores a group.
  \<^item> \<open>Fhrp_Push\<close> (\<open>collector.py\<close>, \<open>commands.py\<close> with \<open>fhrp.j2\<close>, \<open>worker.py\<close>, \<open>verification.py\<close>, \<open>view_push.py\<close>): the tasks
    of a host, their commands, the push and the deferred verification; what \<open>send_config_set\<close> and \<open>send_command\<close> answer
    are arguments. \<open>Fhrp_Preview\<close>: a preview shows nothing of a secret.

  \<^bold>\<open>The Syslog server\<close> (\<open>features/syslog\<close>).
  \<^item> \<open>Syslog_Transport\<close> (\<open>transport/framing.py\<close>, \<open>transport/receiver.py\<close>): framing of a stream and the receive loop.
  \<^item> \<open>Syslog_Parsing\<close> (\<open>parsing\<close>, \<open>domain/models.py\<close>): the parser, and the round trip of the lines IOS writes.
  \<^item> \<open>Syslog_Writer\<close> (\<open>application/writer.py\<close>): the bounded queue between receiver and database.
  \<^item> \<open>Syslog_Device\<close>, \<open>Syslog_Servers\<close> (\<open>device_config\<close>, \<open>persistence/device_state_repository.py\<close>, \<open>view_push.py\<close>):
    the configuration of a device's Syslog destinations and its deferred verification.

  \<^bold>\<open>Bounds.\<close> No definition uses fuel: loops are structural recursion or recursion with a measure. The receive loop and
  the writer thread, which run as long as the process does, are transition functions on events and a step relation;
  that the writer ends after \<open>stop\<close> is proved with the bound on its iterations in the theorem.

  \<^bold>\<open>Not modelled.\<close>
  \<^item> DHCP, NAT, access lists, static routing, OSPF and EIGRP: the same shape of feature on other tables; their pushes
    run through the modelled controller.
  \<^item> \<open>etherchannel_sync.py\<close>, \<open>sync.py\<close> and \<open>features/devices/sync\<close>: they store what TextFSM templates of a third-party
    library make of device output.
  \<^item> The queries over stored Syslog messages, their filter and export, the groups of Syslog destinations.
  \<^item> Sockets, SSH sessions, terminals, SFTP, processes and virtual machines, encrypted workspace archives, file backups:
    their behaviour is that of third-party libraries or of the operating system.
  \<^item> The Qt and QML layer, settings, localisation and start-up; the archive of the previous back end; vendored code.
  \<^item> Columns that only record times (\<open>updated_at\<close>, \<open>learned_at\<close>, \<open>created_at\<close>) and reports ordered by them.
\<close>

end
